(* ===== verification/JsPrelude.thy ===== *)
theory JsPrelude
  imports Complex_Main "HOL-Library.Multiset"
begin

text \<open>
  The part of JavaScript the delivery API is written in, as far as the modelled code uses it:
  numbers with their non-finite values, untyped JSON values, strings with
  \<^verbatim>\<open>trim\<close>, \<^verbatim>\<open>toUpperCase\<close> and \<^verbatim>\<open>length\<close>, instants stored as text, and
  \<^verbatim>\<open>Array.prototype.sort\<close> with a comparator.

  Conventions of the whole development:
  \<^item> a string is the sequence of its UTF-8 bytes (\<^typ>\<open>string\<close>); \<open>js_length\<close> counts
    UTF-16 code units, as \<^verbatim>\<open>String.length\<close> does; \<open>js_trim\<close> strips the white space of
    ECMAScript, multi-byte ones included; case mapping is that of the ASCII letters;
  \<^item> \<^verbatim>\<open>null\<close> in a typed field is \<^const>\<open>None\<close>; in an untyped value it is \<open>JNull\<close>,
    and an absent property reads as \<open>JUndefined\<close>;
  \<^item> a finite double is the real number it denotes; arithmetic on it is exact (rounding of
    binary floating point is not modelled);
  \<^item> a \<^verbatim>\<open>Date\<close> is its number of milliseconds, an \<^typ>\<open>int\<close>, and valid;
  \<^item> an exception is the left value of a sum.
\<close>

section \<open>Collections of facts\<close>

named_theorems js_simps \<open>evaluation rules of the JavaScript layer\<close>
named_theorems op_defs \<open>definitions of the operations of a component\<close>
named_theorems inv_defs \<open>definitions of the invariants of a component\<close>

section \<open>Numbers\<close>

datatype jsnum = NaN | PosInf | NegInf | Num real

fun isFinite :: "jsnum \<Rightarrow> bool" where
  "isFinite (Num x) = True"
| "isFinite _ = False"

fun isInteger :: "jsnum \<Rightarrow> bool" where
  "isInteger (Num x) = (of_int \<lfloor>x\<rfloor> = x)"
| "isInteger _ = False"

definition isSafeInteger :: "jsnum \<Rightarrow> bool" where
  "isSafeInteger v = (case v of Num x \<Rightarrow> of_int \<lfloor>x\<rfloor> = x \<and> \<bar>x\<bar> \<le> 9007199254740991 | _ \<Rightarrow> False)"

lemma isSafeInteger_Num [js_simps]:
  "isSafeInteger (Num x) = (of_int \<lfloor>x\<rfloor> = x \<and> \<bar>x\<bar> \<le> 9007199254740991)"
  by (simp add: isSafeInteger_def)

section \<open>Untyped values\<close>

datatype json =
    JUndefined
  | JNull
  | JBool bool
  | JNum jsnum
  | JStr string
  | JArr "json list"
  | JObj "(string \<times> json) list"

text \<open>Property access on an object; the callers guard it with an object test or \<^verbatim>\<open>?.\<close>.\<close>

fun jget :: "json \<Rightarrow> string \<Rightarrow> json" where
  "jget (JObj kvs) k = (case map_of kvs k of Some v \<Rightarrow> v | None \<Rightarrow> JUndefined)"
| "jget _ k = JUndefined"

fun jkeys :: "json \<Rightarrow> string list" where
  "jkeys (JObj kvs) = map fst kvs"
| "jkeys _ = []"

text \<open>\<^verbatim>\<open>typeof v === 'object' && v !== null && !Array.isArray(v)\<close>\<close>

fun is_record :: "json \<Rightarrow> bool" where
  "is_record (JObj _) = True"
| "is_record _ = False"

text \<open>\<^verbatim>\<open>a ?? b\<close> on untyped and on typed values.\<close>

fun jcoalesce :: "json \<Rightarrow> json \<Rightarrow> json" where
  "jcoalesce JUndefined b = b"
| "jcoalesce JNull b = b"
| "jcoalesce a b = a"

fun coalesce :: "'a option \<Rightarrow> 'a option \<Rightarrow> 'a option" where
  "coalesce (Some a) b = Some a"
| "coalesce None b = b"

definition coalesce_def_value :: "'a option \<Rightarrow> 'a \<Rightarrow> 'a" where
  "coalesce_def_value a d = (case a of Some v \<Rightarrow> v | None \<Rightarrow> d)"

lemma coalesce_def_value_simps [simp]:
  "coalesce_def_value (Some v) d = v"
  "coalesce_def_value None d = d"
  by (simp_all add: coalesce_def_value_def)

lemma coalesce_eq_None [simp]: "coalesce a b = None \<longleftrightarrow> a = None \<and> b = None"
  by (cases a) auto

section \<open>Strings\<close>

text \<open>White space and line terminators of ECMAScript, as UTF-8.\<close>

definition ws_units :: "string list" where
  "ws_units =
     [[CHR 0x20], [CHR 0x09], [CHR 0x0A], [CHR 0x0B], [CHR 0x0C], [CHR 0x0D],
      [CHR 0xC2, CHR 0xA0], [CHR 0xEF, CHR 0xBB, CHR 0xBF], [CHR 0xE1, CHR 0x9A, CHR 0x80],
      [CHR 0xE2, CHR 0x80, CHR 0x80], [CHR 0xE2, CHR 0x80, CHR 0x81],
      [CHR 0xE2, CHR 0x80, CHR 0x82], [CHR 0xE2, CHR 0x80, CHR 0x83],
      [CHR 0xE2, CHR 0x80, CHR 0x84], [CHR 0xE2, CHR 0x80, CHR 0x85],
      [CHR 0xE2, CHR 0x80, CHR 0x86], [CHR 0xE2, CHR 0x80, CHR 0x87],
      [CHR 0xE2, CHR 0x80, CHR 0x88], [CHR 0xE2, CHR 0x80, CHR 0x89],
      [CHR 0xE2, CHR 0x80, CHR 0x8A], [CHR 0xE2, CHR 0x80, CHR 0xA8],
      [CHR 0xE2, CHR 0x80, CHR 0xA9], [CHR 0xE2, CHR 0x80, CHR 0xAF],
      [CHR 0xE2, CHR 0x81, CHR 0x9F], [CHR 0xE3, CHR 0x80, CHR 0x80]]"

fun starts_with :: "string \<Rightarrow> string \<Rightarrow> bool" where
  "starts_with [] s = True"
| "starts_with (c # cs) [] = False"
| "starts_with (c # cs) (d # ds) = (c = d \<and> starts_with cs ds)"

text \<open>Drop leading units as long as one of them is a prefix.\<close>

function strip_units :: "string list \<Rightarrow> string \<Rightarrow> string" where
  "strip_units us s =
     (case List.find (\<lambda>u. u \<noteq> [] \<and> starts_with u s) us of
        None \<Rightarrow> s
      | Some u \<Rightarrow> strip_units us (drop (length u) s))"
  by pat_completeness auto

lemma starts_with_length: "starts_with u s \<Longrightarrow> length u \<le> length s"
  by (induction u s rule: starts_with.induct) auto

termination strip_units
proof (relation "measure (\<lambda>(us, s). length s)", goal_cases)
  case 1
  show ?case by simp
next
  case (2 us s u)
  then have "u \<noteq> []" and "starts_with u s"
    by (auto simp: find_Some_iff)
  then show ?case
    using starts_with_length [of u s] by (cases u) auto
qed

declare strip_units.simps [simp del]

definition js_trim :: "string \<Rightarrow> string" where
  "js_trim s = rev (strip_units (map rev ws_units) (rev (strip_units ws_units s)))"

definition upper_char :: "char \<Rightarrow> char" where
  "upper_char c = (let n = (of_char c :: nat) in if 97 \<le> n \<and> n \<le> 122 then char_of (n - 32) else c)"

definition lower_char :: "char \<Rightarrow> char" where
  "lower_char c = (let n = (of_char c :: nat) in if 65 \<le> n \<and> n \<le> 90 then char_of (n + 32) else c)"

definition toUpperCase :: "string \<Rightarrow> string" where
  "toUpperCase s = map upper_char s"

definition toLowerCase :: "string \<Rightarrow> string" where
  "toLowerCase s = map lower_char s"

text \<open>
  UTF-16 code units: every byte that is not a continuation byte starts a code point, and the
  four-byte code points (lead byte \<open>0xF0\<close> and above) take a surrogate pair.
\<close>

definition js_length :: "string \<Rightarrow> nat" where
  "js_length s =
     length (filter (\<lambda>c. \<not> (128 \<le> (of_char c :: nat) \<and> of_char c < (192 :: nat))) s)
     + length (filter (\<lambda>c. 240 \<le> (of_char c :: nat)) s)"

text \<open>
  \<^verbatim>\<open>slice(0, n)\<close> on code units, cut at a code point boundary (a surrogate pair that does not
  fit is left out whole, where the source would keep one half of it).
\<close>

definition utf8_width :: "char \<Rightarrow> nat" where
  "utf8_width c =
     (let n = (of_char c :: nat) in if n < 192 then 1 else if n < 224 then 2 else if n < 240 then 3 else 4)"

function js_take :: "nat \<Rightarrow> string \<Rightarrow> string" where
  "js_take n s =
     (case s of [] \<Rightarrow> []
      | c # _ \<Rightarrow>
          (let k = utf8_width c; u = (if k = 4 then 2 else 1 :: nat)
           in if u \<le> n then take k s @ js_take (n - u) (drop k s) else []))"
  by pat_completeness auto
termination js_take
  by (relation "measure fst") auto

declare js_take.simps [simp del]

definition is_digit :: "char \<Rightarrow> bool" where
  "is_digit c = (48 \<le> (of_char c :: nat) \<and> of_char c \<le> (57 :: nat))"

definition is_upper :: "char \<Rightarrow> bool" where
  "is_upper c = (65 \<le> (of_char c :: nat) \<and> of_char c \<le> (90 :: nat))"

definition digit_val :: "char \<Rightarrow> nat" where
  "digit_val c = of_char c - 48"

subsection \<open>Trimming\<close>

definition no_unit :: "string list \<Rightarrow> string \<Rightarrow> bool" where
  "no_unit us s \<longleftrightarrow> (\<forall>u \<in> set us. u \<noteq> [] \<longrightarrow> \<not> starts_with u s)"

lemma strip_units_none: "no_unit us s \<Longrightarrow> strip_units us s = s"
  by (subst strip_units.simps) (auto simp: no_unit_def find_None_iff split: option.splits dest: find_Some_iff [THEN iffD1])

lemma no_unit_strip: "no_unit us (strip_units us s)"
proof (induction us s rule: strip_units.induct)
  case (1 us s)
  show ?case
  proof (cases "List.find (\<lambda>u. u \<noteq> [] \<and> starts_with u s) us")
    case None
    then have "no_unit us s" by (auto simp: no_unit_def find_None_iff)
    then show ?thesis by (simp add: strip_units_none)
  next
    case (Some u)
    then show ?thesis using 1 by (subst strip_units.simps) simp
  qed
qed

lemma strip_units_suffix: "\<exists>p. s = p @ strip_units us s"
proof (induction us s rule: strip_units.induct)
  case (1 us s)
  show ?case
  proof (cases "List.find (\<lambda>u. u \<noteq> [] \<and> starts_with u s) us")
    case None
    then show ?thesis by (subst strip_units.simps) simp
  next
    case (Some u)
    with 1 obtain p where "drop (length u) s = p @ strip_units us (drop (length u) s)"
      by blast
    then have "s = (take (length u) s @ p) @ strip_units us (drop (length u) s)"
      by (metis append.assoc append_take_drop_id)
    moreover have "strip_units us s = strip_units us (drop (length u) s)"
      using Some by (simp add: strip_units.simps [of us s])
    ultimately show ?thesis by metis
  qed
qed

lemma starts_with_append: "starts_with u s \<Longrightarrow> starts_with u (s @ t)"
  by (induction u s rule: starts_with.induct) auto

lemma no_unit_prefix: "no_unit us (s @ t) \<Longrightarrow> no_unit us s"
  by (auto simp: no_unit_def dest: starts_with_append)

lemma js_trim_idem [simp]: "js_trim (js_trim s) = js_trim s"
proof -
  let ?l = "strip_units ws_units s" and ?us = "map rev ws_units"
  let ?r = "rev (strip_units ?us (rev ?l))"
  obtain p where "rev ?l = p @ strip_units ?us (rev ?l)"
    using strip_units_suffix by blast
  then have "?l = ?r @ rev p"
    by (metis rev_append rev_rev_ident)
  then have "no_unit ws_units ?r"
    using no_unit_strip [of ws_units s] no_unit_prefix by metis
  then have "strip_units ws_units ?r = ?r"
    by (rule strip_units_none)
  then show ?thesis
    by (simp add: js_trim_def strip_units_none [OF no_unit_strip])
qed

lemma js_trim_Nil [simp]: "js_trim [] = []"
  by (simp add: js_trim_def strip_units.simps ws_units_def)

subsection \<open>Case mapping\<close>

lemma of_char_lt_256: "(of_char c :: nat) < 256"
  by (metis of_char_mod_256 mod_less_divisor zero_less_numeral)

lemma upper_char_idem [simp]: "upper_char (upper_char c) = upper_char c"
  using of_char_lt_256 [of c] by (auto simp: upper_char_def Let_def)

lemma toUpperCase_idem [simp]: "toUpperCase (toUpperCase s) = toUpperCase s"
  by (simp add: toUpperCase_def)

lemma toUpperCase_Nil [simp]: "toUpperCase [] = []"
  by (simp add: toUpperCase_def)

section \<open>Instants stored as text\<close>

text \<open>
  A stored timestamp is text written by \<^verbatim>\<open>Date.toISOString\<close>. \<open>Iso t\<close> is the text
  that \<^verbatim>\<open>new Date\<close> reads back as the instant \<open>t\<close>; \<open>Junk s\<close> is text it reads as
  an invalid date.
\<close>

datatype iso = Iso int | Junk string

fun date_parse :: "iso \<Rightarrow> int option" where
  "date_parse (Iso t) = Some t"
| "date_parse (Junk s) = None"

section \<open>Sorting with a comparator\<close>

text \<open>
  \<^verbatim>\<open>Array.prototype.sort\<close> is stable, so a comparator that orders its arguments consistently
  determines the result; insertion sort computes it.
\<close>

fun insert_by :: "('a \<Rightarrow> 'a \<Rightarrow> int) \<Rightarrow> 'a \<Rightarrow> 'a list \<Rightarrow> 'a list" where
  "insert_by cmp x [] = [x]"
| "insert_by cmp x (y # ys) = (if cmp x y \<le> 0 then x # y # ys else y # insert_by cmp x ys)"

fun sort_by :: "('a \<Rightarrow> 'a \<Rightarrow> int) \<Rightarrow> 'a list \<Rightarrow> 'a list" where
  "sort_by cmp [] = []"
| "sort_by cmp (x # xs) = insert_by cmp x (sort_by cmp xs)"

lemma mset_insert_by: "mset (insert_by cmp x xs) = add_mset x (mset xs)"
  by (induction xs) auto

lemma mset_sort_by [simp]: "mset (sort_by cmp xs) = mset xs"
  by (induction xs) (auto simp: mset_insert_by)

lemma set_sort_by [simp]: "set (sort_by cmp xs) = set xs"
  by (metis mset_sort_by set_mset_mset)

lemma length_sort_by [simp]: "length (sort_by cmp xs) = length xs"
  by (metis mset_sort_by size_mset)

lemma set_insert_by: "set (insert_by cmp x xs) = insert x (set xs)"
  by (induction xs) auto

text \<open>The contract of a comparator: the sign of its result is a total preorder.\<close>

locale comparator =
  fixes cmp :: "'a \<Rightarrow> 'a \<Rightarrow> int"
  assumes cmp_total: "cmp x y \<le> 0 \<or> cmp y x \<le> 0"
    and cmp_trans: "cmp x y \<le> 0 \<Longrightarrow> cmp y z \<le> 0 \<Longrightarrow> cmp x z \<le> 0"
begin

lemma sorted_insert_by:
  "sorted_wrt (\<lambda>a b. cmp a b \<le> 0) xs \<Longrightarrow> sorted_wrt (\<lambda>a b. cmp a b \<le> 0) (insert_by cmp x xs)"
proof (induction xs)
  case Nil
  then show ?case by simp
next
  case (Cons y ys)
  show ?case
  proof (cases "cmp x y \<le> 0")
    case True
    then show ?thesis using Cons.prems cmp_trans by auto
  next
    case False
    then have "cmp y x \<le> 0" using cmp_total by blast
    then show ?thesis using False Cons by (auto simp: set_insert_by)
  qed
qed

lemma sorted_sort_by: "sorted_wrt (\<lambda>a b. cmp a b \<le> 0) (sort_by cmp xs)"
  by (induction xs) (auto intro: sorted_insert_by)

text \<open>Where no two different elements compare as equal, the order of the input is irrelevant.\<close>

lemma sorted_unique:
  assumes "mset xs = mset ys"
    and "sorted_wrt (\<lambda>a b. cmp a b \<le> 0) xs" and "sorted_wrt (\<lambda>a b. cmp a b \<le> 0) ys"
    and strict: "\<And>a b. a \<in> set xs \<Longrightarrow> b \<in> set xs \<Longrightarrow> cmp a b \<le> 0 \<Longrightarrow> cmp b a \<le> 0 \<Longrightarrow> a = b"
  shows "xs = ys"
  using assms
proof (induction xs arbitrary: ys)
  case Nil
  then show ?case by simp
next
  case (Cons x xs)
  then obtain y ys' where ys: "ys = y # ys'" by (cases ys) auto
  have eq_sets: "set (x # xs) = set ys" using Cons.prems(1) by (metis set_mset_mset)
  have "x = y"
  proof (rule ccontr)
    assume "x \<noteq> y"
    then have "y \<in> set xs" and "x \<in> set ys'" using eq_sets ys by auto
    then have "cmp x y \<le> 0" and "cmp y x \<le> 0" using Cons.prems(2,3) ys by auto
    then show False using Cons.prems(4) \<open>x \<noteq> y\<close> \<open>y \<in> set xs\<close> by auto
  qed
  moreover have "xs = ys'"
    using Cons.prems ys \<open>x = y\<close> by (intro Cons.IH) auto
  ultimately show ?case using ys by simp
qed

lemma sort_by_permutation:
  assumes "mset xs = mset ys"
    and "\<And>a b. a \<in> set xs \<Longrightarrow> b \<in> set xs \<Longrightarrow> cmp a b \<le> 0 \<Longrightarrow> cmp b a \<le> 0 \<Longrightarrow> a = b"
  shows "sort_by cmp xs = sort_by cmp ys"
  using assms by (intro sorted_unique) (auto simp: sorted_sort_by)

end

text \<open>
  A comparator whose sign flips with its arguments. Such comparators can be chained with
  \<^verbatim>\<open>a || b\<close>: the second decides among the elements the first holds equal.
\<close>

locale sign_comparator =
  fixes cmp :: "'a \<Rightarrow> 'a \<Rightarrow> int"
  assumes cmp_flip: "cmp x y < 0 \<longleftrightarrow> 0 < cmp y x"
    and cmp_le_trans: "cmp x y \<le> 0 \<Longrightarrow> cmp y z \<le> 0 \<Longrightarrow> cmp x z \<le> 0"
begin

lemma cmp_zero_sym: "cmp x y = 0 \<longleftrightarrow> cmp y x = 0"
  using cmp_flip [of x y] cmp_flip [of y x] by linarith

lemma cmp_less_trans: "cmp x y < 0 \<Longrightarrow> cmp y z \<le> 0 \<Longrightarrow> cmp x z < 0"
  using cmp_flip [of x y] cmp_flip [of x z] cmp_le_trans [of x y z] cmp_le_trans [of y z x] by linarith

lemma cmp_less_trans': "cmp x y \<le> 0 \<Longrightarrow> cmp y z < 0 \<Longrightarrow> cmp x z < 0"
  using cmp_flip [of y z] cmp_flip [of x z] cmp_le_trans [of x y z] cmp_le_trans [of z x y] by linarith

end

sublocale sign_comparator \<subseteq> comparator
proof unfold_locales
  fix x y z
  show "cmp x y \<le> 0 \<or> cmp y x \<le> 0" using cmp_flip [of x y] by linarith
  show "cmp x y \<le> 0 \<Longrightarrow> cmp y z \<le> 0 \<Longrightarrow> cmp x z \<le> 0" by (rule cmp_le_trans)
qed

definition or_else :: "int \<Rightarrow> int \<Rightarrow> int" where
  "or_else a b = (if a \<noteq> 0 then a else b)"

lemma sign_comparator_or_else:
  assumes "sign_comparator c" and "sign_comparator d"
  shows "sign_comparator (\<lambda>x y. or_else (c x y) (d x y))"
proof
  fix x y z
  show "or_else (c x y) (d x y) < 0 \<longleftrightarrow> 0 < or_else (c y x) (d y x)"
    using sign_comparator.cmp_flip [OF assms(1), of x y] sign_comparator.cmp_zero_sym [OF assms(1), of x y]
      sign_comparator.cmp_flip [OF assms(2), of x y] by (simp add: or_else_def)
  assume xy: "or_else (c x y) (d x y) \<le> 0" and yz: "or_else (c y z) (d y z) \<le> 0"
  then show "or_else (c x z) (d x z) \<le> 0"
    using sign_comparator.cmp_less_trans [OF assms(1), of x y z]
      sign_comparator.cmp_less_trans' [OF assms(1), of x y z]
      sign_comparator.cmp_le_trans [OF assms(1), of x y z] sign_comparator.cmp_le_trans [OF assms(2), of x y z]
    by (fastforce simp: or_else_def split: if_splits)
qed

lemma sign_comparator_on: "sign_comparator c \<Longrightarrow> sign_comparator (\<lambda>x y. c (f x) (f y))"
  unfolding sign_comparator_def by blast

lemma comparator_of_sign: "sign_comparator c \<Longrightarrow> comparator c"
  unfolding sign_comparator_def comparator_def by (metis linorder_not_le less_imp_le)

text \<open>The comparators of numbers and of text by code.\<close>

definition compare_int :: "int \<Rightarrow> int \<Rightarrow> int" where
  "compare_int a b = a - b"

fun compare_text :: "string \<Rightarrow> string \<Rightarrow> int" where
  "compare_text [] [] = 0"
| "compare_text [] (b # bs) = -1"
| "compare_text (a # as) [] = 1"
| "compare_text (a # as) (b # bs) =
     (if a = b then compare_text as bs
      else if (of_char a :: nat) < of_char b then -1 else 1)"

lemma compare_text_flip: "compare_text a b = - compare_text b a"
  by (induction a b rule: compare_text.induct) (auto simp: not_less_iff_gr_or_eq)

lemma compare_text_eq: "compare_text a b = 0 \<longleftrightarrow> a = b"
  by (induction a b rule: compare_text.induct) auto

lemma compare_text_trans: "compare_text a b \<le> 0 \<Longrightarrow> compare_text b c \<le> 0 \<Longrightarrow> compare_text a c \<le> 0"
proof (induction a b arbitrary: c rule: compare_text.induct)
  case (4 a as b bs)
  then show ?case by (cases c) (auto split: if_splits)
next
  case (2 b bs)
  then show ?case by (cases c) auto
qed auto

lemma sign_comparator_int: "sign_comparator (\<lambda>x y. compare_int (f x) (f y))"
  by unfold_locales (auto simp: compare_int_def)

lemma sign_comparator_text: "sign_comparator (\<lambda>x y. compare_text (f x) (f y))"
proof
  fix x y z
  show "compare_text (f x) (f y) < 0 \<longleftrightarrow> 0 < compare_text (f y) (f x)"
    using compare_text_flip [of "f x" "f y"] by linarith
qed (rule compare_text_trans)

text \<open>\<^verbatim>\<open>orderBy\<close> of the database on a column that may be absent: absent values come last.\<close>

fun compareNullsLast :: "int option \<Rightarrow> int option \<Rightarrow> int" where
  "compareNullsLast (Some a) (Some b) = compare_int a b"
| "compareNullsLast (Some a) None = -1"
| "compareNullsLast None (Some b) = 1"
| "compareNullsLast None None = 0"

lemma sign_comparator_nulls: "sign_comparator (\<lambda>x y. compareNullsLast (f x) (f y))"
proof
  fix x y z
  show "compareNullsLast (f x) (f y) < 0 \<longleftrightarrow> 0 < compareNullsLast (f y) (f x)"
    by (cases "f x"; cases "f y") (auto simp: compare_int_def)
  assume "compareNullsLast (f x) (f y) \<le> 0" "compareNullsLast (f y) (f z) \<le> 0"
  then show "compareNullsLast (f x) (f z) \<le> 0"
    by (cases "f x"; cases "f y"; cases "f z") (auto simp: compare_int_def)
qed

interpretation text_order: sign_comparator compare_text
  using sign_comparator_text [of "\<lambda>x. x"] by simp

end
