(* ===== verification/JsText.thy ===== *)
theory JsText
  imports JsPrelude
begin

text \<open>
  The text of JavaScript values: decimal digits of integers and their reading, padding,
  \<^verbatim>\<open>split\<close> and \<^verbatim>\<open>join\<close>, the list of a \<^verbatim>\<open>Set\<close>, the calendar text of
  \<^verbatim>\<open>Date.toISOString\<close>, and the UUID pattern the API tests its identifiers with.
\<close>

section \<open>Lists of text\<close>

fun js_split :: "char \<Rightarrow> string \<Rightarrow> string list" where
  "js_split sep [] = [[]]"
| "js_split sep (c # cs) =
     (if c = sep then [] # js_split sep cs
      else case js_split sep cs of [] \<Rightarrow> [[c]] | w # ws \<Rightarrow> (c # w) # ws)"

fun joinWith :: "string \<Rightarrow> string list \<Rightarrow> string" where
  "joinWith sep [] = []"
| "joinWith sep [x] = x"
| "joinWith sep (x # y # ys) = x @ sep @ joinWith sep (y # ys)"

text \<open>\<^verbatim>\<open>[...new Set(xs)]\<close>: the first occurrence of each element, in order.\<close>

definition set_order :: "'a list \<Rightarrow> 'a list" where
  "set_order xs = rev (remdups (rev xs))"

lemma set_set_order [simp]: "set (set_order xs) = set xs"
  by (simp add: set_order_def)

lemma distinct_set_order [simp]: "distinct (set_order xs)"
  by (simp add: set_order_def)

lemma js_split_no_sep [simp]: "sep \<notin> set w \<Longrightarrow> js_split sep w = [w]"
  by (induction w) auto

lemma js_split_append [simp]: "sep \<notin> set w \<Longrightarrow> js_split sep (w @ sep # r) = w # js_split sep r"
  by (induction w) auto

section \<open>Decimal digits\<close>

definition digit_char :: "nat \<Rightarrow> char" where
  "digit_char d = char_of (48 + d)"

fun js_nat :: "nat \<Rightarrow> string" where
  "js_nat n = (if n < 10 then [digit_char n] else js_nat (n div 10) @ [digit_char (n mod 10)])"

declare js_nat.simps [simp del]

definition digits_val :: "string \<Rightarrow> nat" where
  "digits_val w = foldl (\<lambda>a c. 10 * a + digit_val c) 0 w"

definition padEnd :: "nat \<Rightarrow> char \<Rightarrow> string \<Rightarrow> string" where
  "padEnd n c s = s @ replicate (n - length s) c"

definition padStart :: "nat \<Rightarrow> char \<Rightarrow> string \<Rightarrow> string" where
  "padStart n c s = replicate (n - length s) c @ s"

text \<open>\<^verbatim>\<open>replace(/^0+(?=\d)/u, '')\<close>\<close>

fun stripLeadingZeros :: "string \<Rightarrow> string" where
  "stripLeadingZeros (c # d # cs) =
     (if c = CHR ''0'' \<and> is_digit d then stripLeadingZeros (d # cs) else c # d # cs)"
| "stripLeadingZeros s = s"

lemma digit_val_char [simp]: "d < 10 \<Longrightarrow> digit_val (digit_char d) = d"
  by (simp add: digit_val_def digit_char_def)

lemma is_digit_char [simp]: "d < 10 \<Longrightarrow> is_digit (digit_char d)"
  by (simp add: is_digit_def digit_char_def)

lemma digit_char_val: "is_digit c \<Longrightarrow> digit_char (digit_val c) = c"
  using char_of_eq_iff [of "of_char c" c]
  by (simp add: is_digit_def digit_val_def digit_char_def)

lemma digit_val_lt: "is_digit c \<Longrightarrow> digit_val c < 10"
  by (auto simp: is_digit_def digit_val_def)

lemma digit_val_zero: "is_digit c \<Longrightarrow> digit_val c = 0 \<longleftrightarrow> c = CHR ''0''"
proof
  assume "is_digit c" and "digit_val c = 0"
  then have "(of_char c :: nat) = of_char CHR ''0''" by (simp add: is_digit_def digit_val_def)
  then show "c = CHR ''0''" by (simp only: of_char_eq_iff)
qed (simp add: digit_val_def)

lemma digits_val_Nil [simp]: "digits_val [] = 0"
  by (simp add: digits_val_def)

lemma digits_val_snoc [simp]: "digits_val (w @ [c]) = 10 * digits_val w + digit_val c"
  by (simp add: digits_val_def)

lemma foldl_digits: "foldl (\<lambda>a c. 10 * a + digit_val c) a w = a * 10 ^ length w + digits_val w"
  by (induction w rule: rev_induct) (simp_all add: algebra_simps)

lemma digits_val_append: "digits_val (v @ w) = digits_val v * 10 ^ length w + digits_val w"
  using foldl_digits [of "digits_val v" w] unfolding digits_val_def by simp

lemma digits_val_single: "digits_val [c] = digit_val c"
  by (simp add: digits_val_def)

lemma digits_val_Cons: "digits_val (c # w) = digit_val c * 10 ^ length w + digits_val w"
  using digits_val_append [of "[c]" w] by (simp add: digits_val_single)

lemma digits_val_lt: "list_all is_digit w \<Longrightarrow> digits_val w < 10 ^ length w"
proof (induction w rule: rev_induct)
  case (snoc c w)
  then have "digits_val w + 1 \<le> 10 ^ length w" and "digit_val c < 10"
    by (simp_all add: digit_val_lt)
  then show ?case by simp
qed simp

lemma digits_val_js_nat [simp]: "digits_val (js_nat n) = n"
proof (induction n rule: js_nat.induct)
  case (1 n)
  then show ?case by (subst js_nat.simps) (auto simp: digits_val_def)
qed

lemma js_nat_digits [simp]: "list_all is_digit (js_nat n)"
proof (induction n rule: js_nat.induct)
  case (1 n)
  then show ?case by (subst js_nat.simps) auto
qed

lemma js_nat_not_Nil [simp]: "js_nat n \<noteq> []"
  by (subst js_nat.simps) simp

lemma js_nat_lead: "length (js_nat n) = 1 \<or> hd (js_nat n) \<noteq> CHR ''0''"
proof (induction n rule: js_nat.induct)
  case (1 n)
  show ?case
  proof (cases "n < 10")
    case True
    then show ?thesis by (simp add: js_nat.simps)
  next
    case False
    have "hd (js_nat (n div 10)) \<noteq> CHR ''0''"
    proof (cases "n div 10 < 10")
      case True
      have "digit_val (digit_char (n div 10)) \<noteq> 0" using True False by simp
      then show ?thesis using True by (auto simp: js_nat.simps [of "n div 10"] digit_val_def)
    next
      case False
      then have "length (js_nat (n div 10)) \<noteq> 1" by (simp add: js_nat.simps [of "n div 10"])
      then show ?thesis using 1 \<open>\<not> n < 10\<close> by simp
    qed
    then show ?thesis using False by (simp add: js_nat.simps [of n])
  qed
qed

lemma js_nat_digits_val:
  assumes "list_all is_digit w" and "w \<noteq> []" and "length w = 1 \<or> hd w \<noteq> CHR ''0''"
  shows "js_nat (digits_val w) = w"
  using assms
proof (induction w rule: rev_induct)
  case (snoc c w)
  then have c: "is_digit c" by simp
  show ?case
  proof (cases "w = []")
    case True
    then show ?thesis using c by (simp add: js_nat.simps digits_val_Cons digit_val_lt digit_char_val)
  next
    case False
    then have hd: "hd w \<noteq> CHR ''0''" using snoc.prems by (cases w) auto
    then have "js_nat (digits_val w) = w" using snoc False by simp
    moreover have "digits_val w > 0"
      using hd snoc.prems(1) False digit_val_zero [of "hd w"] by (cases w) (auto simp: digits_val_Cons)
    ultimately show ?thesis
      using c by (subst js_nat.simps) (simp add: digit_val_lt digit_char_val)
  qed
qed simp

lemma stripLeadingZeros_digits:
  assumes "list_all is_digit w" and "w \<noteq> []"
  shows "list_all is_digit (stripLeadingZeros w) \<and> stripLeadingZeros w \<noteq> []
    \<and> (length (stripLeadingZeros w) = 1 \<or> hd (stripLeadingZeros w) \<noteq> CHR ''0'')
    \<and> digits_val (stripLeadingZeros w) = digits_val w"
  using assms
proof (induction w rule: stripLeadingZeros.induct)
  case (1 c d cs)
  then show ?case
    by (cases "c = CHR ''0''") (auto simp: digits_val_Cons [of "CHR ''0''"] digit_val_def)
qed auto

lemma stripLeadingZeros_eq:
  "list_all is_digit w \<Longrightarrow> w \<noteq> [] \<Longrightarrow> stripLeadingZeros w = js_nat (digits_val w)"
  using stripLeadingZeros_digits [of w] js_nat_digits_val [of "stripLeadingZeros w"] by auto

lemma js_nat_length: "0 < k \<Longrightarrow> n < 10 ^ k \<Longrightarrow> length (js_nat n) \<le> k"
proof (induction n arbitrary: k rule: js_nat.induct)
  case (1 n)
  show ?case
  proof (cases "n < 10")
    case False
    then obtain j where "k = Suc j" and "0 < j" using 1(3) by (cases k; cases "k - 1") auto
    then have "length (js_nat (n div 10)) \<le> j" using 1 False by (simp add: less_mult_imp_div_less)
    then show ?thesis using False \<open>k = Suc j\<close> by (simp add: js_nat.simps [of n])
  qed (use 1 in \<open>simp add: js_nat.simps\<close>)
qed

section \<open>Building and copying values\<close>

definition jOpt :: "('a \<Rightarrow> json) \<Rightarrow> 'a option \<Rightarrow> json" where
  "jOpt f v = (case v of None \<Rightarrow> JNull | Some x \<Rightarrow> f x)"

text \<open>\<^verbatim>\<open>{ ...object, k: v }\<close>\<close>

fun jset :: "string \<Rightarrow> json \<Rightarrow> (string \<times> json) list \<Rightarrow> (string \<times> json) list" where
  "jset k v [] = [(k, v)]"
| "jset k v ((k', v') # kvs) = (if k' = k then (k, v) # kvs else (k', v') # jset k v kvs)"

text \<open>
  \<^verbatim>\<open>JSON.parse(JSON.stringify(v))\<close>: undefined properties are dropped, undefined elements and
  numbers that are not finite become \<^verbatim>\<open>null\<close>.
\<close>

fun jsonClone :: "json \<Rightarrow> json" where
  "jsonClone (JObj kvs) =
     JObj (filter (\<lambda>(k, v). v \<noteq> JUndefined) (map (\<lambda>(k, v). (k, jsonClone v)) kvs))"
| "jsonClone (JArr vs) = JArr (map (\<lambda>v. if jsonClone v = JUndefined then JNull else jsonClone v) vs)"
| "jsonClone (JNum (Num x)) = JNum (Num x)"
| "jsonClone (JNum _) = JNull"
| "jsonClone v = v"

lemma jsonClone_defined: "v \<noteq> JUndefined \<Longrightarrow> jsonClone v \<noteq> JUndefined"
  by (cases v rule: jsonClone.cases) auto

lemma map_of_jset: "map_of (jset k v kvs) k' = (if k' = k then Some v else map_of kvs k')"
  by (induction kvs) auto

lemma jget_jset [simp]: "jget (JObj (jset k v kvs)) k' = (if k' = k then v else jget (JObj kvs) k')"
  by (induction kvs) auto

lemma jget_jsonClone:
  "jget (JObj kvs) k \<noteq> JUndefined \<Longrightarrow> jget (jsonClone (JObj kvs)) k = jsonClone (jget (JObj kvs) k)"
  by (induction kvs) (auto dest: jsonClone_defined)

section \<open>Calendar text\<close>

text \<open>Year, month and day of a day number counted from 1970-01-01 (proleptic Gregorian).\<close>

definition civil_from_days :: "int \<Rightarrow> int \<times> int \<times> int" where
  "civil_from_days z0 =
     (let z = z0 + 719468;
          era = z div 146097;
          doe = z mod 146097;
          yoe = (doe - doe div 1460 + doe div 36524 - doe div 146096) div 365;
          doy = doe - (365 * yoe + yoe div 4 - yoe div 100);
          mp = (5 * doy + 2) div 153;
          d = doy - (153 * mp + 2) div 5 + 1;
          m = (if mp < 10 then mp + 3 else mp - 9)
      in (yoe + era * 400 + (if m \<le> 2 then 1 else 0), m, d))"

definition pad_int :: "nat \<Rightarrow> int \<Rightarrow> string" where
  "pad_int w n = padStart w CHR ''0'' (js_nat (nat n))"

definition year_text :: "int \<Rightarrow> string" where
  "year_text y =
     (if 0 \<le> y \<and> y \<le> 9999 then pad_int 4 y
      else if y < 0 then CHR ''-'' # pad_int 6 (- y) else CHR ''+'' # pad_int 6 y)"

definition toISOString :: "int \<Rightarrow> string" where
  "toISOString t =
     (let ms = t mod 86400000
      in case civil_from_days (t div 86400000) of (y, m, d) \<Rightarrow>
           year_text y @ ''-'' @ pad_int 2 m @ ''-'' @ pad_int 2 d @ ''T''
             @ pad_int 2 (ms div 3600000) @ '':'' @ pad_int 2 (ms div 60000 mod 60) @ '':''
             @ pad_int 2 (ms div 1000 mod 60) @ ''.'' @ pad_int 3 (ms mod 1000) @ ''Z'')"

section \<open>Numbers from text\<close>

text \<open>
  \<^verbatim>\<open>Number(text)\<close>: white space around the literal is ignored, the empty text is zero, a decimal literal
  has an optional sign, fraction and exponent, and the radix prefixes take no sign.
\<close>

definition span_digits :: "string \<Rightarrow> string \<times> string" where
  "span_digits s = (takeWhile is_digit s, dropWhile is_digit s)"

definition exponentOf :: "string \<Rightarrow> int option" where
  "exponentOf s =
     (case s of
        [] \<Rightarrow> Some 0
      | c # r \<Rightarrow>
          if c \<noteq> CHR ''e'' \<and> c \<noteq> CHR ''E'' then None
          else (let neg = (r \<noteq> [] \<and> hd r = CHR ''-'');
                    ds = (if r \<noteq> [] \<and> hd r \<in> set ''+-'' then tl r else r)
                in if ds = [] \<or> \<not> list_all is_digit ds then None
                   else Some (if neg then - int (digits_val ds) else int (digits_val ds))))"

definition decimalLiteral :: "string \<Rightarrow> real option" where
  "decimalLiteral s =
     (case span_digits s of (ip, r1) \<Rightarrow>
        (case (if r1 \<noteq> [] \<and> hd r1 = CHR ''.'' then span_digits (tl r1) else ([], r1)) of (fp, r2) \<Rightarrow>
           if ip @ fp = [] then None
           else case exponentOf r2 of
                  None \<Rightarrow> None
                | Some e \<Rightarrow>
                    Some (real (digits_val (ip @ fp)) / 10 ^ length fp
                            * (if 0 \<le> e then 10 ^ nat e else 1 / 10 ^ nat (- e)))))"

definition hex_val :: "char \<Rightarrow> nat" where
  "hex_val c =
     (if is_digit c then digit_val c
      else let n = (of_char c :: nat) in if 97 \<le> n \<and> n \<le> 102 then n - 87 else if 65 \<le> n \<and> n \<le> 70 then n - 55 else 99)"

definition radixLiteral :: "nat \<Rightarrow> string \<Rightarrow> jsnum" where
  "radixLiteral b ds =
     (if ds = [] \<or> \<not> list_all (\<lambda>c. hex_val c < b) ds then NaN
      else Num (real (foldl (\<lambda>a c. b * a + hex_val c) 0 ds)))"

definition signedLiteral :: "string \<Rightarrow> jsnum" where
  "signedLiteral s =
     (let neg = (s \<noteq> [] \<and> hd s = CHR ''-'');
          t = (if s \<noteq> [] \<and> hd s \<in> set ''+-'' then tl s else s)
      in if t = ''Infinity'' then (if neg then NegInf else PosInf)
         else case decimalLiteral t of None \<Rightarrow> NaN | Some x \<Rightarrow> Num (if neg then - x else x))"

definition js_number_text :: "string \<Rightarrow> jsnum" where
  "js_number_text s =
     (let t = js_trim s
      in if t = [] then Num 0
         else if take 2 t = ''0x'' \<or> take 2 t = ''0X'' then radixLiteral 16 (drop 2 t)
         else if take 2 t = ''0o'' \<or> take 2 t = ''0O'' then radixLiteral 8 (drop 2 t)
         else if take 2 t = ''0b'' \<or> take 2 t = ''0B'' then radixLiteral 2 (drop 2 t)
         else signedLiteral t)"

text \<open>\<^verbatim>\<open>Number(value)\<close>; an array is read through its text, which is a number only with at most one element.\<close>

fun js_number :: "json \<Rightarrow> jsnum" where
  "js_number JUndefined = NaN"
| "js_number JNull = Num 0"
| "js_number (JBool b) = Num (if b then 1 else 0)"
| "js_number (JNum n) = n"
| "js_number (JStr s) = js_number_text s"
| "js_number (JArr []) = Num 0"
| "js_number (JArr [v]) =
     (case v of JUndefined \<Rightarrow> Num 0 | JBool _ \<Rightarrow> NaN | _ \<Rightarrow> js_number v)"
| "js_number (JArr (_ # _ # _)) = NaN"
| "js_number (JObj _) = NaN"

section \<open>Identifiers\<close>

definition is_hex :: "char \<Rightarrow> bool" where
  "is_hex c = (is_digit c \<or> (let n = (of_char c :: nat) in (97 \<le> n \<and> n \<le> 102) \<or> (65 \<le> n \<and> n \<le> 70)))"

text \<open>The RFC 4122 pattern of the API, case insensitive.\<close>

definition is_uuid :: "string \<Rightarrow> bool" where
  "is_uuid s =
     (case js_split CHR ''-'' s of
        [a, b, c, d, e] \<Rightarrow>
          length a = 8 \<and> length b = 4 \<and> length c = 4 \<and> length d = 4 \<and> length e = 12
          \<and> list_all is_hex (a @ b @ c @ d @ e)
          \<and> hd c \<in> set ''12345678'' \<and> hd d \<in> set ''89abAB''
      | _ \<Rightarrow> False)"

text \<open>\<^verbatim>\<open>/^[0-9a-f]{8}(?:-[0-9a-f]{4}){3}-[0-9a-f]{12}$/iu\<close>: the hexadecimal groups alone.\<close>

definition is_hex_uuid :: "string \<Rightarrow> bool" where
  "is_hex_uuid s =
     (case js_split CHR ''-'' s of
        [a, b, c, d, e] \<Rightarrow>
          length a = 8 \<and> length b = 4 \<and> length c = 4 \<and> length d = 4 \<and> length e = 12
          \<and> list_all is_hex (a @ b @ c @ d @ e)
      | _ \<Rightarrow> False)"

definition is_currency_code :: "string \<Rightarrow> bool" where
  "is_currency_code s = (length s = 3 \<and> list_all is_upper s)"

end
