(* ===== verification/Machines.thy ===== *)
theory Machines
  imports JsPrelude
begin

text \<open>
  Interfaces of the stateful components. A component is a step function over its events (an HTTP
  command, a worker tick, an incoming sample); what the components promise is stated here once as
  locale assumptions, and what follows for whole histories of events is proved once from them.
  Every component interprets these locales on its own operations.
\<close>

section \<open>An invariant kept by every step\<close>

locale invariant_machine =
  fixes step :: "'s \<Rightarrow> 'e \<Rightarrow> 's"
    and inv :: "'s \<Rightarrow> bool"
  assumes step_inv: "inv s \<Longrightarrow> inv (step s e)"
begin

lemma run_inv: "inv s \<Longrightarrow> inv (foldl step s es)"
  by (induction es arbitrary: s) (auto intro: step_inv)

end

section \<open>Rows that are never written again\<close>

text \<open>
  \<open>lookup s k\<close> is the row stored under a key; a row that satisfies \<open>final\<close> is kept by every
  step, as a terminal job, a sent notification or a recorded settlement is.
\<close>

locale final_rows = invariant_machine step inv
  for step :: "'s \<Rightarrow> 'e \<Rightarrow> 's" and inv :: "'s \<Rightarrow> bool" +
  fixes lookup :: "'s \<Rightarrow> 'k \<Rightarrow> 'r option"
    and final :: "'r \<Rightarrow> bool"
  assumes step_final:
    "inv s \<Longrightarrow> lookup s k = Some r \<Longrightarrow> final r \<Longrightarrow> lookup (step s e) k = Some r"
begin

lemma run_final:
  "inv s \<Longrightarrow> lookup s k = Some r \<Longrightarrow> final r \<Longrightarrow> lookup (foldl step s es) k = Some r"
  by (induction es arbitrary: s) (auto intro: step_final step_inv)

end

section \<open>A measure no step decreases\<close>

locale monotone_machine = invariant_machine step inv
  for step :: "'s \<Rightarrow> 'e \<Rightarrow> 's" and inv :: "'s \<Rightarrow> bool" +
  fixes level :: "'s \<Rightarrow> 'k \<Rightarrow> nat"
  assumes step_mono: "inv s \<Longrightarrow> level s k \<le> level (step s e) k"
begin

lemma run_mono: "inv s \<Longrightarrow> level s k \<le> level (foldl step s es) k"
proof (induction es arbitrary: s)
  case Nil
  then show ?case by simp
next
  case (Cons e es)
  have "level s k \<le> level (step s e) k" using Cons.prems by (rule step_mono)
  also have "\<dots> \<le> level (foldl step (step s e) es) k" using Cons by (simp add: step_inv)
  finally show ?case by simp
qed

end

section \<open>Runs that emit an event per step\<close>

text \<open>The outputs of a run, oldest first, and the state it ends in.\<close>

fun run_outputs :: "('s \<Rightarrow> 'e \<Rightarrow> 's \<times> 'o) \<Rightarrow> 's \<Rightarrow> 'e list \<Rightarrow> 'o list" where
  "run_outputs f s [] = []"
| "run_outputs f s (e # es) = snd (f s e) # run_outputs f (fst (f s e)) es"

fun run_state :: "('s \<Rightarrow> 'e \<Rightarrow> 's \<times> 'o) \<Rightarrow> 's \<Rightarrow> 'e list \<Rightarrow> 's" where
  "run_state f s [] = s"
| "run_state f s (e # es) = run_state f (fst (f s e)) es"

lemma run_state_foldl: "run_state f s es = foldl (\<lambda>s e. fst (f s e)) s es"
  by (induction es arbitrary: s) auto

text \<open>Two kinds of events that take turns: \<open>a\<close> first when \<open>b\<close> is False.\<close>

fun takes_turns :: "'o \<Rightarrow> 'o \<Rightarrow> bool \<Rightarrow> 'o list \<Rightarrow> bool" where
  "takes_turns a d b [] = True"
| "takes_turns a d b (x # xs) =
     (if x = a then \<not> b \<and> takes_turns a d True xs
      else if x = d then b \<and> takes_turns a d False xs
      else takes_turns a d b xs)"

text \<open>
  A two-sided machine: a state is on one of two sides, one event moves it from the first to the
  second, another moves it back, and every other step stays.
\<close>

locale toggling_machine =
  fixes f :: "'s \<Rightarrow> 'e \<Rightarrow> 's \<times> 'o"
    and side :: "'s \<Rightarrow> bool"
    and up down :: 'o
  assumes up_down: "up \<noteq> down"
    and step_up: "snd (f s e) = up \<Longrightarrow> \<not> side s \<and> side (fst (f s e))"
    and step_down: "snd (f s e) = down \<Longrightarrow> side s \<and> \<not> side (fst (f s e))"
    and step_stay: "snd (f s e) \<noteq> up \<Longrightarrow> snd (f s e) \<noteq> down \<Longrightarrow> side (fst (f s e)) = side s"
begin

lemma run_takes_turns: "takes_turns up down (side s) (run_outputs f s es)"
proof (induction es arbitrary: s)
  case Nil
  then show ?case by simp
next
  case (Cons e es)
  from Cons [of "fst (f s e)"] show ?case
    using up_down step_up [of s e] step_down [of s e] step_stay [of s e] by auto
qed

end

section \<open>Tables written row by row\<close>

text \<open>
  A table is a list of rows with a key. An update with a condition leaves a row as it is or
  replaces it by one it is related to; the relation keeps the key.
\<close>

locale row_writes =
  fixes key :: "'r \<Rightarrow> 'k"
    and rel :: "'r \<Rightarrow> 'r \<Rightarrow> bool"
  assumes rel_key: "rel x y \<Longrightarrow> key y = key x"
begin

definition writes :: "'r list \<Rightarrow> 'r list \<Rightarrow> bool" where
  "writes xs ys = list_all2 (\<lambda>x y. y = x \<or> rel x y) xs ys"

lemma writes_refl [simp]: "writes xs xs"
  by (simp add: writes_def list_all2_refl)

lemma writes_map: "(\<And>x. x \<in> set xs \<Longrightarrow> f x = x \<or> rel x (f x)) \<Longrightarrow> writes xs (map f xs)"
  by (induction xs) (auto simp: writes_def)

lemma writes_keys: "writes xs ys \<Longrightarrow> map key ys = map key xs"
  unfolding writes_def by (induction rule: list_all2_induct) (auto dest: rel_key)

lemma writes_find:
  assumes "writes xs ys" and "List.find (\<lambda>x. key x = k) xs = Some x"
  shows "\<exists>y. List.find (\<lambda>x. key x = k) ys = Some y \<and> (y = x \<or> rel x y)"
  using assms unfolding writes_def
proof (induction rule: list_all2_induct)
  case (Cons a xs b ys)
  have "key b = key a" using Cons.hyps rel_key by blast
  then show ?case using Cons by (cases "key a = k") auto
qed simp

lemma writes_all:
  assumes "writes xs ys" and "list_all P xs" and "\<And>x y. rel x y \<Longrightarrow> P x \<Longrightarrow> P y"
  shows "list_all P ys"
  using assms(1,2) unfolding writes_def
  by (induction rule: list_all2_induct) (auto intro: assms(3))

end

lemma find_key:
  assumes "distinct (map key xs)" and "x \<in> set xs"
  shows "List.find (\<lambda>y. key y = key x) xs = Some x"
  using assms by (induction xs) (auto simp: rev_image_eqI)

lemma find_SomeD: "List.find P xs = Some x \<Longrightarrow> x \<in> set xs \<and> P x"
  by (auto simp: find_Some_iff)

lemma find_map_key:
  assumes "\<And>x. x \<in> set xs \<Longrightarrow> key (f x) = key x"
  shows "List.find (\<lambda>x. key x = k) (map f xs) = map_option f (List.find (\<lambda>x. key x = k) xs)"
  using assms by (induction xs) auto

lemma find_map_other:
  assumes "\<And>x. x \<in> set xs \<Longrightarrow> f x = x \<or> key x \<noteq> k \<and> key (f x) \<noteq> k"
  shows "List.find (\<lambda>x. key x = k) (map f xs) = List.find (\<lambda>x. key x = k) xs"
  using assms
proof (induction xs)
  case (Cons x xs)
  have "List.find (\<lambda>x. key x = k) (map f xs) = List.find (\<lambda>x. key x = k) xs" using Cons by simp
  moreover have "f x = x \<or> key x \<noteq> k \<and> key (f x) \<noteq> k" using Cons.prems by simp
  ultimately show ?case by (elim disjE) simp_all
qed simp

end
