(* ===== verification/ShopScope.thy ===== *)
theory ShopScope
  imports JsPrelude
begin

text \<open>
  The scope of a shop: the identifier of the installed application, normalised and checked by
  shopify/shopify-app-scope.ts before a shop is looked up by application and domain.
\<close>

datatype app_scope_error = SHOPIFY_APP_ID_INVALID

definition is_app_id_char :: "bool \<Rightarrow> char \<Rightarrow> bool" where
  "is_app_id_char first c =
     (let n = (of_char c :: nat)
      in (97 \<le> n \<and> n \<le> 122) \<or> (48 \<le> n \<and> n \<le> 57) \<or> (\<not> first \<and> c = CHR ''-''))"

definition normalizeShopifyAppId :: "string option \<Rightarrow> app_scope_error + string" where
  "normalizeShopifyAppId v =
     (let appId = (case v of None \<Rightarrow> ''clever'' | Some s \<Rightarrow> if js_trim s = [] then ''clever'' else js_trim s)
      in case appId of
           [] \<Rightarrow> Inl SHOPIFY_APP_ID_INVALID
         | c # cs \<Rightarrow>
             (if is_app_id_char True c \<and> list_all (is_app_id_char False) cs
              then Inr appId else Inl SHOPIFY_APP_ID_INVALID))"

text \<open>An accepted identifier is its own normal form.\<close>

lemma js_trim_clever: "js_trim ''clever'' = ''clever''"
  by code_simp

lemma normalizeShopifyAppId_idem:
  "normalizeShopifyAppId v = Inr a \<Longrightarrow> normalizeShopifyAppId (Some a) = Inr a"
  by (auto simp: normalizeShopifyAppId_def Let_def js_trim_clever split: option.splits if_splits list.splits)

end
