(* ===== verification/GreatCircle.thy ===== *)
theory GreatCircle
  imports JsPrelude
begin

text \<open>
  The haversine formula the modules compute distances with, over exact real arithmetic: half the squared
  chord between two positions and \<^verbatim>\<open>Math.atan2\<close>, with their bounds and symmetry.
\<close>

definition js_atan2 :: "real \<Rightarrow> real \<Rightarrow> real" where
  "js_atan2 y x =
     (if x > 0 then arctan (y / x)
      else if x < 0 then (if y \<ge> 0 then arctan (y / x) + pi else arctan (y / x) - pi)
      else if y > 0 then pi / 2 else if y < 0 then - (pi / 2) else 0)"

definition haversineChord :: "real \<Rightarrow> real \<Rightarrow> real \<Rightarrow> real \<Rightarrow> real" where
  "haversineChord lat1 lon1 lat2 lon2 =
     (let radians = pi / 180;
          latitudeDelta = (lat2 - lat1) * radians;
          longitudeDelta = (lon2 - lon1) * radians;
          firstLatitude = lat1 * radians;
          secondLatitude = lat2 * radians
      in (sin (latitudeDelta / 2))\<^sup>2
         + cos firstLatitude * cos secondLatitude * (sin (longitudeDelta / 2))\<^sup>2)"

lemma haversineChord_dot:
  "haversineChord lat1 lon1 lat2 lon2 =
     (1 - (sin (lat1 * (pi / 180)) * sin (lat2 * (pi / 180)) +
           cos (lat1 * (pi / 180)) * cos (lat2 * (pi / 180)) * cos ((lon2 - lon1) * (pi / 180)))) / 2"
proof -
  have half: "(sin (x / 2))\<^sup>2 = (1 - cos x) / 2" for x :: real
    using cos_double_sin [of "x / 2"] by simp
  have diff: "cos ((lat2 - lat1) * (pi / 180)) =
      cos (lat1 * (pi / 180)) * cos (lat2 * (pi / 180)) + sin (lat1 * (pi / 180)) * sin (lat2 * (pi / 180))"
  proof -
    have "(lat2 - lat1) * (pi / 180) = lat2 * (pi / 180) - lat1 * (pi / 180)"
      by (simp add: left_diff_distrib)
    then show ?thesis by (simp only: cos_diff mult.commute)
  qed
  show ?thesis
    unfolding haversineChord_def Let_def half diff by (simp add: field_simps)
qed

lemma unit_dot_bound:
  fixes s1 c1 s2 c2 t :: real
  assumes "s1\<^sup>2 + c1\<^sup>2 = 1" and "s2\<^sup>2 + c2\<^sup>2 = 1" and "\<bar>t\<bar> \<le> 1"
  shows "\<bar>s1 * s2 + c1 * c2 * t\<bar> \<le> 1"
proof -
  have am_gm: "\<bar>x * y\<bar> \<le> (x\<^sup>2 + y\<^sup>2) / 2" for x y :: real
    using sum_squares_bound [of "\<bar>x\<bar>" "\<bar>y\<bar>"] by (simp add: abs_mult)
  have "\<bar>c1 * c2 * t\<bar> \<le> \<bar>c1 * c2\<bar>"
    using assms(3) by (simp add: abs_mult mult_left_le)
  then have "\<bar>s1 * s2 + c1 * c2 * t\<bar> \<le> \<bar>s1 * s2\<bar> + \<bar>c1 * c2\<bar>" by linarith
  also have "\<dots> \<le> (s1\<^sup>2 + s2\<^sup>2) / 2 + (c1\<^sup>2 + c2\<^sup>2) / 2"
    by (intro add_mono am_gm)
  also have "\<dots> = ((s1\<^sup>2 + c1\<^sup>2) + (s2\<^sup>2 + c2\<^sup>2)) / 2" by (simp add: field_simps)
  also have "\<dots> = 1" by (simp only: assms(1,2)) simp
  finally show ?thesis .
qed

lemma haversineChord_bounds: "0 \<le> haversineChord lat1 lon1 lat2 lon2 \<and> haversineChord lat1 lon1 lat2 lon2 \<le> 1"
  using unit_dot_bound [of "sin (lat1 * (pi / 180))" "cos (lat1 * (pi / 180))"
      "sin (lat2 * (pi / 180))" "cos (lat2 * (pi / 180))" "cos ((lon2 - lon1) * (pi / 180))"]
  unfolding haversineChord_dot by (auto simp: abs_le_iff)

lemma haversineChord_sym: "haversineChord lat2 lon2 lat1 lon1 = haversineChord lat1 lon1 lat2 lon2"
proof -
  have "cos ((lon1 - lon2) * (pi / 180)) = cos ((lon2 - lon1) * (pi / 180))"
    by (metis cos_minus minus_diff_eq mult_minus_left)
  then show ?thesis unfolding haversineChord_dot by (simp only: mult.commute)
qed

lemma haversineChord_self: "haversineChord lat lon lat lon = 0"
  by (simp add: haversineChord_def)

lemma js_atan2_quadrant:
  assumes "0 \<le> y" and "0 \<le> x"
  shows "0 \<le> js_atan2 y x \<and> js_atan2 y x \<le> pi / 2"
  using assms arctan_ubound [of "y / x"] by (auto simp: js_atan2_def)

text \<open>The distance on the sphere, as all copies of the formula write it.\<close>

lemma sphere_distance_bounds:
  fixes lat1 lon1 lat2 lon2 :: real
  defines "a \<equiv> haversineChord lat1 lon1 lat2 lon2"
  shows "0 \<le> 6371000 * 2 * js_atan2 (sqrt a) (sqrt (1 - a))"
    and "6371000 * 2 * js_atan2 (sqrt a) (sqrt (1 - a)) \<le> 6371000 * pi"
  using js_atan2_quadrant [of "sqrt a" "sqrt (1 - a)"] haversineChord_bounds [of lat1 lon1 lat2 lon2]
  by (simp_all add: a_def)

end
