(* ===== verification/Geofence.thy ===== *)
theory Geofence
  imports Machines GreatCircle
begin

text \<open>
  The geofence engine and its policy
  (\<^verbatim>\<open>modules/dsv/dsv-geofence-engine.ts\<close>, \<^verbatim>\<open>modules/dsv/dsv-geofence-policy.ts\<close>):
  the state machine that turns a stream of vehicle positions into arrivals and departures at a
  target, with dwell, sample-count and gap rules, and the parser of the policy that drives it.
  Shown: the state invariant, that arrivals and departures alternate and are counted, that a
  replayed or late observation changes nothing, and that every arrival or departure is backed by
  an uninterrupted window of samples on the right side of the fence.
\<close>

section \<open>Policy\<close>

datatype geofence_mode = OFF | SHADOW | LIVE

record geofence_policy =
  policyMode :: geofence_mode
  policyVersion :: string
  warehouseRadiusMeters :: real
  warehouseExitRadiusMeters :: real
  destinationRadiusMeters :: real
  destinationExitRadiusMeters :: real
  arrivalDwellSeconds :: real
  arrivalMinSamples :: int
  exitDwellSeconds :: real
  exitMinSamples :: int
  maxGapSeconds :: real
  maxObservationDelaySeconds :: real
  futureToleranceSeconds :: real
  maxSpeedKph :: real
  reminderIntervalSeconds :: real
  maxReminderCount :: "int option"
  notificationTtlSeconds :: real

fun readString :: "json \<Rightarrow> string option" where
  "readString (JStr s) = (if js_trim s \<noteq> [] then Some (js_trim s) else None)"
| "readString _ = None"

fun readPositiveNumber :: "json \<Rightarrow> real option" where
  "readPositiveNumber (JNum (Num x)) = (if x > 0 then Some x else None)"
| "readPositiveNumber _ = None"

fun readNonNegativeNumber :: "json \<Rightarrow> real option" where
  "readNonNegativeNumber (JNum (Num x)) = (if x \<ge> 0 then Some x else None)"
| "readNonNegativeNumber _ = None"

fun readPositiveInteger :: "json \<Rightarrow> int option" where
  "readPositiveInteger (JNum (Num x)) = (if of_int \<lfloor>x\<rfloor> = x \<and> x > 0 then Some \<lfloor>x\<rfloor> else None)"
| "readPositiveInteger _ = None"

definition readMode :: "json \<Rightarrow> geofence_mode option" where
  "readMode v =
     (if v = JStr ''OFF'' then None
      else if v = JStr ''SHADOW'' then Some SHADOW
      else if v = JStr ''LIVE'' then Some LIVE
      else None)"

definition parseDsvGeofencePolicy :: "json \<Rightarrow> geofence_policy option" where
  "parseDsvGeofencePolicy value =
     (if \<not> is_record value then None else
      case readMode (jget value ''mode'') of None \<Rightarrow> None | Some mode \<Rightarrow>
      case (readString (jget value ''policyVersion''),
            readPositiveNumber (jget value ''warehouseRadiusMeters''),
            readPositiveNumber (jget value ''warehouseExitRadiusMeters''),
            readPositiveNumber (jget value ''destinationRadiusMeters''),
            readPositiveNumber (jget value ''destinationExitRadiusMeters''),
            readNonNegativeNumber (jget value ''arrivalDwellSeconds''),
            readPositiveInteger (jget value ''arrivalMinSamples''),
            readNonNegativeNumber (jget value ''exitDwellSeconds''),
            readPositiveInteger (jget value ''exitMinSamples''),
            readPositiveNumber (jget value ''maxGapSeconds''),
            readNonNegativeNumber (jget value ''maxObservationDelaySeconds''),
            readNonNegativeNumber (jget value ''futureToleranceSeconds''),
            readPositiveNumber (jget value ''maxSpeedKph''),
            readPositiveNumber (jget value ''notificationTtlSeconds'')) of
        (Some version, Some wr, Some wer, Some dr, Some der, Some ad, Some am, Some ed, Some em,
         Some gap, Some delay, Some fut, Some speed, Some ttl) \<Rightarrow>
          (if wer \<le> wr \<or> der \<le> dr then None
           else Some
            \<lparr>policyMode = mode, policyVersion = version,
             warehouseRadiusMeters = wr, warehouseExitRadiusMeters = wer,
             destinationRadiusMeters = dr, destinationExitRadiusMeters = der,
             arrivalDwellSeconds = ad, arrivalMinSamples = am,
             exitDwellSeconds = ed, exitMinSamples = em,
             maxGapSeconds = gap, maxObservationDelaySeconds = delay,
             futureToleranceSeconds = fut, maxSpeedKph = speed,
             reminderIntervalSeconds = 300, maxReminderCount = None,
             notificationTtlSeconds = ttl\<rparr>)
      | _ \<Rightarrow> None)"

section \<open>Engine\<close>

datatype geofence_phase = OUTSIDE | ENTERING | INSIDE | EXITING

record geofence_state =
  phase :: geofence_phase
  candidateStartedAt :: "iso option"
  candidateSampleCount :: int
  firstOutsideAt :: "iso option"
  lastObservationAt :: "iso option"
  lastSampleId :: "string option"
  visitOrdinal :: int

datatype geofence_event = NONE | ARRIVED | DEPARTED

record geofence_observation =
  sampleId :: string
  observedAt :: int
  obsLatitude :: real
  obsLongitude :: real

record geofence_target =
  targetLatitude :: real
  targetLongitude :: real
  entryRadiusMeters :: real
  exitRadiusMeters :: real

definition emptyDsvGeofenceState :: geofence_state where
  "emptyDsvGeofenceState =
     \<lparr>phase = OUTSIDE, candidateStartedAt = None, candidateSampleCount = 0, firstOutsideAt = None,
      lastObservationAt = None, lastSampleId = None, visitOrdinal = 0\<rparr>"

definition parseInstant :: "iso option \<Rightarrow> int option" where
  "parseInstant value = (case value of None \<Rightarrow> None | Some v \<Rightarrow> date_parse v)"

definition meetsConfirmation :: "geofence_state \<Rightarrow> int \<Rightarrow> int \<Rightarrow> real \<Rightarrow> bool" where
  "meetsConfirmation s now minimumSamples dwellSeconds =
     (case parseInstant (candidateStartedAt s) of
        None \<Rightarrow> False
      | Some startedAt \<Rightarrow>
          candidateSampleCount s \<ge> minimumSamples \<and>
          real_of_int (now - startedAt) \<ge> dwellSeconds * 1000)"

definition startCandidate :: "geofence_state \<Rightarrow> geofence_phase \<Rightarrow> int \<Rightarrow> geofence_state" where
  "startCandidate s ph now =
     s\<lparr>candidateSampleCount := 1, candidateStartedAt := Some (Iso now),
       firstOutsideAt := (if ph = EXITING then Some (Iso now) else None), phase := ph\<rparr>"

definition confirmInside :: "geofence_state \<Rightarrow> geofence_state" where
  "confirmInside s =
     s\<lparr>candidateSampleCount := 0, candidateStartedAt := None, firstOutsideAt := None,
       phase := INSIDE, visitOrdinal := visitOrdinal s + 1\<rparr>"

definition resetOutside :: "geofence_state \<Rightarrow> geofence_state" where
  "resetOutside s =
     s\<lparr>candidateSampleCount := 0, candidateStartedAt := None, firstOutsideAt := None,
       phase := OUTSIDE\<rparr>"

definition resetInside :: "geofence_state \<Rightarrow> geofence_state" where
  "resetInside s =
     s\<lparr>candidateSampleCount := 0, candidateStartedAt := None, firstOutsideAt := None,
       phase := INSIDE\<rparr>"

definition confirmOutside :: "geofence_state \<Rightarrow> int \<Rightarrow> geofence_state" where
  "confirmOutside s now =
     (resetOutside s)\<lparr>firstOutsideAt :=
        Some (coalesce_def_value (coalesce (firstOutsideAt s) (candidateStartedAt s)) (Iso now))\<rparr>"

definition resetCandidate :: "geofence_state \<Rightarrow> geofence_state" where
  "resetCandidate s =
     (if phase s = ENTERING then resetOutside s
      else if phase s = EXITING then resetInside s else s)"

text \<open>
  The body of \<^verbatim>\<open>advanceDsvGeofence\<close> after the stale check, over the two sides of the
  fence: whether the distance is within the entry radius and beyond the exit radius.
\<close>

definition advanceInPhase ::
  "geofence_state \<Rightarrow> int \<Rightarrow> bool \<Rightarrow> bool \<Rightarrow> geofence_policy \<Rightarrow> geofence_state \<times> geofence_event" where
  "advanceInPhase s now insideEntry outsideExit p =
     (case phase s of
        OUTSIDE \<Rightarrow>
          (if insideEntry then
             (let s1 = startCandidate s ENTERING now in
              if meetsConfirmation s1 now (arrivalMinSamples p) (arrivalDwellSeconds p)
              then (confirmInside s1, ARRIVED) else (s1, NONE))
           else (s, NONE))
      | ENTERING \<Rightarrow>
          (if \<not> insideEntry then (resetOutside s, NONE)
           else
             (let s1 = s\<lparr>candidateSampleCount := candidateSampleCount s + 1\<rparr> in
              if meetsConfirmation s1 now (arrivalMinSamples p) (arrivalDwellSeconds p)
              then (confirmInside s1, ARRIVED) else (s1, NONE)))
      | INSIDE \<Rightarrow>
          (if outsideExit then
             (let s1 = startCandidate s EXITING now in
              if meetsConfirmation s1 now (exitMinSamples p) (exitDwellSeconds p)
              then (confirmOutside s1 now, DEPARTED) else (s1, NONE))
           else (s, NONE))
      | EXITING \<Rightarrow>
          (if \<not> outsideExit then (resetInside s, NONE)
           else
             (let s1 = s\<lparr>candidateSampleCount := candidateSampleCount s + 1\<rparr> in
              if meetsConfirmation s1 now (exitMinSamples p) (exitDwellSeconds p)
              then (confirmOutside s1 now, DEPARTED) else (s1, NONE))))"

definition haversineMeters :: "geofence_observation \<Rightarrow> geofence_target \<Rightarrow> real" where
  "haversineMeters ob tg =
     (let a = haversineChord (obsLatitude ob) (obsLongitude ob) (targetLatitude tg) (targetLongitude tg)
      in 6371000 * 2 * js_atan2 (sqrt a) (sqrt (1 - a)))"

definition insideEntryOf :: "geofence_observation \<Rightarrow> geofence_target \<Rightarrow> bool" where
  "insideEntryOf ob tg = (haversineMeters ob tg \<le> entryRadiusMeters tg)"

definition outsideExitOf :: "geofence_observation \<Rightarrow> geofence_target \<Rightarrow> bool" where
  "outsideExitOf ob tg = (haversineMeters ob tg > exitRadiusMeters tg)"

definition isStaleObservation :: "geofence_state \<Rightarrow> geofence_observation \<Rightarrow> bool" where
  "isStaleObservation previous ob =
     (case parseInstant (lastObservationAt previous) of
        None \<Rightarrow> False | Some previousAt \<Rightarrow> observedAt ob \<le> previousAt)"

definition hasObservationGap :: "geofence_state \<Rightarrow> geofence_observation \<Rightarrow> geofence_policy \<Rightarrow> bool" where
  "hasObservationGap previous ob p =
     (case parseInstant (lastObservationAt previous) of
        None \<Rightarrow> False | Some previousAt \<Rightarrow> real_of_int (observedAt ob - previousAt) > maxGapSeconds p * 1000)"

definition advanceDsvGeofence ::
  "geofence_state \<Rightarrow> geofence_observation \<Rightarrow> geofence_target \<Rightarrow> geofence_policy \<Rightarrow>
   geofence_state \<times> geofence_event" where
  "advanceDsvGeofence previous ob tg p =
     (if isStaleObservation previous ob then (previous, NONE)
      else
        (let s0 = (if hasObservationGap previous ob p then resetCandidate previous else previous);
             r = advanceInPhase s0 (observedAt ob) (insideEntryOf ob tg) (outsideExitOf ob tg) p
         in ((fst r)\<lparr>lastObservationAt := Some (Iso (observedAt ob)), lastSampleId := Some (sampleId ob)\<rparr>,
             snd r)))"

definition missingStartDueAt :: "int \<Rightarrow> int" where
  "missingStartDueAt departureConfirmedAt = departureConfirmedAt + 300000"

definition nextMissingStartReminderAt :: "int \<Rightarrow> int" where
  "nextMissingStartReminderAt createdAt = createdAt + 300000"

text \<open>A candidate execution context carries its identifier first.\<close>

definition resolveDsvExecutionAttribution ::
  "(string \<times> 'a) list \<Rightarrow> string option \<Rightarrow> (string \<times> 'a) option" where
  "resolveDsvExecutionAttribution candidates selected =
     (case candidates of
        [c] \<Rightarrow> Some c
      | [] \<Rightarrow> None
      | _ \<Rightarrow> (case selected of None \<Rightarrow> None | Some i \<Rightarrow> List.find (\<lambda>c. fst c = i) candidates))"

text \<open>The pair is (confirmedObservedAt, firstObservedAt).\<close>

definition dsvGeofenceTransitionEvidence :: "geofence_state \<Rightarrow> geofence_observation \<Rightarrow> int \<times> int" where
  "dsvGeofenceTransitionEvidence previous ob =
     (case coalesce (firstOutsideAt previous) (candidateStartedAt previous) of
        None \<Rightarrow> (observedAt ob, observedAt ob)
      | Some v \<Rightarrow> (observedAt ob, coalesce_def_value (date_parse v) (observedAt ob)))"

lemmas geofence_defs [op_defs] =
  startCandidate_def confirmInside_def resetOutside_def resetInside_def confirmOutside_def
  resetCandidate_def


section \<open>Distance\<close>

lemma haversineMeters_self:
  "obsLatitude ob = targetLatitude tg \<Longrightarrow> obsLongitude ob = targetLongitude tg \<Longrightarrow> haversineMeters ob tg = 0"
  by (simp add: haversineMeters_def haversineChord_self js_atan2_def)

text \<open>
  The distance the fence is decided on is a distance on the sphere: it is never negative,
  never exceeds half of the great circle, is zero at the target itself and does not depend on
  which of the two points is the vehicle and which the target.
\<close>

theorem haversineMeters_metric:
  "0 \<le> haversineMeters ob tg \<and> haversineMeters ob tg \<le> 6371000 * pi
   \<and> haversineMeters \<lparr>sampleId = i, observedAt = t, obsLatitude = targetLatitude tg, obsLongitude = targetLongitude tg\<rparr> tg = 0
   \<and> haversineMeters ob tg =
     haversineMeters \<lparr>sampleId = i, observedAt = t, obsLatitude = targetLatitude tg, obsLongitude = targetLongitude tg\<rparr>
       \<lparr>targetLatitude = obsLatitude ob, targetLongitude = obsLongitude ob, entryRadiusMeters = r1, exitRadiusMeters = r2\<rparr>"
proof -
  let ?a = "haversineChord (obsLatitude ob) (obsLongitude ob) (targetLatitude tg) (targetLongitude tg)"
  have "0 \<le> sqrt ?a" and "0 \<le> sqrt (1 - ?a)" using haversineChord_bounds by auto
  then have "0 \<le> js_atan2 (sqrt ?a) (sqrt (1 - ?a)) \<and> js_atan2 (sqrt ?a) (sqrt (1 - ?a)) \<le> pi / 2"
    by (rule js_atan2_quadrant)
  moreover have "haversineChord (targetLatitude tg) (targetLongitude tg) (obsLatitude ob) (obsLongitude ob) = ?a"
    by (rule haversineChord_sym)
  ultimately show ?thesis
    by (simp add: haversineMeters_def haversineChord_self Let_def js_atan2_def)
qed

section \<open>State invariant\<close>

text \<open>
  A candidate (a possible arrival or departure under observation) exists exactly in the two
  transitional phases, has at least one sample and a start that parses; a pending departure
  remembers when the vehicle was first outside.
\<close>

definition geofence_inv :: "geofence_state \<Rightarrow> bool" where
  "geofence_inv s =
     (visitOrdinal s \<ge> 0 \<and>
      (case phase s of
         OUTSIDE \<Rightarrow> candidateStartedAt s = None \<and> candidateSampleCount s = 0
       | INSIDE \<Rightarrow> candidateStartedAt s = None \<and> candidateSampleCount s = 0 \<and> firstOutsideAt s = None
       | ENTERING \<Rightarrow> candidateSampleCount s \<ge> 1 \<and> parseInstant (candidateStartedAt s) \<noteq> None \<and> firstOutsideAt s = None
       | EXITING \<Rightarrow> candidateSampleCount s \<ge> 1 \<and> parseInstant (candidateStartedAt s) \<noteq> None \<and> firstOutsideAt s = candidateStartedAt s))"

abbreviation geofence_step :: "geofence_target \<Rightarrow> geofence_policy \<Rightarrow> geofence_state \<Rightarrow> geofence_observation \<Rightarrow> geofence_state" where
  "geofence_step tg p s ob \<equiv> fst (advanceDsvGeofence s ob tg p)"

lemma geofence_inv_resetCandidate: "geofence_inv s \<Longrightarrow> geofence_inv (resetCandidate s)"
  by (auto simp: geofence_inv_def op_defs split: geofence_phase.splits)

lemma geofence_inv_advanceInPhase: "geofence_inv s \<Longrightarrow> geofence_inv (fst (advanceInPhase s now i x p))"
  by (cases "phase s")
    (auto simp: geofence_inv_def advanceInPhase_def op_defs parseInstant_def Let_def)

lemma geofence_inv_stamp: "geofence_inv (s\<lparr>lastObservationAt := a, lastSampleId := b\<rparr>) = geofence_inv s"
  by (simp add: geofence_inv_def split: geofence_phase.splits)

lemma geofence_inv_step: "geofence_inv s \<Longrightarrow> geofence_inv (geofence_step tg p s ob)"
  by (simp add: advanceDsvGeofence_def Let_def geofence_inv_stamp geofence_inv_resetCandidate
      geofence_inv_advanceInPhase)

interpretation geofence_invariant: invariant_machine "geofence_step tg p" geofence_inv
  by unfold_locales (rule geofence_inv_step)

lemma geofence_inv_empty: "geofence_inv emptyDsvGeofenceState"
  by (simp add: geofence_inv_def emptyDsvGeofenceState_def)

text \<open>
  Whatever positions arrive, in whatever order, the stored state of a target stays
  consistent: a candidate exists exactly while an arrival or departure is being confirmed.
\<close>

theorem geofence_state_consistent:
  "geofence_inv (foldl (geofence_step tg p) emptyDsvGeofenceState obs)"
  by (rule geofence_invariant.run_inv) (rule geofence_inv_empty)

section \<open>Arrivals and departures\<close>

definition at_target :: "geofence_state \<Rightarrow> bool" where
  "at_target s = (phase s = INSIDE \<or> phase s = EXITING)"

lemma at_target_resetCandidate [simp]: "at_target (resetCandidate s) = at_target s"
  by (auto simp: at_target_def op_defs)

lemma at_target_stamp [simp]: "at_target (s\<lparr>lastObservationAt := a, lastSampleId := b\<rparr>) = at_target s"
  by (simp add: at_target_def)

lemma advanceInPhase_side:
  "(snd (advanceInPhase s now i x p) = ARRIVED \<longrightarrow> \<not> at_target s \<and> at_target (fst (advanceInPhase s now i x p))) \<and>
   (snd (advanceInPhase s now i x p) = DEPARTED \<longrightarrow> at_target s \<and> \<not> at_target (fst (advanceInPhase s now i x p))) \<and>
   (snd (advanceInPhase s now i x p) = NONE \<longrightarrow> at_target (fst (advanceInPhase s now i x p)) = at_target s)"
  by (cases "phase s") (auto simp: advanceInPhase_def at_target_def op_defs Let_def)

lemma advance_side:
  "(snd (advanceDsvGeofence s ob tg p) = ARRIVED \<longrightarrow> \<not> at_target s \<and> at_target (fst (advanceDsvGeofence s ob tg p))) \<and>
   (snd (advanceDsvGeofence s ob tg p) = DEPARTED \<longrightarrow> at_target s \<and> \<not> at_target (fst (advanceDsvGeofence s ob tg p))) \<and>
   (snd (advanceDsvGeofence s ob tg p) = NONE \<longrightarrow> at_target (fst (advanceDsvGeofence s ob tg p)) = at_target s)"
proof -
  let ?s0 = "if hasObservationGap s ob p then resetCandidate s else s"
  have "at_target ?s0 = at_target s" by simp
  then show ?thesis
    using advanceInPhase_side [of ?s0 "observedAt ob" "insideEntryOf ob tg" "outsideExitOf ob tg" p]
    by (simp add: advanceDsvGeofence_def Let_def)
qed

interpretation geofence_turns:
  toggling_machine "\<lambda>s ob. advanceDsvGeofence s ob tg p" at_target ARRIVED DEPARTED
proof (unfold_locales, goal_cases)
  case 1 show ?case by simp
next
  case (2 s e) then show ?case using advance_side [of s e tg p] by simp
next
  case (3 s e) then show ?case using advance_side [of s e tg p] by simp
next
  case (4 s e) then show ?case
    using advance_side [of s e tg p] by (cases "snd (advanceDsvGeofence s e tg p)") auto
qed

lemma advanceInPhase_visits:
  "visitOrdinal (fst (advanceInPhase s now i x p)) =
     visitOrdinal s + (if snd (advanceInPhase s now i x p) = ARRIVED then 1 else 0)"
  by (cases "phase s") (auto simp: advanceInPhase_def op_defs Let_def)

lemma advance_visits:
  "visitOrdinal (fst (advanceDsvGeofence s ob tg p)) =
     visitOrdinal s + (if snd (advanceDsvGeofence s ob tg p) = ARRIVED then 1 else 0)"
  by (auto simp: advanceDsvGeofence_def Let_def advanceInPhase_visits op_defs)

lemma run_visits:
  "visitOrdinal (run_state (\<lambda>s ob. advanceDsvGeofence s ob tg p) s obs) =
     visitOrdinal s + int (count_list (run_outputs (\<lambda>s ob. advanceDsvGeofence s ob tg p) s obs) ARRIVED)"
  by (induction obs arbitrary: s) (auto simp: advance_visits)

text \<open>
  Over any history of positions a target's arrivals and departures strictly alternate,
  beginning with an arrival, and the visit ordinal is the number of arrivals reported.
\<close>

theorem geofence_visits_alternate:
  "takes_turns ARRIVED DEPARTED False
     (run_outputs (\<lambda>s ob. advanceDsvGeofence s ob tg p) emptyDsvGeofenceState obs)
   \<and> visitOrdinal (run_state (\<lambda>s ob. advanceDsvGeofence s ob tg p) emptyDsvGeofenceState obs) =
     int (count_list (run_outputs (\<lambda>s ob. advanceDsvGeofence s ob tg p) emptyDsvGeofenceState obs) ARRIVED)"
  using geofence_turns.run_takes_turns [where s = emptyDsvGeofenceState and es = obs]
    run_visits [of tg p emptyDsvGeofenceState obs]
  by (simp add: at_target_def emptyDsvGeofenceState_def)

section \<open>Replayed and late observations\<close>

text \<open>
  An observation that is not newer than the last accepted one changes nothing, so
  delivering the same sample twice has the effect of delivering it once.
\<close>

theorem geofence_replay_idempotent:
  assumes "(s', ev) = advanceDsvGeofence s ob tg p"
  shows "advanceDsvGeofence s' ob tg p = (s', NONE)"
proof (cases "isStaleObservation s ob")
  case True
  then show ?thesis using assms by (simp add: advanceDsvGeofence_def)
next
  case False
  then have "lastObservationAt s' = Some (Iso (observedAt ob))"
    using assms by (auto simp: advanceDsvGeofence_def Let_def)
  then have "isStaleObservation s' ob"
    by (simp add: isStaleObservation_def parseInstant_def)
  then show ?thesis by (simp add: advanceDsvGeofence_def)
qed

section \<open>Evidence behind an arrival or a departure\<close>

text \<open>
  Observations newest first: each is newer than the next, and by no more than the gap the policy
  tolerates.
\<close>

fun contiguous :: "geofence_policy \<Rightarrow> geofence_observation list \<Rightarrow> bool" where
  "contiguous p (a # b # os) =
     (observedAt b < observedAt a \<and> real_of_int (observedAt a - observedAt b) \<le> maxGapSeconds p * 1000
      \<and> contiguous p (b # os))"
| "contiguous p _ = True"

text \<open>
  The evidence for a transition: the most recent \<open>n\<close> accepted observations, at least
  \<open>samples\<close> of them, all on the required side of the fence, without a gap, and spanning the dwell
  time.
\<close>

definition evidence ::
  "geofence_policy \<Rightarrow> (geofence_observation \<Rightarrow> bool) \<Rightarrow> int \<Rightarrow> real \<Rightarrow> geofence_observation list \<Rightarrow> bool" where
  "evidence p side samples dwell h =
     (\<exists>n. 1 \<le> n \<and> n \<le> length h \<and> samples \<le> int n \<and> (\<forall>ob \<in> set (take n h). side ob)
        \<and> contiguous p (take n h)
        \<and> real_of_int (observedAt (hd h) - observedAt (last (take n h))) \<ge> dwell * 1000)"

text \<open>The accepted observations of a target, newest first, with the state they lead to.\<close>

inductive geofence_history ::
  "geofence_target \<Rightarrow> geofence_policy \<Rightarrow> geofence_state \<Rightarrow> geofence_observation list \<Rightarrow> bool"
  for tg p where
  start: "geofence_history tg p emptyDsvGeofenceState []"
| accept: "geofence_history tg p s h \<Longrightarrow> \<not> isStaleObservation s ob \<Longrightarrow>
     geofence_history tg p (geofence_step tg p s ob) (ob # h)"
| discard: "geofence_history tg p s h \<Longrightarrow> isStaleObservation s ob \<Longrightarrow>
     geofence_history tg p (geofence_step tg p s ob) h"

definition candidate_window ::
  "geofence_policy \<Rightarrow> (geofence_observation \<Rightarrow> bool) \<Rightarrow> geofence_state \<Rightarrow> geofence_observation list \<Rightarrow> bool" where
  "candidate_window p side s h =
     (\<exists>n. 1 \<le> n \<and> n \<le> length h \<and> candidateSampleCount s = int n \<and> (\<forall>ob \<in> set (take n h). side ob)
        \<and> contiguous p (take n h) \<and> candidateStartedAt s = Some (Iso (observedAt (last (take n h)))))"

definition candidate_inv ::
  "geofence_target \<Rightarrow> geofence_policy \<Rightarrow> geofence_state \<Rightarrow> geofence_observation list \<Rightarrow> bool" where
  "candidate_inv tg p s h =
     ((phase s = ENTERING \<longrightarrow> candidate_window p (\<lambda>ob. insideEntryOf ob tg) s h) \<and>
      (phase s = EXITING \<longrightarrow> candidate_window p (\<lambda>ob. outsideExitOf ob tg) s h))"

lemma candidate_window_stamp [simp]:
  "candidate_window p side (s\<lparr>lastObservationAt := a, lastSampleId := b\<rparr>) h = candidate_window p side s h"
  by (simp add: candidate_window_def)

lemma candidate_inv_stamp [simp]:
  "candidate_inv tg p (s\<lparr>lastObservationAt := a, lastSampleId := b\<rparr>) h = candidate_inv tg p s h"
  by (simp add: candidate_inv_def)

lemma candidate_window_start:
  "side ob \<Longrightarrow> candidate_window p side (startCandidate s ph (observedAt ob)) (ob # h)"
  by (auto simp: candidate_window_def startCandidate_def intro!: exI [of _ 1])

lemma candidate_window_extend:
  assumes "candidate_window p side s h" and "side ob" and "contiguous p [ob, hd h]"
  shows "candidate_window p side (s\<lparr>candidateSampleCount := candidateSampleCount s + 1\<rparr>) (ob # h)"
proof -
  from assms(1) obtain n where n: "1 \<le> n" "n \<le> length h" "candidateSampleCount s = int n"
      "\<forall>ob \<in> set (take n h). side ob" "contiguous p (take n h)"
      "candidateStartedAt s = Some (Iso (observedAt (last (take n h))))"
    by (auto simp: candidate_window_def)
  then obtain x h' where h: "h = x # h'" by (cases h) auto
  then have "contiguous p (ob # take n h)"
    using n assms(3) by (cases n) auto
  moreover have "last (ob # take n h) = last (take n h)" using n h by auto
  ultimately show ?thesis using n assms(2)
    unfolding candidate_window_def by (intro exI [of _ "Suc n"]) auto
qed

lemma confirmed_evidence:
  assumes "candidate_window p side s (ob # h)" and "meetsConfirmation s (observedAt ob) samples dwell"
  shows "evidence p side samples dwell (ob # h)"
  using assms by (fastforce simp: candidate_window_def evidence_def meetsConfirmation_def parseInstant_def)

lemma advanceInPhase_evidence:
  assumes inv: "candidate_inv tg p s h"
    and link: "phase s = ENTERING \<or> phase s = EXITING \<Longrightarrow> contiguous p [ob, hd h]"
    and r: "r = advanceInPhase s (observedAt ob) (insideEntryOf ob tg) (outsideExitOf ob tg) p"
  shows "candidate_inv tg p (fst r) (ob # h)
    \<and> (snd r = ARRIVED \<longrightarrow>
        evidence p (\<lambda>ob. insideEntryOf ob tg) (arrivalMinSamples p) (arrivalDwellSeconds p) (ob # h))
    \<and> (snd r = DEPARTED \<longrightarrow>
        evidence p (\<lambda>ob. outsideExitOf ob tg) (exitMinSamples p) (exitDwellSeconds p) (ob # h))"
proof (cases "phase s")
  case OUTSIDE
  then show ?thesis unfolding r
    using candidate_window_start [of "\<lambda>ob. insideEntryOf ob tg" ob p s ENTERING h]
    by (auto simp: advanceInPhase_def candidate_inv_def Let_def confirmInside_def startCandidate_def
        intro: confirmed_evidence)
next
  case ENTERING
  then show ?thesis unfolding r
    using candidate_window_extend [of p "\<lambda>ob. insideEntryOf ob tg" s h ob] inv link
    by (auto simp: advanceInPhase_def candidate_inv_def Let_def confirmInside_def resetOutside_def
        intro: confirmed_evidence)
next
  case INSIDE
  then show ?thesis unfolding r
    using candidate_window_start [of "\<lambda>ob. outsideExitOf ob tg" ob p s EXITING h]
    by (auto simp: advanceInPhase_def candidate_inv_def Let_def confirmOutside_def resetOutside_def
        startCandidate_def intro: confirmed_evidence)
next
  case EXITING
  then show ?thesis unfolding r
    using candidate_window_extend [of p "\<lambda>ob. outsideExitOf ob tg" s h ob] inv link
    by (auto simp: advanceInPhase_def candidate_inv_def Let_def confirmOutside_def resetOutside_def
        resetInside_def intro: confirmed_evidence)
qed

definition last_seen :: "geofence_state \<Rightarrow> geofence_observation list \<Rightarrow> bool" where
  "last_seen s h = (lastObservationAt s = (case h of [] \<Rightarrow> None | ob # _ \<Rightarrow> Some (Iso (observedAt ob))))"

lemma candidate_inv_accept:
  assumes inv: "candidate_inv tg p s h" and seen: "last_seen s h" and fresh: "\<not> isStaleObservation s ob"
  shows "candidate_inv tg p (geofence_step tg p s ob) (ob # h)
    \<and> (snd (advanceDsvGeofence s ob tg p) = ARRIVED \<longrightarrow>
        evidence p (\<lambda>ob. insideEntryOf ob tg) (arrivalMinSamples p) (arrivalDwellSeconds p) (ob # h))
    \<and> (snd (advanceDsvGeofence s ob tg p) = DEPARTED \<longrightarrow>
        evidence p (\<lambda>ob. outsideExitOf ob tg) (exitMinSamples p) (exitDwellSeconds p) (ob # h))"
proof -
  let ?s0 = "if hasObservationGap s ob p then resetCandidate s else s"
  have inv0: "candidate_inv tg p ?s0 h"
    using inv by (auto simp: candidate_inv_def op_defs)
  have link: "contiguous p [ob, hd h]" if "phase ?s0 = ENTERING \<or> phase ?s0 = EXITING"
  proof -
    have no_gap: "\<not> hasObservationGap s ob p"
      using that by (auto simp: op_defs split: if_splits)
    then have "h \<noteq> []"
      using inv that by (auto simp: candidate_inv_def candidate_window_def)
    then show ?thesis
      using no_gap fresh seen
      by (cases h) (auto simp: last_seen_def hasObservationGap_def isStaleObservation_def parseInstant_def)
  qed
  show ?thesis
    using advanceInPhase_evidence [OF inv0 link refl] fresh
    by (simp add: advanceDsvGeofence_def Let_def)
qed

lemma geofence_history_inv:
  "geofence_history tg p s h \<Longrightarrow> candidate_inv tg p s h \<and> last_seen s h"
proof (induction rule: geofence_history.induct)
  case start
  show ?case by (simp add: candidate_inv_def last_seen_def emptyDsvGeofenceState_def)
next
  case (accept s h ob)
  then show ?case
    using candidate_inv_accept [of tg p s h ob]
    by (simp add: last_seen_def advanceDsvGeofence_def Let_def)
next
  case (discard s h ob)
  then show ?case by (simp add: advanceDsvGeofence_def)
qed

text \<open>
  Claim C19: an arrival is reported only on evidence. Whatever was observed before, when the engine
  answers ARRIVED the most recent accepted samples, at least as many as the policy asks for, all lie within the
  entry radius, follow each other without a gap above the policy's limit and span the dwell time.
\<close>

theorem geofence_arrival_evidence:
  assumes "geofence_history tg p s h" and "snd (advanceDsvGeofence s ob tg p) = ARRIVED"
  shows "evidence p (\<lambda>ob. insideEntryOf ob tg) (arrivalMinSamples p) (arrivalDwellSeconds p) (ob # h)"
proof -
  have "\<not> isStaleObservation s ob" using assms(2) by (auto simp: advanceDsvGeofence_def)
  then show ?thesis using candidate_inv_accept geofence_history_inv [OF assms(1)] assms(2) by blast
qed

text \<open>
  A departure is reported only on evidence: the most recent accepted samples, as many as
  the policy asks for, all lie beyond the exit radius, without a gap, and span the exit dwell
  time.
\<close>

theorem geofence_departure_evidence:
  assumes "geofence_history tg p s h" and "snd (advanceDsvGeofence s ob tg p) = DEPARTED"
  shows "evidence p (\<lambda>ob. outsideExitOf ob tg) (exitMinSamples p) (exitDwellSeconds p) (ob # h)"
proof -
  have "\<not> isStaleObservation s ob" using assms(2) by (auto simp: advanceDsvGeofence_def)
  then show ?thesis using candidate_inv_accept geofence_history_inv [OF assms(1)] assms(2) by blast
qed

section \<open>Policy\<close>

lemma read_positive: "readPositiveNumber v = Some x \<Longrightarrow> 0 < x"
  by (cases v rule: readPositiveNumber.cases) (auto split: if_splits)

lemma read_nonneg: "readNonNegativeNumber v = Some x \<Longrightarrow> 0 \<le> x"
  by (cases v rule: readNonNegativeNumber.cases) (auto split: if_splits)

lemma read_posint: "readPositiveInteger v = Some n \<Longrightarrow> 1 \<le> n"
  by (cases v rule: readPositiveInteger.cases) (auto split: if_splits)

lemmas reads = read_positive read_nonneg read_posint

text \<open>
  A policy the engine runs with was validated in full: it is active, its exit radii
  exceed the entry radii (so no position is both inside for arrival and outside for departure),
  it asks for at least one sample, its times are not negative and its gap and speed limits are
  positive; the superseded reminder cap never comes back and reminders repeat every 300 seconds.
\<close>

theorem parsed_policy_valid:
  assumes "parseDsvGeofencePolicy value = Some p"
  shows "policyMode p \<noteq> OFF
    \<and> 0 < warehouseRadiusMeters p \<and> warehouseRadiusMeters p < warehouseExitRadiusMeters p
    \<and> 0 < destinationRadiusMeters p \<and> destinationRadiusMeters p < destinationExitRadiusMeters p
    \<and> 0 \<le> arrivalDwellSeconds p \<and> 1 \<le> arrivalMinSamples p
    \<and> 0 \<le> exitDwellSeconds p \<and> 1 \<le> exitMinSamples p \<and> 0 < maxGapSeconds p
    \<and> 0 \<le> maxObservationDelaySeconds p \<and> 0 \<le> futureToleranceSeconds p
    \<and> 0 < maxSpeedKph p \<and> 0 < notificationTtlSeconds p
    \<and> reminderIntervalSeconds p = 300 \<and> maxReminderCount p = None"
  using assms
  by (auto simp: parseDsvGeofencePolicy_def readMode_def split: if_splits option.splits dest!: reads)

section \<open>Concrete runs\<close>

definition demo_policy_json :: json where
  "demo_policy_json = JObj
     [(''mode'', JStr ''LIVE''), (''policyVersion'', JStr '' v1 ''),
      (''warehouseRadiusMeters'', JNum (Num 100)), (''warehouseExitRadiusMeters'', JNum (Num 150)),
      (''destinationRadiusMeters'', JNum (Num 50)), (''destinationExitRadiusMeters'', JNum (Num 80)),
      (''arrivalDwellSeconds'', JNum (Num 60)), (''arrivalMinSamples'', JNum (Num 2)),
      (''exitDwellSeconds'', JNum (Num 30)), (''exitMinSamples'', JNum (Num 2)),
      (''maxGapSeconds'', JNum (Num 180)), (''maxObservationDelaySeconds'', JNum (Num 300)),
      (''futureToleranceSeconds'', JNum (Num 5)), (''maxSpeedKph'', JNum (Num 160)),
      (''maxReminderCount'', JNum (Num 3)), (''notificationTtlSeconds'', JNum (Num 900))]"

definition demo_policy :: geofence_policy where
  "demo_policy =
     \<lparr>policyMode = LIVE, policyVersion = ''v1'', warehouseRadiusMeters = 100,
      warehouseExitRadiusMeters = 150, destinationRadiusMeters = 50, destinationExitRadiusMeters = 80,
      arrivalDwellSeconds = 60, arrivalMinSamples = 2, exitDwellSeconds = 30, exitMinSamples = 2,
      maxGapSeconds = 180, maxObservationDelaySeconds = 300, futureToleranceSeconds = 5,
      maxSpeedKph = 160, reminderIntervalSeconds = 300, maxReminderCount = None,
      notificationTtlSeconds = 900\<rparr>"

definition demo_target :: geofence_target where
  "demo_target = \<lparr>targetLatitude = 0, targetLongitude = 0, entryRadiusMeters = 50, exitRadiusMeters = 80\<rparr>"

definition demo_obs :: "string \<Rightarrow> int \<Rightarrow> real \<Rightarrow> geofence_observation" where
  "demo_obs i t lon = \<lparr>sampleId = i, observedAt = t, obsLatitude = 0, obsLongitude = lon\<rparr>"

lemma demo_inside: "insideEntryOf (demo_obs i t 0) demo_target \<and> \<not> outsideExitOf (demo_obs i t 0) demo_target"
  by (simp add: insideEntryOf_def outsideExitOf_def haversineMeters_self demo_obs_def demo_target_def)

lemma demo_outside: "outsideExitOf (demo_obs i t 180) demo_target \<and> \<not> insideEntryOf (demo_obs i t 180) demo_target"
proof -
  have "haversineMeters (demo_obs i t 180) demo_target = 6371000 * pi"
    by (simp add: haversineMeters_def haversineChord_def js_atan2_def demo_obs_def demo_target_def)
  then show ?thesis
    using pi_ge_two by (simp add: insideEntryOf_def outsideExitOf_def demo_target_def)
qed

lemmas demo_run =
  advanceDsvGeofence_def advanceInPhase_def isStaleObservation_def hasObservationGap_def
  meetsConfirmation_def parseInstant_def Let_def demo_inside demo_outside
  emptyDsvGeofenceState_def demo_policy_def

abbreviation demo_step :: "geofence_state \<Rightarrow> geofence_observation \<Rightarrow> geofence_state" where
  "demo_step \<equiv> geofence_step demo_target demo_policy"

definition demo_entering :: geofence_state where
  "demo_entering = demo_step emptyDsvGeofenceState (demo_obs ''a'' 0 0)"

definition demo_arrived :: geofence_state where
  "demo_arrived = demo_step demo_entering (demo_obs ''b'' 60000 0)"

definition demo_exiting :: geofence_state where
  "demo_exiting = demo_step demo_arrived (demo_obs ''c'' 120000 180)"

lemma demo_entering_eq:
  "demo_entering = \<lparr>phase = ENTERING, candidateStartedAt = Some (Iso 0), candidateSampleCount = 1,
     firstOutsideAt = None, lastObservationAt = Some (Iso 0), lastSampleId = Some ''a'', visitOrdinal = 0\<rparr>"
  by (simp add: demo_entering_def demo_run op_defs) (simp add: demo_obs_def)

lemma demo_arrived_eq:
  "demo_arrived = \<lparr>phase = INSIDE, candidateStartedAt = None, candidateSampleCount = 0,
     firstOutsideAt = None, lastObservationAt = Some (Iso 60000), lastSampleId = Some ''b'', visitOrdinal = 1\<rparr>
   \<and> snd (advanceDsvGeofence demo_entering (demo_obs ''b'' 60000 0) demo_target demo_policy) = ARRIVED"
  by (simp add: demo_arrived_def demo_entering_eq demo_run op_defs) (simp add: demo_obs_def)

lemma demo_exiting_eq:
  "demo_exiting = \<lparr>phase = EXITING, candidateStartedAt = Some (Iso 120000), candidateSampleCount = 1,
     firstOutsideAt = Some (Iso 120000), lastObservationAt = Some (Iso 120000), lastSampleId = Some ''c'', visitOrdinal = 1\<rparr>
   \<and> snd (advanceDsvGeofence demo_exiting (demo_obs ''d'' 150000 180) demo_target demo_policy) = DEPARTED"
  by (simp add: demo_exiting_def demo_arrived_eq demo_run op_defs) (simp add: demo_obs_def)

lemma demo_history:
  "geofence_history demo_target demo_policy demo_entering [demo_obs ''a'' 0 0]"
  "geofence_history demo_target demo_policy demo_arrived [demo_obs ''b'' 60000 0, demo_obs ''a'' 0 0]"
  "geofence_history demo_target demo_policy demo_exiting
     [demo_obs ''c'' 120000 180, demo_obs ''b'' 60000 0, demo_obs ''a'' 0 0]"
proof -
  note fresh = isStaleObservation_def parseInstant_def demo_entering_eq demo_arrived_eq
    emptyDsvGeofenceState_def demo_obs_def
  show a: "geofence_history demo_target demo_policy demo_entering [demo_obs ''a'' 0 0]"
    unfolding demo_entering_def
    by (rule geofence_history.accept [OF geofence_history.start]) (simp add: fresh)
  show b: "geofence_history demo_target demo_policy demo_arrived [demo_obs ''b'' 60000 0, demo_obs ''a'' 0 0]"
    unfolding demo_arrived_def
    by (rule geofence_history.accept [OF a]) (simp add: fresh)
  show "geofence_history demo_target demo_policy demo_exiting
     [demo_obs ''c'' 120000 180, demo_obs ''b'' 60000 0, demo_obs ''a'' 0 0]"
    unfolding demo_exiting_def
    by (rule geofence_history.accept [OF b]) (simp add: fresh)
qed

theorem geofence_replay_idempotent_witness:
  "advanceDsvGeofence demo_arrived (demo_obs ''b'' 60000 0) demo_target demo_policy = (demo_arrived, NONE)"
  using geofence_replay_idempotent [of demo_arrived ARRIVED demo_entering "demo_obs ''b'' 60000 0" demo_target demo_policy]
    demo_arrived_eq by (metis demo_arrived_def prod.collapse)

theorem geofence_arrival_evidence_witness:
  "evidence demo_policy (\<lambda>ob. insideEntryOf ob demo_target) 2 60
     [demo_obs ''b'' 60000 0, demo_obs ''a'' 0 0]"
  using geofence_arrival_evidence [OF demo_history(1) conjunct2 [OF demo_arrived_eq]]
  by (simp add: demo_policy_def)

theorem geofence_departure_evidence_witness:
  "evidence demo_policy (\<lambda>ob. outsideExitOf ob demo_target) 2 30
     [demo_obs ''d'' 150000 180, demo_obs ''c'' 120000 180, demo_obs ''b'' 60000 0, demo_obs ''a'' 0 0]"
  using geofence_departure_evidence [OF demo_history(3) conjunct2 [OF demo_exiting_eq]]
  by (simp add: demo_policy_def)

lemma demo_policy_parses: "parseDsvGeofencePolicy demo_policy_json = Some demo_policy"
  by code_simp

theorem parsed_policy_valid_witness:
  "destinationRadiusMeters demo_policy < destinationExitRadiusMeters demo_policy \<and> maxReminderCount demo_policy = None"
  using parsed_policy_valid [OF demo_policy_parses] by simp

end
