(* ===== verification/OptimizationJobs.thy ===== *)
theory OptimizationJobs
  imports Machines ShopScope
begin

text \<open>
  Route optimization jobs: the job table and its guarded updates
  (\<^verbatim>\<open>modules/route-plans/route-optimization-job.repository.ts\<close>), the service that turns an
  engine outcome into one of them (\<^verbatim>\<open>route-optimization-job.service.ts\<close>) and the runner that
  drives one job from the queue to a terminal state
  (\<^verbatim>\<open>route-optimization-job-runner.ts\<close>). The table is a list of rows; an update with a
  \<^verbatim>\<open>where\<close> clause maps over it; the partial unique index of the table (one active job per
  route plan) and its primary key are the condition under which an insert is refused. Every
  operation takes the current time as an argument. Shown: the table invariant, that terminal jobs
  never change and progress is monotone, what creation and reconciliation leave behind, and that
  the runner writes stops to a route only after it claimed the apply step.
\<close>

section \<open>The table\<close>

datatype job_status = JOB_QUEUED | JOB_RUNNING | JOB_APPLIED | JOB_TIMEOUT | JOB_FAILED | JOB_CANCELLED

datatype job_step = STEP_QUEUED | STEP_CALLING_ENGINE | STEP_APPLYING_RESULT | STEP_COMPLETED

text \<open>One stop of an engine result: delivery stop, sequence, order.\<close>

type_synonym stop_sequence = "(string \<times> int \<times> string) list"

record job =
  jobId :: string
  jobShopId :: string
  jobRoutePlanId :: string
  jobStatus :: job_status
  jobStep :: job_step
  timeoutBudgetMs :: int
  elapsedMsOf :: "int option"
  engineResultSequence :: "stop_sequence option"
  appliedAt :: "int option"
  invalidatedReason :: "string option"
  jobErrorCode :: "string option"
  jobErrorMessage :: "string option"
  traceId :: string
  createdBy :: "string option"
  startedAt :: "int option"
  finishedAt :: "int option"
  createdAt :: int
  updatedAt :: int

record opt_db =
  shopIdOf :: "string \<times> string \<Rightarrow> string option"
  planShopOf :: "string \<Rightarrow> string option"
  jobs :: "job list"

datatype job_error = ROUTE_OPTIMIZATION_JOB_ACTIVE | APP_SCOPE app_scope_error

definition findJobById :: "opt_db \<Rightarrow> string \<Rightarrow> job option" where
  "findJobById db i = List.find (\<lambda>j. jobId j = i) (jobs db)"

text \<open>\<^verbatim>\<open>updateMany({ data, where })\<close>; Prisma stamps \<^verbatim>\<open>updatedAt\<close> on every write.\<close>

definition updateJobs :: "opt_db \<Rightarrow> int \<Rightarrow> (job \<Rightarrow> bool) \<Rightarrow> (job \<Rightarrow> job) \<Rightarrow> opt_db" where
  "updateJobs db now whr data =
     db\<lparr>jobs := map (\<lambda>j. if whr j then (data j)\<lparr>updatedAt := now\<rparr> else j) (jobs db)\<rparr>"

definition isActive :: "job \<Rightarrow> bool" where
  "isActive j = (jobStatus j = JOB_QUEUED \<or> jobStatus j = JOB_RUNNING)"

section \<open>Normalisation of inputs\<close>

definition normalizeShopDomain :: "string \<Rightarrow> string" where
  "normalizeShopDomain v = toLowerCase (js_trim v)"

definition clampBudget :: "real \<Rightarrow> int" where
  "clampBudget x = min 3600000 (max 100 \<lfloor>x\<rfloor>)"

definition normalizeTimeoutBudgetMs :: "jsnum \<Rightarrow> int" where
  "normalizeTimeoutBudgetMs v = (case v of Num x \<Rightarrow> clampBudget x | _ \<Rightarrow> 180000)"

definition normalizeQueueStartBudgetMs :: "jsnum option \<Rightarrow> int" where
  "normalizeQueueStartBudgetMs v = (case v of Some (Num x) \<Rightarrow> clampBudget x | _ \<Rightarrow> 10000)"

definition normalizeNullableText :: "string option \<Rightarrow> string option" where
  "normalizeNullableText v =
     (case v of None \<Rightarrow> None | Some s \<Rightarrow> (if js_trim s = [] then None else Some (js_trim s)))"

text \<open>\<^verbatim>\<open>Date.now().toString(36)\<close>\<close>

definition base36_digit :: "nat \<Rightarrow> char" where
  "base36_digit d = char_of (if d < 10 then 48 + d else 87 + d)"

fun toBase36 :: "nat \<Rightarrow> string" where
  "toBase36 n = (if n < 36 then [base36_digit n] else toBase36 (n div 36) @ [base36_digit (n mod 36)])"

declare toBase36.simps [simp del]

definition normalizeTraceId :: "string option \<Rightarrow> string \<Rightarrow> int \<Rightarrow> string" where
  "normalizeTraceId v routePlanId now =
     (let trimmed = (case v of None \<Rightarrow> [] | Some s \<Rightarrow> js_trim s)
      in if trimmed \<noteq> [] then js_take 128 trimmed
         else ''route-opt:'' @ routePlanId @ '':'' @ toBase36 (nat now))"

definition is_code_char :: "char \<Rightarrow> bool" where
  "is_code_char c =
     (let n = (of_char c :: nat)
      in (97 \<le> n \<and> n \<le> 122) \<or> (48 \<le> n \<and> n \<le> 57) \<or> c = CHR ''_'' \<or> c = CHR '':'' \<or> c = CHR ''-'')"

text \<open>\<^verbatim>\<open>replace(/[^a-z0-9_:-]+/gu, '_')\<close>: a maximal run of other characters is one underscore.\<close>

fun replaceRuns :: "bool \<Rightarrow> string \<Rightarrow> string" where
  "replaceRuns inRun [] = []"
| "replaceRuns inRun (c # cs) =
     (if is_code_char c then c # replaceRuns False cs
      else if inRun then replaceRuns True cs else CHR ''_'' # replaceRuns True cs)"

definition normalizeErrorCode :: "string \<Rightarrow> string" where
  "normalizeErrorCode v =
     (let normalized = replaceRuns False (toLowerCase (js_trim v))
      in js_take 128 (if normalized = [] then ''route_optimization_failed'' else normalized))"

function dropNonSpace :: "string \<Rightarrow> string" where
  "dropNonSpace s =
     (case s of [] \<Rightarrow> [] | c # cs \<Rightarrow> (if strip_units ws_units s \<noteq> s then s else dropNonSpace cs))"
  by pat_completeness auto
termination dropNonSpace
  by (relation "measure length") auto

declare dropNonSpace.simps [simp del]

lemma dropNonSpace_length: "length (dropNonSpace s) \<le> length s"
proof (induction s rule: dropNonSpace.induct)
  case (1 s)
  then show ?case by (subst dropNonSpace.simps) (fastforce split: list.splits)
qed

lemma strip_units_length: "length (strip_units us s) \<le> length s"
  using strip_units_suffix [of s us] by (metis le_add2 length_append)

text \<open>\<^verbatim>\<open>replace(/Bearer\s+[^\s]+/giu, 'Bearer [redacted]')\<close>\<close>

function redactBearer :: "string \<Rightarrow> string" where
  "redactBearer s =
     (case s of [] \<Rightarrow> []
      | c # cs \<Rightarrow>
          (let afterWord = drop 6 s;
               token = strip_units ws_units afterWord;
               rest = dropNonSpace token
           in if starts_with ''bearer'' (toLowerCase s) \<and> length token < length afterWord \<and> length rest < length token
              then ''Bearer [redacted]'' @ redactBearer rest
              else c # redactBearer cs))"
  by pat_completeness auto
termination redactBearer
proof (relation "measure length", goal_cases)
  case 1 show ?case by simp
next
  case (2 s c cs x xa xb)
  then show ?case by (auto simp del: drop_Suc_Cons)
next
  case (3 s c cs x xa xb)
  then show ?case by simp
qed

declare redactBearer.simps [simp del]

definition safeErrorMessage :: "string \<Rightarrow> string" where
  "safeErrorMessage v = js_take 500 (redactBearer v)"

definition elapsedMs :: "int \<Rightarrow> int \<Rightarrow> int" where
  "elapsedMs fromTime toTime = max 0 (toTime - fromTime)"

definition findShopId :: "opt_db \<Rightarrow> string option \<Rightarrow> string \<Rightarrow> job_error + string option" where
  "findShopId db appId shopDomain =
     (case normalizeShopifyAppId appId of
        Inl e \<Rightarrow> Inl (APP_SCOPE e) | Inr a \<Rightarrow> Inr (shopIdOf db (a, normalizeShopDomain shopDomain)))"

section \<open>Stale jobs\<close>

definition isStaleActiveJob :: "job \<Rightarrow> int \<Rightarrow> int \<Rightarrow> bool" where
  "isStaleActiveJob j now queueStartBudgetMs =
     (case jobStatus j of
        JOB_QUEUED \<Rightarrow> now - createdAt j > queueStartBudgetMs
      | JOB_RUNNING \<Rightarrow>
          (if jobStep j = STEP_APPLYING_RESULT then now - updatedAt j > queueStartBudgetMs
           else now - coalesce_def_value (startedAt j) (createdAt j) > timeoutBudgetMs j)
      | _ \<Rightarrow> False)"

definition closeStaleJob :: "int \<Rightarrow> job \<Rightarrow> job" where
  "closeStaleJob now j =
     j\<lparr>jobStep := STEP_COMPLETED,
       elapsedMsOf := Some (elapsedMs (coalesce_def_value (startedAt j) (createdAt j)) now),
       jobErrorCode := Some (if jobStatus j = JOB_RUNNING then ''solver_timeout'' else ''queue_start_timeout''),
       jobErrorMessage := Some (if jobStatus j = JOB_RUNNING
         then ''Route optimization exceeded its result wait limit.''
         else ''Route optimization job did not start before the queue start budget.''),
       finishedAt := Some now,
       jobStatus := (if jobStatus j = JOB_RUNNING then JOB_TIMEOUT else JOB_FAILED)\<rparr>"

definition staleIn :: "string option \<Rightarrow> string \<Rightarrow> int \<Rightarrow> int \<Rightarrow> job \<Rightarrow> bool" where
  "staleIn routePlanId shopId now queueStartBudgetMs j =
     (jobShopId j = shopId \<and> isActive j
      \<and> (case routePlanId of None \<Rightarrow> True | Some r \<Rightarrow> jobRoutePlanId j = r)
      \<and> isStaleActiveJob j now queueStartBudgetMs)"

text \<open>
  The loop updates the stale rows one by one, by their identifier, from the record read before the
  loop; the returned rows are the updated ones.
\<close>

definition reconcileStaleActiveJobsInTransaction ::
  "opt_db \<Rightarrow> int \<Rightarrow> int \<Rightarrow> string option \<Rightarrow> string \<Rightarrow> opt_db \<times> job list" where
  "reconcileStaleActiveJobsInTransaction db now queueStartBudgetMs routePlanId shopId =
     (let stale = filter (staleIn routePlanId shopId now queueStartBudgetMs) (jobs db);
          db' = foldl (\<lambda>d r. updateJobs d now (\<lambda>j. jobId j = jobId r) (\<lambda>_. closeStaleJob now r)) db stale
      in (db', map (\<lambda>r. (closeStaleJob now r)\<lparr>updatedAt := now\<rparr>) stale))"

section \<open>Repository operations\<close>

record create_job_input =
  ciAppId :: "string option"
  ciCreatedBy :: "string option"
  ciQueueStartBudgetMs :: "jsnum option"
  ciRoutePlanId :: string
  ciShopDomain :: string
  ciTimeoutBudgetMs :: jsnum
  ciTraceId :: "string option"

definition newJob :: "create_job_input \<Rightarrow> string \<Rightarrow> string \<Rightarrow> int \<Rightarrow> job" where
  "newJob ci shopId freshId now =
     \<lparr>jobId = freshId, jobShopId = shopId, jobRoutePlanId = ciRoutePlanId ci,
      jobStatus = JOB_QUEUED, jobStep = STEP_QUEUED,
      timeoutBudgetMs = normalizeTimeoutBudgetMs (ciTimeoutBudgetMs ci),
      elapsedMsOf = None, engineResultSequence = None, appliedAt = None, invalidatedReason = None,
      jobErrorCode = None, jobErrorMessage = None,
      traceId = normalizeTraceId (ciTraceId ci) (ciRoutePlanId ci) now,
      createdBy = normalizeNullableText (ciCreatedBy ci),
      startedAt = None, finishedAt = None, createdAt = now, updatedAt = now\<rparr>"

text \<open>
  An insert violates a unique constraint (error P2002) when the identifier exists or the partial
  index already holds an active job of the route plan; the transaction is rolled back on a throw.
\<close>

definition uniqueViolation :: "opt_db \<Rightarrow> job \<Rightarrow> bool" where
  "uniqueViolation db j =
     (\<exists>k \<in> set (jobs db). jobId k = jobId j \<or> (isActive k \<and> isActive j \<and> jobRoutePlanId k = jobRoutePlanId j))"

definition createJob ::
  "opt_db \<Rightarrow> create_job_input \<Rightarrow> string \<Rightarrow> int \<Rightarrow> opt_db \<times> (job_error + job option)" where
  "createJob db ci freshId now =
     (case findShopId db (ciAppId ci) (ciShopDomain ci) of
        Inl e \<Rightarrow> (db, Inl e)
      | Inr None \<Rightarrow> (db, Inr None)
      | Inr (Some shopId) \<Rightarrow>
          (if planShopOf db (ciRoutePlanId ci) \<noteq> Some shopId then (db, Inr None)
           else
             (let db1 = fst (reconcileStaleActiveJobsInTransaction db now
                               (normalizeQueueStartBudgetMs (ciQueueStartBudgetMs ci))
                               (Some (ciRoutePlanId ci)) shopId);
                  j = newJob ci shopId freshId now
              in if (\<exists>k \<in> set (jobs db1). jobRoutePlanId k = ciRoutePlanId ci \<and> isActive k)
                 then (db, Inl ROUTE_OPTIMIZATION_JOB_ACTIVE)
                 else if uniqueViolation db1 j then (db, Inl ROUTE_OPTIMIZATION_JOB_ACTIVE)
                 else (db1\<lparr>jobs := jobs db1 @ [j]\<rparr>, Inr (Some j)))))"

definition findJob :: "opt_db \<Rightarrow> string option \<Rightarrow> string \<Rightarrow> string \<Rightarrow> string \<Rightarrow> job_error + job option" where
  "findJob db appId shopDomain routePlanId i =
     (case findShopId db appId shopDomain of
        Inl e \<Rightarrow> Inl e
      | Inr None \<Rightarrow> Inr None
      | Inr (Some shopId) \<Rightarrow>
          Inr (List.find (\<lambda>j. jobId j = i \<and> jobRoutePlanId j = routePlanId \<and> jobShopId j = shopId) (jobs db)))"

text \<open>
  \<^verbatim>\<open>orderBy: { createdAt: 'desc' }\<close>, first row; among equal timestamps the database may answer
  with any row, and the model answers with the one stored first.
\<close>

definition latestBy :: "job list \<Rightarrow> job option" where
  "latestBy js = (case sort_by (\<lambda>a b. createdAt b - createdAt a) js of [] \<Rightarrow> None | j # _ \<Rightarrow> Some j)"

definition findLatestJob :: "opt_db \<Rightarrow> string option \<Rightarrow> string \<Rightarrow> string \<Rightarrow> job_error + job option" where
  "findLatestJob db appId shopDomain routePlanId =
     (case findShopId db appId shopDomain of
        Inl e \<Rightarrow> Inl e
      | Inr None \<Rightarrow> Inr None
      | Inr (Some shopId) \<Rightarrow>
          Inr (latestBy (filter (\<lambda>j. jobRoutePlanId j = routePlanId \<and> jobShopId j = shopId) (jobs db))))"

definition updateJobIfActive ::
  "opt_db \<Rightarrow> int \<Rightarrow> string \<Rightarrow> (job \<Rightarrow> job) \<Rightarrow> (job \<Rightarrow> bool) \<Rightarrow> opt_db \<times> job option" where
  "updateJobIfActive db now i data whr =
     (if \<not> (\<exists>j \<in> set (jobs db). jobId j = i \<and> whr j) then (db, None)
      else (let db' = updateJobs db now (\<lambda>j. jobId j = i \<and> whr j) data in (db', findJobById db' i)))"

definition markRunning :: "opt_db \<Rightarrow> int \<Rightarrow> string \<Rightarrow> opt_db \<times> job option" where
  "markRunning db now i =
     updateJobIfActive db now i
       (\<lambda>j. j\<lparr>jobStep := STEP_CALLING_ENGINE, startedAt := Some now, jobStatus := JOB_RUNNING\<rparr>)
       (\<lambda>j. jobStep j = STEP_QUEUED \<and> jobStatus j = JOB_QUEUED)"

definition markApplyingResult :: "opt_db \<Rightarrow> int \<Rightarrow> string \<Rightarrow> opt_db \<times> job option" where
  "markApplyingResult db now i =
     (case findJobById db i of
        None \<Rightarrow> (db, None)
      | Some current \<Rightarrow>
          (if jobStatus current \<noteq> JOB_RUNNING then (db, None)
           else if isStaleActiveJob current now 10000 then
             (updateJobs db now (\<lambda>j. jobId j = jobId current)
                (\<lambda>j. j\<lparr>jobStep := STEP_COMPLETED,
                       elapsedMsOf := Some (elapsedMs (coalesce_def_value (startedAt current) (createdAt current)) now),
                       jobErrorCode := Some ''solver_timeout'',
                       jobErrorMessage := Some ''Route optimization exceeded its result wait limit before result application.'',
                       finishedAt := Some now, jobStatus := JOB_TIMEOUT\<rparr>),
              None)
           else
             (let whr = (\<lambda>j. jobId j = i \<and> jobStatus j = JOB_RUNNING)
              in if \<not> (\<exists>j \<in> set (jobs db). whr j) then (db, None)
                 else (let db' = updateJobs db now whr (\<lambda>j. j\<lparr>jobStep := STEP_APPLYING_RESULT\<rparr>)
                       in (db', findJobById db' i)))))"

definition markApplied :: "opt_db \<Rightarrow> int \<Rightarrow> string \<Rightarrow> stop_sequence \<Rightarrow> opt_db \<times> job option" where
  "markApplied db now i stops =
     (case findJobById db i of
        None \<Rightarrow> (db, None)
      | Some current \<Rightarrow>
          (if jobStatus current \<noteq> JOB_RUNNING \<or> jobStep current \<noteq> STEP_APPLYING_RESULT then (db, None)
           else
             updateJobIfActive db now i
               (\<lambda>j. j\<lparr>appliedAt := Some now, jobStep := STEP_COMPLETED,
                      elapsedMsOf := Some (elapsedMs (coalesce_def_value (startedAt current) (createdAt current)) now),
                      engineResultSequence := Some stops, finishedAt := Some now, jobStatus := JOB_APPLIED\<rparr>)
               (\<lambda>j. jobStep j = STEP_APPLYING_RESULT \<and> jobStatus j = JOB_RUNNING)))"

text \<open>The start time used for the elapsed time of a job that may have disappeared.\<close>

definition startOf :: "job option \<Rightarrow> int \<Rightarrow> int" where
  "startOf current now =
     (case current of None \<Rightarrow> now | Some j \<Rightarrow> coalesce_def_value (startedAt j) (createdAt j))"

definition markTimedOut ::
  "opt_db \<Rightarrow> int \<Rightarrow> string \<Rightarrow> int option \<Rightarrow> string option \<Rightarrow> string option \<Rightarrow> opt_db \<times> job option" where
  "markTimedOut db now i elapsed code message =
     updateJobIfActive db now i
       (\<lambda>j. j\<lparr>jobStep := STEP_COMPLETED,
              elapsedMsOf := Some (coalesce_def_value elapsed (elapsedMs (startOf (findJobById db i) now) now)),
              jobErrorCode := Some (coalesce_def_value code ''solver_timeout''),
              jobErrorMessage := Some (safeErrorMessage (coalesce_def_value message ''Route optimization timed out.'')),
              finishedAt := Some now, jobStatus := JOB_TIMEOUT\<rparr>)
       isActive"

definition markFailed ::
  "opt_db \<Rightarrow> int \<Rightarrow> string \<Rightarrow> int option \<Rightarrow> string \<Rightarrow> string \<Rightarrow> opt_db \<times> job option" where
  "markFailed db now i elapsed code message =
     updateJobIfActive db now i
       (\<lambda>j. j\<lparr>jobStep := STEP_COMPLETED,
              elapsedMsOf := Some (coalesce_def_value elapsed (elapsedMs (startOf (findJobById db i) now) now)),
              jobErrorCode := Some (normalizeErrorCode code),
              jobErrorMessage := Some (safeErrorMessage message),
              finishedAt := Some now, jobStatus := JOB_FAILED\<rparr>)
       isActive"

definition reconcileStaleActiveJobs ::
  "opt_db \<Rightarrow> int \<Rightarrow> string option \<Rightarrow> string \<Rightarrow> jsnum option \<Rightarrow> string option \<Rightarrow> opt_db \<times> (job_error + job list)" where
  "reconcileStaleActiveJobs db now appId shopDomain queueStartBudgetMs routePlanId =
     (case findShopId db appId shopDomain of
        Inl e \<Rightarrow> (db, Inl e)
      | Inr None \<Rightarrow> (db, Inr [])
      | Inr (Some shopId) \<Rightarrow>
          (let r = reconcileStaleActiveJobsInTransaction db now
                     (normalizeQueueStartBudgetMs queueStartBudgetMs) routePlanId shopId
           in (fst r, Inr (snd r))))"

section \<open>Service and runner\<close>

record engine_failure =
  failureCode :: string
  failureElapsedMs :: int
  failureMessage :: string

datatype engine_outcome = EngineFailure engine_failure | EngineOk stop_sequence

definition recordEngineOutcome :: "opt_db \<Rightarrow> int \<Rightarrow> string \<Rightarrow> engine_outcome \<Rightarrow> opt_db \<times> job option" where
  "recordEngineOutcome db now i outcome =
     (case outcome of
        EngineOk stops \<Rightarrow> markApplied db now i stops
      | EngineFailure f \<Rightarrow>
          (if failureCode f = ''solver_timeout''
           then markTimedOut db now i (Some (failureElapsedMs f)) (Some (failureCode f)) (Some (failureMessage f))
           else markFailed db now i (Some (failureElapsedMs f)) (failureCode f) (failureMessage f)))"

text \<open>
  The services the runner is given: reading a route plan (and the signature of its shape), the
  optimizer (an exception is \<^const>\<open>Inl\<close>, its text already sanitized), and the part of the stop
  transaction that concerns the route tables (an exception is \<^const>\<open>Inl\<close>, a missing route plan
  \<open>Inr None\<close>, otherwise the validated stops it stored). Between two awaited calls other requests
  run: \<open>interfere k\<close> is what they do to the table before the \<open>k\<close>-th call, and \<open>clock k\<close> is the time
  of that call.
\<close>

datatype 'd optimizer =
    WithDiagnostics "'d \<Rightarrow> string + engine_outcome"
  | LegacyOptimizer "'d \<Rightarrow> string + stop_sequence option"

record 'd runner_env =
  getRoutePlanDetail :: "nat \<Rightarrow> 'd option"
  shapeSignature :: "'d \<Rightarrow> string"
  routeOptimizationService :: "'d optimizer option"
  writeRouteStops :: "stop_sequence \<Rightarrow> string + stop_sequence option"
  interfere :: "nat \<Rightarrow> opt_db \<Rightarrow> opt_db"
  clock :: "nat \<Rightarrow> int"

record 'd runner_input =
  initialDetail :: "'d option"
  runJob :: job
  rejectStaleRouteShape :: bool
  runShopDomain :: string

definition failureOutcome :: "string \<Rightarrow> int \<Rightarrow> string \<Rightarrow> engine_outcome" where
  "failureOutcome code elapsed message =
     EngineFailure \<lparr>failureCode = code, failureElapsedMs = elapsed, failureMessage = message\<rparr>"

definition runRouteOptimizationEngine :: "'d optimizer option \<Rightarrow> 'd \<Rightarrow> int \<Rightarrow> string + engine_outcome" where
  "runRouteOptimizationEngine service d elapsed =
     (case service of
        None \<Rightarrow> Inr (failureOutcome ''optimizer_unavailable'' elapsed ''Route optimization service is not configured.'')
      | Some (WithDiagnostics f) \<Rightarrow> f d
      | Some (LegacyOptimizer g) \<Rightarrow>
          (case g d of
             Inl err \<Rightarrow> Inl err
           | Inr None \<Rightarrow> Inr (failureOutcome ''fallback_not_applied'' elapsed
               ''Legacy route optimization service did not return an optimizer result; no fallback was applied.'')
           | Inr (Some stops) \<Rightarrow> Inr (EngineOk stops)))"

text \<open>The pair is the table and the stops written to the route plan, if any were.\<close>

definition finishWith ::
  "'d runner_env \<Rightarrow> 'd runner_input \<Rightarrow> nat \<Rightarrow> int \<Rightarrow> string \<Rightarrow> string \<Rightarrow> opt_db \<Rightarrow> opt_db" where
  "finishWith env inp k started code message db =
     fst (recordEngineOutcome (interfere env k db) (clock env k) (jobId (runJob inp))
            (failureOutcome code (max 0 (clock env k - started)) message))"

text \<open>
  The transaction that replaces the stops of a route on behalf of a job: it needs the job in its
  apply step, and closes the job together with the write; a throw rolls both back.
\<close>

definition applyJobInStopsTransaction ::
  "opt_db \<Rightarrow> int \<Rightarrow> string \<Rightarrow> string \<Rightarrow> string \<Rightarrow> stop_sequence \<Rightarrow> opt_db option" where
  "applyJobInStopsTransaction db now shopId routePlanId i normalizedStops =
     (let claimed = (\<lambda>j. jobStep j = STEP_APPLYING_RESULT \<and> jobId j = i \<and> jobRoutePlanId j = routePlanId
                          \<and> jobShopId j = shopId \<and> jobStatus j = JOB_RUNNING)
      in case List.find claimed (jobs db) of
           None \<Rightarrow> None
         | Some applyingJob \<Rightarrow>
             Some (updateJobs db now claimed
               (\<lambda>j. j\<lparr>appliedAt := Some now, jobStep := STEP_COMPLETED,
                      elapsedMsOf := Some (elapsedMs (coalesce_def_value (startedAt applyingJob) (createdAt applyingJob)) now),
                      engineResultSequence := Some normalizedStops, finishedAt := Some now, jobStatus := JOB_APPLIED\<rparr>)))"

definition updateRoutePlanStops ::
  "'d runner_env \<Rightarrow> 'd runner_input \<Rightarrow> opt_db \<Rightarrow> int \<Rightarrow> stop_sequence \<Rightarrow> opt_db \<times> (string + stop_sequence option)" where
  "updateRoutePlanStops env inp db now stops =
     (case findShopId db None (runShopDomain inp) of
        Inl e \<Rightarrow> (db, Inl ''Route optimization failed'')
      | Inr None \<Rightarrow> (db, Inr None)
      | Inr (Some shopId) \<Rightarrow>
          (case writeRouteStops env stops of
             Inl err \<Rightarrow> (db, Inl err)
           | Inr None \<Rightarrow> (db, Inr None)
           | Inr (Some normalizedStops) \<Rightarrow>
               (case applyJobInStopsTransaction db now shopId (jobRoutePlanId (runJob inp)) (jobId (runJob inp)) normalizedStops of
                  None \<Rightarrow> (db, Inl ''Route optimization failed'')
                | Some db' \<Rightarrow> (db', Inr (Some normalizedStops)))))"

definition applyOutcome ::
  "'d runner_env \<Rightarrow> 'd runner_input \<Rightarrow> int \<Rightarrow> stop_sequence \<Rightarrow> opt_db \<Rightarrow> opt_db \<times> stop_sequence option" where
  "applyOutcome env inp started stops db =
     (let claim = markApplyingResult (interfere env 5 db) (clock env 5) (jobId (runJob inp))
      in case snd claim of
           None \<Rightarrow> (fst claim, None)
         | Some _ \<Rightarrow>
             (case updateRoutePlanStops env inp (interfere env 6 (fst claim)) (clock env 6) stops of
                (db6, Inl err) \<Rightarrow>
                  (finishWith env inp 7 started ''invalid_input''
                     (''Route optimization result could not be applied: '' @ err) db6, None)
              | (db6, Inr None) \<Rightarrow>
                  (finishWith env inp 7 started ''invalid_input''
                     ''Route optimization result could not be applied because the route plan was not found.'' db6, None)
              | (db6, Inr (Some written)) \<Rightarrow>
                  (fst (recordEngineOutcome (interfere env 7 db6) (clock env 7) (jobId (runJob inp)) (EngineOk stops)),
                   Some written)))"

definition latestIsRunning ::
  "'d runner_env \<Rightarrow> 'd runner_input \<Rightarrow> int \<Rightarrow> stop_sequence \<Rightarrow> opt_db \<Rightarrow> opt_db \<times> stop_sequence option" where
  "latestIsRunning env inp started stops db =
     (let db4 = interfere env 4 db
      in case findLatestJob db4 None (runShopDomain inp) (jobRoutePlanId (runJob inp)) of
           Inl _ \<Rightarrow> (db4, None)
         | Inr latest \<Rightarrow>
             (if map_option jobId latest \<noteq> Some (jobId (runJob inp)) then
                (finishWith env inp 5 started ''invalid_input''
                   ''Route optimization result was not applied because a newer optimization job exists.'' db4, None)
              else if map_option jobStatus latest \<noteq> Some JOB_RUNNING then (db4, None)
              else applyOutcome env inp started stops db4))"

definition runRouteOptimizationJob ::
  "'d runner_env \<Rightarrow> 'd runner_input \<Rightarrow> opt_db \<Rightarrow> opt_db \<times> stop_sequence option" where
  "runRouteOptimizationJob env inp db =
     (let running = markRunning (interfere env 0 db) (clock env 0) (jobId (runJob inp));
          db1 = fst running;
          started = clock env 1
      in case snd running of
           None \<Rightarrow> (db1, None)
         | Some _ \<Rightarrow>
             (case (case initialDetail inp of Some d \<Rightarrow> Some d | None \<Rightarrow> getRoutePlanDetail env 1) of
                None \<Rightarrow>
                  (finishWith env inp 2 started ''invalid_input''
                     ''Route plan was not found before route optimization could run.'' db1, None)
              | Some d \<Rightarrow>
                  (case (case runRouteOptimizationEngine (routeOptimizationService env) d (max 0 (clock env 2 - started)) of
                           Inl err \<Rightarrow> failureOutcome ''optimizer_unavailable'' (max 0 (clock env 2 - started))
                                        (''Route optimization failed unexpectedly: '' @ err)
                         | Inr r \<Rightarrow> r) of
                     EngineFailure f \<Rightarrow>
                       (fst (recordEngineOutcome (interfere env 3 db1) (clock env 3) (jobId (runJob inp)) (EngineFailure f)), None)
                   | EngineOk stops \<Rightarrow>
                       (if rejectStaleRouteShape inp
                           \<and> map_option (shapeSignature env) (getRoutePlanDetail env 3) \<noteq> Some (shapeSignature env d)
                        then (finishWith env inp 4 started ''invalid_input''
                                ''Route optimization result was not applied because the route changed while the optimizer was running.'' db1, None)
                        else latestIsRunning env inp started stops db1))))"

lemmas repository_defs [op_defs] =
  markRunning_def markApplyingResult_def markApplied_def markTimedOut_def markFailed_def
  updateJobIfActive_def updateJobs_def


section \<open>The table invariant\<close>

definition job_ok :: "job \<Rightarrow> bool" where
  "job_ok j =
     ((jobStatus j = JOB_QUEUED) = (jobStep j = STEP_QUEUED)
      \<and> (jobStatus j = JOB_RUNNING) = (jobStep j = STEP_CALLING_ENGINE \<or> jobStep j = STEP_APPLYING_RESULT)
      \<and> isActive j = (finishedAt j = None)
      \<and> (jobStatus j = JOB_RUNNING \<longrightarrow> startedAt j \<noteq> None)
      \<and> (jobStatus j = JOB_APPLIED \<longrightarrow> appliedAt j \<noteq> None \<and> engineResultSequence j \<noteq> None)
      \<and> 100 \<le> timeoutBudgetMs j \<and> timeoutBudgetMs j \<le> 3600000)"

definition one_active :: "job list \<Rightarrow> bool" where
  "one_active js = (\<forall>j \<in> set js. \<forall>k \<in> set js.
     isActive j \<and> isActive k \<and> jobRoutePlanId j = jobRoutePlanId k \<longrightarrow> jobId j = jobId k)"

definition jobs_inv :: "opt_db \<Rightarrow> bool" where
  "jobs_inv db = (distinct (map jobId (jobs db)) \<and> one_active (jobs db) \<and> (\<forall>j \<in> set (jobs db). job_ok j))"

lemmas job_inv_defs [inv_defs] = jobs_inv_def job_ok_def one_active_def isActive_def

text \<open>
  What one guarded write may do to an active row: keep its identity and its route, keep the row
  well formed, and move it forward only.
\<close>

fun step_rank :: "job_step \<Rightarrow> nat" where
  "step_rank STEP_QUEUED = 1"
| "step_rank STEP_CALLING_ENGINE = 2"
| "step_rank STEP_APPLYING_RESULT = 3"
| "step_rank STEP_COMPLETED = 4"

definition row_step :: "job \<Rightarrow> job \<Rightarrow> bool" where
  "row_step j j' =
     (isActive j \<and> jobId j' = jobId j \<and> jobRoutePlanId j' = jobRoutePlanId j
      \<and> (job_ok j \<longrightarrow> job_ok j' \<and> step_rank (jobStep j) \<le> step_rank (jobStep j')))"

lemmas row_defs = row_step_def job_ok_def isActive_def

lemma job_stamp [simp]:
  "isActive (j\<lparr>updatedAt := t\<rparr>) = isActive j" "job_ok (j\<lparr>updatedAt := t\<rparr>) = job_ok j"
  "row_step k (j\<lparr>updatedAt := t\<rparr>) = row_step k j"
  by (simp_all add: row_defs)

definition guarded_write :: "opt_db \<Rightarrow> opt_db \<Rightarrow> bool" where
  "guarded_write db db' =
     (\<exists>f. db' = db\<lparr>jobs := map f (jobs db)\<rparr> \<and> (\<forall>j \<in> set (jobs db). f j = j \<or> row_step j (f j)))"

lemma guarded_write_refl [simp]: "guarded_write db db"
  unfolding guarded_write_def by (rule exI [of _ id]) simp

lemma guarded_updateJobs:
  assumes "\<And>j. j \<in> set (jobs db) \<Longrightarrow> whr j \<Longrightarrow> row_step j (data j)"
  shows "guarded_write db (updateJobs db now whr data)"
  unfolding guarded_write_def updateJobs_def
  using assms by (intro exI [of _ "\<lambda>j. if whr j then (data j)\<lparr>updatedAt := now\<rparr> else j"]) simp

lemma guarded_updateJobIfActive:
  assumes "\<And>j. jobId j = i \<Longrightarrow> whr j \<Longrightarrow> row_step j (data j)"
  shows "guarded_write db (fst (updateJobIfActive db now i data whr))"
  using guarded_updateJobs [of db "\<lambda>j. jobId j = i \<and> whr j" data now] assms
  by (simp add: updateJobIfActive_def Let_def)

lemma guarded_write_inv:
  assumes inv: "jobs_inv db" and w: "guarded_write db db'"
  shows "jobs_inv db'"
proof -
  let ?js = "jobs db"
  from w obtain f where db': "db' = db\<lparr>jobs := map f ?js\<rparr>"
    and f: "\<And>j. j \<in> set ?js \<Longrightarrow> f j = j \<or> row_step j (f j)"
    unfolding guarded_write_def by blast
  have ok: "job_ok j" if "j \<in> set ?js" for j using inv that unfolding jobs_inv_def by blast
  have keep: "jobId (f j) = jobId j" "jobRoutePlanId (f j) = jobRoutePlanId j"
      "isActive (f j) \<Longrightarrow> isActive j" "job_ok (f j)" if "j \<in> set ?js" for j
    using f [OF that] ok [OF that] unfolding row_step_def by metis+
  have "map jobId (map f ?js) = map jobId ?js" using keep(1) by simp
  then have "distinct (map jobId (map f ?js))" using inv unfolding jobs_inv_def by metis
  moreover have "one_active (map f ?js)"
    unfolding one_active_def
  proof (intro ballI impI)
    fix a b
    assume ab: "a \<in> set (map f ?js)" "b \<in> set (map f ?js)"
      and act: "isActive a \<and> isActive b \<and> jobRoutePlanId a = jobRoutePlanId b"
    then obtain j k where jk: "j \<in> set ?js" "a = f j" "k \<in> set ?js" "b = f k"
      unfolding set_map by blast
    then have "isActive j \<and> isActive k \<and> jobRoutePlanId j = jobRoutePlanId k"
      using keep act by metis
    then have "jobId j = jobId k"
      using inv jk unfolding jobs_inv_def one_active_def by blast
    then show "jobId a = jobId b" using jk keep(1) by simp
  qed
  moreover have "\<forall>j \<in> set (map f ?js). job_ok j"
    using keep(4) unfolding set_map by blast
  ultimately show ?thesis
    unfolding jobs_inv_def db' by simp
qed

lemma find_map_ids:
  assumes "\<And>j. j \<in> set js \<Longrightarrow> jobId (f j) = jobId j"
  shows "List.find (\<lambda>j. jobId j = i) (map f js) = map_option f (List.find (\<lambda>j. jobId j = i) js)"
  using assms by (induction js) auto

lemma guarded_write_find:
  assumes "guarded_write db db'" and "findJobById db i = Some j"
  shows "\<exists>j'. findJobById db' i = Some j' \<and> (j' = j \<or> row_step j j')"
proof -
  from assms(1) obtain f where db': "db' = db\<lparr>jobs := map f (jobs db)\<rparr>"
    and f: "\<And>j. j \<in> set (jobs db) \<Longrightarrow> f j = j \<or> row_step j (f j)"
    unfolding guarded_write_def by blast
  have "jobId (f k) = jobId k" if "k \<in> set (jobs db)" for k
    using f [OF that] unfolding row_step_def by metis
  then have "findJobById db' i = Some (f j)"
    using assms(2) find_map_ids [of "jobs db" f i] unfolding findJobById_def db' by simp
  moreover have "j \<in> set (jobs db)"
    using assms(2) unfolding findJobById_def find_Some_iff by (metis nth_mem)
  ultimately show ?thesis using f by blast
qed

lemma findJobById_in: "findJobById db i = Some j \<Longrightarrow> j \<in> set (jobs db) \<and> jobId j = i"
  by (auto simp: findJobById_def find_Some_iff)

lemma findJobById_iff:
  "distinct (map jobId (jobs db)) \<Longrightarrow> (findJobById db i = Some j) = (j \<in> set (jobs db) \<and> jobId j = i)"
proof
  assume d: "distinct (map jobId (jobs db))" and j: "j \<in> set (jobs db) \<and> jobId j = i"
  then obtain k where k: "findJobById db i = Some k"
    by (cases "findJobById db i") (auto simp: findJobById_def find_None_iff)
  then have "k \<in> set (jobs db)" and "jobId k = jobId j" using findJobById_in j by auto
  then have "k = j" using d j by (auto simp: distinct_map dest: inj_onD)
  then show "findJobById db i = Some j" using k by simp
qed (rule findJobById_in)

section \<open>Reconciliation as one pass over the table\<close>

lemma foldl_update_rows:
  assumes "\<And>r. jobId (g r) = jobId r" and "distinct (map jobId rs)"
  shows "foldl (\<lambda>d r. updateJobs d now (\<lambda>j. jobId j = jobId r) (\<lambda>_. g r)) db rs =
    db\<lparr>jobs := map (\<lambda>j. case List.find (\<lambda>r. jobId r = jobId j) rs of
         None \<Rightarrow> j | Some r \<Rightarrow> (g r)\<lparr>updatedAt := now\<rparr>) (jobs db)\<rparr>"
  using assms(2)
proof (induction rs arbitrary: db)
  case Nil
  then show ?case by simp
next
  case (Cons r rs)
  have "List.find (\<lambda>r'. jobId r' = jobId r) rs = None"
    using Cons.prems unfolding find_None_iff by (metis distinct.simps(2) imageI list.simps(9) set_map)
  then show ?case
    using Cons by (auto simp: updateJobs_def assms(1) intro!: map_cong)
qed

lemma jobId_closeStaleJob [simp]: "jobId (closeStaleJob now r) = jobId r"
  by (simp add: closeStaleJob_def)

lemma reconcile_one_pass:
  assumes "distinct (map jobId (jobs db))"
  shows "fst (reconcileStaleActiveJobsInTransaction db now q routePlanId shopId) =
    db\<lparr>jobs := map (\<lambda>j. if staleIn routePlanId shopId now q j
         then (closeStaleJob now j)\<lparr>updatedAt := now\<rparr> else j) (jobs db)\<rparr>"
proof -
  let ?stale = "filter (staleIn routePlanId shopId now q) (jobs db)"
  have d: "distinct (map jobId ?stale)" using assms by (simp add: distinct_map_filter)
  have "(case List.find (\<lambda>r. jobId r = jobId j) ?stale of None \<Rightarrow> j | Some r \<Rightarrow> (closeStaleJob now r)\<lparr>updatedAt := now\<rparr>)
      = (if staleIn routePlanId shopId now q j then (closeStaleJob now j)\<lparr>updatedAt := now\<rparr> else j)"
    if jin: "j \<in> set (jobs db)" for j
  proof (cases "staleIn routePlanId shopId now q j")
    case True
    then obtain r where r: "List.find (\<lambda>r. jobId r = jobId j) ?stale = Some r"
      using jin by (cases "List.find (\<lambda>r. jobId r = jobId j) ?stale") (auto simp: find_None_iff simp del: split_paired_All)
    then have "r \<in> set ?stale" and id: "jobId r = jobId j"
      unfolding find_Some_iff by (auto simp del: set_filter)
    then have "r \<in> set (jobs db)" by simp
    then have "r = j" using assms jin id by (auto simp: distinct_map dest: inj_onD)
    then show ?thesis using r True by simp
  next
    case False
    then have "List.find (\<lambda>r. jobId r = jobId j) ?stale = None"
      using assms jin unfolding find_None_iff by (auto simp: distinct_map dest: inj_onD)
    then show ?thesis using False by simp
  qed
  then show ?thesis
    unfolding reconcileStaleActiveJobsInTransaction_def Let_def fst_conv
    by (subst foldl_update_rows [OF jobId_closeStaleJob d]) (auto cong: map_cong)
qed

lemma row_step_closeStaleJob: "isActive j \<Longrightarrow> row_step j (closeStaleJob now j)"
  by (cases "jobStep j") (auto simp: row_defs closeStaleJob_def)

lemma guarded_reconcile:
  assumes "jobs_inv db"
  shows "guarded_write db (fst (reconcileStaleActiveJobsInTransaction db now q routePlanId shopId))"
proof -
  have "distinct (map jobId (jobs db))" using assms by (simp add: jobs_inv_def)
  then show ?thesis
    unfolding guarded_write_def
    by (intro exI [of _ "\<lambda>j. if staleIn routePlanId shopId now q j
         then (closeStaleJob now j)\<lparr>updatedAt := now\<rparr> else j"])
      (simp add: reconcile_one_pass staleIn_def row_step_closeStaleJob)
qed

section \<open>Every operation is a guarded write\<close>

lemma guarded_markRunning: "guarded_write db (fst (markRunning db now i))"
  unfolding markRunning_def by (rule guarded_updateJobIfActive) (simp add: row_defs)

lemma guarded_markApplyingResult:
  assumes inv: "jobs_inv db"
  shows "guarded_write db (fst (markApplyingResult db now i))"
proof (cases "findJobById db i")
  case None
  then show ?thesis by (simp add: markApplyingResult_def)
next
  case (Some current)
  then have "current \<in> set (jobs db)" and "jobId current = i" by (auto dest: findJobById_in)
  then have same: "j = current" if "j \<in> set (jobs db)" "jobId j = jobId current" for j
    using that inv by (auto simp: jobs_inv_def distinct_map dest: inj_onD)
  have close: "guarded_write db (updateJobs db now (\<lambda>j. jobId j = jobId current) data)"
    if "row_step current (data current)" for data
    using that same by (intro guarded_updateJobs) auto
  have claim: "guarded_write db (updateJobs db now (\<lambda>j. jobId j = i \<and> jobStatus j = JOB_RUNNING)
      (\<lambda>j. j\<lparr>jobStep := STEP_APPLYING_RESULT\<rparr>))"
    by (rule guarded_updateJobs) (auto simp: row_defs)
  have timeout: "row_step current (current\<lparr>jobStep := STEP_COMPLETED, elapsedMsOf := e, jobErrorCode := c,
      jobErrorMessage := m, finishedAt := Some now, jobStatus := JOB_TIMEOUT\<rparr>)"
    if "jobStatus current = JOB_RUNNING" for e c m
    using that by (auto simp: row_defs)
  show ?thesis
    using Some claim close timeout by (simp add: markApplyingResult_def Let_def)
qed

lemma guarded_markApplied: "guarded_write db (fst (markApplied db now i stops))"
proof -
  have "guarded_write db (fst (updateJobIfActive db now i
      (\<lambda>j. j\<lparr>appliedAt := Some now, jobStep := STEP_COMPLETED, elapsedMsOf := e,
             engineResultSequence := Some stops, finishedAt := Some now, jobStatus := JOB_APPLIED\<rparr>)
      (\<lambda>j. jobStep j = STEP_APPLYING_RESULT \<and> jobStatus j = JOB_RUNNING)))" for e
    by (rule guarded_updateJobIfActive) (simp add: row_defs)
  then show ?thesis by (simp add: markApplied_def split: option.split)
qed

lemma guarded_applyJobInStopsTransaction:
  assumes "applyJobInStopsTransaction db now shopId r i stops = Some db'"
  shows "guarded_write db db'"
proof -
  have "row_step j (j\<lparr>appliedAt := Some now, jobStep := STEP_COMPLETED, elapsedMsOf := Some e,
      engineResultSequence := Some stops, finishedAt := Some now, jobStatus := JOB_APPLIED\<rparr>)"
    if "jobStep j = STEP_APPLYING_RESULT" "jobStatus j = JOB_RUNNING" for j e
    using that by (simp add: row_defs)
  then show ?thesis
    using assms unfolding applyJobInStopsTransaction_def Let_def
    by (clarsimp split: option.splits) (rule guarded_updateJobs, simp)
qed

lemma row_step_finish:
  "isActive j \<Longrightarrow> st = JOB_TIMEOUT \<or> st = JOB_FAILED \<Longrightarrow>
   row_step j (j\<lparr>jobStep := STEP_COMPLETED, elapsedMsOf := e, jobErrorCode := c, jobErrorMessage := m,
     finishedAt := Some now, jobStatus := st\<rparr>)"
  by (cases "jobStep j") (auto simp: row_defs)

lemma guarded_markTimedOut: "guarded_write db (fst (markTimedOut db now i e c m))"
  unfolding markTimedOut_def by (rule guarded_updateJobIfActive) (simp add: row_step_finish)

lemma guarded_markFailed: "guarded_write db (fst (markFailed db now i e c m))"
  unfolding markFailed_def by (rule guarded_updateJobIfActive) (simp add: row_step_finish)

lemma guarded_recordEngineOutcome: "guarded_write db (fst (recordEngineOutcome db now i r))"
  by (simp add: recordEngineOutcome_def guarded_markApplied guarded_markTimedOut guarded_markFailed
      split: engine_outcome.split)

lemma guarded_reconcileStaleActiveJobs:
  "jobs_inv db \<Longrightarrow> guarded_write db (fst (reconcileStaleActiveJobs db now a s q r))"
  by (simp add: reconcileStaleActiveJobs_def Let_def guarded_reconcile split: sum.split option.split)

lemma normalizeTimeoutBudgetMs_range:
  "100 \<le> normalizeTimeoutBudgetMs v \<and> normalizeTimeoutBudgetMs v \<le> 3600000"
  by (auto simp: normalizeTimeoutBudgetMs_def clampBudget_def split: jsnum.split)

lemma job_ok_newJob: "job_ok (newJob ci shopId freshId now)"
  using normalizeTimeoutBudgetMs_range by (simp add: newJob_def job_ok_def isActive_def)

lemma jobs_inv_append:
  assumes "jobs_inv db" and "\<not> uniqueViolation db j" and "job_ok j" and "isActive j"
  shows "jobs_inv (db\<lparr>jobs := jobs db @ [j]\<rparr>)"
proof -
  have new: "jobId k \<noteq> jobId j" "isActive k \<Longrightarrow> jobRoutePlanId k \<noteq> jobRoutePlanId j" if "k \<in> set (jobs db)" for k
    using that assms(2,4) by (auto simp: uniqueViolation_def)
  have "one_active (jobs db @ [j])"
    unfolding one_active_def
  proof (intro ballI impI)
    fix a b
    assume ab: "a \<in> set (jobs db @ [j])" "b \<in> set (jobs db @ [j])"
      and act: "isActive a \<and> isActive b \<and> jobRoutePlanId a = jobRoutePlanId b"
    then consider "a \<in> set (jobs db)" "b \<in> set (jobs db)" | "a = j" "b = j"
      | "a \<in> set (jobs db)" "b = j" | "a = j" "b \<in> set (jobs db)"
      by fastforce
    then show "jobId a = jobId b"
    proof cases
      case 1 then show ?thesis using assms(1) act unfolding jobs_inv_def one_active_def by blast
    next
      case 2 then show ?thesis by simp
    next
      case 3 then show ?thesis using new(2) [of a] act by simp
    next
      case 4 then show ?thesis using new(2) [of b] act by metis
    qed
  qed
  moreover have "jobId j \<notin> jobId ` set (jobs db)" using new(1) by (metis imageE)
  ultimately show ?thesis
    using assms(1,3) unfolding jobs_inv_def by simp
qed

text \<open>Creating a job is a guarded write followed, when it succeeds, by one new row.\<close>

lemma createJob_cases:
  assumes inv: "jobs_inv db"
  obtains (refused) "fst (createJob db ci freshId now) = db" "\<And>j. snd (createJob db ci freshId now) \<noteq> Inr (Some j)"
  | (created) shopId db1 where "guarded_write db db1" "\<not> uniqueViolation db1 (newJob ci shopId freshId now)"
      "createJob db ci freshId now =
        (db1\<lparr>jobs := jobs db1 @ [newJob ci shopId freshId now]\<rparr>, Inr (Some (newJob ci shopId freshId now)))"
proof (cases "findShopId db (ciAppId ci) (ciShopDomain ci)")
  case (Inl e)
  then show ?thesis using refused by (simp add: createJob_def)
next
  case shop: (Inr shop)
  show ?thesis
  proof (cases shop)
    case None
    then show ?thesis using refused shop by (simp add: createJob_def)
  next
    case (Some shopId)
    let ?db1 = "fst (reconcileStaleActiveJobsInTransaction db now
       (normalizeQueueStartBudgetMs (ciQueueStartBudgetMs ci)) (Some (ciRoutePlanId ci)) shopId)"
    have w: "guarded_write db ?db1" using inv by (rule guarded_reconcile)
    show ?thesis
    proof (cases "planShopOf db (ciRoutePlanId ci) \<noteq> Some shopId
        \<or> (\<exists>k \<in> set (jobs ?db1). jobRoutePlanId k = ciRoutePlanId ci \<and> isActive k)
        \<or> uniqueViolation ?db1 (newJob ci shopId freshId now)")
      case True
      then have "createJob db ci freshId now = (db, Inr None) \<or>
          createJob db ci freshId now = (db, Inl ROUTE_OPTIMIZATION_JOB_ACTIVE)"
        unfolding createJob_def Let_def shop Some by (simp only: sum.case option.case split: if_split) blast
      then show ?thesis using refused by auto
    next
      case False
      then have "createJob db ci freshId now = (?db1\<lparr>jobs := jobs ?db1 @ [newJob ci shopId freshId now]\<rparr>,
          Inr (Some (newJob ci shopId freshId now)))"
        unfolding createJob_def Let_def shop Some by (simp only: sum.case option.case split: if_split) blast
      then show ?thesis using created [OF w] False by blast
    qed
  qed
qed

lemma isActive_newJob: "isActive (newJob ci shopId freshId now)"
  by (simp add: isActive_def newJob_def)

lemma jobs_inv_createJob:
  assumes "jobs_inv db"
  shows "jobs_inv (fst (createJob db ci freshId now))"
  using assms
proof (cases rule: createJob_cases [of db ci freshId now])
  case (created shopId db1)
  then show ?thesis
    using jobs_inv_append [OF guarded_write_inv [OF assms created(1)] created(2) job_ok_newJob isActive_newJob]
    by simp
qed (simp add: assms)

section \<open>The table as a machine\<close>

text \<open>The commands other requests and workers issue against the table, each with its time.\<close>

datatype job_cmd =
    CreateJob create_job_input string
  | MarkRunning string
  | MarkApplyingResult string
  | RecordEngineOutcome string engine_outcome
  | ReconcileStale "string option" string "jsnum option" "string option"
  | ApplyStops string string string stop_sequence

fun job_cmd_step :: "opt_db \<Rightarrow> int \<times> job_cmd \<Rightarrow> opt_db" where
  "job_cmd_step db (now, CreateJob ci freshId) = fst (createJob db ci freshId now)"
| "job_cmd_step db (now, MarkRunning i) = fst (markRunning db now i)"
| "job_cmd_step db (now, MarkApplyingResult i) = fst (markApplyingResult db now i)"
| "job_cmd_step db (now, RecordEngineOutcome i r) = fst (recordEngineOutcome db now i r)"
| "job_cmd_step db (now, ReconcileStale a s q r) = fst (reconcileStaleActiveJobs db now a s q r)"
| "job_cmd_step db (now, ApplyStops shopId r i stops) =
     (case applyJobInStopsTransaction db now shopId r i stops of None \<Rightarrow> db | Some db' \<Rightarrow> db')"

lemma guarded_ApplyStops: "guarded_write db (job_cmd_step db (now, ApplyStops shopId r i stops))"
  by (cases "applyJobInStopsTransaction db now shopId r i stops")
    (simp_all add: guarded_applyJobInStopsTransaction)

text \<open>Every command is a guarded write, or one followed by a new row.\<close>

lemma job_cmd_step_cases:
  assumes inv: "jobs_inv db"
  obtains "guarded_write db (job_cmd_step db c)"
  | db1 j where "guarded_write db db1" "job_cmd_step db c = db1\<lparr>jobs := jobs db1 @ [j]\<rparr>"
proof (cases "(db, c)" rule: job_cmd_step.cases)
  case (1 db' now ci freshId)
  from inv show ?thesis
  proof (cases rule: createJob_cases [of db ci freshId now])
    case refused
    then show ?thesis using that(1) 1 by simp
  next
    case (created shopId db1)
    then show ?thesis using that(2) [OF created(1)] 1 by simp
  qed
next
  case 2 then show ?thesis using that(1) guarded_markRunning by simp
next
  case 3 then show ?thesis using that(1) guarded_markApplyingResult [OF inv] by simp
next
  case 4 then show ?thesis using that(1) guarded_recordEngineOutcome by simp
next
  case 5 then show ?thesis using that(1) guarded_reconcileStaleActiveJobs [OF inv] by simp
next
  case 6 then show ?thesis using that(1) guarded_ApplyStops by simp
qed

lemma jobs_inv_step: "jobs_inv db \<Longrightarrow> jobs_inv (job_cmd_step db c)"
proof (cases "(db, c)" rule: job_cmd_step.cases)
  case (6 db' now shopId r i stops)
  moreover assume "jobs_inv db"
  ultimately show ?thesis using guarded_write_inv [OF _ guarded_ApplyStops] by simp
qed (auto intro: jobs_inv_createJob guarded_write_inv guarded_markRunning guarded_markApplyingResult
      guarded_recordEngineOutcome guarded_reconcileStaleActiveJobs)

lemma find_append: "List.find P (xs @ ys) = (case List.find P xs of None \<Rightarrow> List.find P ys | Some x \<Rightarrow> Some x)"
  by (induction xs) auto

lemma find_append_some:
  "findJobById db i = Some j \<Longrightarrow> findJobById (db\<lparr>jobs := jobs db @ [k]\<rparr>) i = Some j"
  unfolding findJobById_def by (simp add: find_append)

lemma job_cmd_step_find:
  assumes "jobs_inv db" and "findJobById db i = Some j"
  shows "\<exists>j'. findJobById (job_cmd_step db c) i = Some j' \<and> (j' = j \<or> row_step j j')"
  using assms(1)
proof (cases rule: job_cmd_step_cases [of db c])
  case 1
  then show ?thesis using assms(2) by (rule guarded_write_find)
next
  case (2 db1 k)
  then show ?thesis using guarded_write_find [OF 2(1) assms(2)] find_append_some by metis
qed

interpretation job_invariant: invariant_machine job_cmd_step jobs_inv
  by unfold_locales (rule jobs_inv_step)

interpretation finished_jobs: final_rows job_cmd_step jobs_inv findJobById "\<lambda>j. \<not> isActive j"
proof unfold_locales
  fix s k r e
  assume "jobs_inv s" and "findJobById s k = Some r" and "\<not> isActive r"
  then show "findJobById (job_cmd_step s e) k = Some r"
    using job_cmd_step_find unfolding row_step_def by blast
qed

definition job_level :: "opt_db \<Rightarrow> string \<Rightarrow> nat" where
  "job_level db i = (case findJobById db i of None \<Rightarrow> 0 | Some j \<Rightarrow> step_rank (jobStep j))"

interpretation job_progress: monotone_machine job_cmd_step jobs_inv job_level
proof unfold_locales
  fix s k e
  assume inv: "jobs_inv s"
  show "job_level s k \<le> job_level (job_cmd_step s e) k"
  proof (cases "findJobById s k")
    case None
    then show ?thesis by (simp add: job_level_def)
  next
    case (Some j)
    then have "job_ok j" using inv findJobById_in unfolding jobs_inv_def by blast
    moreover obtain j' where "findJobById (job_cmd_step s e) k = Some j'" "j' = j \<or> row_step j j'"
      using job_cmd_step_find [OF inv Some] by blast
    ultimately show ?thesis using Some by (auto simp: job_level_def row_step_def)
  qed
qed

section \<open>The runner against concurrent commands\<close>

lemma findJobById_updateJobs:
  assumes "\<And>k. jobId (data k) = jobId k" and "findJobById db i = Some j"
  shows "findJobById (updateJobs db now whr data) i = Some (if whr j then (data j)\<lparr>updatedAt := now\<rparr> else j)"
proof -
  let ?f = "\<lambda>j. if whr j then (data j)\<lparr>updatedAt := now\<rparr> else j"
  have "List.find (\<lambda>j. jobId j = i) (map ?f (jobs db)) = map_option ?f (List.find (\<lambda>j. jobId j = i) (jobs db))"
    by (rule find_map_ids) (simp add: assms(1))
  then show ?thesis using assms(2) by (simp add: findJobById_def updateJobs_def)
qed

lemma findJobById_updateJobIfActive:
  assumes "\<And>k. jobId (data k) = jobId k" and "findJobById db i = Some j"
  shows "findJobById (fst (updateJobIfActive db now i data whr)) i =
    Some (if whr j then (data j)\<lparr>updatedAt := now\<rparr> else j)"
  using findJobById_updateJobs [OF assms, where whr = "\<lambda>j. jobId j = i \<and> whr j" and now = now]
    findJobById_in [OF assms(2)] assms(2)
  by (auto simp: updateJobIfActive_def Let_def)

text \<open>The job is in the table and has reached at least a given step.\<close>

definition tracked :: "nat \<Rightarrow> string \<Rightarrow> opt_db \<Rightarrow> bool" where
  "tracked r i db = (jobs_inv db \<and> r \<le> job_level db i)"

lemma trackedE:
  assumes "tracked (Suc r) i db"
  obtains j where "findJobById db i = Some j" "job_ok j" "Suc r \<le> step_rank (jobStep j)" "jobs_inv db"
proof (cases "findJobById db i")
  case None
  then show ?thesis using assms by (simp add: tracked_def job_level_def)
next
  case (Some j)
  then have "job_ok j" using assms findJobById_in unfolding tracked_def jobs_inv_def by blast
  then show ?thesis using Some that assms by (simp add: tracked_def job_level_def)
qed

lemma trackedI:
  "jobs_inv db \<Longrightarrow> findJobById db i = Some j \<Longrightarrow> r \<le> step_rank (jobStep j) \<Longrightarrow> tracked r i db"
  by (simp add: tracked_def job_level_def)

lemma tracked_mono: "tracked r i db \<Longrightarrow> q \<le> r \<Longrightarrow> tracked q i db"
  by (simp add: tracked_def)

lemma tracked_cmd: "tracked r i db \<Longrightarrow> tracked r i (job_cmd_step db c)"
  unfolding tracked_def using job_progress.step_mono job_invariant.step_inv le_trans by blast

lemma tracked_cmds: "tracked r i db \<Longrightarrow> tracked r i (foldl job_cmd_step db cs)"
  by (induction cs arbitrary: db) (simp_all add: tracked_cmd)

lemma step_rank_4: "job_ok j \<Longrightarrow> 4 \<le> step_rank (jobStep j) \<longleftrightarrow> \<not> isActive j"
  by (cases "jobStep j"; cases "jobStatus j") (simp_all add: job_ok_def isActive_def)

lemma tracked_4:
  assumes "tracked 4 i db"
  shows "\<exists>j. findJobById db i = Some j \<and> \<not> isActive j"
proof -
  have "tracked (Suc 3) i db" using assms by simp
  then show ?thesis by (rule trackedE) (use step_rank_4 in auto)
qed

lemma not_running_settled:
  assumes "tracked 2 i db" and "findJobById db i = Some j" and "jobStatus j \<noteq> JOB_RUNNING"
  shows "tracked 4 i db"
proof -
  have "tracked (Suc 1) i db" using assms(1) by (simp add: numeral_2_eq_2)
  then obtain k where "findJobById db i = Some k" "job_ok k" "Suc 1 \<le> step_rank (jobStep k)" "jobs_inv db"
    by (rule trackedE)
  then show ?thesis using assms(2,3)
    by (cases "jobStep j") (auto simp: tracked_def job_level_def job_ok_def)
qed

lemma job_level_find: "findJobById db i = Some j \<Longrightarrow> job_level db i = step_rank (jobStep j)"
  by (simp add: job_level_def)

lemma job_level_updateJobIfActive:
  assumes "\<And>k. jobId (data k) = jobId k" and "findJobById db i = Some j"
  shows "job_level (fst (updateJobIfActive db now i data whr)) i =
    step_rank (jobStep (if whr j then data j else j))"
  by (subst job_level_find [OF findJobById_updateJobIfActive [OF assms]]) simp

text \<open>Recording a failure closes the job, whatever its state is.\<close>

lemma tracked_failure:
  assumes "tracked 1 i db"
  shows "tracked 4 i (fst (recordEngineOutcome db now i (EngineFailure f)))"
proof -
  obtain j where j: "findJobById db i = Some j" "job_ok j" "jobs_inv db"
    by (rule trackedE [of 0 i db]) (use assms in simp_all)
  have "jobs_inv (fst (recordEngineOutcome db now i (EngineFailure f)))"
    using guarded_write_inv [OF j(3) guarded_recordEngineOutcome] .
  moreover have "4 \<le> job_level (fst (recordEngineOutcome db now i (EngineFailure f))) i"
    using step_rank_4 [OF j(2)]
    by (simp add: recordEngineOutcome_def markTimedOut_def markFailed_def job_level_updateJobIfActive j(1))
  ultimately show ?thesis by (simp add: tracked_def)
qed

lemma tracked_started:
  assumes "jobs_inv db" and "snd (markRunning db now i) \<noteq> None"
  shows "tracked 2 i (fst (markRunning db now i))"
proof -
  have "jobs_inv (fst (markRunning db now i))"
    using assms(1) guarded_markRunning by (rule guarded_write_inv)
  moreover have "\<exists>k \<in> set (jobs db). jobId k = i \<and> jobStep k = STEP_QUEUED \<and> jobStatus k = JOB_QUEUED"
    using assms(2) unfolding markRunning_def updateJobIfActive_def
    by (simp only: snd_conv not_not split: if_split_asm) simp
  then obtain k where k: "k \<in> set (jobs db)" "jobId k = i" "jobStep k = STEP_QUEUED" "jobStatus k = JOB_QUEUED"
    by blast
  then have "findJobById db i = Some k"
    using assms(1) findJobById_iff unfolding jobs_inv_def by blast
  then have "job_level (fst (markRunning db now i)) i = 2"
    using k(3,4) by (simp add: markRunning_def job_level_updateJobIfActive)
  ultimately show ?thesis by (simp add: tracked_def)
qed

text \<open>The apply step is either claimed or the job is closed by then.\<close>

lemma tracked_claim:
  assumes "tracked 2 i db"
  shows "tracked (if snd (markApplyingResult db now i) = None then 4 else 3) i (fst (markApplyingResult db now i))"
proof -
  have "tracked (Suc 1) i db" using assms by (simp add: numeral_2_eq_2)
  then obtain j where j: "findJobById db i = Some j" "job_ok j" "jobs_inv db"
    by (rule trackedE)
  have inv: "jobs_inv (fst (markApplyingResult db now i))"
    using j(3) guarded_markApplyingResult [OF j(3)] by (rule guarded_write_inv)
  have jin: "j \<in> set (jobs db)" "jobId j = i" using findJobById_in [OF j(1)] by auto
  show ?thesis
  proof (cases "jobStatus j = JOB_RUNNING")
    case False
    then show ?thesis using not_running_settled [OF assms j(1)] j(1) by (simp add: markApplyingResult_def)
  next
    case running: True
    show ?thesis
    proof (cases "isStaleActiveJob j now 10000")
      case True
      then show ?thesis using running j(1) jin inv
        by (auto simp: markApplyingResult_def findJobById_updateJobs intro!: trackedI)
    next
      case False
      then have "\<exists>db'. markApplyingResult db now i = (db', Some (j\<lparr>jobStep := STEP_APPLYING_RESULT, updatedAt := now\<rparr>))
          \<and> findJobById db' i = Some (j\<lparr>jobStep := STEP_APPLYING_RESULT, updatedAt := now\<rparr>)"
        using running j(1) jin unfolding markApplyingResult_def Let_def
        by (auto simp: findJobById_updateJobs)
      then show ?thesis using inv by (auto simp: tracked_def job_level_find)
    qed
  qed
qed

lemma tracked_applied:
  assumes "tracked 3 i db"
  shows "tracked 4 i (fst (recordEngineOutcome db now i (EngineOk stops)))"
proof -
  have "tracked (Suc 2) i db" using assms by (simp add: numeral_3_eq_3 numeral_2_eq_2)
  then obtain j where j: "findJobById db i = Some j" "job_ok j" "Suc 2 \<le> step_rank (jobStep j)" "jobs_inv db"
    by (rule trackedE)
  have inv: "jobs_inv (fst (recordEngineOutcome db now i (EngineOk stops)))"
    using guarded_write_inv [OF j(4) guarded_recordEngineOutcome] .
  show ?thesis
  proof (cases "jobStep j = STEP_APPLYING_RESULT")
    case True
    then have "jobStatus j = JOB_RUNNING" using j(2) by (simp add: job_ok_def)
    then show ?thesis using inv True j(1)
      by (auto simp: recordEngineOutcome_def markApplied_def findJobById_updateJobIfActive intro!: trackedI)
  next
    case False
    then have "4 \<le> step_rank (jobStep j)" using j(3) by (cases "jobStep j") auto
    then show ?thesis using inv False j(1) by (auto simp: recordEngineOutcome_def markApplied_def intro!: trackedI)
  qed
qed

lemma updateRoutePlanStops_cmd:
  obtains cs where "fst (updateRoutePlanStops env inp db now stops) = foldl job_cmd_step db cs"
    "\<And>written. snd (updateRoutePlanStops env inp db now stops) = Inr (Some written) \<Longrightarrow>
      \<exists>shopId. applyJobInStopsTransaction db now shopId (jobRoutePlanId (runJob inp)) (jobId (runJob inp)) written
        = Some (fst (updateRoutePlanStops env inp db now stops))"
proof -
  let ?r = "updateRoutePlanStops env inp db now stops"
  have "fst ?r = db \<and> (\<forall>w. snd ?r \<noteq> Inr (Some w)) \<or>
    (\<exists>shopId w. snd ?r = Inr (Some w) \<and>
      applyJobInStopsTransaction db now shopId (jobRoutePlanId (runJob inp)) (jobId (runJob inp)) w = Some (fst ?r))"
    by (auto simp: updateRoutePlanStops_def split: sum.split option.split)
  then show thesis
  proof (elim disjE exE conjE)
    fix shopId w
    assume w: "snd ?r = Inr (Some w)"
      and a: "applyJobInStopsTransaction db now shopId (jobRoutePlanId (runJob inp)) (jobId (runJob inp)) w = Some (fst ?r)"
    show thesis
      by (rule that [of "[(now, ApplyStops shopId (jobRoutePlanId (runJob inp)) (jobId (runJob inp)) w)]"])
        (use w a in auto)
  qed (use that [of "[]"] in simp)
qed

lemma findLatestJob_row:
  assumes "findLatestJob db None shopDomain r = Inr (Some j)"
  shows "j \<in> set (jobs db)"
proof -
  have "latestBy (filter P (jobs db)) = Some j \<Longrightarrow> j \<in> set (jobs db)" for P
    using set_sort_by [of "\<lambda>a b. createdAt b - createdAt a" "filter P (jobs db)"]
    unfolding latestBy_def by (cases "sort_by (\<lambda>a b. createdAt b - createdAt a) (filter P (jobs db))") auto
  then show ?thesis using assms by (auto simp: findLatestJob_def split: sum.splits option.splits)
qed

lemma findLatestJob_defined: "\<exists>r. findLatestJob db None shopDomain routePlanId = Inr r"
  by (auto simp: findLatestJob_def findShopId_def normalizeShopifyAppId_def is_app_id_char_def
      split: option.split)

text \<open>Other requests issue repository commands only.\<close>

definition commandsOnly :: "'d runner_env \<Rightarrow> bool" where
  "commandsOnly env = (\<forall>k d. \<exists>cs. interfere env k d = foldl job_cmd_step d cs)"

lemma tracked_interfere: "commandsOnly env \<Longrightarrow> tracked r i db \<Longrightarrow> tracked r i (interfere env k db)"
  unfolding commandsOnly_def using tracked_cmds by metis

lemma jobs_inv_interfere: "commandsOnly env \<Longrightarrow> jobs_inv db \<Longrightarrow> jobs_inv (interfere env k db)"
  unfolding commandsOnly_def using job_invariant.run_inv by metis

lemma tracked_finishWith:
  assumes "commandsOnly env" and "tracked 2 (jobId (runJob inp)) db"
  shows "tracked 4 (jobId (runJob inp)) (finishWith env inp k started code message db)"
  unfolding finishWith_def failureOutcome_def
  using assms by (intro tracked_failure tracked_interfere) (auto intro: tracked_mono)

lemma tracked_applyOutcome:
  assumes env: "commandsOnly env" and t: "tracked 2 (jobId (runJob inp)) db"
  shows "tracked 4 (jobId (runJob inp)) (fst (applyOutcome env inp started stops db))"
proof -
  let ?i = "jobId (runJob inp)"
  let ?claim = "markApplyingResult (interfere env 5 db) (clock env 5) ?i"
  have c: "tracked (if snd ?claim = None then 4 else 3) ?i (fst ?claim)"
    using t by (intro tracked_claim tracked_interfere [OF env])
  show ?thesis
  proof (cases "snd ?claim")
    case None
    then show ?thesis using c by (simp add: applyOutcome_def Let_def)
  next
    case (Some j)
    let ?db6 = "interfere env 6 (fst ?claim)"
    let ?upd = "updateRoutePlanStops env inp ?db6 (clock env 6) stops"
    have "tracked 3 ?i ?db6" using c Some env by (simp add: tracked_interfere)
    moreover obtain cs where "fst ?upd = foldl job_cmd_step ?db6 cs" by (rule updateRoutePlanStops_cmd)
    ultimately have u: "tracked 3 ?i (fst ?upd)" by (simp add: tracked_cmds)
    then have "tracked 2 ?i (fst ?upd)" by (rule tracked_mono) simp
    then show ?thesis
      using u Some by (cases ?upd)
        (auto simp: applyOutcome_def Let_def env intro!: tracked_finishWith tracked_applied
          tracked_interfere split: sum.split option.split)
  qed
qed

lemma tracked_latestIsRunning:
  assumes env: "commandsOnly env" and t: "tracked 2 (jobId (runJob inp)) db"
  shows "tracked 4 (jobId (runJob inp)) (fst (latestIsRunning env inp started stops db))"
proof -
  let ?i = "jobId (runJob inp)" and ?db4 = "interfere env 4 db"
  have t4: "tracked 2 ?i ?db4" using env t by (rule tracked_interfere)
  obtain latest where l: "findLatestJob ?db4 None (runShopDomain inp) (jobRoutePlanId (runJob inp)) = Inr latest"
    using findLatestJob_defined by blast
  have settled: "tracked 4 ?i ?db4"
    if "map_option jobId latest = Some ?i" "map_option jobStatus latest \<noteq> Some JOB_RUNNING"
  proof -
    from that obtain j where j: "latest = Some j" "jobId j = ?i" "jobStatus j \<noteq> JOB_RUNNING"
      by (cases latest) auto
    then have "j \<in> set (jobs ?db4)" using l findLatestJob_row by simp
    then have "findJobById ?db4 ?i = Some j"
      using t4 j(2) findJobById_iff unfolding tracked_def jobs_inv_def by blast
    then show ?thesis using t4 j(3) not_running_settled by blast
  qed
  show ?thesis
    using settled tracked_finishWith [OF env t4] tracked_applyOutcome [OF env t4]
    by (simp add: latestIsRunning_def Let_def l)
qed

lemma tracked_runner:
  assumes env: "commandsOnly env" and inv: "jobs_inv db"
    and started: "snd (markRunning (interfere env 0 db) (clock env 0) (jobId (runJob inp))) \<noteq> None"
  shows "tracked 4 (jobId (runJob inp)) (fst (runRouteOptimizationJob env inp db))"
proof -
  let ?run = "markRunning (interfere env 0 db) (clock env 0) (jobId (runJob inp))"
  obtain j where j: "snd ?run = Some j" using started by auto
  have t: "tracked 2 (jobId (runJob inp)) (fst ?run)"
    using jobs_inv_interfere [OF env inv] started by (rule tracked_started)
  have fail: "tracked 4 (jobId (runJob inp))
      (fst (recordEngineOutcome (interfere env 3 (fst ?run)) (clock env 3) (jobId (runJob inp)) (EngineFailure f)))" for f
    using tracked_interfere [OF env t] by (intro tracked_failure) (rule tracked_mono, auto)
  show ?thesis
    using tracked_finishWith [OF env t] tracked_latestIsRunning [OF env t] fail
    by (simp add: runRouteOptimizationJob_def Let_def j split: option.split engine_outcome.split)
qed

text \<open>The stop write and the closing of the job are one transaction.\<close>

lemma applied_row:
  assumes "applyJobInStopsTransaction db now shopId r i written = Some db'" and inv: "jobs_inv db"
  shows "\<exists>j. findJobById db' i = Some j \<and> jobStatus j = JOB_APPLIED \<and> engineResultSequence j = Some written"
proof -
  let ?claimed = "\<lambda>j. jobStep j = STEP_APPLYING_RESULT \<and> jobId j = i \<and> jobRoutePlanId j = r
     \<and> jobShopId j = shopId \<and> jobStatus j = JOB_RUNNING"
  obtain k where k: "List.find ?claimed (jobs db) = Some k"
    using assms(1) by (cases "List.find ?claimed (jobs db)") (simp_all add: applyJobInStopsTransaction_def)
  then have "k \<in> set (jobs db)" and c: "?claimed k" unfolding find_Some_iff by (metis nth_mem)+
  then have "findJobById db i = Some k" using inv findJobById_iff unfolding jobs_inv_def by blast
  then show ?thesis
    using assms(1) k c by (auto simp: applyJobInStopsTransaction_def findJobById_updateJobs)
qed

lemma applyOutcome_written:
  assumes env: "commandsOnly env" and inv: "jobs_inv db"
    and w: "snd (applyOutcome env inp started stops db) = Some written"
  shows "\<exists>j. findJobById (fst (applyOutcome env inp started stops db)) (jobId (runJob inp)) = Some j
    \<and> jobStatus j = JOB_APPLIED \<and> engineResultSequence j = Some written"
proof -
  let ?i = "jobId (runJob inp)"
  let ?claim = "markApplyingResult (interfere env 5 db) (clock env 5) ?i"
  let ?db6 = "interfere env 6 (fst ?claim)"
  let ?upd = "updateRoutePlanStops env inp ?db6 (clock env 6) stops"
  let ?db7 = "interfere env 7 (fst ?upd)"
  have inv6: "jobs_inv ?db6"
    using guarded_write_inv [OF _ guarded_markApplyingResult] jobs_inv_interfere [OF env] inv by metis
  have "\<exists>j. snd ?claim = Some j" and up: "snd ?upd = Inr (Some written)"
    and eq: "fst (applyOutcome env inp started stops db) = fst (recordEngineOutcome ?db7 (clock env 7) ?i (EngineOk stops))"
    using w by (cases ?upd; auto simp: applyOutcome_def Let_def split: option.splits sum.splits)+
  obtain cs where cs: "fst ?upd = foldl job_cmd_step ?db6 cs"
    and a: "\<exists>shopId. applyJobInStopsTransaction ?db6 (clock env 6) shopId (jobRoutePlanId (runJob inp)) ?i written = Some (fst ?upd)"
    using up by (metis updateRoutePlanStops_cmd)
  from a inv6 obtain j where j: "findJobById (fst ?upd) ?i = Some j" "jobStatus j = JOB_APPLIED"
      "engineResultSequence j = Some written"
    using applied_row by blast
  obtain cs' where cs': "?db7 = foldl job_cmd_step (fst ?upd) cs'"
    using env unfolding commandsOnly_def by blast
  have invu: "jobs_inv (fst ?upd)" unfolding cs using inv6 by (rule job_invariant.run_inv)
  have "findJobById (foldl job_cmd_step (fst ?upd) (cs' @ [(clock env 7, RecordEngineOutcome ?i (EngineOk stops))])) ?i = Some j"
    using invu j(1) by (rule finished_jobs.run_final) (simp add: isActive_def j(2))
  then show ?thesis using j(2,3) by (simp add: eq cs')
qed

section \<open>Properties\<close>

text \<open>
  Claim C24: whatever sequence of repository commands runs against an empty job table, job
  identifiers are unique, a route plan has at most one active job, the current step of every job
  agrees with its status (a finished time exactly on terminal jobs, a start time on running ones,
  the applied sequence on applied ones), and every timeout budget is between 100 ms and one hour.
\<close>

theorem job_table_invariant: "jobs_inv (foldl job_cmd_step (db\<lparr>jobs := []\<rparr>) cmds)"
  by (rule job_invariant.run_inv) (simp add: jobs_inv_def one_active_def)

lemma reachable_inv: "jobs_inv (foldl job_cmd_step (db\<lparr>jobs := []\<rparr>) cmds)"
  by (rule job_invariant.run_inv) (simp add: jobs_inv_def one_active_def)


text \<open>
  Jobs only move forward through queued, calling engine, applying result, completed:
  the step of a job never decreases along a history of commands, and a job once created never
  disappears.
\<close>

theorem job_progress_monotone:
  "job_level (foldl job_cmd_step (db\<lparr>jobs := []\<rparr>) past) i
     \<le> job_level (foldl job_cmd_step (db\<lparr>jobs := []\<rparr>) (past @ future)) i"
  using job_progress.run_mono [OF reachable_inv] by simp

text \<open>
  Claim C17: a runner that started its job leaves it finished on every path (missing route, engine
  failure or exception, changed route, newer job, expired claim, failed or successful write),
  whatever repository commands other requests interleave between its calls.
\<close>

theorem runner_always_finishes_its_job:
  assumes "commandsOnly env" and "jobs_inv db"
    and "snd (markRunning (interfere env 0 db) (clock env 0) (jobId (runJob inp))) \<noteq> None"
  shows "\<exists>j. findJobById (fst (runRouteOptimizationJob env inp db)) (jobId (runJob inp)) = Some j \<and> \<not> isActive j"
  using tracked_4 [OF tracked_runner [OF assms]] .


text \<open>
  Reconciling a shop (optionally one route of it) closes exactly its stale active jobs,
  in one pass and each from its own state, leaves every other row as it was, and no stale active
  job of that shop and route remains.
\<close>

theorem reconcile_closes_exactly_the_stale_jobs:
  assumes "jobs_inv db" and "findShopId db appId shopDomain = Inr (Some shopId)"
  shows "jobs (fst (reconcileStaleActiveJobs db now appId shopDomain budget routePlanId)) =
      map (\<lambda>j. if staleIn routePlanId shopId now (normalizeQueueStartBudgetMs budget) j
               then (closeStaleJob now j)\<lparr>updatedAt := now\<rparr> else j) (jobs db)
    \<and> (\<forall>j \<in> set (jobs (fst (reconcileStaleActiveJobs db now appId shopDomain budget routePlanId))).
         \<not> staleIn routePlanId shopId now (normalizeQueueStartBudgetMs budget) j)"
proof -
  let ?q = "normalizeQueueStartBudgetMs budget"
  have "distinct (map jobId (jobs db))" using assms(1) by (simp add: jobs_inv_def)
  then have eq: "jobs (fst (reconcileStaleActiveJobs db now appId shopDomain budget routePlanId)) =
      map (\<lambda>j. if staleIn routePlanId shopId now ?q j then (closeStaleJob now j)\<lparr>updatedAt := now\<rparr> else j) (jobs db)"
    using assms(2) by (simp add: reconcileStaleActiveJobs_def Let_def reconcile_one_pass)
  have "\<not> staleIn routePlanId shopId now ?q ((closeStaleJob now j)\<lparr>updatedAt := now\<rparr>)" for j
    by (simp add: staleIn_def closeStaleJob_def isActive_def)
  then have "\<not> staleIn routePlanId shopId now ?q
      (if staleIn routePlanId shopId now ?q j then (closeStaleJob now j)\<lparr>updatedAt := now\<rparr> else j)" for j
    by simp
  then show ?thesis unfolding eq set_map by blast
qed

lemma activeAfterReconcile:
  assumes "jobs_inv db"
  shows "(\<exists>k \<in> set (jobs (fst (reconcileStaleActiveJobsInTransaction db now q (Some r) shopId))).
      jobRoutePlanId k = r \<and> isActive k)
    = (\<exists>k \<in> set (jobs db). jobRoutePlanId k = r \<and> isActive k \<and> \<not> staleIn (Some r) shopId now q k)"
proof -
  let ?f = "\<lambda>j. if staleIn (Some r) shopId now q j then (closeStaleJob now j)\<lparr>updatedAt := now\<rparr> else j"
  have "distinct (map jobId (jobs db))" using assms by (simp add: jobs_inv_def)
  then have eq: "jobs (fst (reconcileStaleActiveJobsInTransaction db now q (Some r) shopId)) = map ?f (jobs db)"
    by (simp add: reconcile_one_pass)
  have "\<not> isActive ((closeStaleJob now j)\<lparr>updatedAt := now\<rparr>)" for j
    by (simp add: closeStaleJob_def isActive_def)
  then have "(jobRoutePlanId (?f k) = r \<and> isActive (?f k)) =
      (jobRoutePlanId k = r \<and> isActive k \<and> \<not> staleIn (Some r) shopId now q k)" for k by simp
  then show ?thesis unfolding eq set_map bex_simps(7) by (rule bex_cong [OF refl])
qed

text \<open>
  For a known shop, a route plan of that shop and an unused identifier, a job is created
  exactly when no active job of the route remains once the stale ones are closed; otherwise the
  request fails with the active-job error and the table is unchanged. The created row is queued,
  has a clamped budget, and is stored last.
\<close>

theorem createJob_succeeds_unless_active:
  assumes inv: "jobs_inv db" and shop: "findShopId db (ciAppId ci) (ciShopDomain ci) = Inr (Some shopId)"
    and plan: "planShopOf db (ciRoutePlanId ci) = Some shopId" and fresh: "freshId \<notin> jobId ` set (jobs db)"
    and blocked: "blocked = (\<exists>k \<in> set (jobs db). jobRoutePlanId k = ciRoutePlanId ci \<and> isActive k
      \<and> \<not> staleIn (Some (ciRoutePlanId ci)) shopId now (normalizeQueueStartBudgetMs (ciQueueStartBudgetMs ci)) k)"
  shows "snd (createJob db ci freshId now) =
      (if blocked then Inl ROUTE_OPTIMIZATION_JOB_ACTIVE else Inr (Some (newJob ci shopId freshId now)))
    \<and> (if blocked then fst (createJob db ci freshId now) = db
       else findJobById (fst (createJob db ci freshId now)) freshId = Some (newJob ci shopId freshId now))"
proof -
  let ?db1 = "fst (reconcileStaleActiveJobsInTransaction db now
       (normalizeQueueStartBudgetMs (ciQueueStartBudgetMs ci)) (Some (ciRoutePlanId ci)) shopId)"
  have b: "blocked = (\<exists>k \<in> set (jobs ?db1). jobRoutePlanId k = ciRoutePlanId ci \<and> isActive k)"
    unfolding blocked by (rule activeAfterReconcile [OF inv, symmetric])
  have ids: "map jobId (jobs ?db1) = map jobId (jobs db)"
    using inv by (simp add: reconcile_one_pass jobs_inv_def)
  then have unused: "jobId k \<noteq> freshId" if "k \<in> set (jobs ?db1)" for k
    using that fresh by (metis imageI list.set_map)
  have nov: "\<not> uniqueViolation ?db1 (newJob ci shopId freshId now)" if "\<not> blocked"
    using that unused b unfolding uniqueViolation_def by (auto simp: newJob_def)
  have none: "List.find (\<lambda>j. jobId j = freshId) (jobs ?db1) = None"
    using unused unfolding find_None_iff by blast
  show ?thesis
  proof (cases blocked)
    case True
    then show ?thesis using b shop plan unfolding createJob_def Let_def by simp
  next
    case False
    then have "createJob db ci freshId now = (?db1\<lparr>jobs := jobs ?db1 @ [newJob ci shopId freshId now]\<rparr>,
        Inr (Some (newJob ci shopId freshId now)))"
      using b nov shop plan unfolding createJob_def Let_def by simp
    then show ?thesis using False none by (simp add: findJobById_def find_append) (simp add: newJob_def)
  qed
qed

section \<open>Concrete histories\<close>

definition demo_db :: opt_db where
  "demo_db = \<lparr>shopIdOf = (\<lambda>_. Some ''s1''), planShopOf = (\<lambda>_. Some ''s1''), jobs = []\<rparr>"

definition job_demo_input :: create_job_input where
  "job_demo_input = \<lparr>ciAppId = None, ciCreatedBy = None, ciQueueStartBudgetMs = None, ciRoutePlanId = ''r1'',
     ciShopDomain = ''a.example'', ciTimeoutBudgetMs = Num 60000, ciTraceId = Some ''t''\<rparr>"

definition job_demo_env :: "unit runner_env" where
  "job_demo_env = \<lparr>getRoutePlanDetail = (\<lambda>_. Some ()), shapeSignature = (\<lambda>_. ''sig''),
     routeOptimizationService = Some (WithDiagnostics (\<lambda>_. Inr (EngineOk [(''d1'', 1, ''o1'')]))),
     writeRouteStops = (\<lambda>s. Inr (Some s)), interfere = (\<lambda>_ d. d), clock = (\<lambda>k. 1000 + int k)\<rparr>"

definition demo_run :: "unit runner_input" where
  "demo_run = \<lparr>initialDetail = None, runJob = newJob job_demo_input ''s1'' ''j1'' 900,
     rejectStaleRouteShape = True, runShopDomain = ''a.example''\<rparr>"

definition demo_queued :: opt_db where
  "demo_queued = demo_db\<lparr>jobs := [newJob job_demo_input ''s1'' ''j1'' 900]\<rparr>"

lemmas demo_defs = demo_db_def job_demo_input_def job_demo_env_def demo_run_def demo_queued_def

lemma default_shop: "findShopId db None d = Inr (shopIdOf db (''clever'', normalizeShopDomain d))"
  by (simp add: findShopId_def normalizeShopifyAppId_def is_app_id_char_def)

lemma demo_queued_inv: "jobs_inv demo_queued"
proof -
  have "jobs_inv (demo_db\<lparr>jobs := jobs demo_db @ [newJob job_demo_input ''s1'' ''j1'' 900]\<rparr>)"
    by (rule jobs_inv_append)
      (simp_all add: demo_db_def jobs_inv_def one_active_def uniqueViolation_def job_ok_newJob isActive_newJob)
  then show ?thesis by (simp add: demo_queued_def demo_db_def)
qed

lemma demo_commandsOnly: "commandsOnly job_demo_env"
  unfolding commandsOnly_def job_demo_env_def by (auto intro: exI [of _ "[]"])

lemmas demo_eval = demo_defs newJob_def isActive_def markRunning_def updateJobIfActive_def
  updateJobs_def findJobById_def

theorem runner_always_finishes_its_job_witness:
  "\<exists>j. findJobById (fst (runRouteOptimizationJob job_demo_env demo_run demo_queued)) ''j1'' = Some j \<and> \<not> isActive j"
proof -
  have "snd (markRunning (interfere job_demo_env 0 demo_queued) (clock job_demo_env 0) (jobId (runJob demo_run))) \<noteq> None"
    by (simp add: demo_eval)
  then show ?thesis
    using runner_always_finishes_its_job [OF demo_commandsOnly demo_queued_inv, of demo_run]
    by (simp add: demo_run_def newJob_def)
qed

lemma demo_run_result:
  "snd (runRouteOptimizationJob job_demo_env demo_run demo_queued) = Some [(''d1'', 1, ''o1'')]"
  by (simp add: runRouteOptimizationJob_def latestIsRunning_def applyOutcome_def updateRoutePlanStops_def
      applyJobInStopsTransaction_def runRouteOptimizationEngine_def findLatestJob_def default_shop latestBy_def
      markApplyingResult_def isStaleActiveJob_def normalizeTimeoutBudgetMs_def clampBudget_def coalesce_def_value_def demo_eval)


theorem createJob_succeeds_unless_active_witness:
  "snd (createJob demo_queued job_demo_input ''j2'' 1000) = Inl ROUTE_OPTIMIZATION_JOB_ACTIVE
   \<and> snd (createJob demo_queued job_demo_input ''j2'' 20000) = Inr (Some (newJob job_demo_input ''s1'' ''j2'' 20000))"
proof -
  have r: "snd (createJob demo_queued job_demo_input ''j2'' now) =
      (if now = 1000 then Inl ROUTE_OPTIMIZATION_JOB_ACTIVE else Inr (Some (newJob job_demo_input ''s1'' ''j2'' now)))"
    if "now = 1000 \<or> now = 20000" for now
    using createJob_succeeds_unless_active
      [OF demo_queued_inv, of job_demo_input "''s1''" "''j2''" "now = 1000" now] that
    by (auto simp: default_shop staleIn_def isStaleActiveJob_def normalizeQueueStartBudgetMs_def demo_eval)
  show ?thesis using r [of 1000] r [of 20000] by simp
qed

theorem reconcile_closes_exactly_the_stale_jobs_witness:
  "map jobStatus (jobs (fst (reconcileStaleActiveJobs demo_queued 20000 None ''a.example'' None None))) = [JOB_FAILED]"
proof -
  have "findShopId demo_queued None ''a.example'' = Inr (Some ''s1'')"
    by (simp add: default_shop demo_queued_def demo_db_def)
  from reconcile_closes_exactly_the_stale_jobs [OF demo_queued_inv this, of 20000 None None]
  show ?thesis
    by (simp add: staleIn_def isStaleActiveJob_def normalizeQueueStartBudgetMs_def closeStaleJob_def demo_eval)
qed


end
