(* ===== verification/NotificationOutbox.thy ===== *)
theory NotificationOutbox
  imports Machines
begin

text \<open>
  The outbox of customer notifications: claiming a due fact under a lease and settling it
  (\<^verbatim>\<open>modules/route-plans/customer-delivery-notification.outbox.ts\<close>), the worker that builds
  the message, sends it and settles the fact
  (\<^verbatim>\<open>customer-delivery-notification.worker.ts\<close>), and the ledger of attempts
  (\<^verbatim>\<open>modules/customer-email/customer-delivery-notification-attempt.repository.ts\<close>). A table is
  a list of rows. Several workers share the tables: what they do between two statements of one
  worker is an argument of the definitions. The sender is a parameter (an exception is
  \<^const>\<open>Inl\<close> with the redacted text), as is the inequality of JSON values of the database, whose
  answer on a missing path is the database's. Shown: the invariant of the table, that settled facts
  never change and a lease fences off every other worker, that a processed fact is settled with a
  matching ledger entry, the bounds of the retry delay, and what can be claimed and sent.
\<close>

section \<open>Tables\<close>

datatype fact_status = FACT_QUEUED | FACT_PROCESSING | FACT_SENT | FACT_SKIPPED | FACT_DEAD

record fact =
  factId :: string
  factShopId :: string
  factOrderId :: string
  factRoutePlanId :: "string option"
  factDeliveryStopId :: "string option"
  recipientEmailSnapshot :: "string option"
  factUiStatus :: "string option"
  factIdempotencyKey :: "string option"
  factSource :: string
  factStatus :: fact_status
  attemptCount :: int
  nextAttemptAt :: "int option"
  processingStartedAt :: "int option"
  leaseToken :: "string option"
  leaseExpiresAt :: "int option"
  factProvider :: "string option"
  providerMessageId :: "string option"
  providerStatus :: "string option"
  providerEventAt :: "int option"
  factErrorCode :: "string option"
  factErrorMessage :: "string option"
  sentAt :: "int option"
  deadAt :: "int option"
  factMetadata :: json
  occurredAt :: int
  tombstones :: "string list"

record notification_shop =
  notificationAppId :: string
  notificationShopDomain :: string
  customerEmailSettings :: json

datatype attempt_outcome = STARTED | RETRYABLE_FAILURE | OUTCOME_SENT | TERMINAL_FAILURE

record notification_attempt =
  attemptId :: string
  attemptShopId :: string
  attemptFactId :: "string option"
  manualDispatchRecipientId :: "string option"
  attemptNumber :: int
  attemptStartedAt :: int
  completedAt :: "int option"
  attemptProvider :: string
  attemptOutcome :: attempt_outcome
  attemptErrorCode :: "string option"
  correlationId :: string
  attemptMessageId :: "string option"
  retainedUntil :: int

record outbox_db =
  facts :: "fact list"
  shopsById :: "string \<Rightarrow> notification_shop"
  attempts :: "notification_attempt list"

definition factById :: "outbox_db \<Rightarrow> string \<Rightarrow> fact option" where
  "factById db i = List.find (\<lambda>f. factId f = i) (facts db)"

definition updateFacts :: "outbox_db \<Rightarrow> (fact \<Rightarrow> bool) \<Rightarrow> (fact \<Rightarrow> fact) \<Rightarrow> outbox_db \<times> nat" where
  "updateFacts db whr data =
     (db\<lparr>facts := map (\<lambda>f. if whr f then data f else f) (facts db)\<rparr>, length (filter whr (facts db)))"

section \<open>Claiming\<close>

text \<open>The options of an outbox and the JSON inequality of its database.\<close>

record outbox_env =
  allowCustomerMessages :: bool
  jsonDiffers :: "json \<Rightarrow> json \<Rightarrow> bool"

definition due :: "int \<Rightarrow> fact \<Rightarrow> bool" where
  "due now f =
     ((factStatus f = FACT_QUEUED \<and> (\<exists>t. nextAttemptAt f = Some t \<and> t \<le> now))
      \<or> (factStatus f = FACT_PROCESSING \<and> (\<exists>t. leaseExpiresAt f = Some t \<and> t \<le> now)))"

lemma due_code [code]:
  "due now f =
     ((factStatus f = FACT_QUEUED \<and> (case nextAttemptAt f of None \<Rightarrow> False | Some t \<Rightarrow> t \<le> now))
      \<or> (factStatus f = FACT_PROCESSING \<and> (case leaseExpiresAt f of None \<Rightarrow> False | Some t \<Rightarrow> t \<le> now)))"
  by (auto simp: due_def split: option.split)

definition claimableWhere :: "outbox_env \<Rightarrow> outbox_db \<Rightarrow> int \<Rightarrow> fact \<Rightarrow> bool" where
  "claimableWhere env db now f =
     (''DO_NOT_SEND'' \<notin> set (tombstones f)
      \<and> ((allowCustomerMessages env \<and> factSource f = ''DSV_CUSTOMER_MESSAGE'')
         \<or> (jget (factMetadata f) ''routeEmailSelected'' = JBool True
            \<and> jsonDiffers env (jget (factMetadata f) ''signal'') (JStr ''DELIVERY_SCHEDULED'')
            \<and> jget (jget (customerEmailSettings (shopsById db (factShopId f))) ''automatic'') ''enabled'' = JBool True))
      \<and> due now f)"

text \<open>\<^verbatim>\<open>orderBy\<close>: next attempt (absent last), occurrence, identifier.\<close>

definition compareFacts :: "fact \<Rightarrow> fact \<Rightarrow> int" where
  "compareFacts a b =
     or_else (compareNullsLast (nextAttemptAt a) (nextAttemptAt b))
       (or_else (compare_int (occurredAt a) (occurredAt b)) (compare_text (factId a) (factId b)))"

definition firstClaimable :: "outbox_env \<Rightarrow> outbox_db \<Rightarrow> int \<Rightarrow> fact option" where
  "firstClaimable env db now =
     (case sort_by compareFacts (filter (claimableWhere env db now) (facts db)) of [] \<Rightarrow> None | f # _ \<Rightarrow> Some f)"

definition leaseFact :: "int \<Rightarrow> int \<Rightarrow> string \<Rightarrow> fact \<Rightarrow> fact" where
  "leaseFact now leaseMs token f =
     f\<lparr>attemptCount := attemptCount f + 1, deadAt := None, factErrorCode := None, factErrorMessage := None,
       leaseExpiresAt := Some (now + leaseMs), leaseToken := Some token,
       processingStartedAt := Some now, factStatus := FACT_PROCESSING\<rparr>"

record notification_job =
  njAppId :: string
  njAttemptCount :: int
  njDeliveryStopId :: "string option"
  njFactId :: string
  njIdempotencyKey :: "string option"
  njMetadata :: json
  njLeaseToken :: string
  njOccurredAt :: int
  njOrderId :: string
  njRecipientEmail :: "string option"
  njUiStatus :: "string option"
  njRoutePlanId :: "string option"
  njShopDomain :: string

definition jobOfFact :: "outbox_db \<Rightarrow> string \<Rightarrow> fact \<Rightarrow> notification_job" where
  "jobOfFact db token f =
     \<lparr>njAppId = notificationAppId (shopsById db (factShopId f)), njAttemptCount = attemptCount f + 1,
      njDeliveryStopId = factDeliveryStopId f, njFactId = factId f, njIdempotencyKey = factIdempotencyKey f,
      njMetadata = factMetadata f, njLeaseToken = token, njOccurredAt = occurredAt f, njOrderId = factOrderId f,
      njRecipientEmail = recipientEmailSnapshot f, njUiStatus = factUiStatus f,
      njRoutePlanId = factRoutePlanId f, njShopDomain = notificationShopDomain (shopsById db (factShopId f))\<rparr>"

definition claimFact ::
  "outbox_env \<Rightarrow> int \<Rightarrow> int \<Rightarrow> string \<Rightarrow> string \<Rightarrow> outbox_db \<Rightarrow> outbox_db \<times> nat" where
  "claimFact env now leaseMs token i db =
     updateFacts db (\<lambda>g. factId g = i \<and> claimableWhere env db now g) (leaseFact now leaseMs token)"

text \<open>
  The contention loop: \<open>remaining\<close> attempts are left; \<open>contend k\<close> is what other workers do between
  the query and the update of the \<open>k\<close>-th attempt, \<open>tokens k\<close> the random lease token of it.
\<close>

fun claimLoop ::
  "outbox_env \<Rightarrow> (nat \<Rightarrow> outbox_db \<Rightarrow> outbox_db) \<Rightarrow> (nat \<Rightarrow> string) \<Rightarrow> int \<Rightarrow> int \<Rightarrow> nat \<Rightarrow> nat \<Rightarrow> outbox_db
   \<Rightarrow> outbox_db \<times> notification_job option" where
  "claimLoop env contend tokens leaseMs now 0 k db = (db, None)"
| "claimLoop env contend tokens leaseMs now (Suc remaining) k db =
     (case firstClaimable env db now of
        None \<Rightarrow> (db, None)
      | Some f \<Rightarrow>
          (let r = claimFact env now leaseMs (tokens k) (factId f) (contend k db)
           in if snd r \<noteq> 1 then claimLoop env contend tokens leaseMs now remaining (Suc k) (fst r)
              else (fst r, Some (jobOfFact db (tokens k) f))))"

definition maxClaimContentionAttempts :: nat where
  "maxClaimContentionAttempts = 5"

definition claimNext ::
  "outbox_env \<Rightarrow> (nat \<Rightarrow> outbox_db \<Rightarrow> outbox_db) \<Rightarrow> (nat \<Rightarrow> string) \<Rightarrow> int \<Rightarrow> int \<Rightarrow> outbox_db
   \<Rightarrow> outbox_db \<times> notification_job option" where
  "claimNext env contend tokens leaseMs now db =
     claimLoop env contend tokens leaseMs now maxClaimContentionAttempts 0 db"

section \<open>Settling\<close>

definition heldBy :: "string \<Rightarrow> string \<Rightarrow> fact \<Rightarrow> bool" where
  "heldBy i token f = (factId f = i \<and> leaseToken f = Some token \<and> factStatus f = FACT_PROCESSING)"

definition markSent ::
  "outbox_db \<Rightarrow> string \<Rightarrow> string \<Rightarrow> int \<Rightarrow> string \<Rightarrow> string option \<Rightarrow> outbox_db \<times> bool" where
  "markSent db i token now prov messageId =
     (let r = updateFacts db (heldBy i token)
        (\<lambda>f. f\<lparr>factErrorCode := None, factErrorMessage := None, leaseExpiresAt := None, leaseToken := None,
               nextAttemptAt := None, factProvider := Some prov, providerEventAt := Some now,
               providerMessageId := messageId, providerStatus := Some ''ACCEPTED'',
               recipientEmailSnapshot := None, sentAt := Some now, factStatus := FACT_SENT\<rparr>)
      in (fst r, snd r = 1))"

definition releaseForRetry ::
  "outbox_db \<Rightarrow> string \<Rightarrow> string \<Rightarrow> string \<Rightarrow> string \<Rightarrow> int \<Rightarrow> string \<Rightarrow> outbox_db \<times> bool" where
  "releaseForRetry db i token code message nextAt prov =
     (let r = updateFacts db (heldBy i token)
        (\<lambda>f. f\<lparr>factErrorCode := Some code, factErrorMessage := Some message, leaseExpiresAt := None,
               leaseToken := None, nextAttemptAt := Some nextAt, factProvider := Some prov,
               processingStartedAt := None, factStatus := FACT_QUEUED\<rparr>)
      in (fst r, snd r = 1))"

definition markDead ::
  "outbox_db \<Rightarrow> string \<Rightarrow> string \<Rightarrow> string \<Rightarrow> string \<Rightarrow> int \<Rightarrow> string \<Rightarrow> outbox_db \<times> bool" where
  "markDead db i token code message now prov =
     (let r = updateFacts db (heldBy i token)
        (\<lambda>f. f\<lparr>deadAt := Some now, factErrorCode := Some code, factErrorMessage := Some message,
               leaseExpiresAt := None, leaseToken := None, nextAttemptAt := None, factProvider := Some prov,
               recipientEmailSnapshot := None, factStatus := FACT_DEAD\<rparr>)
      in (fst r, snd r = 1))"

section \<open>The ledger of attempts\<close>

datatype outbox_error = NOTIFICATION_FACT_NOT_FOUND | ATTEMPT_NOT_FOUND

definition is_message_id_char :: "char \<Rightarrow> bool" where
  "is_message_id_char c =
     (let n = (of_char c :: nat)
      in (65 \<le> n \<and> n \<le> 90) \<or> (97 \<le> n \<and> n \<le> 122) \<or> (48 \<le> n \<and> n \<le> 57) \<or> c \<in> set ''._:@/-'')"

definition sanitizeProviderMessageId :: "string option \<Rightarrow> string option" where
  "sanitizeProviderMessageId v =
     (case v of
        None \<Rightarrow> None
      | Some s \<Rightarrow>
          (let normalized = js_trim s
           in if 0 < js_length normalized \<and> js_length normalized \<le> 200 \<and> list_all is_message_id_char normalized
              then Some normalized else None))"

definition createAttempt ::
  "outbox_db \<Rightarrow> string \<Rightarrow> string \<Rightarrow> int \<Rightarrow> int \<Rightarrow> string option \<Rightarrow> string option \<Rightarrow> string \<Rightarrow> string \<Rightarrow> int
   \<Rightarrow> outbox_db" where
  "createAttempt db freshId correlation now number ofFact ofRecipient prov shopId startedAt =
     db\<lparr>attempts := attempts db @
        [\<lparr>attemptId = freshId, attemptShopId = shopId, attemptFactId = ofFact,
          manualDispatchRecipientId = ofRecipient, attemptNumber = number, attemptStartedAt = startedAt,
          completedAt = None, attemptProvider = prov, attemptOutcome = STARTED, attemptErrorCode = None,
          correlationId = correlation, attemptMessageId = None,
          retainedUntil = now + 180 * 24 * 60 * 60 * 1000\<rparr>]\<rparr>"

definition startAutomatic ::
  "outbox_db \<Rightarrow> string \<Rightarrow> string \<Rightarrow> int \<Rightarrow> int \<Rightarrow> string \<Rightarrow> string \<Rightarrow> int \<Rightarrow> outbox_db \<times> (outbox_error + string)" where
  "startAutomatic db freshId correlation now number i prov startedAt =
     (case factById db i of
        None \<Rightarrow> (db, Inl NOTIFICATION_FACT_NOT_FOUND)
      | Some f \<Rightarrow>
          (createAttempt db freshId correlation now number (Some i) None prov (factShopId f) startedAt, Inr freshId))"

definition startManual ::
  "outbox_db \<Rightarrow> string \<Rightarrow> string \<Rightarrow> int \<Rightarrow> string \<Rightarrow> string \<Rightarrow> string \<Rightarrow> int \<Rightarrow> outbox_db \<times> string" where
  "startManual db freshId correlation now recipientId prov shopId startedAt =
     (let number = int (length (filter (\<lambda>a. manualDispatchRecipientId a = Some recipientId) (attempts db))) + 1
      in (createAttempt db freshId correlation now number None (Some recipientId) prov shopId startedAt, freshId))"

definition settleAttempt ::
  "outbox_db \<Rightarrow> string \<Rightarrow> int \<Rightarrow> string option \<Rightarrow> attempt_outcome \<Rightarrow> string option \<Rightarrow> outbox_db \<times> outbox_error option" where
  "settleAttempt db i completed code outcome messageId =
     (if \<not> (\<exists>a \<in> set (attempts db). attemptId a = i) then (db, Some ATTEMPT_NOT_FOUND)
      else (db\<lparr>attempts := map (\<lambda>a. if attemptId a = i
              then a\<lparr>completedAt := Some completed, attemptErrorCode := code, attemptOutcome := outcome,
                     attemptMessageId := sanitizeProviderMessageId messageId\<rparr> else a) (attempts db)\<rparr>, None))"

section \<open>The message of a job\<close>

datatype notification_message =
    StatusMessage string string string string string string string "string option" string
  | CustomerMessage string string string string string string string

definition readMetadataString :: "json \<Rightarrow> string \<Rightarrow> string option" where
  "readMetadataString metadata key =
     (if \<not> is_record metadata then None
      else case jget metadata key of
             JStr s \<Rightarrow> (if js_trim s = [] then None else Some (js_trim s))
           | _ \<Rightarrow> None)"

definition customerEmailSignals :: "string list" where
  "customerEmailSignals =
     [''DELIVERED'', ''DELIVERY_SCHEDULED'', ''DRIVER_NEARBY'', ''MISSED_DELIVERY'', ''OUT_FOR_DELIVERY'']"

definition readCustomerEmailSignalMetadata :: "json \<Rightarrow> string option" where
  "readCustomerEmailSignalMetadata metadata =
     (case readMetadataString metadata ''signal'' of
        None \<Rightarrow> None | Some s \<Rightarrow> (if s \<in> set customerEmailSignals then Some s else None))"

definition isCustomerMessageSource :: "notification_job \<Rightarrow> bool" where
  "isCustomerMessageSource j = (readMetadataString (njMetadata j) ''orderMessageId'' \<noteq> None)"

definition readCustomerMessageMetadata :: "json \<Rightarrow> (string \<times> string) option" where
  "readCustomerMessageMetadata metadata =
     (case (readMetadataString metadata ''body'', readMetadataString metadata ''orderMessageId'') of
        (Some body, Some orderMessageId) \<Rightarrow> Some (body, orderMessageId)
      | _ \<Rightarrow> None)"

definition isNotificationUiStatus :: "string \<Rightarrow> bool" where
  "isNotificationUiStatus v = (v = ''COMPLETED'' \<or> v = ''IN_PROGRESS'' \<or> v = ''READY'')"

definition buildJobMessage :: "notification_job \<Rightarrow> (string \<times> string) + notification_message" where
  "buildJobMessage j =
     (case njIdempotencyKey j of
        None \<Rightarrow> Inl (''CUSTOMER_NOTIFICATION_IDEMPOTENCY_MISSING'',
                    ''Customer notification is missing its idempotency key.'')
      | Some key \<Rightarrow>
     (case njRecipientEmail j of
        None \<Rightarrow> Inl (''CUSTOMER_EMAIL_MISSING'', ''Customer email is missing from the notification snapshot.'')
      | Some email \<Rightarrow>
          (if js_trim email = []
           then Inl (''CUSTOMER_EMAIL_MISSING'', ''Customer email is missing from the notification snapshot.'')
           else if njUiStatus j = None \<and> isCustomerMessageSource j then
             (case readCustomerMessageMetadata (njMetadata j) of
                None \<Rightarrow> Inl (''CUSTOMER_MESSAGE_PAYLOAD_INCOMPLETE'',
                            ''Customer message notification is missing its durable message payload.'')
              | Some (body, orderMessageId) \<Rightarrow>
                  Inr (CustomerMessage (njAppId j) body key (njOrderId j) orderMessageId email (njShopDomain j)))
           else
             (case (njDeliveryStopId j, njRoutePlanId j) of
                (Some stop, Some plan) \<Rightarrow>
                  (case njUiStatus j of
                     None \<Rightarrow> Inl (''CUSTOMER_NOTIFICATION_STATUS_INVALID'', ''Customer notification status is invalid.'')
                   | Some st \<Rightarrow>
                       (if \<not> isNotificationUiStatus st
                        then Inl (''CUSTOMER_NOTIFICATION_STATUS_INVALID'', ''Customer notification status is invalid.'')
                        else Inr (StatusMessage (njAppId j) stop key (njOrderId j) email plan (njShopDomain j)
                                    (readCustomerEmailSignalMetadata (njMetadata j)) st)))
              | _ \<Rightarrow> Inl (''CUSTOMER_NOTIFICATION_PAYLOAD_INCOMPLETE'',
                         ''Customer notification is missing its durable route payload.'')))))"

section \<open>The worker\<close>

record worker_options =
  batchSize :: nat
  leaseMs :: int
  maxAgeMs :: int
  maxAttempts :: int
  retryBaseDelayMs :: int
  retryMaxDelayMs :: int

definition defaultOptions :: worker_options where
  "defaultOptions =
     \<lparr>batchSize = 10, leaseMs = 5 * 60 * 1000, maxAgeMs = 24 * 60 * 60 * 1000, maxAttempts = 8,
      retryBaseDelayMs = 30000, retryMaxDelayMs = 30 * 60 * 1000\<rparr>"

definition retryDelayMs :: "int \<Rightarrow> worker_options \<Rightarrow> int" where
  "retryDelayMs n options =
     (let exponent = max (n - 1) 0 in min (retryBaseDelayMs options * 2 ^ nat exponent) (retryMaxDelayMs options))"

datatype send_result =
    SendSent string "string option"
  | SendFailed "string option" "string option" string bool

text \<open>
  The surroundings of one worker: the sender (an exception of it with its redacted text), the
  ledger if there is one, the clock, the random identifiers and what other workers do before each
  of the statements of \<^verbatim>\<open>processJob\<close>.
\<close>

record worker_env =
  senderProvider :: string
  sendMessage :: "notification_message \<Rightarrow> string + send_result"
  hasLedger :: bool
  now1 :: int
  now2 :: int
  freshAttemptId :: string
  freshCorrelationId :: string
  others :: "nat \<Rightarrow> outbox_db \<Rightarrow> outbox_db"

text \<open>The settlement of the attempt after the fact was settled; without a ledger nothing is done.\<close>

definition settleIfLedger ::
  "worker_env \<Rightarrow> int \<Rightarrow> string option \<Rightarrow> attempt_outcome \<Rightarrow> string option \<Rightarrow> outbox_db \<Rightarrow> outbox_db \<times> outbox_error option" where
  "settleIfLedger env completed code outcome messageId db =
     (if hasLedger env then settleAttempt (others env 3 db) (freshAttemptId env) completed code outcome messageId
      else (db, None))"

definition sendCaught :: "worker_env \<Rightarrow> notification_message \<Rightarrow> send_result" where
  "sendCaught env m =
     (case sendMessage env m of
        Inr r \<Rightarrow> r
      | Inl err \<Rightarrow> SendFailed (Some ''CUSTOMER_NOTIFICATION_SENDER_ERROR'') (Some err) (senderProvider env) True)"

definition deadLetter ::
  "worker_env \<Rightarrow> notification_job \<Rightarrow> string \<Rightarrow> string \<Rightarrow> int \<Rightarrow> string \<Rightarrow> outbox_db \<Rightarrow> outbox_db \<times> outbox_error option" where
  "deadLetter env j code message settledAt prov db =
     settleIfLedger env settledAt (Some code) TERMINAL_FAILURE None
       (fst (markDead (others env 2 db) (njFactId j) (njLeaseToken j) code message settledAt prov))"

definition settleResult ::
  "worker_options \<Rightarrow> worker_env \<Rightarrow> notification_job \<Rightarrow> send_result \<Rightarrow> outbox_db \<Rightarrow> outbox_db \<times> outbox_error option" where
  "settleResult options env j result db =
     (case result of
        SendSent prov messageId \<Rightarrow>
          (let db' = fst (markSent (others env 2 db) (njFactId j) (njLeaseToken j) (now2 env) prov messageId)
           in (fst (settleIfLedger env (now2 env) None OUTCOME_SENT messageId db'), None))
      | SendFailed code0 message0 prov retryable \<Rightarrow>
          (let code = coalesce_def_value code0 ''CUSTOMER_NOTIFICATION_SEND_FAILED'';
               message = coalesce_def_value message0 ''Customer notification sender failed.''
           in if retryable \<and> njAttemptCount j < maxAttempts options
              then settleIfLedger env (now2 env) (Some code) RETRYABLE_FAILURE None
                     (fst (releaseForRetry (others env 2 db) (njFactId j) (njLeaseToken j) code message
                             (now2 env + retryDelayMs (njAttemptCount j) options) prov))
              else deadLetter env j code message (now2 env) prov db))"

definition openAttempt ::
  "worker_env \<Rightarrow> notification_job \<Rightarrow> outbox_db \<Rightarrow> outbox_db \<times> (outbox_error + string)" where
  "openAttempt env j db =
     (if hasLedger env
      then startAutomatic (others env 0 db) (freshAttemptId env) (freshCorrelationId env) (now1 env)
             (njAttemptCount j) (njFactId j) (senderProvider env) (now1 env)
      else (others env 0 db, Inr []))"

definition processJob ::
  "worker_options \<Rightarrow> worker_env \<Rightarrow> notification_job \<Rightarrow> outbox_db \<Rightarrow> outbox_db \<times> outbox_error option" where
  "processJob options env j db =
     (let opened = openAttempt env j db
      in case snd opened of
           Inl e \<Rightarrow> (fst opened, Some e)
         | Inr _ \<Rightarrow>
             (case buildJobMessage j of
                Inl (code, message) \<Rightarrow> deadLetter env j code message (now1 env) (senderProvider env) (fst opened)
              | Inr m \<Rightarrow>
                  (if now1 env - njOccurredAt j > maxAgeMs options
                   then deadLetter env j ''CUSTOMER_NOTIFICATION_EXPIRED''
                          ''Customer notification exceeded the delivery age limit.'' (now1 env) (senderProvider env) (fst opened)
                   else settleResult options env j (sendCaught env m) (others env 1 (fst opened)))))"

text \<open>
  One batch: at most \<^const>\<open>batchSize\<close> facts; \<open>ctx k\<close> holds the contention, the tokens, the time and the
  surroundings of the \<open>k\<close>-th of them. An exception ends the batch.
\<close>

type_synonym batch_context = "(nat \<Rightarrow> outbox_db \<Rightarrow> outbox_db) \<times> (nat \<Rightarrow> string) \<times> int \<times> worker_env"

fun batchLoop ::
  "outbox_env \<Rightarrow> worker_options \<Rightarrow> (nat \<Rightarrow> batch_context) \<Rightarrow> nat \<Rightarrow> nat \<Rightarrow> outbox_db \<Rightarrow> outbox_db \<times> (outbox_error + nat)" where
  "batchLoop oenv options ctx 0 processed db = (db, Inr processed)"
| "batchLoop oenv options ctx (Suc remaining) processed db =
     (let (contend, tokens, now, env) = ctx processed;
          claim = claimNext oenv contend tokens (leaseMs options) now db
      in case snd claim of
           None \<Rightarrow> (fst claim, Inr processed)
         | Some j \<Rightarrow>
             (let r = processJob options env j (fst claim)
              in case snd r of
                   Some e \<Rightarrow> (fst r, Inl e)
                 | None \<Rightarrow> batchLoop oenv options ctx remaining (Suc processed) (fst r)))"

definition runDueBatch ::
  "outbox_env \<Rightarrow> worker_options \<Rightarrow> (nat \<Rightarrow> batch_context) \<Rightarrow> outbox_db \<Rightarrow> outbox_db \<times> (outbox_error + nat)" where
  "runDueBatch oenv options ctx db = batchLoop oenv options ctx (batchSize options) 0 db"


section \<open>The table invariant\<close>

definition settled :: "fact \<Rightarrow> bool" where
  "settled f = (factStatus f \<noteq> FACT_QUEUED \<and> factStatus f \<noteq> FACT_PROCESSING)"

text \<open>
  A lease is present exactly while a fact is processed; a sent or dead fact has its time and no
  longer holds the address of the recipient.
\<close>

definition fact_ok :: "fact \<Rightarrow> bool" where
  "fact_ok f =
     ((factStatus f = FACT_PROCESSING) = (leaseToken f \<noteq> None)
      \<and> (factStatus f = FACT_PROCESSING) = (leaseExpiresAt f \<noteq> None)
      \<and> (factStatus f = FACT_QUEUED \<longrightarrow> nextAttemptAt f \<noteq> None)
      \<and> (factStatus f = FACT_SENT \<longrightarrow> sentAt f \<noteq> None \<and> recipientEmailSnapshot f = None)
      \<and> (factStatus f = FACT_DEAD \<longrightarrow> deadAt f \<noteq> None \<and> recipientEmailSnapshot f = None))"

definition outbox_inv :: "outbox_db \<Rightarrow> bool" where
  "outbox_inv db = (distinct (map factId (facts db)) \<and> list_all fact_ok (facts db))"

definition fact_step :: "fact \<Rightarrow> fact \<Rightarrow> bool" where
  "fact_step f g =
     (\<not> settled f \<and> factId g = factId f \<and> tombstones g = tombstones f
      \<and> (fact_ok f \<longrightarrow> fact_ok g) \<and> attemptCount f \<le> attemptCount g)"

lemmas fact_defs = fact_step_def fact_ok_def settled_def

interpretation fact_rows: row_writes factId fact_step
  by unfold_locales (simp add: fact_step_def)

interpretation fact_order: sign_comparator compareFacts
  unfolding compareFacts_def [abs_def]
  by (rule sign_comparator_or_else [OF sign_comparator_nulls
        sign_comparator_or_else [OF sign_comparator_int sign_comparator_text]])

lemma facts_updateFacts [simp]:
  "facts (fst (updateFacts db whr data)) = map (\<lambda>f. if whr f then data f else f) (facts db)"
  "shopsById (fst (updateFacts db whr data)) = shopsById db"
  "attempts (fst (updateFacts db whr data)) = attempts db"
  by (simp_all add: updateFacts_def)

lemma updateFacts_writes:
  "(\<And>f. whr f \<Longrightarrow> fact_step f (data f)) \<Longrightarrow> fact_rows.writes (facts db) (facts (fst (updateFacts db whr data)))"
  by (simp add: fact_rows.writes_map)

lemma claimFact_writes: "fact_rows.writes (facts db) (facts (fst (claimFact env now ms token i db)))"
  unfolding claimFact_def
  by (rule updateFacts_writes) (auto simp: fact_defs leaseFact_def claimableWhere_def due_def)

lemma markSent_writes: "fact_rows.writes (facts db) (facts (fst (markSent db i token now prov m)))"
  unfolding markSent_def Let_def fst_conv by (rule updateFacts_writes) (simp add: fact_defs heldBy_def)

lemma releaseForRetry_writes: "fact_rows.writes (facts db) (facts (fst (releaseForRetry db i token code m at' prov)))"
  unfolding releaseForRetry_def Let_def fst_conv by (rule updateFacts_writes) (simp add: fact_defs heldBy_def)

lemma markDead_writes: "fact_rows.writes (facts db) (facts (fst (markDead db i token code m now prov)))"
  unfolding markDead_def Let_def fst_conv by (rule updateFacts_writes) (simp add: fact_defs heldBy_def)

section \<open>The outbox as a machine\<close>

text \<open>The statements workers issue against the two tables.\<close>

datatype outbox_cmd =
    ClaimFact int int string string
  | MarkSent string string int string "string option"
  | ReleaseForRetry string string string string int string
  | MarkDead string string string string int string
  | StartAutomatic string string int int string string int
  | SettleAttempt string int "string option" attempt_outcome "string option"

fun outbox_step :: "outbox_env \<Rightarrow> outbox_db \<Rightarrow> outbox_cmd \<Rightarrow> outbox_db" where
  "outbox_step env db (ClaimFact now ms token i) = fst (claimFact env now ms token i db)"
| "outbox_step env db (MarkSent i token now prov m) = fst (markSent db i token now prov m)"
| "outbox_step env db (ReleaseForRetry i token code m t prov) = fst (releaseForRetry db i token code m t prov)"
| "outbox_step env db (MarkDead i token code m now prov) = fst (markDead db i token code m now prov)"
| "outbox_step env db (StartAutomatic a c now n i prov t) = fst (startAutomatic db a c now n i prov t)"
| "outbox_step env db (SettleAttempt a t code outc m) = fst (settleAttempt db a t code outc m)"

lemma facts_ledger [simp]:
  "facts (fst (startAutomatic db a c now n i prov t)) = facts db"
  "facts (fst (settleAttempt db a t code outc m)) = facts db"
  by (simp_all add: startAutomatic_def createAttempt_def settleAttempt_def split: option.split)

lemma outbox_step_writes: "fact_rows.writes (facts db) (facts (outbox_step env db c))"
  by (cases c) (simp_all only: outbox_step.simps claimFact_writes markSent_writes releaseForRetry_writes
      markDead_writes facts_ledger fact_rows.writes_refl)

lemma outbox_inv_writes:
  assumes "outbox_inv db" and "fact_rows.writes (facts db) (facts db')"
  shows "outbox_inv db'"
proof -
  have "list_all fact_ok (facts db')"
    using assms(2) by (rule fact_rows.writes_all) (use assms(1) in \<open>auto simp: outbox_inv_def fact_step_def\<close>)
  then show ?thesis using assms fact_rows.writes_keys [OF assms(2)] by (simp add: outbox_inv_def)
qed

lemma outbox_step_find:
  assumes "factById db i = Some f"
  shows "\<exists>g. factById (outbox_step env db c) i = Some g \<and> (g = f \<or> fact_step f g)"
  using fact_rows.writes_find [OF outbox_step_writes] assms unfolding factById_def .

interpretation outbox_rows: final_rows "outbox_step env" outbox_inv factById settled
  for env
proof unfold_locales
  fix s e
  show "outbox_inv s \<Longrightarrow> outbox_inv (outbox_step env s e)"
    using outbox_inv_writes outbox_step_writes by blast
next
  fix s k r e
  assume "factById s k = Some r" "settled r"
  then show "factById (outbox_step env s e) k = Some r"
    using outbox_step_find unfolding fact_step_def by blast
qed

section \<open>Leases\<close>

text \<open>
  The statements of other workers while a lease lasts: they claim before it expires and settle with
  tokens of their own.
\<close>

fun foreign :: "string \<Rightarrow> int \<Rightarrow> outbox_cmd \<Rightarrow> bool" where
  "foreign token expires (ClaimFact now ms t i) = (now < expires)"
| "foreign token expires (MarkSent i t now prov m) = (t \<noteq> token)"
| "foreign token expires (ReleaseForRetry i t code m at' prov) = (t \<noteq> token)"
| "foreign token expires (MarkDead i t code m now prov) = (t \<noteq> token)"
| "foreign token expires _ = True"

lemma factById_updateFacts:
  assumes "\<And>g. factId (data g) = factId g" and "factById db i = Some f"
  shows "factById (fst (updateFacts db whr data)) i = Some (if whr f then data f else f)"
proof -
  have "List.find (\<lambda>f. factId f = i) (map (\<lambda>f. if whr f then data f else f) (facts db)) =
      map_option (\<lambda>f. if whr f then data f else f) (List.find (\<lambda>f. factId f = i) (facts db))"
    by (rule find_map_key) (simp add: assms(1))
  then show ?thesis using assms(2) by (simp add: factById_def)
qed

lemma factId_leaseFact [simp]: "factId (leaseFact now ms token f) = factId f"
  by (simp add: leaseFact_def)

lemma foreign_step_keeps:
  assumes f: "factById db i = Some f" "heldBy i token f" "leaseExpiresAt f = Some expires"
    and c: "foreign token expires c"
  shows "factById (outbox_step env db c) i = Some f"
proof (cases c)
  case (ClaimFact now ms t k)
  then have "\<not> claimableWhere env db now f"
    using f c by (simp add: claimableWhere_def due_def heldBy_def)
  then show ?thesis using f(1) ClaimFact by (simp add: claimFact_def factById_updateFacts)
next
  case (MarkSent k t now prov m)
  then have "\<not> heldBy k t f" using f(2) c by (auto simp: heldBy_def)
  then show ?thesis using f(1) MarkSent by (simp add: markSent_def Let_def factById_updateFacts)
next
  case (ReleaseForRetry k t code m a prov)
  then have "\<not> heldBy k t f" using f(2) c by (auto simp: heldBy_def)
  then show ?thesis using f(1) ReleaseForRetry by (simp add: releaseForRetry_def Let_def factById_updateFacts)
next
  case (MarkDead k t code m now prov)
  then have "\<not> heldBy k t f" using f(2) c by (auto simp: heldBy_def)
  then show ?thesis using f(1) MarkDead by (simp add: markDead_def Let_def factById_updateFacts)
qed (use f(1) in \<open>simp_all add: factById_def\<close>)

section \<open>Claims\<close>

definition commands_only :: "outbox_env \<Rightarrow> (nat \<Rightarrow> outbox_db \<Rightarrow> outbox_db) \<Rightarrow> bool" where
  "commands_only env act = (\<forall>k d. \<exists>cs. act k d = foldl (outbox_step env) d cs)"

definition reaches :: "outbox_env \<Rightarrow> outbox_db \<Rightarrow> outbox_db \<Rightarrow> bool" where
  "reaches env db db' = (\<exists>cs. db' = foldl (outbox_step env) db cs)"

lemma reaches_refl [simp]: "reaches env db db"
  unfolding reaches_def by (rule exI [of _ "[]"]) simp

lemma reaches_trans: "reaches env a b \<Longrightarrow> reaches env b c \<Longrightarrow> reaches env a c"
  unfolding reaches_def by (metis foldl_append)

lemma reaches_step: "reaches env db (outbox_step env db c)"
  unfolding reaches_def by (rule exI [of _ "[c]"]) simp

lemma reaches_act: "commands_only env act \<Longrightarrow> reaches env db (act k db)"
  unfolding commands_only_def reaches_def by blast

lemmas reaches_steps =
  reaches_step [where c = "ClaimFact _ _ _ _", unfolded outbox_step.simps]
  reaches_step [where c = "MarkSent _ _ _ _ _", unfolded outbox_step.simps]
  reaches_step [where c = "ReleaseForRetry _ _ _ _ _ _", unfolded outbox_step.simps]
  reaches_step [where c = "MarkDead _ _ _ _ _ _", unfolded outbox_step.simps]
  reaches_step [where c = "StartAutomatic _ _ _ _ _ _ _", unfolded outbox_step.simps]
  reaches_step [where c = "SettleAttempt _ _ _ _ _", unfolded outbox_step.simps]

lemma claimLoop_reaches:
  assumes "commands_only env contend"
  shows "reaches env db (fst (claimLoop env contend tokens ms now n k db))"
proof (induction n arbitrary: k db)
  case 0
  then show ?case by simp
next
  case (Suc n)
  have claim: "reaches env db (fst (claimFact env now ms (tokens k) i (contend k db)))" for i
    using reaches_trans [OF reaches_act [OF assms] reaches_steps(1)] .
  show ?case
    using claim reaches_trans [OF claim Suc.IH] by (simp add: Let_def split: option.split)
qed

lemma firstClaimable_Some:
  assumes "firstClaimable env db now = Some f"
  shows "f \<in> set (facts db) \<and> claimableWhere env db now f
    \<and> (\<forall>g \<in> set (facts db). claimableWhere env db now g \<longrightarrow> compareFacts f g \<le> 0)"
proof -
  let ?q = "filter (claimableWhere env db now) (facts db)"
  obtain fs where fs: "sort_by compareFacts ?q = f # fs"
    using assms by (auto simp: firstClaimable_def split: list.splits)
  have set: "set (f # fs) = set ?q" using set_sort_by [of compareFacts ?q] fs by simp
  have refl: "compareFacts f f \<le> 0" using fact_order.cmp_total by blast
  have "\<forall>g \<in> set (f # fs). compareFacts f g \<le> 0"
    using fact_order.sorted_sort_by [of ?q] fs refl by simp
  then have min: "\<forall>g \<in> set ?q. compareFacts f g \<le> 0" unfolding set .
  moreover have "f \<in> set ?q" unfolding set [symmetric] by simp
  ultimately show ?thesis by simp
qed

lemma firstClaimable_None:
  "firstClaimable env db now = None \<longleftrightarrow> (\<forall>f \<in> set (facts db). \<not> claimableWhere env db now f)"
proof -
  let ?q = "filter (claimableWhere env db now) (facts db)"
  have "firstClaimable env db now = None \<longleftrightarrow> sort_by compareFacts ?q = []"
    by (simp add: firstClaimable_def split: list.split)
  also have "\<dots> \<longleftrightarrow> ?q = []" by (metis length_sort_by length_0_conv)
  finally show ?thesis by (simp add: filter_empty_conv)
qed

text \<open>A successful claim leaves the fact leased to the token, tombstoned facts aside.\<close>

lemma claimFact_one:
  assumes inv: "outbox_inv db" and one: "snd (claimFact env now ms token i db) = 1"
  obtains f where "factById db i = Some f" "claimableWhere env db now f"
    "factById (fst (claimFact env now ms token i db)) i = Some (leaseFact now ms token f)"
proof -
  let ?w = "\<lambda>g. factId g = i \<and> claimableWhere env db now g"
  have "filter ?w (facts db) \<noteq> []" using one by (auto simp: claimFact_def updateFacts_def)
  then obtain f where f: "f \<in> set (facts db)" "?w f" unfolding filter_empty_conv by blast
  then have "factById db i = Some f"
    using inv find_key [of factId "facts db" f] by (simp add: outbox_inv_def factById_def)
  then show thesis
    using that f by (simp add: claimFact_def factById_updateFacts)
qed

lemma claimLoop_Some:
  assumes "commands_only env contend" and "outbox_inv db"
    and "claimLoop env contend tokens ms now n k db = (db', Some j)"
  shows "\<exists>f m. factById db' (njFactId j) = Some f \<and> heldBy (njFactId j) (njLeaseToken j) f
    \<and> leaseExpiresAt f = Some (now + ms) \<and> ''DO_NOT_SEND'' \<notin> set (tombstones f)
    \<and> njLeaseToken j = tokens m \<and> k \<le> m \<and> m < k + n"
  using assms(2,3)
proof (induction n arbitrary: k db)
  case 0
  then show ?case by simp
next
  case (Suc n)
  from Suc.prems(2) obtain f where f: "firstClaimable env db now = Some f"
    by (cases "firstClaimable env db now") auto
  let ?c = "claimFact env now ms (tokens k) (factId f) (contend k db)"
  have inv: "outbox_inv (contend k db)"
    using outbox_rows.run_inv [OF Suc.prems(1)] assms(1) unfolding commands_only_def by metis
  show ?case
  proof (cases "snd ?c = 1")
    case True
    then have j: "db' = fst ?c" "j = jobOfFact db (tokens k) f"
      using Suc.prems(2) f by auto
    from inv True obtain g where g: "factById (contend k db) (factId f) = Some g"
        "claimableWhere env (contend k db) now g" "factById (fst ?c) (factId f) = Some (leaseFact now ms (tokens k) g)"
      by (rule claimFact_one)
    have "factId g = factId f" using find_SomeD [OF g(1) [unfolded factById_def]] by simp
    then show ?thesis
      using g(2,3) unfolding j
      by (intro exI [of _ "leaseFact now ms (tokens k) g"] exI [of _ k])
        (simp add: jobOfFact_def heldBy_def leaseFact_def claimableWhere_def)
  next
    case False
    then have "claimLoop env contend tokens ms now n (Suc k) (fst ?c) = (db', Some j)"
      using Suc.prems(2) f by simp
    moreover have "outbox_inv (fst ?c)" using inv claimFact_writes by (rule outbox_inv_writes)
    ultimately show ?thesis using Suc.IH [of "fst ?c" "Suc k"] by (metis Suc_le_lessD add_Suc_shift less_imp_le_nat)
  qed
qed

section \<open>Processing\<close>

lemma settleIfLedger_reaches:
  assumes "commands_only oenv (others env)"
  shows "reaches oenv db (fst (settleIfLedger env t code outc m db))"
  unfolding settleIfLedger_def
  using reaches_trans [OF reaches_act [OF assms] reaches_steps(6)] by simp

lemma deadLetter_reaches:
  assumes "commands_only oenv (others env)"
  shows "reaches oenv db (fst (deadLetter env j code m t prov db))"
  unfolding deadLetter_def
  by (rule reaches_trans [OF reaches_trans [OF reaches_act [OF assms] reaches_steps(4)]
      settleIfLedger_reaches [OF assms]])

lemma settleResult_reaches:
  assumes "commands_only oenv (others env)"
  shows "reaches oenv db (fst (settleResult options env j r db))"
proof (cases r)
  case (SendSent prov m)
  then show ?thesis
    using reaches_trans [OF reaches_trans [OF reaches_act [OF assms] reaches_steps(2)]
        settleIfLedger_reaches [OF assms]]
    by (simp add: settleResult_def Let_def)
next
  case (SendFailed code m prov retry)
  then show ?thesis
    using reaches_trans [OF reaches_trans [OF reaches_act [OF assms] reaches_steps(3)]
        settleIfLedger_reaches [OF assms]] deadLetter_reaches [OF assms]
    by (simp add: settleResult_def Let_def)
qed

lemma processJob_reaches:
  assumes "commands_only oenv (others env)"
  shows "reaches oenv db (fst (processJob options env j db))"
proof -
  let ?opened = "openAttempt env j db"
  have o: "reaches oenv db (fst ?opened)"
    using reaches_act [OF assms] reaches_trans [OF reaches_act [OF assms] reaches_steps(5)]
    by (simp add: openAttempt_def)
  have "reaches oenv db (fst (deadLetter env j code m t prov (fst ?opened)))" for code m t prov
    using o deadLetter_reaches [OF assms] by (rule reaches_trans)
  moreover have "reaches oenv db (fst (settleResult options env j r (others env 1 (fst ?opened))))" for r
    using reaches_trans [OF reaches_trans [OF o reaches_act [OF assms]] settleResult_reaches [OF assms]] .
  ultimately show ?thesis
    unfolding processJob_def Let_def using o by (simp split: sum.split)
qed

text \<open>All that happens around a batch consists of statements against the tables.\<close>

definition context_ok :: "outbox_env \<Rightarrow> (nat \<Rightarrow> batch_context) \<Rightarrow> bool" where
  "context_ok env ctx = (\<forall>k. commands_only env (fst (ctx k)) \<and> commands_only env (others (snd (snd (snd (ctx k))))))"

lemma batchLoop_reaches:
  assumes "context_ok env ctx"
  shows "reaches env db (fst (batchLoop env options ctx n k db))"
proof (induction n arbitrary: k db)
  case 0
  then show ?case by simp
next
  case (Suc n)
  obtain contend tokens now wenv where ctx: "ctx k = (contend, tokens, now, wenv)" by (cases "ctx k") auto
  have ok: "commands_only env contend" "commands_only env (others wenv)"
    using assms ctx unfolding context_ok_def by (metis fst_conv snd_conv)+
  let ?claim = "claimNext env contend tokens (leaseMs options) now db"
  have c: "reaches env db (fst ?claim)" unfolding claimNext_def by (rule claimLoop_reaches [OF ok(1)])
  have p: "reaches env db (fst (processJob options wenv j (fst ?claim)))" for j
    using c processJob_reaches [OF ok(2)] by (rule reaches_trans)
  show ?case
    using c p reaches_trans [OF p Suc.IH] by (simp add: ctx Let_def split: option.split)
qed

text \<open>What a worker that nobody disturbs decides about a job.\<close>

definition verdict :: "worker_options \<Rightarrow> worker_env \<Rightarrow> notification_job \<Rightarrow> fact_status" where
  "verdict options env j =
     (case buildJobMessage j of
        Inl _ \<Rightarrow> FACT_DEAD
      | Inr m \<Rightarrow>
          (if now1 env - njOccurredAt j > maxAgeMs options then FACT_DEAD
           else case sendCaught env m of
                  SendSent _ _ \<Rightarrow> FACT_SENT
                | SendFailed _ _ _ retryable \<Rightarrow>
                    (if retryable \<and> njAttemptCount j < maxAttempts options then FACT_QUEUED else FACT_DEAD)))"

fun outcomeOf :: "fact_status \<Rightarrow> attempt_outcome" where
  "outcomeOf FACT_SENT = OUTCOME_SENT"
| "outcomeOf FACT_QUEUED = RETRYABLE_FAILURE"
| "outcomeOf _ = TERMINAL_FAILURE"

text \<open>The state a settlement leaves: the fact, its ledger entry, and every other fact.\<close>

definition settledAs :: "worker_options \<Rightarrow> worker_env \<Rightarrow> notification_job \<Rightarrow> fact_status \<Rightarrow> outbox_db \<Rightarrow> outbox_db \<Rightarrow> bool" where
  "settledAs options env j st db db' =
     ((\<exists>f f'. factById db (njFactId j) = Some f \<and> factById db' (njFactId j) = Some f' \<and> factStatus f' = st
         \<and> leaseToken f' = None \<and> attemptCount f' = attemptCount f
         \<and> (st = FACT_QUEUED \<longrightarrow> nextAttemptAt f' = Some (now2 env + retryDelayMs (njAttemptCount j) options)))
      \<and> (\<exists>a. attempts db' = attempts db @ [a] \<and> attemptId a = freshAttemptId env \<and> attemptFactId a = Some (njFactId j)
             \<and> attemptNumber a = njAttemptCount j \<and> attemptOutcome a = outcomeOf st)
      \<and> (\<forall>i. i \<noteq> njFactId j \<longrightarrow> factById db' i = factById db i))"

lemma factById_updateFacts_other:
  assumes "\<And>g. factId (data g) = factId g" and "\<And>g. whr g \<Longrightarrow> factId g \<noteq> i"
  shows "factById (fst (updateFacts db whr data)) i = factById db i"
  unfolding factById_def facts_updateFacts
  by (rule find_map_other) (use assms in \<open>simp split: if_split\<close>)

lemma settleAttempt_last:
  assumes "attempts db = as @ [a]" and "\<forall>b \<in> set as. attemptId b \<noteq> attemptId a"
  shows "settleAttempt db (attemptId a) t code outc m =
    (db\<lparr>attempts := as @ [a\<lparr>completedAt := Some t, attemptErrorCode := code, attemptOutcome := outc,
        attemptMessageId := sanitizeProviderMessageId m\<rparr>]\<rparr>, None)"
proof -
  have "map (\<lambda>b. if attemptId b = attemptId a then h b else b) as = as" for h
    using assms(2) by (induction as) auto
  then show ?thesis using assms(1) by (simp add: settleAttempt_def)
qed

lemma factById_attempts [simp]: "factById (db\<lparr>attempts := as\<rparr>) i = factById db i"
  by (simp add: factById_def)

text \<open>One settlement of the fact followed by that of its attempt.\<close>

lemma settledAsI:
  assumes f: "factById db (njFactId j) = Some f" "heldBy (njFactId j) (njLeaseToken j) f"
    and fresh: "freshAttemptId env \<notin> attemptId ` set (attempts db)"
    and quiet: "others env = (\<lambda>_ d. d)" "hasLedger env"
    and a: "attemptId a = freshAttemptId env" "attemptFactId a = Some (njFactId j)" "attemptNumber a = njAttemptCount j"
    and data: "\<And>g. factId (data g) = factId g" "factStatus (data f) = st" "leaseToken (data f) = None"
      "attemptCount (data f) = attemptCount f"
      "st = FACT_QUEUED \<longrightarrow> nextAttemptAt (data f) = Some (now2 env + retryDelayMs (njAttemptCount j) options)"
    and r: "r = settleIfLedger env t code (outcomeOf st) m
      (fst (updateFacts (db\<lparr>attempts := attempts db @ [a]\<rparr>) (heldBy (njFactId j) (njLeaseToken j)) data))"
  shows "snd r = None \<and> settledAs options env j st db (fst r)"
proof -
  let ?u = "fst (updateFacts (db\<lparr>attempts := attempts db @ [a]\<rparr>) (heldBy (njFactId j) (njLeaseToken j)) data)"
  have u: "attempts ?u = attempts db @ [a]" by simp
  have "\<forall>b \<in> set (attempts db). attemptId b \<noteq> attemptId a" using fresh a(1) by (metis imageI)
  then have r': "r = (?u\<lparr>attempts := attempts db @ [a\<lparr>completedAt := Some t, attemptErrorCode := code,
        attemptOutcome := outcomeOf st, attemptMessageId := sanitizeProviderMessageId m\<rparr>]\<rparr>, None)"
    using settleAttempt_last [OF u] quiet a(1) by (simp add: r settleIfLedger_def)
  have own: "factById ?u (njFactId j) = Some (data f)"
    using f by (simp add: factById_updateFacts [OF data(1)])
  have rest: "factById ?u i = factById db i" if "i \<noteq> njFactId j" for i
    by (subst factById_updateFacts_other [OF data(1)]) (use that in \<open>simp_all add: heldBy_def\<close>)
  show ?thesis
    unfolding r' settledAs_def fst_conv snd_conv factById_attempts own
    using f(1) data(2-5) a rest by simp
qed

lemma quiet_openAttempt:
  assumes "factById db (njFactId j) = Some f" and "others env = (\<lambda>_ d. d)" "hasLedger env"
  obtains a where "openAttempt env j db = (db\<lparr>attempts := attempts db @ [a]\<rparr>, Inr (freshAttemptId env))"
    "attemptId a = freshAttemptId env" "attemptFactId a = Some (njFactId j)" "attemptNumber a = njAttemptCount j"
  using that assms by (simp add: openAttempt_def startAutomatic_def createAttempt_def)

section \<open>Properties\<close>

text \<open>
  Claim C18: while a fact is leased, no other worker can touch it: any statements of workers that
  claim before the lease expires and settle with their own tokens leave the leased row as it is.
\<close>

theorem lease_excludes_other_workers:
  assumes "factById db i = Some f" and "heldBy i token f" and "leaseExpiresAt f = Some expires"
    and "\<forall>c \<in> set cs. foreign token expires c"
  shows "factById (foldl (outbox_step env) db cs) i = Some f"
  using assms
proof (induction cs arbitrary: db)
  case Nil
  then show ?case by simp
next
  case (Cons c cs)
  then have "factById (outbox_step env db c) i = Some f" using foreign_step_keeps by simp
  then show ?case using Cons by simp
qed

text \<open>
  A sent, dead or skipped notification never changes again, whatever batches any number
  of workers run and however their statements interleave; in particular it is never sent again.
\<close>

theorem settled_notification_is_final:
  assumes "outbox_inv db" and "context_ok env ctx" and "factById db i = Some f" and "settled f"
  shows "factById (fst (runDueBatch env options ctx db)) i = Some f"
proof -
  obtain cs where "fst (runDueBatch env options ctx db) = foldl (outbox_step env) db cs"
    using batchLoop_reaches [OF assms(2)] unfolding runDueBatch_def reaches_def by blast
  then show ?thesis using outbox_rows.run_final [OF assms(1,3,4)] by simp
qed

text \<open>
  A batch keeps the table well formed: identifiers stay unique, a lease is present
  exactly while a fact is processed, a queued fact has a next attempt, and a sent or dead fact has
  its time and no recipient address any more.
\<close>

theorem batch_keeps_outbox_inv:
  assumes "outbox_inv db" and "context_ok env ctx"
  shows "outbox_inv (fst (runDueBatch env options ctx db))"
proof -
  obtain cs where "fst (runDueBatch env options ctx db) = foldl (outbox_step env) db cs"
    using batchLoop_reaches [OF assms(2)] unfolding runDueBatch_def reaches_def by blast
  then show ?thesis using outbox_rows.run_inv [OF assms(1)] by simp
qed

text \<open>
  Claim C28: an undisturbed worker settles the fact it holds exactly as the verdict says (dead when
  no message can be built or it is too old; sent when the sender accepted it; queued for the next
  attempt while the failure may be retried and attempts are left; dead otherwise), clears the lease,
  adds one ledger entry with the matching outcome and changes no other fact.
\<close>

theorem processJob_settles_as_verdict:
  assumes f: "factById db (njFactId j) = Some f" "heldBy (njFactId j) (njLeaseToken j) f"
    and fresh: "freshAttemptId env \<notin> attemptId ` set (attempts db)"
    and quiet: "others env = (\<lambda>_ d. d)" "hasLedger env"
  shows "snd (processJob options env j db) = None
    \<and> settledAs options env j (verdict options env j) db (fst (processJob options env j db))"
proof -
  obtain a where o: "openAttempt env j db = (db\<lparr>attempts := attempts db @ [a]\<rparr>, Inr (freshAttemptId env))"
    and a: "attemptId a = freshAttemptId env" "attemptFactId a = Some (njFactId j)" "attemptNumber a = njAttemptCount j"
    by (rule quiet_openAttempt [OF f(1) quiet])
  note settle = settledAsI [OF f fresh quiet a]
  have dead: "snd (deadLetter env j code m t prov (fst (openAttempt env j db))) = None
      \<and> settledAs options env j FACT_DEAD db (fst (deadLetter env j code m t prov (fst (openAttempt env j db))))" for code m t prov
    by (rule settle) (simp_all add: deadLetter_def markDead_def Let_def o quiet)
  show ?thesis
  proof (cases "buildJobMessage j")
    case (Inl e)
    then show ?thesis using dead by (cases e) (simp add: processJob_def verdict_def Let_def o)
  next
    case (Inr msg)
    show ?thesis
    proof (cases "now1 env - njOccurredAt j > maxAgeMs options")
      case True
      then show ?thesis using dead Inr by (simp add: processJob_def verdict_def Let_def o)
    next
      case False
      have step: "processJob options env j db = settleResult options env j (sendCaught env msg) (fst (openAttempt env j db))"
        using False Inr by (simp add: processJob_def Let_def o quiet)
      show ?thesis
      proof (cases "sendCaught env msg")
        case (SendSent prov m)
        have "snd r = None \<and> settledAs options env j FACT_SENT db (fst r)"
          if "r = settleIfLedger env (now2 env) None OUTCOME_SENT m
                (fst (markSent (fst (openAttempt env j db)) (njFactId j) (njLeaseToken j) (now2 env) prov m))" for r
          by (rule settle) (simp_all add: that markSent_def Let_def o)
        then show ?thesis using False Inr SendSent
          by (simp add: step settleResult_def verdict_def Let_def quiet)
      next
        case (SendFailed code m prov retry)
        have retried: "snd r = None \<and> settledAs options env j FACT_QUEUED db (fst r)"
          if "r = settleIfLedger env (now2 env) c RETRYABLE_FAILURE None
                (fst (releaseForRetry (fst (openAttempt env j db)) (njFactId j) (njLeaseToken j) code' m'
                        (now2 env + retryDelayMs (njAttemptCount j) options) prov))" for r c code' m'
          by (rule settle) (simp_all add: that releaseForRetry_def Let_def o)
        then show ?thesis using False Inr SendFailed dead
          by (simp add: step settleResult_def verdict_def Let_def quiet)
      qed
    qed
  qed
qed

text \<open>
  Without contention a claim takes a fact exactly when one is claimable, and then the
  first of them by next attempt, occurrence and identifier; the fact is leased to the new token
  until the lease ends, and nothing else changes.
\<close>

theorem claimNext_takes_first_claimable:
  assumes "outbox_inv db" and r: "claimNext env (\<lambda>_ d. d) tokens ms now db = (db', r)"
  shows "case r of
      None \<Rightarrow> db' = db \<and> (\<forall>f \<in> set (facts db). \<not> claimableWhere env db now f)
    | Some j \<Rightarrow> \<exists>f. f \<in> set (facts db) \<and> claimableWhere env db now f
        \<and> (\<forall>g \<in> set (facts db). claimableWhere env db now g \<longrightarrow> compareFacts f g \<le> 0)
        \<and> j = jobOfFact db (tokens 0) f \<and> factById db' (factId f) = Some (leaseFact now ms (tokens 0) f)"
proof (cases "firstClaimable env db now")
  case None
  then show ?thesis using r firstClaimable_None [of env db now]
    by (auto simp: claimNext_def maxClaimContentionAttempts_def numeral_eq_Suc)
next
  case (Some f)
  note first = firstClaimable_Some [OF Some]
  have id: "factById db (factId f) = Some f"
    using assms(1) find_key [of factId "facts db" f] first by (simp add: outbox_inv_def factById_def)
  have uniq: "filter (\<lambda>g. factId g = factId f \<and> claimableWhere env db now g) (facts db) = [f]"
  proof -
    have "filter (\<lambda>g. factId g = factId f) xs = [f]" if "distinct (map factId xs)" "f \<in> set xs" for xs
      using that by (induction xs) (auto simp: filter_empty_conv rev_image_eqI)
    then have "filter (\<lambda>g. factId g = factId f) (facts db) = [f]"
      using assms(1) first by (simp add: outbox_inv_def)
    then have "filter (claimableWhere env db now) (filter (\<lambda>g. factId g = factId f) (facts db)) = [f]"
      using first by simp
    then show ?thesis by (simp add: conj_commute)
  qed
  then have one: "snd (claimFact env now ms (tokens 0) (factId f) db) = 1"
    by (simp add: claimFact_def updateFacts_def)
  have "factById (fst (claimFact env now ms (tokens 0) (factId f) db)) (factId f) = Some (leaseFact now ms (tokens 0) f)"
    using id first by (simp add: claimFact_def factById_updateFacts)
  moreover have "db' = fst (claimFact env now ms (tokens 0) (factId f) db)" "r = Some (jobOfFact db (tokens 0) f)"
    using r one Some by (auto simp: claimNext_def maxClaimContentionAttempts_def numeral_eq_Suc)
  ultimately show ?thesis using first by auto
qed

text \<open>
  Under contention with any other workers a returned job is really held: its fact carries
  the job's token (one of the at most five drawn) until the end of the lease, and it has no
  do-not-send tombstone.
\<close>

theorem claimed_job_is_held:
  assumes "commands_only env contend" and "outbox_inv db"
    and "claimNext env contend tokens ms now db = (db', Some j)"
  shows "\<exists>f m. factById db' (njFactId j) = Some f \<and> heldBy (njFactId j) (njLeaseToken j) f
    \<and> leaseExpiresAt f = Some (now + ms) \<and> ''DO_NOT_SEND'' \<notin> set (tombstones f)
    \<and> njLeaseToken j = tokens m \<and> m < 5"
  using claimLoop_Some [OF assms(1,2), of tokens ms now maxClaimContentionAttempts 0 db' j] assms(3)
  by (auto simp only: claimNext_def maxClaimContentionAttempts_def add_0)

text \<open>
  The retry delay starts at the base delay, doubles with every attempt until it reaches
  the maximum, never exceeds the maximum and never shrinks.
\<close>

theorem retryDelayMs_doubles_up_to_max:
  assumes "0 \<le> retryBaseDelayMs options" and "1 \<le> n"
  shows "retryDelayMs (n + 1) options = min (2 * (retryBaseDelayMs options * 2 ^ nat (n - 1))) (retryMaxDelayMs options)
    \<and> retryDelayMs 1 options = min (retryBaseDelayMs options) (retryMaxDelayMs options)
    \<and> retryDelayMs n options \<le> retryMaxDelayMs options
    \<and> retryDelayMs n options \<le> retryDelayMs (n + 1) options"
proof -
  have "nat n = Suc (nat (n - 1))" using assms(2) by simp
  then have p: "(2 :: int) ^ nat n = 2 * 2 ^ nat (n - 1)" by simp
  have "retryBaseDelayMs options * 2 ^ nat (n - 1) \<le> 2 * (retryBaseDelayMs options * 2 ^ nat (n - 1))"
    using assms(1) by simp
  then show ?thesis using assms(2) p by (simp add: retryDelayMs_def Let_def min_def)
qed

section \<open>Concrete histories\<close>

definition demo_fact :: fact where
  "demo_fact =
     \<lparr>factId = ''f1'', factShopId = ''s1'', factOrderId = ''o1'', factRoutePlanId = Some ''r1'',
      factDeliveryStopId = Some ''d1'', recipientEmailSnapshot = Some ''a@b.c'', factUiStatus = Some ''READY'',
      factIdempotencyKey = Some ''k1'', factSource = ''ROUTE'', factStatus = FACT_QUEUED, attemptCount = 0,
      nextAttemptAt = Some 100, processingStartedAt = None, leaseToken = None, leaseExpiresAt = None,
      factProvider = None, providerMessageId = None, providerStatus = None, providerEventAt = None,
      factErrorCode = None, factErrorMessage = None, sentAt = None, deadAt = None,
      factMetadata = JObj [(''routeEmailSelected'', JBool True), (''signal'', JStr ''OUT_FOR_DELIVERY'')],
      occurredAt = 90, tombstones = []\<rparr>"

definition demo_shop :: notification_shop where
  "demo_shop = \<lparr>notificationAppId = ''clever'', notificationShopDomain = ''a.example'',
     customerEmailSettings = JObj [(''automatic'', JObj [(''enabled'', JBool True)])]\<rparr>"

definition demo_outbox :: outbox_db where
  "demo_outbox = \<lparr>facts = [demo_fact], shopsById = (\<lambda>_. demo_shop), attempts = []\<rparr>"

definition demo_outbox_env :: outbox_env where
  "demo_outbox_env = \<lparr>allowCustomerMessages = True, jsonDiffers = (\<lambda>a b. a \<noteq> b)\<rparr>"

definition demo_worker :: worker_env where
  "demo_worker = \<lparr>senderProvider = ''http'', sendMessage = (\<lambda>_. Inl ''timeout''), hasLedger = True,
     now1 = 1000, now2 = 1001, freshAttemptId = ''a1'', freshCorrelationId = ''c1'', others = (\<lambda>_ d. d)\<rparr>"

definition demo_ctx :: "nat \<Rightarrow> batch_context" where
  "demo_ctx = (\<lambda>_. ((\<lambda>_ d. d), (\<lambda>_. ''t1''), 1000, demo_worker))"

definition demo_leased :: outbox_db where
  "demo_leased = demo_outbox\<lparr>facts := [leaseFact 1000 60000 ''t1'' demo_fact]\<rparr>"

definition demo_job :: notification_job where
  "demo_job = jobOfFact demo_outbox ''t1'' demo_fact"

lemmas demo_defs = demo_fact_def demo_shop_def demo_outbox_def demo_outbox_env_def demo_worker_def
  demo_ctx_def demo_leased_def demo_job_def

lemma demo_quiet: "commands_only env (\<lambda>_ d. d)"
  unfolding commands_only_def by (auto intro: exI [of _ "[]"])

lemma demo_context_ok: "context_ok env demo_ctx"
  by (simp add: context_ok_def demo_ctx_def demo_worker_def demo_quiet)

lemma demo_inv: "outbox_inv demo_outbox"
  by (simp add: outbox_inv_def demo_outbox_def demo_fact_def fact_ok_def)

lemma demo_claimable: "claimableWhere demo_outbox_env demo_outbox 1000 demo_fact"
  by (simp add: claimableWhere_def due_def demo_defs)

theorem lease_excludes_other_workers_witness:
  "factById (foldl (outbox_step demo_outbox_env) demo_leased
     [ClaimFact 2000 60000 ''t2'' ''f1'', MarkSent ''f1'' ''t2'' 2001 ''http'' None]) ''f1''
   = Some (leaseFact 1000 60000 ''t1'' demo_fact)"
  by (rule lease_excludes_other_workers [where token = "''t1''" and expires = 61000])
    (simp_all add: demo_leased_def demo_outbox_def factById_def heldBy_def leaseFact_def demo_fact_def)

theorem settled_notification_is_final_witness:
  "factById (fst (runDueBatch demo_outbox_env defaultOptions demo_ctx
     (demo_outbox\<lparr>facts := [demo_fact\<lparr>factStatus := FACT_SKIPPED\<rparr>]\<rparr>))) ''f1''
   = Some (demo_fact\<lparr>factStatus := FACT_SKIPPED\<rparr>)"
  by (rule settled_notification_is_final [OF _ demo_context_ok])
    (simp_all add: outbox_inv_def fact_ok_def settled_def factById_def demo_fact_def demo_outbox_def)

theorem batch_keeps_outbox_inv_witness:
  "outbox_inv demo_outbox \<and> outbox_inv (fst (runDueBatch demo_outbox_env defaultOptions demo_ctx demo_outbox))"
  using batch_keeps_outbox_inv [OF demo_inv demo_context_ok] demo_inv by blast

theorem processJob_settles_as_verdict_witness:
  "settledAs defaultOptions demo_worker demo_job FACT_QUEUED demo_leased
     (fst (processJob defaultOptions demo_worker demo_job demo_leased))"
proof -
  have t: "js_trim ''a@b.c'' = ''a@b.c''" by code_simp
  have v: "verdict defaultOptions demo_worker demo_job = FACT_QUEUED"
    by (simp add: verdict_def buildJobMessage_def sendCaught_def isNotificationUiStatus_def jobOfFact_def
        defaultOptions_def demo_defs t)
  have "snd (processJob defaultOptions demo_worker demo_job demo_leased) = None
    \<and> settledAs defaultOptions demo_worker demo_job (verdict defaultOptions demo_worker demo_job) demo_leased
        (fst (processJob defaultOptions demo_worker demo_job demo_leased))"
    by (rule processJob_settles_as_verdict [where f = "leaseFact 1000 60000 ''t1'' demo_fact"])
      (simp_all add: factById_def heldBy_def leaseFact_def jobOfFact_def demo_defs)
  then show ?thesis by (simp add: v)
qed

lemma demo_claim: "\<exists>db'. claimNext demo_outbox_env (\<lambda>_ d. d) (\<lambda>_. ''t1'') 60000 1000 demo_outbox = (db', Some demo_job)"
  using demo_claimable
  by (simp add: claimNext_def maxClaimContentionAttempts_def numeral_eq_Suc firstClaimable_def claimFact_def
      updateFacts_def Let_def demo_outbox_def demo_job_def)

theorem claimNext_takes_first_claimable_witness:
  "\<exists>db'. claimNext demo_outbox_env (\<lambda>_ d. d) (\<lambda>_. ''t1'') 60000 1000 demo_outbox = (db', Some demo_job)
     \<and> factById db' ''f1'' = Some (leaseFact 1000 60000 ''t1'' demo_fact)"
proof -
  obtain db' where c: "claimNext demo_outbox_env (\<lambda>_ d. d) (\<lambda>_. ''t1'') 60000 1000 demo_outbox = (db', Some demo_job)"
    using demo_claim by blast
  have "facts demo_outbox = [demo_fact]" "factId demo_fact = ''f1''" by (simp_all add: demo_outbox_def demo_fact_def)
  then show ?thesis using claimNext_takes_first_claimable [OF demo_inv c] c by auto
qed

theorem claimed_job_is_held_witness:
  "\<exists>db' f. claimNext demo_outbox_env (\<lambda>_ d. d) (\<lambda>_. ''t1'') 60000 1000 demo_outbox = (db', Some demo_job)
     \<and> factById db' ''f1'' = Some f \<and> heldBy ''f1'' ''t1'' f"
proof -
  obtain db' where c: "claimNext demo_outbox_env (\<lambda>_ d. d) (\<lambda>_. ''t1'') 60000 1000 demo_outbox = (db', Some demo_job)"
    using demo_claim by blast
  have "njFactId demo_job = ''f1''" "njLeaseToken demo_job = ''t1''" by (simp_all add: demo_job_def jobOfFact_def demo_fact_def)
  then show ?thesis using claimed_job_is_held [OF demo_quiet demo_inv c] c by (metis (no_types))
qed

theorem retryDelayMs_doubles_up_to_max_witness:
  "retryDelayMs 3 defaultOptions = 120000 \<and> retryDelayMs 9 defaultOptions \<le> 1800000"
  using retryDelayMs_doubles_up_to_max [of defaultOptions 2] retryDelayMs_doubles_up_to_max [of defaultOptions 9]
  by (simp add: defaultOptions_def)

end
