(* ===== verification/RouteEta.thy ===== *)
theory RouteEta
  imports Machines
begin

text \<open>
  Arrival estimates of a route (\<^verbatim>\<open>modules/driver/driver-route-eta.ts\<close>): the full chain computed
  when a route starts or its pickup is completed, the recalculation after an arrival or a
  completion, and the snapshot shown to the driver. The running time of a chain is a real number of
  milliseconds, an estimate is the instant it denotes (\<^verbatim>\<open>new Date(ms)\<close> drops the fraction), and
  instants stay within the range of \<^verbatim>\<open>Date\<close>. Shown: the closed form of the chain, when it fails,
  that estimates follow the sequence, that an arrival or a completion that is on time leaves every
  later estimate as it was, and what the snapshot reports.
\<close>

section \<open>Stops and updates\<close>

record eta_stop =
  etaDeliveryStopId :: string
  distanceFromPreviousMeters :: "real option"
  durationFromPreviousSeconds :: "jsnum option"
  etaCalculatedAt :: "int option"
  estimatedArrivalAt :: "int option"
  etaSequence :: int
  serviceMinutes :: "jsnum option"
  etaStopStatus :: "string option"

record eta_stop_update =
  updDeliveryStopId :: string
  updEstimatedArrivalAt :: "int option"
  updSequence :: int

datatype eta_status = ETA_READY | ETA_FAILED | ETA_PRE_PICKUP

datatype eta_trigger = ROUTE_STARTED | STOP_ARRIVED | STOP_DELIVERED | STOP_FAILED | PICKUP_COMPLETED

record eta_update =
  actualArrivalAt :: "int option"
  etaUpdateStopId :: "string option"
  delaySeconds :: "int option"
  etaUpdateCalculatedAt :: int
  etaFailure :: "(string \<times> string) option"
  etaSource :: eta_trigger
  etaStatus :: eta_status
  inputRouteVersionId :: "string option"
  previousEstimatedArrivalAt :: "int option"
  serverReceivedAt :: int
  trigger :: eta_trigger
  updatedStops :: "eta_stop_update list"

record next_stop_eta =
  nextDeliveryStopId :: string
  nextDistanceMeters :: "real option"
  nextEstimatedArrivalAt :: "int option"
  nextSequence :: int

record eta_snapshot =
  snapCalculatedAt :: "int option"
  snapFailure :: "(string \<times> string) option"
  nextStopEta :: "next_stop_eta option"
  snapPickupCompletedAt :: "int option"
  remainingRouteEta :: "(real option \<times> int option) option"
  snapStatus :: eta_status

datatype eta_error = ROUTE_ETA_STOP_NOT_FOUND string

section \<open>Steps of the chain\<close>

definition effectiveEventTime :: "int \<Rightarrow> int \<Rightarrow> int" where
  "effectiveEventTime eventOccurredAt received = (if eventOccurredAt > received then received else eventOccurredAt)"

definition addDuration :: "real option \<Rightarrow> jsnum option \<Rightarrow> real option" where
  "addDuration cursorMs durationSeconds =
     (case (cursorMs, durationSeconds) of
        (Some c, Some (Num d)) \<Rightarrow> (if d < 0 then None else Some (c + d * 1000))
      | _ \<Rightarrow> None)"

definition normalizedMinutes :: "jsnum option \<Rightarrow> real" where
  "normalizedMinutes m = (case m of Some (Num x) \<Rightarrow> (if x < 0 then 5 else x) | _ \<Rightarrow> 5)"

definition addServiceTime :: "real option \<Rightarrow> jsnum option \<Rightarrow> real option" where
  "addServiceTime cursorMs m = map_option (\<lambda>c. c + normalizedMinutes m * 60000) cursorMs"

text \<open>\<^verbatim>\<open>new Date(value)\<close> truncates towards zero.\<close>

definition truncMs :: "real \<Rightarrow> int" where
  "truncMs x = (if 0 \<le> x then \<lfloor>x\<rfloor> else \<lceil>x\<rceil>)"

definition toIsoString :: "real option \<Rightarrow> int option" where
  "toIsoString v = map_option truncMs v"

definition toStopUpdate :: "eta_stop \<Rightarrow> int option \<Rightarrow> eta_stop_update" where
  "toStopUpdate s eta =
     \<lparr>updDeliveryStopId = etaDeliveryStopId s, updEstimatedArrivalAt = eta, updSequence = etaSequence s\<rparr>"

definition etaFailureFor :: "eta_stop_update list \<Rightarrow> (string \<times> string) option" where
  "etaFailureFor us =
     (if \<exists>u \<in> set us. updEstimatedArrivalAt u = None
      then Some (''ETA_INPUT_DURATION_UNAVAILABLE'',
                 ''ETA could not be calculated because route leg durations are unavailable.'')
      else None)"

text \<open>The callback mapped over the stops, with the running time it closes over.\<close>

fun etaChain :: "real option \<Rightarrow> eta_stop list \<Rightarrow> eta_stop_update list" where
  "etaChain cursorMs [] = []"
| "etaChain cursorMs (s # ss) =
     (let arrival = addDuration cursorMs (durationFromPreviousSeconds s)
      in toStopUpdate s (toIsoString arrival) # etaChain (addServiceTime arrival (serviceMinutes s)) ss)"

definition sortedStops :: "eta_stop list \<Rightarrow> eta_stop list" where
  "sortedStops ss = sort_by (\<lambda>a b. compare_int (etaSequence a) (etaSequence b)) ss"

definition jsRound :: "real \<Rightarrow> int" where
  "jsRound x = \<lfloor>x + 1 / 2\<rfloor>"

fun findIndexFrom :: "('a \<Rightarrow> bool) \<Rightarrow> 'a list \<Rightarrow> nat \<Rightarrow> nat option" where
  "findIndexFrom P [] k = None"
| "findIndexFrom P (x # xs) k = (if P x then Some k else findIndexFrom P xs (Suc k))"

section \<open>Updates\<close>

definition calculateFullChainEtaUpdate ::
  "int \<Rightarrow> string option \<Rightarrow> int \<Rightarrow> eta_stop list \<Rightarrow> eta_trigger \<Rightarrow> eta_update" where
  "calculateFullChainEtaUpdate eventOccurredAt versionId received ss trg =
     (let us = etaChain (Some (of_int (effectiveEventTime eventOccurredAt received))) (sortedStops ss);
          failure = etaFailureFor us
      in \<lparr>actualArrivalAt = None, etaUpdateStopId = None, delaySeconds = None,
          etaUpdateCalculatedAt = received, etaFailure = failure, etaSource = trg,
          etaStatus = (if failure = None then ETA_READY else ETA_FAILED), inputRouteVersionId = versionId,
          previousEstimatedArrivalAt = None, serverReceivedAt = received, trigger = trg, updatedStops = us\<rparr>)"

definition calculateRouteStartEtaUpdate ::
  "int \<Rightarrow> string option \<Rightarrow> int \<Rightarrow> eta_stop list \<Rightarrow> eta_update" where
  "calculateRouteStartEtaUpdate eventOccurredAt versionId received ss =
     calculateFullChainEtaUpdate eventOccurredAt versionId received ss ROUTE_STARTED"

definition calculatePickupEtaUpdate ::
  "int \<Rightarrow> string option \<Rightarrow> int \<Rightarrow> eta_stop list \<Rightarrow> eta_update" where
  "calculatePickupEtaUpdate eventOccurredAt versionId received ss =
     calculateFullChainEtaUpdate eventOccurredAt versionId received ss PICKUP_COMPLETED"

definition calculateArrivalEtaUpdate ::
  "string \<Rightarrow> int \<Rightarrow> string option \<Rightarrow> int \<Rightarrow> eta_stop list \<Rightarrow> eta_error + eta_update" where
  "calculateArrivalEtaUpdate arrivedId eventOccurredAt versionId received ss =
     (case findIndexFrom (\<lambda>s. etaDeliveryStopId s = arrivedId) (sortedStops ss) 0 of
        None \<Rightarrow> Inl (ROUTE_ETA_STOP_NOT_FOUND arrivedId)
      | Some k \<Rightarrow>
          (let arrivedStop = sortedStops ss ! k;
               previous = estimatedArrivalAt arrivedStop;
               actual = effectiveEventTime eventOccurredAt received;
               us = etaChain (addServiceTime (Some (of_int actual)) (serviceMinutes arrivedStop)) (drop (k + 1) (sortedStops ss));
               failure = etaFailureFor us
           in Inr \<lparr>actualArrivalAt = Some actual, etaUpdateStopId = Some arrivedId,
                   delaySeconds = map_option (\<lambda>p. jsRound (of_int (actual - p) / 1000)) previous,
                   etaUpdateCalculatedAt = received, etaFailure = failure, etaSource = STOP_ARRIVED,
                   etaStatus = (if failure = None then ETA_READY else ETA_FAILED), inputRouteVersionId = versionId,
                   previousEstimatedArrivalAt = previous, serverReceivedAt = received, trigger = STOP_ARRIVED,
                   updatedStops = us\<rparr>))"

definition calculateCompletionEtaUpdate ::
  "int option \<Rightarrow> string \<Rightarrow> int \<Rightarrow> string option \<Rightarrow> int \<Rightarrow> eta_stop list \<Rightarrow> eta_trigger option \<Rightarrow> eta_error + eta_update" where
  "calculateCompletionEtaUpdate arrivedAt completedId eventOccurredAt versionId received ss trg0 =
     (case findIndexFrom (\<lambda>s. etaDeliveryStopId s = completedId) (sortedStops ss) 0 of
        None \<Rightarrow> Inl (ROUTE_ETA_STOP_NOT_FOUND completedId)
      | Some k \<Rightarrow>
          (let completedStop = sortedStops ss ! k;
               previous = estimatedArrivalAt completedStop;
               previousCompletion = addServiceTime (map_option of_int previous) (serviceMinutes completedStop);
               deliveredAt = effectiveEventTime eventOccurredAt received;
               anchor = coalesce_def_value (addServiceTime (map_option of_int arrivedAt) (serviceMinutes completedStop))
                          (of_int deliveredAt);
               trg = coalesce_def_value trg0 STOP_DELIVERED;
               us = etaChain (Some anchor) (drop (k + 1) (sortedStops ss));
               failure = etaFailureFor us
           in Inr \<lparr>actualArrivalAt = None, etaUpdateStopId = Some completedId,
                   delaySeconds = map_option (\<lambda>p. jsRound ((anchor - p) / 1000)) previousCompletion,
                   etaUpdateCalculatedAt = received, etaFailure = failure, etaSource = trg,
                   etaStatus = (if failure = None then ETA_READY else ETA_FAILED), inputRouteVersionId = versionId,
                   previousEstimatedArrivalAt = previous, serverReceivedAt = received, trigger = trg,
                   updatedStops = us\<rparr>))"

section \<open>The snapshot\<close>

definition isPastEtaStopStatus :: "string option \<Rightarrow> bool" where
  "isPastEtaStopStatus st =
     (st \<in> {Some ''ARRIVED'', Some ''DELIVERED'', Some ''FAILED'', Some ''CANCELLED'', Some ''SKIPPED''})"

definition etaSnapshotFailureFor :: "eta_stop list \<Rightarrow> (string \<times> string) option" where
  "etaSnapshotFailureFor ss =
     (if \<exists>s \<in> set ss. estimatedArrivalAt s = None
      then Some (''ETA_INPUT_DURATION_UNAVAILABLE'',
                 ''ETA could not be calculated because route leg durations are unavailable.'')
      else None)"

definition latestCalculatedAt :: "eta_stop list \<Rightarrow> int option" where
  "latestCalculatedAt ss =
     (let calculatedTimes = List.map_filter etaCalculatedAt ss
      in if calculatedTimes = [] then None else Some (Max (set calculatedTimes)))"

fun totalDistanceFrom :: "real \<Rightarrow> eta_stop list \<Rightarrow> real option" where
  "totalDistanceFrom acc [] = Some acc"
| "totalDistanceFrom acc (s # ss) =
     (case distanceFromPreviousMeters s of None \<Rightarrow> None | Some d \<Rightarrow> totalDistanceFrom (acc + d) ss)"

definition totalDistanceMeters :: "eta_stop list \<Rightarrow> real option" where
  "totalDistanceMeters ss = totalDistanceFrom 0 ss"

definition buildDriverRouteEtaSnapshot :: "int option \<Rightarrow> eta_stop list \<Rightarrow> eta_snapshot" where
  "buildDriverRouteEtaSnapshot pickupCompletedAt ss =
     (case pickupCompletedAt of
        None \<Rightarrow>
          \<lparr>snapCalculatedAt = None, snapFailure = None, nextStopEta = None, snapPickupCompletedAt = None,
           remainingRouteEta = None, snapStatus = ETA_PRE_PICKUP\<rparr>
      | Some p \<Rightarrow>
          (let remaining = filter (\<lambda>s. \<not> isPastEtaStopStatus (etaStopStatus s)) (sortedStops ss);
               failure = etaSnapshotFailureFor remaining
           in \<lparr>snapCalculatedAt = latestCalculatedAt remaining, snapFailure = failure,
               nextStopEta = (case remaining of
                  [] \<Rightarrow> None
                | s # _ \<Rightarrow> Some \<lparr>nextDeliveryStopId = etaDeliveryStopId s,
                    nextDistanceMeters = distanceFromPreviousMeters s,
                    nextEstimatedArrivalAt = estimatedArrivalAt s, nextSequence = etaSequence s\<rparr>),
               snapPickupCompletedAt = Some p,
               remainingRouteEta = (if remaining = [] then None
                 else Some (totalDistanceMeters remaining,
                   toIsoString (addServiceTime (map_option of_int (estimatedArrivalAt (last remaining)))
                     (serviceMinutes (last remaining))))),
               snapStatus = (if failure = None then ETA_READY else ETA_FAILED)\<rparr>))"


section \<open>The chain\<close>

interpretation stop_order: sign_comparator "\<lambda>a b. compare_int (etaSequence a) (etaSequence b)"
  by (rule sign_comparator_int)

text \<open>A leg whose duration is known: finite and not negative.\<close>

definition usable :: "eta_stop \<Rightarrow> bool" where
  "usable s = (case durationFromPreviousSeconds s of Some (Num d) \<Rightarrow> 0 \<le> d | _ \<Rightarrow> False)"

definition legSeconds :: "eta_stop \<Rightarrow> real" where
  "legSeconds s = (case durationFromPreviousSeconds s of Some (Num d) \<Rightarrow> d | _ \<Rightarrow> 0)"

lemma addDuration_usable:
  "addDuration (Some c) (durationFromPreviousSeconds s) = (if usable s then Some (c + legSeconds s * 1000) else None)"
  by (auto simp: addDuration_def usable_def legSeconds_def split: option.split jsnum.split)

lemma addDuration_None [simp]: "addDuration None d = None"
  by (simp add: addDuration_def)

lemma normalizedMinutes_nonneg: "0 \<le> normalizedMinutes m"
  by (auto simp: normalizedMinutes_def split: option.split jsnum.split)

lemma addServiceTime_simps [simp]:
  "addServiceTime None m = None"
  "addServiceTime (Some c) m = Some (c + normalizedMinutes m * 60000)"
  by (simp_all add: addServiceTime_def)

lemma toIsoString_simps [simp]: "toIsoString None = None" "toIsoString (Some x) = Some (truncMs x)"
  by (simp_all add: toIsoString_def)

lemma toStopUpdate_simps [simp]:
  "updDeliveryStopId (toStopUpdate s e) = etaDeliveryStopId s"
  "updEstimatedArrivalAt (toStopUpdate s e) = e"
  "updSequence (toStopUpdate s e) = etaSequence s"
  by (simp_all add: toStopUpdate_def)

lemma length_etaChain [simp]: "length (etaChain c ss) = length ss"
  by (induction ss arbitrary: c) (simp_all add: Let_def)

text \<open>The time the chain has used up when stop \<open>i\<close> is reached.\<close>

definition elapsedAt :: "eta_stop list \<Rightarrow> nat \<Rightarrow> real" where
  "elapsedAt ss i = (\<Sum>k\<le>i. legSeconds (ss ! k)) * 1000 + (\<Sum>k<i. normalizedMinutes (serviceMinutes (ss ! k))) * 60000"

lemma elapsedAt_0: "elapsedAt (s # ss) 0 = legSeconds s * 1000"
  by (simp add: elapsedAt_def)

lemma elapsedAt_Suc:
  "elapsedAt (s # ss) (Suc i) = legSeconds s * 1000 + normalizedMinutes (serviceMinutes s) * 60000 + elapsedAt ss i"
  by (simp add: elapsedAt_def sum.atMost_Suc_shift sum.lessThan_Suc_shift algebra_simps del: sum.lessThan_Suc sum.atMost_Suc)

lemma elapsedAt_step:
  "elapsedAt ss (Suc i) = elapsedAt ss i + normalizedMinutes (serviceMinutes (ss ! i)) * 60000 + legSeconds (ss ! Suc i) * 1000"
  by (simp add: elapsedAt_def algebra_simps)

lemma etaChain_None: "i < length ss \<Longrightarrow> updEstimatedArrivalAt (etaChain None ss ! i) = None"
  by (induction ss arbitrary: i) (auto simp: Let_def nth_Cons split: nat.split)

lemma all_le_Suc_Cons: "(\<forall>k\<le>Suc i. P ((x # xs) ! k)) \<longleftrightarrow> P x \<and> (\<forall>k\<le>i. P (xs ! k))"
  by (auto simp: nth_Cons split: nat.split)

lemma etaChain_nth:
  assumes "i < length ss"
  shows "updDeliveryStopId (etaChain c ss ! i) = etaDeliveryStopId (ss ! i)
    \<and> updSequence (etaChain c ss ! i) = etaSequence (ss ! i)"
  using assms by (induction ss arbitrary: c i) (auto simp: Let_def nth_Cons split: nat.split)

lemma etaChain_estimate:
  assumes "i < length ss"
  shows "updEstimatedArrivalAt (etaChain (Some c) ss ! i) =
    (if \<forall>k\<le>i. usable (ss ! k) then Some (truncMs (c + elapsedAt ss i)) else None)"
  using assms
proof (induction ss arbitrary: c i)
  case Nil
  then show ?case by simp
next
  case (Cons s ss)
  show ?case
  proof (cases i)
    case 0
    then show ?thesis by (simp add: Let_def addDuration_usable elapsedAt_0)
  next
    case (Suc j)
    then have j: "j < length ss" using Cons.prems by simp
    show ?thesis
    proof (cases "usable s")
      case True
      have "etaChain (Some c) (s # ss) ! i =
          etaChain (Some (c + legSeconds s * 1000 + normalizedMinutes (serviceMinutes s) * 60000)) ss ! j"
        using True Suc by (simp add: Let_def addDuration_usable)
      then show ?thesis
        using True Cons.IH [OF j] unfolding Suc all_le_Suc_Cons elapsedAt_Suc by (simp add: add.assoc)
    next
      case False
      then show ?thesis using etaChain_None [OF j] unfolding Suc all_le_Suc_Cons by (simp add: Let_def addDuration_usable)
    qed
  qed
qed

lemma truncMs_mono: "x \<le> y \<Longrightarrow> truncMs x \<le> truncMs y"
proof (cases "0 \<le> x \<or> y < 0")
  case False
  then have "\<lceil>x\<rceil> \<le> 0" by simp
  also have "0 \<le> \<lfloor>y\<rfloor>" using False by simp
  finally have "\<lceil>x\<rceil> \<le> \<lfloor>y\<rfloor>" .
  with False show ?thesis by (simp add: truncMs_def)
qed (auto simp: truncMs_def floor_mono ceiling_mono)

lemma truncMs_of_int [simp]: "truncMs (of_int i) = i"
  by (simp add: truncMs_def)

lemma legSeconds_nonneg: "usable s \<Longrightarrow> 0 \<le> legSeconds s"
  by (auto simp: usable_def legSeconds_def split: option.splits jsnum.splits)

lemma elapsedAt_nonneg: "\<forall>k\<le>i. usable (ss ! k) \<Longrightarrow> 0 \<le> elapsedAt ss i"
  unfolding elapsedAt_def by (intro add_nonneg_nonneg mult_nonneg_nonneg sum_nonneg) (auto simp: legSeconds_nonneg normalizedMinutes_nonneg)

lemma elapsedAt_mono:
  assumes "i \<le> j" and "\<forall>k\<le>j. usable (ss ! k)"
  shows "elapsedAt ss i \<le> elapsedAt ss j"
  using assms
proof (induction j rule: dec_induct)
  case base
  then show ?case by simp
next
  case (step j)
  then have "elapsedAt ss i \<le> elapsedAt ss j" by simp
  moreover have "0 \<le> legSeconds (ss ! Suc j)" using step.prems legSeconds_nonneg by simp
  ultimately show ?case
    using normalizedMinutes_nonneg [of "serviceMinutes (ss ! j)"] unfolding elapsedAt_step by linarith
qed

lemma etaFailureFor_iff: "etaFailureFor us = None \<longleftrightarrow> (\<forall>i < length us. updEstimatedArrivalAt (us ! i) \<noteq> None)"
  unfolding all_set_conv_all_nth [symmetric, where P = "\<lambda>u. updEstimatedArrivalAt u \<noteq> None"]
  by (auto simp: etaFailureFor_def)

lemma length_sortedStops [simp]: "length (sortedStops ss) = length ss" and set_sortedStops [simp]: "set (sortedStops ss) = set ss"
  by (simp_all add: sortedStops_def)

text \<open>The tail of a chain is the chain started from the arrival it computed.\<close>

lemma etaChain_tail:
  assumes "k < length ss"
  obtains a where "updEstimatedArrivalAt (etaChain (Some c) ss ! k) = toIsoString a"
    "drop (Suc k) (etaChain (Some c) ss) = etaChain (addServiceTime a (serviceMinutes (ss ! k))) (drop (Suc k) ss)"
    "a = (if \<forall>i\<le>k. usable (ss ! i) then Some (c + elapsedAt ss k) else None)"
proof -
  have "drop (Suc k) (etaChain (Some c) ss) = etaChain (addServiceTime
      (if \<forall>i\<le>k. usable (ss ! i) then Some (c + elapsedAt ss k) else None) (serviceMinutes (ss ! k))) (drop (Suc k) ss)"
    using assms
  proof (induction ss arbitrary: c k)
    case (Cons s ss)
    have none: "drop m (etaChain None ss) = etaChain None (drop m ss)" for m
      by (induction ss arbitrary: m) (auto simp: Let_def drop_Cons split: nat.split)
    show ?case
    proof (cases k)
      case 0
      then show ?thesis by (simp add: Let_def addDuration_usable elapsedAt_0)
    next
      case (Suc j)
      then show ?thesis
        using Cons.IH [of j "c + legSeconds s * 1000 + normalizedMinutes (serviceMinutes s) * 60000"] Cons.prems none
        unfolding Suc all_le_Suc_Cons elapsedAt_Suc
        by (cases "usable s"; cases "\<forall>i\<le>j. usable (ss ! i)") (auto simp: Let_def addDuration_usable add.assoc)
    qed
  qed simp
  then show thesis using that etaChain_estimate [OF assms, of c] by simp
qed

section \<open>Properties\<close>

text \<open>
  Claim C29: the estimate a starting route gives its \<open>i\<close>-th stop (by sequence) is the effective start
  plus the legs up to it and the service times before it, as long as every leg up to it is known;
  from the first unknown leg on there is no estimate, and the update is FAILED exactly when some leg
  of the route is unknown.
\<close>

theorem route_start_eta_closed_form:
  assumes "i < length stops"
    and u: "u = calculateRouteStartEtaUpdate occurred version received stops"
    and st: "st = sortedStops stops"
  shows "updDeliveryStopId (updatedStops u ! i) = etaDeliveryStopId (st ! i)
    \<and> updEstimatedArrivalAt (updatedStops u ! i) =
        (if \<forall>k\<le>i. usable (st ! k)
         then Some (truncMs (of_int (min occurred received)
           + (\<Sum>k\<le>i. legSeconds (st ! k)) * 1000
           + (\<Sum>k<i. normalizedMinutes (serviceMinutes (st ! k))) * 60000))
         else None)
    \<and> (etaStatus u = ETA_FAILED \<longleftrightarrow> (\<exists>s \<in> set stops. \<not> usable s))"
proof -
  let ?c = "of_int (min occurred received) :: real"
  have us: "updatedStops u = etaChain (Some ?c) st"
    and status: "etaStatus u = ETA_FAILED \<longleftrightarrow> etaFailureFor (etaChain (Some ?c) st) \<noteq> None"
    by (simp_all add: u st calculateRouteStartEtaUpdate_def calculateFullChainEtaUpdate_def Let_def
        effectiveEventTime_def min_def not_less)
  have i: "i < length st" using assms(1) st by simp
  have "etaFailureFor (etaChain (Some ?c) st) = None \<longleftrightarrow> (\<forall>m < length st. \<forall>k\<le>m. usable (st ! k))"
    unfolding etaFailureFor_iff length_etaChain using etaChain_estimate by (auto split: if_splits)
  also have "\<dots> \<longleftrightarrow> (\<forall>s \<in> set stops. usable s)"
    unfolding set_sortedStops [symmetric, of stops] st [symmetric] all_set_conv_all_nth
    by (meson le_less_trans order_refl)
  finally show ?thesis
    using etaChain_estimate [OF i, of ?c] etaChain_nth [OF i] status unfolding us elapsedAt_def by (auto simp: add.assoc)
qed

text \<open>
  The estimates of a full chain never go back along the sequence of stops, and none lies
  before the effective start, which is never after the time the server received the event.
\<close>

theorem eta_follows_sequence:
  assumes "i \<le> j" and "j < length stops"
    and u: "u = calculatePickupEtaUpdate occurred version received stops"
    and ej: "updEstimatedArrivalAt (updatedStops u ! j) = Some tj"
  shows "\<exists>ti. updEstimatedArrivalAt (updatedStops u ! i) = Some ti
    \<and> effectiveEventTime occurred received \<le> ti \<and> ti \<le> tj \<and> effectiveEventTime occurred received \<le> received"
proof -
  let ?st = "sortedStops stops" and ?c = "of_int (effectiveEventTime occurred received) :: real"
  have us: "updatedStops u = etaChain (Some ?c) ?st"
    by (simp add: u calculatePickupEtaUpdate_def calculateFullChainEtaUpdate_def Let_def)
  have lens: "j < length ?st" "i < length ?st" using assms by auto
  have good: "\<forall>k\<le>j. usable (?st ! k)" and tj: "tj = truncMs (?c + elapsedAt ?st j)"
    using ej etaChain_estimate [OF lens(1), of ?c] unfolding us by (auto split: if_splits)
  then have good_i: "\<forall>k\<le>i. usable (?st ! k)" using assms(1) by simp
  have "truncMs (?c + elapsedAt ?st i) \<le> tj"
    unfolding tj using elapsedAt_mono [OF assms(1) good] by (intro truncMs_mono) simp
  moreover have "effectiveEventTime occurred received \<le> truncMs (?c + elapsedAt ?st i)"
    using truncMs_mono [of ?c "?c + elapsedAt ?st i"] elapsedAt_nonneg [OF good_i] by simp
  moreover have "updEstimatedArrivalAt (updatedStops u ! i) = Some (truncMs (?c + elapsedAt ?st i))"
    unfolding us using etaChain_estimate [OF lens(2)] good_i by simp
  ultimately show ?thesis by (simp add: effectiveEventTime_def)
qed

lemma findIndexFrom_first:
  assumes "i < length xs" and "P (xs ! i)" and "\<And>k. k < i \<Longrightarrow> \<not> P (xs ! k)"
  shows "findIndexFrom P xs m = Some (m + i)"
  using assms
proof (induction xs arbitrary: i m)
  case (Cons x xs)
  show ?case
  proof (cases i)
    case 0
    then show ?thesis using Cons.prems by simp
  next
    case (Suc k)
    have "\<not> P x" using Cons.prems(3) [of 0] Suc by simp
    moreover have "\<not> P (xs ! n)" if "n < k" for n using Cons.prems(3) [of "Suc n"] Suc that by simp
    then have "findIndexFrom P xs (Suc m) = Some (Suc m + k)"
      using Cons.prems Suc by (intro Cons.IH) auto
    ultimately show ?thesis using Suc by simp
  qed
qed simp

lemma findIndexFrom_None: "findIndexFrom P xs m = None \<longleftrightarrow> (\<forall>x \<in> set xs. \<not> P x)"
  by (induction xs arbitrary: m) auto

lemma findIndexFrom_id:
  assumes "distinct (map etaDeliveryStopId xs)" and "k < length xs"
  shows "findIndexFrom (\<lambda>s. etaDeliveryStopId s = etaDeliveryStopId (xs ! k)) xs 0 = Some k"
proof -
  have "etaDeliveryStopId (xs ! i) \<noteq> etaDeliveryStopId (xs ! k)" if "i < k" for i
    using assms that nth_eq_iff_index_eq [OF assms(1), of i k] by simp
  then show ?thesis using findIndexFrom_first [of k xs _ 0] assms(2) by simp
qed

text \<open>Whole seconds and minutes keep the running time whole.\<close>

definition whole :: "eta_stop \<Rightarrow> bool" where
  "whole s = (legSeconds s \<in> \<int> \<and> normalizedMinutes (serviceMinutes s) \<in> \<int>)"

lemma elapsedAt_whole: "\<forall>s \<in> set ss. whole s \<Longrightarrow> i < length ss \<Longrightarrow> elapsedAt ss i \<in> \<int>"
  unfolding elapsedAt_def
  by (intro Ints_add Ints_mult Ints_sum) (auto simp: whole_def)

lemma distinct_sortedStops:
  "distinct (map etaDeliveryStopId ss) \<Longrightarrow> distinct (map etaDeliveryStopId (sortedStops ss))"
proof -
  have "mset (map etaDeliveryStopId (sortedStops ss)) = mset (map etaDeliveryStopId ss)"
    by (simp add: sortedStops_def)
  then show "distinct (map etaDeliveryStopId ss) \<Longrightarrow> distinct (map etaDeliveryStopId (sortedStops ss))"
    by (metis mset_eq_imp_distinct_iff)
qed

text \<open>
  On a route with whole durations, a driver who reaches a stop exactly at the estimate of
  the full chain leaves every later estimate as it was, with no delay against that estimate; and so
  does completing the stop after it was reached on time.
\<close>

theorem on_time_arrival_keeps_estimates:
  assumes ids: "distinct (map etaDeliveryStopId stops)" and wh: "\<forall>s \<in> set stops. whole s"
    and k: "k < length stops"
    and u: "u = calculateRouteStartEtaUpdate occurred version received stops"
    and t: "updEstimatedArrivalAt (updatedStops u ! k) = Some t"
    and stop: "stop = sortedStops stops ! k" "estimatedArrivalAt stop = Some t"
    and later: "t \<le> received'"
  shows "\<exists>a c. calculateArrivalEtaUpdate (etaDeliveryStopId stop) t version' received' stops = Inr a
    \<and> calculateCompletionEtaUpdate (Some t) (etaDeliveryStopId stop) occurred' version' received'' stops trg = Inr c
    \<and> updatedStops a = drop (k + 1) (updatedStops u) \<and> delaySeconds a = Some 0
    \<and> updatedStops c = drop (k + 1) (updatedStops u) \<and> delaySeconds c = Some 0"
proof -
  let ?st = "sortedStops stops" and ?c = "of_int (effectiveEventTime occurred received) :: real"
  have us: "updatedStops u = etaChain (Some ?c) ?st"
    by (simp add: u calculateRouteStartEtaUpdate_def calculateFullChainEtaUpdate_def Let_def)
  have len: "k < length ?st" using k by simp
  obtain x where x: "updEstimatedArrivalAt (etaChain (Some ?c) ?st ! k) = toIsoString x"
    "drop (Suc k) (etaChain (Some ?c) ?st) = etaChain (addServiceTime x (serviceMinutes (?st ! k))) (drop (Suc k) ?st)"
    "x = (if \<forall>i\<le>k. usable (?st ! i) then Some (?c + elapsedAt ?st k) else None)"
    by (rule etaChain_tail [OF len])
  then have xs: "x = Some (?c + elapsedAt ?st k)" and tt: "t = truncMs (?c + elapsedAt ?st k)"
    using t unfolding us by (auto split: if_splits)
  have "?c + elapsedAt ?st k \<in> \<int>" using elapsedAt_whole [of ?st k] wh len by simp
  then obtain z where z: "?c + elapsedAt ?st k = of_int z" by (rule Ints_cases)
  then have real_t: "?c + elapsedAt ?st k = of_int t" unfolding tt by simp
  have find: "findIndexFrom (\<lambda>s. etaDeliveryStopId s = etaDeliveryStopId stop) ?st 0 = Some k"
    using findIndexFrom_id [OF distinct_sortedStops [OF ids] len] stop(1) by simp
  have eff: "effectiveEventTime t received' = t" using later by (simp add: effectiveEventTime_def)
  have tail: "drop (k + 1) (updatedStops u) =
      etaChain (addServiceTime (Some (of_int t)) (serviceMinutes stop)) (drop (k + 1) ?st)"
    using x(2) unfolding us xs real_t stop(1) by simp
  show ?thesis
    unfolding calculateArrivalEtaUpdate_def calculateCompletionEtaUpdate_def find
    using stop tail by (simp add: Let_def eff jsRound_def)
qed

text \<open>
  Recalculation after an arrival or a completion fails exactly when the stop is not on the
  route, and otherwise gives estimates to exactly the stops after it, in sequence.
\<close>

theorem recalculation_covers_later_stops:
  assumes ids: "distinct (map etaDeliveryStopId stops)"
  shows "(case calculateArrivalEtaUpdate i occurred version received stops of
      Inl e \<Rightarrow> e = ROUTE_ETA_STOP_NOT_FOUND i \<and> i \<notin> etaDeliveryStopId ` set stops
    | Inr u \<Rightarrow> \<exists>k < length stops. etaDeliveryStopId (sortedStops stops ! k) = i
        \<and> map updDeliveryStopId (updatedStops u) = map etaDeliveryStopId (drop (k + 1) (sortedStops stops)))
    \<and> ((\<exists>e. calculateCompletionEtaUpdate arrivedAt i occurred version received stops trg = Inl e)
        \<longleftrightarrow> i \<notin> etaDeliveryStopId ` set stops)"
proof (cases "i \<in> etaDeliveryStopId ` set stops")
  case False
  then have "findIndexFrom (\<lambda>s. etaDeliveryStopId s = i) (sortedStops stops) 0 = None"
    by (auto simp: findIndexFrom_None)
  then show ?thesis using False
    by (simp add: calculateArrivalEtaUpdate_def calculateCompletionEtaUpdate_def)
next
  case True
  let ?st = "sortedStops stops"
  have "\<exists>s \<in> set ?st. etaDeliveryStopId s = i" using True by auto
  then obtain k where k: "k < length ?st" "etaDeliveryStopId (?st ! k) = i" by (metis in_set_conv_nth)
  have find: "findIndexFrom (\<lambda>s. etaDeliveryStopId s = i) ?st 0 = Some k"
    using findIndexFrom_id [OF distinct_sortedStops [OF ids] k(1)] k(2) by simp
  have "map updDeliveryStopId (etaChain c ss) = map etaDeliveryStopId ss" for c ss
    by (rule nth_equalityI) (simp_all add: etaChain_nth)
  then show ?thesis using k find True
    by (auto simp: calculateArrivalEtaUpdate_def calculateCompletionEtaUpdate_def Let_def)
qed

text \<open>
  Where sequence numbers are distinct, no estimate depends on the order in which the stops
  were loaded.
\<close>

theorem eta_independent_of_load_order:
  assumes "mset stops = mset stops'" and "distinct (map etaSequence stops)"
  shows "calculateRouteStartEtaUpdate occurred version received stops = calculateRouteStartEtaUpdate occurred version received stops'
    \<and> calculateArrivalEtaUpdate i occurred version received stops = calculateArrivalEtaUpdate i occurred version received stops'
    \<and> buildDriverRouteEtaSnapshot pickup stops = buildDriverRouteEtaSnapshot pickup stops'"
proof -
  have "sortedStops stops = sortedStops stops'"
    unfolding sortedStops_def
  proof (rule stop_order.sort_by_permutation [OF assms(1)])
    fix a b assume "a \<in> set stops" "b \<in> set stops"
      "compare_int (etaSequence a) (etaSequence b) \<le> 0" "compare_int (etaSequence b) (etaSequence a) \<le> 0"
    then show "a = b" using assms(2) by (auto simp: compare_int_def distinct_map dest: inj_onD)
  qed
  then show ?thesis
    unfolding calculateRouteStartEtaUpdate_def calculateFullChainEtaUpdate_def calculateArrivalEtaUpdate_def
      buildDriverRouteEtaSnapshot_def by (simp only: simp_thms)
qed

text \<open>
  Once pickup is completed, the snapshot names the remaining stop with the smallest
  sequence, has none exactly when every stop is past, and is FAILED exactly when a remaining stop has
  no estimate; before pickup it is empty.
\<close>

theorem snapshot_reports_next_stop:
  "(case nextStopEta (buildDriverRouteEtaSnapshot (Some p) stops) of
      None \<Rightarrow> \<forall>s \<in> set stops. isPastEtaStopStatus (etaStopStatus s)
    | Some n \<Rightarrow> \<exists>s \<in> set stops. \<not> isPastEtaStopStatus (etaStopStatus s) \<and> nextDeliveryStopId n = etaDeliveryStopId s
        \<and> nextEstimatedArrivalAt n = estimatedArrivalAt s
        \<and> (\<forall>s' \<in> set stops. isPastEtaStopStatus (etaStopStatus s') \<or> etaSequence s \<le> etaSequence s'))
    \<and> (snapStatus (buildDriverRouteEtaSnapshot (Some p) stops) = ETA_FAILED
        \<longleftrightarrow> (\<exists>s \<in> set stops. \<not> isPastEtaStopStatus (etaStopStatus s) \<and> estimatedArrivalAt s = None))
    \<and> snapStatus (buildDriverRouteEtaSnapshot None stops) = ETA_PRE_PICKUP"
proof -
  let ?rem = "filter (\<lambda>s. \<not> isPastEtaStopStatus (etaStopStatus s)) (sortedStops stops)"
  have mem: "s \<in> set ?rem \<longleftrightarrow> s \<in> set stops \<and> \<not> isPastEtaStopStatus (etaStopStatus s)" for s by simp
  have sorted: "sorted_wrt (\<lambda>a b. etaSequence a \<le> etaSequence b) ?rem"
    using stop_order.sorted_sort_by [of stops] unfolding sortedStops_def compare_int_def
    by (intro sorted_wrt_filter) (simp add: le_diff_eq)
  have status: "snapStatus (buildDriverRouteEtaSnapshot (Some p) stops) = ETA_FAILED
        \<longleftrightarrow> (\<exists>s \<in> set ?rem. estimatedArrivalAt s = None)"
    by (simp add: buildDriverRouteEtaSnapshot_def Let_def etaSnapshotFailureFor_def)
  show ?thesis
  proof (cases ?rem)
    case Nil
    then have none: "\<forall>s \<in> set stops. isPastEtaStopStatus (etaStopStatus s)" using mem by (metis empty_iff list.set(1))
    then show ?thesis using status Nil
      by (simp add: buildDriverRouteEtaSnapshot_def Let_def)
  next
    case (Cons s rest)
    have "s \<in> set ?rem" using Cons by simp
    moreover have "\<forall>s' \<in> set ?rem. etaSequence s \<le> etaSequence s'" using sorted unfolding Cons by auto
    ultimately have "s \<in> set stops \<and> \<not> isPastEtaStopStatus (etaStopStatus s)
        \<and> (\<forall>s' \<in> set stops. isPastEtaStopStatus (etaStopStatus s') \<or> etaSequence s \<le> etaSequence s')"
      using mem by blast
    moreover have "nextStopEta (buildDriverRouteEtaSnapshot (Some p) stops) =
        Some \<lparr>nextDeliveryStopId = etaDeliveryStopId s, nextDistanceMeters = distanceFromPreviousMeters s,
              nextEstimatedArrivalAt = estimatedArrivalAt s, nextSequence = etaSequence s\<rparr>"
      using Cons by (simp add: buildDriverRouteEtaSnapshot_def Let_def)
    moreover have "(\<exists>s \<in> set ?rem. estimatedArrivalAt s = None)
        \<longleftrightarrow> (\<exists>s \<in> set stops. \<not> isPastEtaStopStatus (etaStopStatus s) \<and> estimatedArrivalAt s = None)"
      using mem by blast
    moreover have "snapStatus (buildDriverRouteEtaSnapshot None stops) = ETA_PRE_PICKUP"
      by (simp add: buildDriverRouteEtaSnapshot_def)
    ultimately show ?thesis unfolding status
      by (simp only: option.case next_stop_eta.select_convs simp_thms) blast
  qed
qed

section \<open>A concrete route\<close>

definition demo_stop :: "string \<Rightarrow> int \<Rightarrow> real \<Rightarrow> int option \<Rightarrow> eta_stop" where
  "demo_stop i n leg eta =
     \<lparr>etaDeliveryStopId = i, distanceFromPreviousMeters = Some 100, durationFromPreviousSeconds = Some (Num leg),
      etaCalculatedAt = None, estimatedArrivalAt = eta, etaSequence = n, serviceMinutes = None, etaStopStatus = None\<rparr>"

definition demo_stops :: "eta_stop list" where
  "demo_stops = [demo_stop ''b'' 2 120 None, demo_stop ''a'' 1 60 (Some 61000)]"

lemma demo_sorted: "sortedStops demo_stops = [demo_stop ''a'' 1 60 (Some 61000), demo_stop ''b'' 2 120 None]"
  by (simp add: sortedStops_def demo_stops_def demo_stop_def compare_int_def)

lemma demo_usable: "usable (demo_stop i n leg eta) = (0 \<le> leg)" "legSeconds (demo_stop i n leg eta) = leg"
  "normalizedMinutes (serviceMinutes (demo_stop i n leg eta)) = 5" "etaDeliveryStopId (demo_stop i n leg eta) = i"
  "estimatedArrivalAt (demo_stop i n leg eta) = eta" "etaSequence (demo_stop i n leg eta) = n"
  by (simp_all add: usable_def legSeconds_def normalizedMinutes_def demo_stop_def)

lemma demo_chain: "updatedStops (calculateRouteStartEtaUpdate 1000 None 2000 demo_stops) =
    [toStopUpdate (demo_stop ''a'' 1 60 (Some 61000)) (Some 61000), toStopUpdate (demo_stop ''b'' 2 120 None) (Some 481000)]"
  by (simp add: calculateRouteStartEtaUpdate_def calculateFullChainEtaUpdate_def Let_def demo_sorted addDuration_usable
      demo_usable effectiveEventTime_def truncMs_def)

theorem route_start_eta_closed_form_witness:
  "updEstimatedArrivalAt (updatedStops (calculateRouteStartEtaUpdate 1000 None 2000 demo_stops) ! Suc 0) = Some 481000"
proof -
  have le: "(\<forall>k\<le>Suc 0. P k) \<longleftrightarrow> P 0 \<and> P (Suc 0)" for P by (auto simp: le_Suc_eq)
  have "Suc 0 < length demo_stops" by (simp add: demo_stops_def)
  from route_start_eta_closed_form [OF this refl demo_sorted [symmetric], of 1000 None 2000] show ?thesis
    by (simp add: demo_usable le truncMs_def min_def)
qed

theorem eta_follows_sequence_witness:
  "\<exists>ti. updEstimatedArrivalAt (updatedStops (calculatePickupEtaUpdate 1000 None 2000 demo_stops) ! 0) = Some ti \<and> ti \<le> 481000"
proof -
  have "updEstimatedArrivalAt (updatedStops (calculatePickupEtaUpdate 1000 None 2000 demo_stops) ! 1) = Some 481000"
    by (simp add: calculatePickupEtaUpdate_def calculateFullChainEtaUpdate_def Let_def demo_sorted addDuration_usable
        demo_usable effectiveEventTime_def truncMs_def)
  from eta_follows_sequence [OF _ _ refl this, of 0] show ?thesis by (auto simp: demo_stops_def)
qed

theorem on_time_arrival_keeps_estimates_witness:
  "\<exists>a. calculateArrivalEtaUpdate ''a'' 61000 None 70000 demo_stops = Inr a
    \<and> map updEstimatedArrivalAt (updatedStops a) = [Some 481000] \<and> delaySeconds a = Some 0"
proof -
  have "\<exists>a c. calculateArrivalEtaUpdate (etaDeliveryStopId (sortedStops demo_stops ! 0)) 61000 None 70000 demo_stops = Inr a
    \<and> calculateCompletionEtaUpdate (Some 61000) (etaDeliveryStopId (sortedStops demo_stops ! 0)) 0 None 0 demo_stops None = Inr c
    \<and> updatedStops a = drop (0 + 1) (updatedStops (calculateRouteStartEtaUpdate 1000 None 2000 demo_stops)) \<and> delaySeconds a = Some 0
    \<and> updatedStops c = drop (0 + 1) (updatedStops (calculateRouteStartEtaUpdate 1000 None 2000 demo_stops)) \<and> delaySeconds c = Some 0"
    by (rule on_time_arrival_keeps_estimates [OF _ _ _ refl])
      (simp_all add: demo_chain demo_sorted demo_usable, simp_all add: demo_stops_def demo_usable whole_def)
  then show ?thesis by (auto simp: demo_chain demo_sorted demo_usable)
qed

theorem recalculation_covers_later_stops_witness:
  "\<exists>u. calculateArrivalEtaUpdate ''a'' 61000 None 70000 demo_stops = Inr u \<and> length (updatedStops u) \<le> 2"
proof -
  have d: "distinct (map etaDeliveryStopId demo_stops)" by (simp add: demo_stops_def demo_usable)
  have i: "''a'' \<in> etaDeliveryStopId ` set demo_stops" by (simp add: demo_stops_def demo_usable)
  show ?thesis
  proof (cases "calculateArrivalEtaUpdate ''a'' 61000 None 70000 demo_stops")
    case (Inl e)
    then show ?thesis using recalculation_covers_later_stops [OF d, of "''a''" 61000 None 70000] i by simp
  next
    case (Inr u)
    then obtain k where "map updDeliveryStopId (updatedStops u) = map etaDeliveryStopId (drop (k + 1) (sortedStops demo_stops))"
      using recalculation_covers_later_stops [OF d, of "''a''" 61000 None 70000 None None] by auto
    then have "length (updatedStops u) = length (drop (k + 1) (sortedStops demo_stops))" by (metis length_map)
    then show ?thesis using Inr by (simp add: demo_sorted)
  qed
qed

theorem eta_independent_of_load_order_witness:
  "calculateRouteStartEtaUpdate 1000 None 2000 demo_stops = calculateRouteStartEtaUpdate 1000 None 2000 (rev demo_stops)"
  using eta_independent_of_load_order [of demo_stops "rev demo_stops" 1000 None 2000 "''a''" None]
  by (simp add: demo_stops_def demo_usable)

theorem snapshot_reports_next_stop_witness:
  "snapStatus (buildDriverRouteEtaSnapshot (Some 0) demo_stops) = ETA_FAILED
   \<and> (\<exists>n. nextStopEta (buildDriverRouteEtaSnapshot (Some 0) demo_stops) = Some n \<and> nextDeliveryStopId n \<in> {''a'', ''b''})"
proof -
  have past: "\<not> isPastEtaStopStatus (etaStopStatus (demo_stop i n leg eta))" for i n leg eta
    by (simp add: isPastEtaStopStatus_def demo_stop_def)
  show ?thesis
    using snapshot_reports_next_stop [of demo_stops 0]
    by (cases "nextStopEta (buildDriverRouteEtaSnapshot (Some 0) demo_stops)")
      (auto simp: demo_stops_def past demo_usable)
qed

end
