(* ===== verification/DispatchPreview.thy ===== *)
theory DispatchPreview
  imports Machines JsText
begin

text \<open>
  The preview of a dispatch import (\<^verbatim>\<open>modules/dsv/dsv-dispatch-preview-diff.ts\<close>): every row of
  an uploaded file is normalised, validated, matched against the drivers, vehicles, conditions,
  customers, destinations and orders of the shop, compared with the order it would change and
  classified. Parameters of the definitions (\<open>preview_env\<close>): \<^verbatim>\<open>localeCompare\<close>, the text of a
  number, the SHA-256 digest, and the destination identity (which rests on Unicode normalisation).
  The texts of issues, which are shown to the user only, are left out. Shown: a row is a conflict
  exactly when a conflict issue is raised, the summary partitions the rows, what an applicable
  preview guarantees, and that the preview, its hashes included, does not depend on the order of
  the uploaded rows.
\<close>

section \<open>Data\<close>

datatype diff_kind = DIFF_NEW | DIFF_NO_OP | DIFF_UPDATE_CANDIDATE | DIFF_CONFLICT | DIFF_ERROR

datatype address_resolution = ADDRESS_ONLY | ADDRESS_AMBIGUOUS | ADDRESS_NOT_FOUND | ADDRESS_RESOLVED | ADDRESS_UNAVAILABLE

text \<open>In an optional nullable field the outer option is the presence of the property.\<close>

record source_row =
  srAddress :: string
  srAddressResolutionStatus :: "address_resolution option"
  srConditionCode :: string
  srCustomerCode :: string
  srDetailAddress :: "string option option"
  srDestinationName :: string
  srDriverName :: string
  srJibunAddress :: "string option option"
  srLatitude :: "jsnum option"
  srLongitude :: "jsnum option"
  srNotes :: "string option"
  srPostalCode :: "string option option"
  srRawAddress :: "string option"
  srRowNumber :: jsnum
  srSellerOrderKey :: string
  srShippedBoxes :: jsnum
  srVehiclePlate :: string

datatype issue_severity = SEVERITY_ERROR | SEVERITY_REVIEW

record preview_issue =
  issueCode :: string
  issueField :: string
  issueSeverity :: issue_severity

record driver_snapshot =
  driverDisplayName :: string
  driverSnapId :: string
  driverSnapStatus :: string
  driverVehicleId :: "string option"

record vehicle_snapshot =
  vehicleSnapId :: string
  licensePlate :: "string option"
  vehicleSnapStatus :: string

record condition_snapshot =
  conditionCodeOf :: string
  conditionComparisonKeyOf :: "string option"
  conditionSnapId :: string
  conditionRawValue :: "string option"
  conditionSnapStatus :: "string option"

record customer_snapshot =
  externalCustomerCode :: string
  customerSnapId :: string
  customerSnapStatus :: string

record destination_snapshot =
  destinationAddress :: string
  destinationDetailAddress :: "string option"
  destinationSnapId :: string
  destinationNameOf :: string
  destinationSnapStatus :: "string option"

record stop_snapshot =
  stopAddress :: "string option"
  stopConditionKey :: "string option"
  stopDeliveryDate :: "string option"
  stopDestinationName :: "string option"
  stopSnapId :: string
  stopLatitude :: "jsnum option"
  stopLongitude :: "jsnum option"
  stopNotes :: "string option"
  stopShippedBoxes :: "jsnum option"
  stopSnapStatus :: "string option"

record order_snapshot =
  activeDeliveryOwnershipCount :: "int option"
  cancelledAt :: "string option"
  orderCustomerId :: "string option"
  deliveryStatus :: "string option"
  deliveryStop :: "stop_snapshot option"
  orderDestinationId :: "string option"
  orderSnapId :: string
  orderSellerOrderKey :: string
  serviceDate :: "string option"
  orderSourceKind :: string

record preview_snapshots =
  canonicalOrders :: "order_snapshot list"
  conditions :: "condition_snapshot list"
  customers :: "customer_snapshot list"
  destinations :: "destination_snapshot list"
  drivers :: "driver_snapshot list"
  vehicles :: "vehicle_snapshot list"

record normalized_row =
  nrAddress :: string
  nrAddressResolutionStatus :: "address_resolution option"
  nrConditionComparisonKey :: string
  nrCustomerCode :: string
  nrDetailAddress :: "string option option"
  nrDestinationName :: string
  nrDriverName :: string
  nrJibunAddress :: "string option option"
  nrLatitude :: "jsnum option"
  nrLongitude :: "jsnum option"
  nrNotes :: "string option"
  nrPlanDate :: string
  nrPostalCode :: "string option option"
  nrRawAddress :: "string option"
  nrSellerOrderKey :: string
  nrShippedBoxes :: jsnum
  nrSourceKind :: string
  nrVehiclePlate :: string

record candidate_diff =
  diffField :: string
  diffExisting :: json
  diffIncoming :: json

record preview_row =
  pvCanonicalIdentity :: "string \<times> string \<times> string"
  pvCandidateDiff :: "candidate_diff list"
  pvConditionId :: "string option"
  pvCustomerId :: "string option"
  pvDeliveryStopId :: "string option"
  pvDestinationId :: "string option"
  pvDiffKind :: diff_kind
  pvDriverId :: "string option"
  pvIssues :: "preview_issue list"
  pvNormalized :: normalized_row
  pvRowNumber :: jsnum
  pvSellerOrderId :: "string option"
  pvSellerOrderKey :: string
  pvVehicleId :: "string option"

record preview_summary =
  conflictRows :: nat
  errorRows :: nat
  newRows :: nat
  noOpRows :: nat
  readyRows :: int
  reviewRows :: nat
  totalRows :: nat
  updateCandidateRows :: nat

record condition_candidate =
  candidateKey :: string
  candidateRawValue :: string
  candidateRowNumbers :: "jsnum list"

record preview_diff =
  canApply :: bool
  conditionCandidatesOf :: "condition_candidate list"
  previewFileName :: string
  previewPlanDate :: string
  previewHash :: string
  previewRows :: "preview_row list"
  sourceHash :: string
  previewSummary :: preview_summary

record preview_env =
  localeCompare :: "string \<Rightarrow> string \<Rightarrow> int"
  numberText :: "real \<Rightarrow> string"
  sha256 :: "string \<Rightarrow> string"
  destinationIdentity :: "string \<Rightarrow> string option \<Rightarrow> string \<Rightarrow> string \<times> string"

datatype preview_error = CANONICAL_JSON_NOT_ENCODABLE

section \<open>Canonical JSON\<close>

definition hexDigit :: "nat \<Rightarrow> char" where
  "hexDigit d = char_of (if d < 10 then 48 + d else 87 + d)"

definition escapeChar :: "char \<Rightarrow> string" where
  "escapeChar c =
     (if c = CHR 0x22 then [CHR 0x5C, CHR 0x22]
      else if c = CHR 0x5C then [CHR 0x5C, CHR 0x5C]
      else if c = CHR 0x08 then [CHR 0x5C, CHR ''b'']
      else if c = CHR 0x0C then [CHR 0x5C, CHR ''f'']
      else if c = CHR 0x0A then [CHR 0x5C, CHR ''n'']
      else if c = CHR 0x0D then [CHR 0x5C, CHR ''r'']
      else if c = CHR 0x09 then [CHR 0x5C, CHR ''t'']
      else if (of_char c :: nat) < 32
        then [CHR 0x5C, CHR ''u'', CHR ''0'', CHR ''0'', hexDigit (of_char c div 16), hexDigit (of_char c mod 16)]
      else [c])"

definition quoteString :: "string \<Rightarrow> string" where
  "quoteString s = CHR 0x22 # concat (map escapeChar s) @ [CHR 0x22]"

fun sequenceOpt :: "'a option list \<Rightarrow> 'a list option" where
  "sequenceOpt [] = Some []"
| "sequenceOpt (None # xs) = None"
| "sequenceOpt (Some x # xs) = map_option (\<lambda>ys. x # ys) (sequenceOpt xs)"

fun canonicalJson :: "(real \<Rightarrow> string) \<Rightarrow> json \<Rightarrow> string option" where
  "canonicalJson num JNull = Some ''null''"
| "canonicalJson num (JStr s) = Some (quoteString s)"
| "canonicalJson num (JNum (Num x)) = Some (num x)"
| "canonicalJson num (JNum _) = None"
| "canonicalJson num (JBool b) = Some (if b then ''true'' else ''false'')"
| "canonicalJson num (JArr vs) =
     map_option (\<lambda>ts. ''['' @ joinWith '','' ts @ '']'') (sequenceOpt (map (canonicalJson num) vs))"
| "canonicalJson num (JObj kvs) =
     map_option (\<lambda>ts. [CHR 0x7B] @ joinWith '','' ts @ [CHR 0x7D])
       (sequenceOpt (map snd (sort_by (\<lambda>a b. compare_text (fst a) (fst b))
         (map (\<lambda>(k, v). (k, map_option (\<lambda>t. quoteString k @ '':'' @ t) (canonicalJson num v))) kvs))))"
| "canonicalJson num JUndefined = None"

definition sha256CanonicalJson :: "preview_env \<Rightarrow> json \<Rightarrow> string option" where
  "sha256CanonicalJson env v = map_option (sha256 env) (canonicalJson (numberText env) v)"

definition jProp :: "string \<Rightarrow> ('a \<Rightarrow> json) \<Rightarrow> 'a option \<Rightarrow> (string \<times> json) list" where
  "jProp k f v = (case v of None \<Rightarrow> [] | Some x \<Rightarrow> [(k, f x)])"

fun resolutionText :: "address_resolution \<Rightarrow> string" where
  "resolutionText ADDRESS_ONLY = ''ADDRESS_ONLY''"
| "resolutionText ADDRESS_AMBIGUOUS = ''AMBIGUOUS''"
| "resolutionText ADDRESS_NOT_FOUND = ''NOT_FOUND''"
| "resolutionText ADDRESS_RESOLVED = ''RESOLVED''"
| "resolutionText ADDRESS_UNAVAILABLE = ''UNAVAILABLE''"

definition canonicalSourceRow :: "source_row \<Rightarrow> json" where
  "canonicalSourceRow row = JObj
     ([(''address'', JStr (srAddress row))]
      @ jProp ''addressResolutionStatus'' (\<lambda>s. JStr (resolutionText s)) (srAddressResolutionStatus row)
      @ [(''conditionCode'', JStr (srConditionCode row)), (''customerCode'', JStr (srCustomerCode row))]
      @ jProp ''detailAddress'' (jOpt JStr) (srDetailAddress row)
      @ [(''destinationName'', JStr (srDestinationName row)), (''driverName'', JStr (srDriverName row))]
      @ jProp ''jibunAddress'' (jOpt JStr) (srJibunAddress row)
      @ [(''latitude'', jOpt JNum (srLatitude row)), (''longitude'', jOpt JNum (srLongitude row)),
         (''notes'', jOpt JStr (srNotes row))]
      @ jProp ''postalCode'' (jOpt JStr) (srPostalCode row)
      @ jProp ''rawAddress'' JStr (srRawAddress row)
      @ [(''rowNumber'', JNum (srRowNumber row)), (''sellerOrderKey'', JStr (srSellerOrderKey row)),
         (''shippedBoxes'', JNum (srShippedBoxes row)), (''vehiclePlate'', JStr (srVehiclePlate row))])"

section \<open>Normalisation and validation\<close>

definition normalizeText :: "string \<Rightarrow> string" where
  "normalizeText v = js_trim v"

definition normalizeNullableCellText :: "string option \<Rightarrow> string option" where
  "normalizeNullableCellText v = map_option normalizeText v"

definition conditionComparisonKey :: "string \<Rightarrow> string" where
  "conditionComparisonKey v = toUpperCase (normalizeText v)"

definition normalizeRow :: "source_row \<Rightarrow> string \<Rightarrow> string \<Rightarrow> normalized_row" where
  "normalizeRow row planDate sourceKind =
     \<lparr>nrAddress = normalizeText (srAddress row), nrAddressResolutionStatus = srAddressResolutionStatus row,
      nrConditionComparisonKey = conditionComparisonKey (srConditionCode row),
      nrCustomerCode = normalizeText (srCustomerCode row),
      nrDetailAddress = map_option normalizeNullableCellText (srDetailAddress row),
      nrDestinationName = normalizeText (srDestinationName row), nrDriverName = normalizeText (srDriverName row),
      nrJibunAddress = map_option normalizeNullableCellText (srJibunAddress row),
      nrLatitude = srLatitude row, nrLongitude = srLongitude row,
      nrNotes = map_option normalizeText (srNotes row), nrPlanDate = planDate,
      nrPostalCode = map_option normalizeNullableCellText (srPostalCode row),
      nrRawAddress = map_option normalizeText (srRawAddress row),
      nrSellerOrderKey = normalizeText (srSellerOrderKey row), nrShippedBoxes = srShippedBoxes row,
      nrSourceKind = sourceKind, nrVehiclePlate = normalizeText (srVehiclePlate row)\<rparr>"

definition issue :: "string \<Rightarrow> string \<Rightarrow> preview_issue" where
  "issue code field = \<lparr>issueCode = code, issueField = field, issueSeverity = SEVERITY_ERROR\<rparr>"

definition reviewIssue :: "string \<Rightarrow> string \<Rightarrow> preview_issue" where
  "reviewIssue code field = \<lparr>issueCode = code, issueField = field, issueSeverity = SEVERITY_REVIEW\<rparr>"

definition requiredFieldIssues :: "source_row \<Rightarrow> preview_issue list" where
  "requiredFieldIssues row =
     concat (map (\<lambda>(field, value, maxLength).
         if normalizeText value = [] then [issue ''REQUIRED'' field]
         else if js_length (normalizeText value) > maxLength then [issue ''TOO_LONG'' field] else [])
       [(''destinationName'', srDestinationName row, 160), (''conditionCode'', srConditionCode row, 80),
        (''address'', srAddress row, 500), (''customerCode'', srCustomerCode row, 160),
        (''sellerOrderKey'', srSellerOrderKey row, 160)])"

definition optionalFieldIssues :: "source_row \<Rightarrow> preview_issue list" where
  "optionalFieldIssues row =
     concat (map (\<lambda>(field, value, maxLength).
         if normalizeText value \<noteq> [] \<and> js_length (normalizeText value) > maxLength then [issue ''TOO_LONG'' field] else [])
       [(''driverName'', srDriverName row, 80), (''vehiclePlate'', srVehiclePlate row, 40)])"

fun numLess :: "jsnum \<Rightarrow> real \<Rightarrow> bool" where
  "numLess (Num x) y = (x < y)"
| "numLess NegInf y = True"
| "numLess _ y = False"

fun numGreater :: "jsnum \<Rightarrow> real \<Rightarrow> bool" where
  "numGreater (Num x) y = (x > y)"
| "numGreater PosInf y = True"
| "numGreater _ y = False"

definition outside :: "jsnum option \<Rightarrow> real \<Rightarrow> bool" where
  "outside v limit = (case v of None \<Rightarrow> False | Some n \<Rightarrow> numLess n (- limit) \<or> numGreater n limit)"

definition addressResolutionIssue :: "address_resolution option \<Rightarrow> preview_issue option" where
  "addressResolutionIssue status =
     (case status of
        None \<Rightarrow> None
      | Some ADDRESS_RESOLVED \<Rightarrow> None
      | Some ADDRESS_ONLY \<Rightarrow> Some (reviewIssue ''ADDRESS_COORDINATES_NOT_RESOLVED'' ''address'')
      | Some ADDRESS_AMBIGUOUS \<Rightarrow> Some (reviewIssue ''ADDRESS_AMBIGUOUS'' ''address'')
      | Some ADDRESS_NOT_FOUND \<Rightarrow> Some (reviewIssue ''ADDRESS_NOT_FOUND'' ''address'')
      | Some ADDRESS_UNAVAILABLE \<Rightarrow> Some (reviewIssue ''ADDRESS_SERVICE_UNAVAILABLE'' ''address''))"

definition pushOpt :: "'a option \<Rightarrow> 'a list" where
  "pushOpt v = (case v of None \<Rightarrow> [] | Some x \<Rightarrow> [x])"

definition validateSourceRow :: "source_row \<Rightarrow> preview_issue list" where
  "validateSourceRow row =
     requiredFieldIssues row @ optionalFieldIssues row
     @ (if \<not> isInteger (srRowNumber row) \<or> numLess (srRowNumber row) 2 then [issue ''ROW_NUMBER_INVALID'' ''rowNumber''] else [])
     @ (if \<not> isInteger (srShippedBoxes row) \<or> numLess (srShippedBoxes row) 0 then [issue ''SHIPPED_BOXES_INVALID'' ''shippedBoxes'']
        else if srShippedBoxes row = Num 0 then [reviewIssue ''SHIPPED_BOXES_ZERO'' ''shippedBoxes''] else [])
     @ (case srNotes row of None \<Rightarrow> [] | Some n \<Rightarrow> (if js_length n > 1000 then [issue ''TOO_LONG'' ''notes''] else []))
     @ (if (srLatitude row = None) \<noteq> (srLongitude row = None) then [issue ''LOCATION_INCOMPLETE'' ''row''] else [])
     @ (if outside (srLatitude row) 90 then [issue ''LATITUDE_INVALID'' ''latitude''] else [])
     @ (if outside (srLongitude row) 180 then [issue ''LONGITUDE_INVALID'' ''longitude''] else [])
     @ pushOpt (addressResolutionIssue (srAddressResolutionStatus row))"

section \<open>Matching\<close>

definition cardinalityIssues :: "string \<Rightarrow> string \<Rightarrow> nat \<Rightarrow> preview_issue list" where
  "cardinalityIssues resource field matchCount =
     (if matchCount = 0 then [issue (resource @ ''_MISSING'') field] else [])
     @ (if matchCount > 1 then [issue (resource @ ''_AMBIGUOUS'') field] else [])"

definition ambiguityIssue :: "string \<Rightarrow> string \<Rightarrow> nat \<Rightarrow> preview_issue list" where
  "ambiguityIssue resource field matchCount =
     (if matchCount > 1 then [issue (resource @ ''_AMBIGUOUS'') field] else [])"

definition resolveConditionIssue :: "condition_snapshot list \<Rightarrow> preview_issue option" where
  "resolveConditionIssue matches =
     (case matches of
        [] \<Rightarrow> Some (issue ''CONDITION_CANDIDATE'' ''conditionCode'')
      | [m] \<Rightarrow>
          (if conditionSnapStatus m = Some ''ACTIVE'' then None
           else if conditionSnapStatus m = Some ''INACTIVE'' then Some (issue ''CONDITION_INACTIVE'' ''conditionCode'')
           else Some (issue ''CONDITION_CANDIDATE'' ''conditionCode''))
      | _ \<Rightarrow> Some (issue ''CONDITION_AMBIGUOUS'' ''conditionCode''))"

definition resolveCustomerIssue :: "customer_snapshot list \<Rightarrow> customer_snapshot list \<Rightarrow> preview_issue option" where
  "resolveCustomerIssue exactMatches activeMatches =
     (if length activeMatches > 1 then Some (issue ''CUSTOMER_AMBIGUOUS'' ''customerCode'')
      else if length activeMatches = 1 then None
      else if \<exists>c \<in> set exactMatches. customerSnapStatus c = ''INACTIVE''
        then Some (issue ''CUSTOMER_INACTIVE'' ''customerCode'')
      else None)"

definition conditionKey :: "condition_snapshot \<Rightarrow> string" where
  "conditionKey c = conditionComparisonKey (coalesce_def_value (conditionComparisonKeyOf c) (conditionCodeOf c))"

definition findCanonicalOrder :: "order_snapshot list \<Rightarrow> string \<Rightarrow> string \<Rightarrow> string \<Rightarrow> order_snapshot option" where
  "findCanonicalOrder orders planDate key sourceKind =
     List.find (\<lambda>ord. orderSourceKind ord = sourceKind \<and> orderSellerOrderKey ord = key
       \<and> coalesce (serviceDate ord) (Option.bind (deliveryStop ord) stopDeliveryDate) = Some planDate) orders"

definition resolveDestinationIdForDiff ::
  "order_snapshot option \<Rightarrow> normalized_row \<Rightarrow> destination_snapshot list \<Rightarrow> string option" where
  "resolveDestinationIdForDiff canonicalOrder normalized destinationMatches =
     (case destinationMatches of
        [d] \<Rightarrow> Some (destinationSnapId d)
      | _ # _ # _ \<Rightarrow> None
      | [] \<Rightarrow>
          (case canonicalOrder of
             None \<Rightarrow> None
           | Some ord \<Rightarrow>
               (let stop = deliveryStop ord;
                    existingName = normalizeNullableCellText (Option.bind stop stopDestinationName);
                    existingAddress = normalizeNullableCellText (Option.bind stop stopAddress)
                in if existingName = Some (nrDestinationName normalized) \<and> existingAddress = Some (nrAddress normalized)
                   then orderDestinationId ord else None)))"

text \<open>\<^verbatim>\<open>!==\<close> on the compared values: strings, numbers and null.\<close>

fun strictlyDiffers :: "json \<Rightarrow> json \<Rightarrow> bool" where
  "strictlyDiffers (JNum NaN) b = True"
| "strictlyDiffers a b = (a \<noteq> b)"

definition compareField :: "string \<Rightarrow> json \<Rightarrow> json \<Rightarrow> candidate_diff list" where
  "compareField field existing incoming =
     (if strictlyDiffers existing incoming
      then [\<lparr>diffField = field, diffExisting = existing, diffIncoming = incoming\<rparr>] else [])"

definition diffCanonicalOrder ::
  "order_snapshot \<Rightarrow> normalized_row \<Rightarrow> string option \<Rightarrow> string option \<Rightarrow> candidate_diff list" where
  "diffCanonicalOrder ord n customerId destinationId =
     (let stop = deliveryStop ord
      in compareField ''customerId'' (jOpt JStr (orderCustomerId ord)) (jOpt JStr customerId)
       @ compareField ''destinationId'' (jOpt JStr (orderDestinationId ord)) (jOpt JStr destinationId)
       @ compareField ''address'' (jOpt JStr (normalizeNullableCellText (Option.bind stop stopAddress))) (JStr (nrAddress n))
       @ compareField ''conditionComparisonKey''
           (JStr (conditionComparisonKey (coalesce_def_value (Option.bind stop stopConditionKey) [])))
           (JStr (nrConditionComparisonKey n))
       @ compareField ''deliveryDate'' (jOpt JStr (Option.bind stop stopDeliveryDate)) (JStr (nrPlanDate n))
       @ compareField ''destinationName'' (jOpt JStr (normalizeNullableCellText (Option.bind stop stopDestinationName)))
           (JStr (nrDestinationName n))
       @ compareField ''latitude'' (jOpt JNum (Option.bind stop stopLatitude)) (jOpt JNum (nrLatitude n))
       @ compareField ''longitude'' (jOpt JNum (Option.bind stop stopLongitude)) (jOpt JNum (nrLongitude n))
       @ compareField ''notes'' (jOpt JStr (normalizeNullableCellText (Option.bind stop stopNotes))) (jOpt JStr (nrNotes n))
       @ compareField ''shippedBoxes'' (jOpt JNum (Option.bind stop stopShippedBoxes)) (JNum (nrShippedBoxes n)))"

section \<open>Conflicts and classification\<close>

definition lockedDeliveryStatuses :: "string list" where
  "lockedDeliveryStatuses = [''CANCELLED'', ''COMPLETED'', ''DELIVERED'', ''FAILED'', ''OUT_FOR_DELIVERY'']"

definition ownershipCount :: "order_snapshot \<Rightarrow> int" where
  "ownershipCount ord = coalesce_def_value (activeDeliveryOwnershipCount ord) 0"

definition isLocked :: "order_snapshot \<Rightarrow> bool" where
  "isLocked ord = (case deliveryStatus ord of None \<Rightarrow> False | Some s \<Rightarrow> s \<in> set lockedDeliveryStatuses)"

definition notPending :: "string option \<Rightarrow> bool" where
  "notPending s = (s \<noteq> None \<and> s \<noteq> Some ''PENDING'')"

definition resolveCanonicalConflict :: "order_snapshot \<Rightarrow> candidate_diff list \<Rightarrow> preview_issue option" where
  "resolveCanonicalConflict ord candidateDiff =
     (if ownershipCount ord > 1 then Some (issue ''DUPLICATE_ACTIVE_DELIVERY'' ''sellerOrderKey'')
      else if ownershipCount ord > 0 \<and> candidateDiff \<noteq> [] then Some (issue ''CANONICAL_ORDER_ACTIVE_OWNERSHIP'' ''sellerOrderKey'')
      else if cancelledAt ord \<noteq> None then Some (issue ''CANONICAL_ORDER_CANCELLED'' ''sellerOrderKey'')
      else if isLocked ord then Some (issue ''CANONICAL_ORDER_LOCKED'' ''sellerOrderKey'')
      else if candidateDiff \<noteq> [] \<and> notPending (Option.bind (deliveryStop ord) stopSnapStatus)
        then Some (issue ''CANONICAL_STOP_NOT_PENDING'' ''sellerOrderKey'')
      else if candidateDiff \<noteq> [] \<and> notPending (deliveryStatus ord)
        then Some (issue ''CANONICAL_ORDER_NOT_PENDING'' ''sellerOrderKey'')
      else None)"

definition classifyDiff :: "order_snapshot option \<Rightarrow> candidate_diff list \<Rightarrow> bool \<Rightarrow> diff_kind" where
  "classifyDiff canonicalOrder candidateDiff hasErrors =
     (if (case canonicalOrder of
            None \<Rightarrow> False
          | Some ord \<Rightarrow>
              ownershipCount ord > 1 \<or> cancelledAt ord \<noteq> None \<or> isLocked ord
              \<or> (candidateDiff \<noteq> [] \<and> notPending (Option.bind (deliveryStop ord) stopSnapStatus))
              \<or> (candidateDiff \<noteq> [] \<and> notPending (deliveryStatus ord))
              \<or> (ownershipCount ord > 0 \<and> candidateDiff \<noteq> []))
      then DIFF_CONFLICT
      else if hasErrors then DIFF_ERROR
      else if canonicalOrder = None then DIFF_NEW
      else if candidateDiff = [] then DIFF_NO_OP else DIFF_UPDATE_CANDIDATE)"

section \<open>Orders of rows, issues and fields\<close>

text \<open>
  The sign of \<^verbatim>\<open>left - right\<close>. A row with a number that is not finite makes the comparison
  or the hash of the rows throw the same error, so the place it is given does not matter.
\<close>

fun numRank :: "jsnum \<Rightarrow> int" where
  "numRank NegInf = 0"
| "numRank (Num x) = 1"
| "numRank PosInf = 2"
| "numRank NaN = 3"

definition compareNum :: "jsnum \<Rightarrow> jsnum \<Rightarrow> int" where
  "compareNum a b =
     (case (a, b) of
        (Num x, Num y) \<Rightarrow> (if x < y then -1 else if x > y then 1 else 0)
      | _ \<Rightarrow> compare_int (numRank a) (numRank b))"

definition sourceRowText :: "preview_env \<Rightarrow> source_row \<Rightarrow> string" where
  "sourceRowText env row = coalesce_def_value (canonicalJson (numberText env) (canonicalSourceRow row)) []"

definition compareSourceRows :: "preview_env \<Rightarrow> source_row \<Rightarrow> source_row \<Rightarrow> int" where
  "compareSourceRows env a b =
     or_else (compareNum (srRowNumber a) (srRowNumber b))
       (or_else (localeCompare env (srSellerOrderKey a) (srSellerOrderKey b))
         (compare_text (sourceRowText env a) (sourceRowText env b)))"

definition sortSourceRows :: "preview_env \<Rightarrow> source_row list \<Rightarrow> source_row list" where
  "sortSourceRows env rows = sort_by (compareSourceRows env) rows"

fun diffOrder :: "diff_kind \<Rightarrow> int" where
  "diffOrder DIFF_NEW = 0"
| "diffOrder DIFF_NO_OP = 1"
| "diffOrder DIFF_UPDATE_CANDIDATE = 2"
| "diffOrder DIFF_CONFLICT = 3"
| "diffOrder DIFF_ERROR = 4"

definition firstIssueCode :: "preview_row \<Rightarrow> string" where
  "firstIssueCode row = (case pvIssues row of [] \<Rightarrow> [] | i # _ \<Rightarrow> issueCode i)"

definition comparePreviewRows :: "preview_env \<Rightarrow> preview_row \<Rightarrow> preview_row \<Rightarrow> int" where
  "comparePreviewRows env a b =
     or_else (compareNum (pvRowNumber a) (pvRowNumber b))
       (or_else (localeCompare env (pvSellerOrderKey a) (pvSellerOrderKey b))
         (or_else (compare_int (diffOrder (pvDiffKind a)) (diffOrder (pvDiffKind b)))
           (localeCompare env (firstIssueCode a) (firstIssueCode b))))"

definition sortIssues :: "preview_env \<Rightarrow> preview_issue list \<Rightarrow> preview_issue list" where
  "sortIssues env is = sort_by (\<lambda>a b. localeCompare env (issueCode a) (issueCode b)) is"

definition sortCandidateDiff :: "preview_env \<Rightarrow> candidate_diff list \<Rightarrow> candidate_diff list" where
  "sortCandidateDiff env ds = sort_by (\<lambda>a b. localeCompare env (diffField a) (diffField b)) ds"

fun duplicateLoop :: "string list \<Rightarrow> string list \<Rightarrow> string list \<Rightarrow> string list" where
  "duplicateLoop seen dups [] = dups"
| "duplicateLoop seen dups (v # vs) =
     duplicateLoop (v # seen) (if v \<in> set seen then v # dups else dups) vs"

definition duplicateValues :: "string list \<Rightarrow> string list" where
  "duplicateValues vs = duplicateLoop [] [] vs"

section \<open>One row\<close>

record preview_input =
  inputFileName :: string
  inputPlanDate :: string
  inputRows :: "source_row list"
  inputShopId :: string
  inputSnapshots :: preview_snapshots
  inputSourceKind :: "string option"

definition sourceKindOf :: "preview_input \<Rightarrow> string" where
  "sourceKindOf inp = coalesce_def_value (inputSourceKind inp) ''DSV_DISPATCH_IMPORT''"

definition driverMatchesOf :: "preview_snapshots \<Rightarrow> normalized_row \<Rightarrow> driver_snapshot list" where
  "driverMatchesOf snaps n =
     (if nrDriverName n = [] then []
      else filter (\<lambda>d. driverSnapStatus d = ''ACTIVE'' \<and> normalizeText (driverDisplayName d) = nrDriverName n) (drivers snaps))"

definition vehicleMatchesOf :: "preview_snapshots \<Rightarrow> normalized_row \<Rightarrow> vehicle_snapshot list" where
  "vehicleMatchesOf snaps n =
     (if nrDriverName n = [] \<or> nrVehiclePlate n = [] then []
      else filter (\<lambda>v. vehicleSnapStatus v = ''ACTIVE'' \<and> normalizeNullableCellText (licensePlate v) = Some (nrVehiclePlate n))
             (vehicles snaps))"

definition vehicleIdOf :: "normalized_row \<Rightarrow> driver_snapshot list \<Rightarrow> vehicle_snapshot list \<Rightarrow> string option" where
  "vehicleIdOf n ds vs =
     (if nrVehiclePlate n = [] then (case ds of [d] \<Rightarrow> driverVehicleId d | _ \<Rightarrow> None)
      else (case vs of [v] \<Rightarrow> Some (vehicleSnapId v) | _ \<Rightarrow> None))"

definition destinationMatchesOf ::
  "preview_env \<Rightarrow> preview_snapshots \<Rightarrow> normalized_row \<Rightarrow> destination_snapshot list" where
  "destinationMatchesOf env snaps n =
     (let incoming = destinationIdentity env (nrAddress n) (Option.bind (nrDetailAddress n) (\<lambda>x. x)) (nrDestinationName n)
      in filter (\<lambda>d. destinationSnapStatus d \<noteq> Some ''INACTIVE''
           \<and> destinationIdentity env (destinationAddress d) (destinationDetailAddress d) (destinationNameOf d) = incoming)
           (destinations snaps))"

text \<open>The issues of a row before a conflict with its order is considered, in the order they are pushed.\<close>

definition rowIssues ::
  "preview_env \<Rightarrow> preview_snapshots \<Rightarrow> string list \<Rightarrow> source_row \<Rightarrow> normalized_row \<Rightarrow> preview_issue list" where
  "rowIssues env snaps duplicateKeys source n =
     (let exactCustomers = filter (\<lambda>c. externalCustomerCode c = nrCustomerCode n) (customers snaps);
          customerMatches = filter (\<lambda>c. customerSnapStatus c = ''ACTIVE'') exactCustomers;
          conditionMatches = filter (\<lambda>c. conditionKey c = nrConditionComparisonKey n) (conditions snaps)
      in validateSourceRow source
       @ (if nrDriverName n \<noteq> [] then cardinalityIssues ''DRIVER'' ''driverName'' (length (driverMatchesOf snaps n)) else [])
       @ (if nrDriverName n \<noteq> [] \<and> nrVehiclePlate n \<noteq> []
          then cardinalityIssues ''VEHICLE'' ''vehiclePlate'' (length (vehicleMatchesOf snaps n)) else [])
       @ pushOpt (resolveCustomerIssue exactCustomers customerMatches)
       @ ambiguityIssue ''DESTINATION'' ''destinationName'' (length (destinationMatchesOf env snaps n))
       @ (if nrSellerOrderKey n \<in> set duplicateKeys then [issue ''SELLER_ORDER_DUPLICATED'' ''sellerOrderKey''] else [])
       @ pushOpt (resolveConditionIssue conditionMatches))"

definition normalizedOf :: "preview_input \<Rightarrow> source_row \<Rightarrow> normalized_row" where
  "normalizedOf inp source = normalizeRow source (inputPlanDate inp) (sourceKindOf inp)"

definition canonicalOrderOf :: "preview_input \<Rightarrow> source_row \<Rightarrow> order_snapshot option" where
  "canonicalOrderOf inp source =
     findCanonicalOrder (canonicalOrders (inputSnapshots inp)) (nrPlanDate (normalizedOf inp source))
       (nrSellerOrderKey (normalizedOf inp source)) (sourceKindOf inp)"

definition conditionMatchesOf :: "preview_input \<Rightarrow> source_row \<Rightarrow> condition_snapshot list" where
  "conditionMatchesOf inp source =
     filter (\<lambda>c. conditionKey c = nrConditionComparisonKey (normalizedOf inp source)) (conditions (inputSnapshots inp))"

definition customerMatchesOf :: "preview_input \<Rightarrow> source_row \<Rightarrow> customer_snapshot list" where
  "customerMatchesOf inp source =
     filter (\<lambda>c. customerSnapStatus c = ''ACTIVE'')
       (filter (\<lambda>c. externalCustomerCode c = nrCustomerCode (normalizedOf inp source)) (customers (inputSnapshots inp)))"

definition resolvedDestinationIdOf :: "preview_env \<Rightarrow> preview_input \<Rightarrow> source_row \<Rightarrow> string option" where
  "resolvedDestinationIdOf env inp source =
     resolveDestinationIdForDiff (canonicalOrderOf inp source) (normalizedOf inp source)
       (destinationMatchesOf env (inputSnapshots inp) (normalizedOf inp source))"

definition candidateDiffOf :: "preview_env \<Rightarrow> preview_input \<Rightarrow> source_row \<Rightarrow> candidate_diff list" where
  "candidateDiffOf env inp source =
     (case canonicalOrderOf inp source of
        None \<Rightarrow> []
      | Some ord \<Rightarrow> diffCanonicalOrder ord (normalizedOf inp source)
          (case customerMatchesOf inp source of [] \<Rightarrow> None | c # _ \<Rightarrow> Some (customerSnapId c))
          (resolvedDestinationIdOf env inp source))"

definition conflictIssueOf :: "preview_env \<Rightarrow> preview_input \<Rightarrow> source_row \<Rightarrow> preview_issue option" where
  "conflictIssueOf env inp source =
     (case canonicalOrderOf inp source of
        None \<Rightarrow> None | Some ord \<Rightarrow> resolveCanonicalConflict ord (candidateDiffOf env inp source))"

definition issuesOf :: "preview_env \<Rightarrow> preview_input \<Rightarrow> string list \<Rightarrow> source_row \<Rightarrow> preview_issue list" where
  "issuesOf env inp duplicateKeys source =
     rowIssues env (inputSnapshots inp) duplicateKeys source (normalizedOf inp source)
     @ pushOpt (conflictIssueOf env inp source)"

definition hasErrors :: "preview_issue list \<Rightarrow> bool" where
  "hasErrors is = (\<exists>i \<in> set is. issueSeverity i = SEVERITY_ERROR)"

definition previewRow :: "preview_env \<Rightarrow> preview_input \<Rightarrow> string list \<Rightarrow> source_row \<Rightarrow> preview_row" where
  "previewRow env inp duplicateKeys source =
     (let snaps = inputSnapshots inp;
          n = normalizedOf inp source;
          driverMatches = driverMatchesOf snaps n;
          destinationMatches = destinationMatchesOf env snaps n;
          canonicalOrder = canonicalOrderOf inp source;
          candidateDiff = candidateDiffOf env inp source;
          issues = issuesOf env inp duplicateKeys source
      in \<lparr>pvCanonicalIdentity = (nrSellerOrderKey n, inputShopId inp, sourceKindOf inp),
          pvCandidateDiff = sortCandidateDiff env candidateDiff,
          pvConditionId = (case conditionMatchesOf inp source of
             [c] \<Rightarrow> (if conditionSnapStatus c = Some ''ACTIVE'' then Some (conditionSnapId c) else None) | _ \<Rightarrow> None),
          pvCustomerId = (case customerMatchesOf inp source of [c] \<Rightarrow> Some (customerSnapId c) | _ \<Rightarrow> None),
          pvDeliveryStopId = map_option stopSnapId (Option.bind canonicalOrder deliveryStop),
          pvDestinationId = (case destinationMatches of
             [d] \<Rightarrow> Some (destinationSnapId d) | _ \<Rightarrow> resolvedDestinationIdOf env inp source),
          pvDiffKind = classifyDiff canonicalOrder candidateDiff (hasErrors issues),
          pvDriverId = (case driverMatches of [d] \<Rightarrow> Some (driverSnapId d) | _ \<Rightarrow> None),
          pvIssues = sortIssues env issues,
          pvNormalized = n,
          pvRowNumber = srRowNumber source,
          pvSellerOrderId = map_option orderSnapId canonicalOrder,
          pvSellerOrderKey = nrSellerOrderKey n,
          pvVehicleId = vehicleIdOf n driverMatches (vehicleMatchesOf snaps n)\<rparr>)"

section \<open>Condition candidates\<close>

fun recordConditionCandidate :: "condition_candidate list \<Rightarrow> string \<Rightarrow> source_row \<Rightarrow> condition_candidate list" where
  "recordConditionCandidate [] key source =
     [\<lparr>candidateKey = key, candidateRawValue = srConditionCode source, candidateRowNumbers = [srRowNumber source]\<rparr>]"
| "recordConditionCandidate (c # cs) key source =
     (if candidateKey c = key then c\<lparr>candidateRowNumbers := candidateRowNumbers c @ [srRowNumber source]\<rparr> # cs
      else c # recordConditionCandidate cs key source)"

definition isConditionCandidate :: "preview_input \<Rightarrow> source_row \<Rightarrow> bool" where
  "isConditionCandidate inp source =
     (resolveConditionIssue (filter (\<lambda>c. conditionKey c = conditionComparisonKey (srConditionCode source))
        (conditions (inputSnapshots inp))) = Some (issue ''CONDITION_CANDIDATE'' ''conditionCode''))"

definition collectCandidates :: "preview_input \<Rightarrow> source_row list \<Rightarrow> condition_candidate list" where
  "collectCandidates inp rows =
     foldl (\<lambda>cs source. if isConditionCandidate inp source
        then recordConditionCandidate cs (conditionComparisonKey (srConditionCode source)) source else cs) [] rows"

definition sortedConditionCandidates :: "preview_env \<Rightarrow> condition_candidate list \<Rightarrow> condition_candidate list" where
  "sortedConditionCandidates env cs =
     sort_by (\<lambda>a b. localeCompare env (candidateKey a) (candidateKey b))
       (map (\<lambda>c. c\<lparr>candidateRowNumbers := sort_by compareNum (candidateRowNumbers c)\<rparr>) cs)"

section \<open>The preview\<close>

definition countKind :: "preview_row list \<Rightarrow> diff_kind \<Rightarrow> nat" where
  "countKind rows kind = length (filter (\<lambda>r. pvDiffKind r = kind) rows)"

definition summarize :: "preview_row list \<Rightarrow> preview_summary" where
  "summarize rows =
     \<lparr>conflictRows = countKind rows DIFF_CONFLICT, errorRows = countKind rows DIFF_ERROR,
      newRows = countKind rows DIFF_NEW, noOpRows = countKind rows DIFF_NO_OP,
      readyRows = int (length rows) - int (countKind rows DIFF_ERROR) - int (countKind rows DIFF_CONFLICT),
      reviewRows = length (filter (\<lambda>r. \<exists>i \<in> set (pvIssues r). issueSeverity i = SEVERITY_REVIEW) rows),
      totalRows = length rows, updateCandidateRows = countKind rows DIFF_UPDATE_CANDIDATE\<rparr>"

fun diffKindText :: "diff_kind \<Rightarrow> string" where
  "diffKindText DIFF_NEW = ''NEW''"
| "diffKindText DIFF_NO_OP = ''NO_OP''"
| "diffKindText DIFF_UPDATE_CANDIDATE = ''UPDATE_CANDIDATE''"
| "diffKindText DIFF_CONFLICT = ''CONFLICT''"
| "diffKindText DIFF_ERROR = ''ERROR''"

definition normalizedJson :: "normalized_row \<Rightarrow> json" where
  "normalizedJson n = JObj
     ([(''address'', JStr (nrAddress n))]
      @ jProp ''addressResolutionStatus'' (\<lambda>s. JStr (resolutionText s)) (nrAddressResolutionStatus n)
      @ [(''conditionComparisonKey'', JStr (nrConditionComparisonKey n)), (''customerCode'', JStr (nrCustomerCode n))]
      @ jProp ''detailAddress'' (jOpt JStr) (nrDetailAddress n)
      @ [(''destinationName'', JStr (nrDestinationName n)), (''driverName'', JStr (nrDriverName n))]
      @ jProp ''jibunAddress'' (jOpt JStr) (nrJibunAddress n)
      @ [(''latitude'', jOpt JNum (nrLatitude n)), (''longitude'', jOpt JNum (nrLongitude n)),
         (''notes'', jOpt JStr (nrNotes n)), (''planDate'', JStr (nrPlanDate n))]
      @ jProp ''postalCode'' (jOpt JStr) (nrPostalCode n)
      @ jProp ''rawAddress'' JStr (nrRawAddress n)
      @ [(''sellerOrderKey'', JStr (nrSellerOrderKey n)), (''shippedBoxes'', JNum (nrShippedBoxes n)),
         (''sourceKind'', JStr (nrSourceKind n)), (''vehiclePlate'', JStr (nrVehiclePlate n))])"

definition previewRowJson :: "preview_row \<Rightarrow> json" where
  "previewRowJson r = JObj
     [(''candidateDiff'', JArr (map (\<lambda>d. JObj [(''existing'', diffExisting d), (''field'', JStr (diffField d)),
         (''incoming'', diffIncoming d)]) (pvCandidateDiff r))),
      (''canonicalIdentity'', (case pvCanonicalIdentity r of (k, s, kind) \<Rightarrow>
         JObj [(''sellerOrderKey'', JStr k), (''shopId'', JStr s), (''sourceKind'', JStr kind)])),
      (''conditionId'', jOpt JStr (pvConditionId r)), (''customerId'', jOpt JStr (pvCustomerId r)),
      (''deliveryStopId'', jOpt JStr (pvDeliveryStopId r)), (''destinationId'', jOpt JStr (pvDestinationId r)),
      (''diffKind'', JStr (diffKindText (pvDiffKind r))), (''driverId'', jOpt JStr (pvDriverId r)),
      (''issues'', JArr (map (\<lambda>i. JObj [(''code'', JStr (issueCode i)), (''field'', JStr (issueField i)),
         (''severity'', JStr (if issueSeverity i = SEVERITY_ERROR then ''error'' else ''review''))]) (pvIssues r))),
      (''normalized'', normalizedJson (pvNormalized r)), (''rowNumber'', JNum (pvRowNumber r)),
      (''sellerOrderId'', jOpt JStr (pvSellerOrderId r)), (''sellerOrderKey'', JStr (pvSellerOrderKey r)),
      (''vehicleId'', jOpt JStr (pvVehicleId r))]"

definition candidateJson :: "condition_candidate \<Rightarrow> json" where
  "candidateJson c = JObj [(''comparisonKey'', JStr (candidateKey c)), (''rawValue'', JStr (candidateRawValue c)),
     (''rowNumbers'', JArr (map JNum (candidateRowNumbers c)))]"

definition blockingReviewRows :: "preview_row list \<Rightarrow> nat" where
  "blockingReviewRows rows =
     length (filter (\<lambda>r. \<exists>i \<in> set (pvIssues r). issueSeverity i = SEVERITY_REVIEW \<and> issueCode i \<noteq> ''SHIPPED_BOXES_ZERO'') rows)"

definition buildDsvDispatchPreviewDiff :: "preview_env \<Rightarrow> preview_input \<Rightarrow> preview_error + preview_diff" where
  "buildDsvDispatchPreviewDiff env inp =
     (let orderedSourceRows = sortSourceRows env (inputRows inp);
          srcHash = sha256CanonicalJson env (JObj
            [(''fileName'', JStr (inputFileName inp)), (''planDate'', JStr (inputPlanDate inp)),
             (''rows'', JArr (map canonicalSourceRow orderedSourceRows)), (''sourceKind'', JStr (sourceKindOf inp))]);
          duplicateKeys = duplicateValues (map (\<lambda>r. normalizeText (srSellerOrderKey r)) (inputRows inp));
          candidates = sortedConditionCandidates env (collectCandidates inp orderedSourceRows);
          rows = sort_by (comparePreviewRows env) (map (previewRow env inp duplicateKeys) orderedSourceRows)
      in case srcHash of
           None \<Rightarrow> Inl CANONICAL_JSON_NOT_ENCODABLE
         | Some sh \<Rightarrow>
             (case sha256CanonicalJson env (JObj
                [(''canonicalDiffRows'', JArr (map previewRowJson rows)),
                 (''conditionCandidates'', JArr (map candidateJson candidates)), (''sourceHash'', JStr sh)]) of
                None \<Rightarrow> Inl CANONICAL_JSON_NOT_ENCODABLE
              | Some ph \<Rightarrow>
                  Inr \<lparr>canApply = (rows \<noteq> [] \<and> errorRows (summarize rows) = 0 \<and> blockingReviewRows rows = 0
                         \<and> conflictRows (summarize rows) = 0),
                       conditionCandidatesOf = candidates, previewFileName = inputFileName inp,
                       previewPlanDate = inputPlanDate inp, previewHash = ph, previewRows = rows, sourceHash = sh,
                       previewSummary = summarize rows\<rparr>))"


section \<open>Issues and kinds\<close>

lemma issueSeverity_issue [simp]: "issueSeverity (issue c f) = SEVERITY_ERROR" "issueCode (issue c f) = c"
  by (simp_all add: issue_def)

lemma conflict_severity: "resolveCanonicalConflict ord d = Some i \<Longrightarrow> issueSeverity i = SEVERITY_ERROR"
  by (auto simp: resolveCanonicalConflict_def split: if_splits)

lemma classify_conflict:
  "classifyDiff (Some ord) d e = DIFF_CONFLICT \<longleftrightarrow> resolveCanonicalConflict ord d \<noteq> None"
  unfolding classifyDiff_def resolveCanonicalConflict_def by simp

lemma classify_no_order: "classifyDiff None d e = (if e then DIFF_ERROR else DIFF_NEW)"
  by (simp add: classifyDiff_def)

lemma classify_ready:
  "classifyDiff o' d e \<notin> {DIFF_CONFLICT, DIFF_ERROR} \<longleftrightarrow> classifyDiff o' d e \<noteq> DIFF_CONFLICT \<and> \<not> e"
  by (auto simp: classifyDiff_def)

lemma set_sortIssues [simp]: "set (sortIssues env is) = set is"
  by (simp add: sortIssues_def)

lemma set_pushOpt [simp]: "set (pushOpt v) = set_option v"
  by (cases v) (simp_all add: pushOpt_def)

lemma normalizeRow_simps [simp]:
  "nrSellerOrderKey (normalizedOf inp s) = normalizeText (srSellerOrderKey s)"
  "nrConditionComparisonKey (normalizedOf inp s) = conditionComparisonKey (srConditionCode s)"
  by (simp_all add: normalizedOf_def normalizeRow_def)

lemma pvIssues_previewRow: "pvIssues (previewRow env inp dups source) = sortIssues env (issuesOf env inp dups source)"
  by (simp add: previewRow_def Let_def)

lemma pvDiffKind_previewRow:
  "pvDiffKind (previewRow env inp dups source) =
     classifyDiff (canonicalOrderOf inp source) (candidateDiffOf env inp source) (hasErrors (issuesOf env inp dups source))"
  by (simp add: previewRow_def Let_def)

lemma previewRow_fields [simp]:
  "pvSellerOrderKey (previewRow env inp dups source) = normalizeText (srSellerOrderKey source)"
  "pvRowNumber (previewRow env inp dups source) = srRowNumber source"
  "pvNormalized (previewRow env inp dups source) = normalizedOf inp source"
  by (simp_all add: previewRow_def Let_def)

lemma conflict_iff: "pvDiffKind (previewRow env inp dups source) = DIFF_CONFLICT \<longleftrightarrow> conflictIssueOf env inp source \<noteq> None"
  unfolding pvDiffKind_previewRow conflictIssueOf_def
  by (cases "canonicalOrderOf inp source") (simp_all add: classify_conflict classify_no_order)

lemma conflict_is_error:
  "conflictIssueOf env inp source = Some i \<Longrightarrow> hasErrors (issuesOf env inp dups source)"
  unfolding hasErrors_def issuesOf_def conflictIssueOf_def
  by (cases "canonicalOrderOf inp source") (auto dest: conflict_severity)

lemma ready_iff:
  "pvDiffKind (previewRow env inp dups source) \<notin> {DIFF_CONFLICT, DIFF_ERROR}
     \<longleftrightarrow> \<not> hasErrors (pvIssues (previewRow env inp dups source))"
proof -
  have "hasErrors (pvIssues (previewRow env inp dups source)) = hasErrors (issuesOf env inp dups source)"
    unfolding pvIssues_previewRow hasErrors_def by simp
  moreover have "conflictIssueOf env inp source \<noteq> None \<Longrightarrow> hasErrors (issuesOf env inp dups source)"
    using conflict_is_error by auto
  ultimately show ?thesis
    using classify_ready [of "canonicalOrderOf inp source"] conflict_iff unfolding pvDiffKind_previewRow by metis
qed

section \<open>Duplicate keys\<close>

lemma count_list_pos: "0 < count_list vs x \<longleftrightarrow> x \<in> set vs"
  by (induction vs) auto

lemma set_duplicateLoop:
  "set (duplicateLoop seen dups vs) =
     set dups \<union> {v. v \<in> set vs \<and> (v \<in> set seen \<or> 1 < count_list vs v)}"
proof (induction vs arbitrary: seen dups)
  case (Cons v vs)
  show ?case unfolding duplicateLoop.simps Cons.IH by (auto simp: count_list_pos)
qed simp

lemma duplicateValues_iff: "v \<in> set (duplicateValues vs) \<longleftrightarrow> 1 < count_list vs v"
  unfolding duplicateValues_def set_duplicateLoop using count_list_pos [of vs v] by auto

lemma no_duplicates_distinct: "(\<forall>v \<in> set vs. v \<notin> set (duplicateValues vs)) \<Longrightarrow> distinct vs"
  unfolding duplicateValues_iff
proof (induction vs)
  case (Cons x xs)
  have "x \<notin> set xs" using Cons.prems count_list_pos [of xs x] by simp
  moreover have "\<not> 1 < count_list xs v" if "v \<in> set xs" for v
  proof -
    have "\<not> 1 < count_list (x # xs) v" using Cons.prems that by simp
    moreover have "count_list xs v \<le> count_list (x # xs) v" by simp
    ultimately show ?thesis by linarith
  qed
  ultimately show ?case using Cons.IH by simp
qed simp

section \<open>The order of rows\<close>

lemma sign_comparator_num: "sign_comparator (\<lambda>x y. compareNum (f x) (f y))"
proof
  fix x y z
  show "compareNum (f x) (f y) < 0 \<longleftrightarrow> 0 < compareNum (f y) (f x)"
    by (cases "f x"; cases "f y") (auto simp: compareNum_def compare_int_def)
  assume "compareNum (f x) (f y) \<le> 0" "compareNum (f y) (f z) \<le> 0"
  then show "compareNum (f x) (f z) \<le> 0"
    by (cases "f x"; cases "f y"; cases "f z") (auto simp: compareNum_def compare_int_def split: if_splits)
qed

interpretation row_number_order: sign_comparator compareNum
  using sign_comparator_num [of "\<lambda>x. x"] by simp

lemma compareNum_eq: "compareNum a b \<le> 0 \<Longrightarrow> compareNum b a \<le> 0 \<Longrightarrow> a = b"
  by (cases a; cases b) (auto simp: compareNum_def compare_int_def split: if_splits)

lemma sign_comparator_source_rows:
  assumes lc: "sign_comparator (localeCompare env)"
  shows "sign_comparator (compareSourceRows env)"
proof -
  show ?thesis
    unfolding compareSourceRows_def [abs_def]
    by (intro sign_comparator_or_else sign_comparator_num sign_comparator_on [OF lc] sign_comparator_text)
qed

lemma sortSourceRows_permutation:
  assumes "sign_comparator (localeCompare env)" and "mset rows = mset rows'" and "distinct (map srRowNumber rows)"
  shows "sortSourceRows env rows = sortSourceRows env rows'"
  unfolding sortSourceRows_def
proof (rule comparator.sort_by_permutation [OF comparator_of_sign [OF sign_comparator_source_rows [OF assms(1)]] assms(2)])
  fix a b assume ab: "a \<in> set rows" "b \<in> set rows"
    and le: "compareSourceRows env a b \<le> 0" "compareSourceRows env b a \<le> 0"
  have "compareNum (srRowNumber a) (srRowNumber b) \<le> 0" "compareNum (srRowNumber b) (srRowNumber a) \<le> 0"
    using le unfolding compareSourceRows_def or_else_def by (auto split: if_splits)
  then have "srRowNumber a = srRowNumber b" by (rule compareNum_eq)
  then show "a = b" using ab assms(3) by (auto simp: distinct_map dest: inj_onD)
qed

lemma previewRow_cong:
  assumes "set dups = set dups'"
  shows "previewRow env inp dups = previewRow env inp dups'"
proof -
  have "rowIssues env snaps dups s n = rowIssues env snaps dups' s n" for snaps s n
    unfolding rowIssues_def assms ..
  then have "issuesOf env inp dups s = issuesOf env inp dups' s" for s unfolding issuesOf_def by simp
  then show ?thesis unfolding previewRow_def [abs_def] by presburger
qed

section \<open>What a row without errors has\<close>

lemma hasErrors_append [simp]: "hasErrors (a @ b) \<longleftrightarrow> hasErrors a \<or> hasErrors b"
  by (auto simp: hasErrors_def)

lemma hasErrors_simps [simp]: "hasErrors [] = False" "hasErrors (issue c f # is) = True"
  "hasErrors (pushOpt None) = False" "hasErrors (pushOpt (Some (issue c f))) = True"
  by (simp_all add: hasErrors_def pushOpt_def)

lemma no_error_cardinality: "\<not> hasErrors (cardinalityIssues r f n) \<longleftrightarrow> n = 1"
  by (auto simp: cardinalityIssues_def)

lemma no_error_condition:
  "\<not> hasErrors (pushOpt (resolveConditionIssue ms)) \<longleftrightarrow> (\<exists>c. ms = [c] \<and> conditionSnapStatus c = Some ''ACTIVE'')"
  by (auto simp: resolveConditionIssue_def split: list.splits if_splits)

lemma no_error_required:
  "\<not> hasErrors (requiredFieldIssues row) \<Longrightarrow>
     normalizeText (srSellerOrderKey row) \<noteq> [] \<and> js_length (normalizeText (srSellerOrderKey row)) \<le> 160
     \<and> normalizeText (srAddress row) \<noteq> [] \<and> normalizeText (srDestinationName row) \<noteq> []"
  by (auto simp: requiredFieldIssues_def not_less split: if_splits)

definition row_sound :: "preview_input \<Rightarrow> preview_row \<Rightarrow> bool" where
  "row_sound inp r =
     (pvDiffKind r \<in> {DIFF_NEW, DIFF_NO_OP, DIFF_UPDATE_CANDIDATE} \<and> \<not> hasErrors (pvIssues r)
      \<and> pvConditionId r \<noteq> None
      \<and> pvSellerOrderKey r \<noteq> [] \<and> js_length (pvSellerOrderKey r) \<le> 160
      \<and> nrAddress (pvNormalized r) \<noteq> [] \<and> nrDestinationName (pvNormalized r) \<noteq> []
      \<and> (nrDriverName (pvNormalized r) \<noteq> [] \<longrightarrow> pvDriverId r \<noteq> None)
      \<and> (nrDriverName (pvNormalized r) \<noteq> [] \<and> nrVehiclePlate (pvNormalized r) \<noteq> [] \<longrightarrow> pvVehicleId r \<noteq> None))"

lemma previewRow_ids:
  "pvConditionId (previewRow env inp dups s) = (case conditionMatchesOf inp s of
     [c] \<Rightarrow> (if conditionSnapStatus c = Some ''ACTIVE'' then Some (conditionSnapId c) else None) | _ \<Rightarrow> None)"
  "pvDriverId (previewRow env inp dups s) =
     (case driverMatchesOf (inputSnapshots inp) (normalizedOf inp s) of [d] \<Rightarrow> Some (driverSnapId d) | _ \<Rightarrow> None)"
  "pvVehicleId (previewRow env inp dups s) = vehicleIdOf (normalizedOf inp s)
     (driverMatchesOf (inputSnapshots inp) (normalizedOf inp s)) (vehicleMatchesOf (inputSnapshots inp) (normalizedOf inp s))"
  by (simp_all add: previewRow_def Let_def)

lemma length_1_conv: "length xs = 1 \<longleftrightarrow> (\<exists>x. xs = [x])"
  by (cases xs) auto

lemma ready_row_sound:
  assumes ok: "\<not> hasErrors (pvIssues (previewRow env inp dups s))"
  shows "row_sound inp (previewRow env inp dups s) \<and> pvSellerOrderKey (previewRow env inp dups s) \<notin> set dups"
proof -
  let ?r = "previewRow env inp dups s" and ?n = "normalizedOf inp s"
  have "\<not> hasErrors (issuesOf env inp dups s)"
    using ok unfolding pvIssues_previewRow hasErrors_def by simp
  then have row: "\<not> hasErrors (rowIssues env (inputSnapshots inp) dups s ?n)" by (simp add: issuesOf_def)
  have req: "\<not> hasErrors (requiredFieldIssues s)"
    using row by (simp add: rowIssues_def Let_def validateSourceRow_def)
  have drv: "nrDriverName ?n \<noteq> [] \<Longrightarrow> length (driverMatchesOf (inputSnapshots inp) ?n) = 1"
    using row no_error_cardinality by (simp add: rowIssues_def Let_def)
  have veh: "nrDriverName ?n \<noteq> [] \<Longrightarrow> nrVehiclePlate ?n \<noteq> [] \<Longrightarrow> length (vehicleMatchesOf (inputSnapshots inp) ?n) = 1"
    using row no_error_cardinality by (simp add: rowIssues_def Let_def)
  have dup: "nrSellerOrderKey ?n \<notin> set dups"
    using row by (simp add: rowIssues_def Let_def split: if_splits)
  have cond: "\<exists>c. conditionMatchesOf inp s = [c] \<and> conditionSnapStatus c = Some ''ACTIVE''"
    using row no_error_condition by (simp add: rowIssues_def Let_def conditionMatchesOf_def)
  have "pvDiffKind ?r \<notin> {DIFF_CONFLICT, DIFF_ERROR}" using ok ready_iff by blast
  then have kind: "pvDiffKind ?r \<in> {DIFF_NEW, DIFF_NO_OP, DIFF_UPDATE_CANDIDATE}" by (cases "pvDiffKind ?r") auto
  have "pvConditionId ?r \<noteq> None" using cond by (auto simp: previewRow_ids)
  moreover have "nrDriverName ?n \<noteq> [] \<Longrightarrow> pvDriverId ?r \<noteq> None"
    using drv unfolding length_1_conv by (auto simp: previewRow_ids)
  moreover have "nrDriverName ?n \<noteq> [] \<Longrightarrow> nrVehiclePlate ?n \<noteq> [] \<Longrightarrow> pvVehicleId ?r \<noteq> None"
    using veh unfolding length_1_conv by (auto simp: previewRow_ids vehicleIdOf_def)
  moreover have "nrAddress ?n = normalizeText (srAddress s)" "nrDestinationName ?n = normalizeText (srDestinationName s)"
    by (simp_all add: normalizedOf_def normalizeRow_def)
  ultimately show ?thesis
    using kind ok dup no_error_required [OF req] by (simp add: row_sound_def)
qed

lemma preview_rows:
  assumes "buildDsvDispatchPreviewDiff env inp = Inr p"
  obtains dups where "dups = duplicateValues (map (\<lambda>r. normalizeText (srSellerOrderKey r)) (inputRows inp))"
    "previewRows p = sort_by (comparePreviewRows env) (map (previewRow env inp dups) (sortSourceRows env (inputRows inp)))"
    "previewSummary p = summarize (previewRows p)"
    "canApply p \<longleftrightarrow> previewRows p \<noteq> [] \<and> countKind (previewRows p) DIFF_ERROR = 0
       \<and> blockingReviewRows (previewRows p) = 0 \<and> countKind (previewRows p) DIFF_CONFLICT = 0"
  using assms unfolding buildDsvDispatchPreviewDiff_def Let_def
  by (auto simp: summarize_def split: option.splits)

lemma countKind_0: "countKind rows k = 0 \<longleftrightarrow> (\<forall>r \<in> set rows. pvDiffKind r \<noteq> k)"
  by (simp add: countKind_def filter_empty_conv)

lemma map_sortSourceRows_mset: "mset (map f (sortSourceRows env rows)) = mset (map f rows)"
  by (simp add: sortSourceRows_def)

lemma not_error: "s \<noteq> SEVERITY_ERROR \<longleftrightarrow> s = SEVERITY_REVIEW"
  by (cases s) simp_all

text \<open>A row depends on the input except for the other rows.\<close>

lemma previewRow_inputRows: "previewRow env (inp\<lparr>inputRows := rs\<rparr>) = previewRow env inp"
proof -
  have n: "normalizedOf (inp\<lparr>inputRows := rs\<rparr>) s = normalizedOf inp s"
    and k: "sourceKindOf (inp\<lparr>inputRows := rs\<rparr>) = sourceKindOf inp" for s
    by (simp_all add: normalizedOf_def sourceKindOf_def)
  have ms: "conditionMatchesOf (inp\<lparr>inputRows := rs\<rparr>) s = conditionMatchesOf inp s"
    "customerMatchesOf (inp\<lparr>inputRows := rs\<rparr>) s = customerMatchesOf inp s"
    "canonicalOrderOf (inp\<lparr>inputRows := rs\<rparr>) s = canonicalOrderOf inp s" for s
    by (simp_all add: conditionMatchesOf_def customerMatchesOf_def canonicalOrderOf_def n k)
  have d: "resolvedDestinationIdOf env (inp\<lparr>inputRows := rs\<rparr>) s = resolvedDestinationIdOf env inp s" for s
    by (simp add: resolvedDestinationIdOf_def ms n)
  have c: "candidateDiffOf env (inp\<lparr>inputRows := rs\<rparr>) s = candidateDiffOf env inp s" for s
    unfolding candidateDiffOf_def ms n d ..
  have i: "issuesOf env (inp\<lparr>inputRows := rs\<rparr>) dups s = issuesOf env inp dups s" for dups s
    unfolding issuesOf_def conflictIssueOf_def c ms n by simp
  show ?thesis unfolding previewRow_def [abs_def] n k ms d c i by simp
qed

section \<open>Properties\<close>

text \<open>
  The classification and the issues of a row never disagree: a row is a CONFLICT exactly
  when its order raises a conflict issue, and it is ready (NEW, NO_OP or UPDATE_CANDIDATE) exactly
  when none of its issues is an error.
\<close>

theorem row_kind_agrees_with_issues:
  "(pvDiffKind (previewRow env inp dups s) = DIFF_CONFLICT \<longleftrightarrow> conflictIssueOf env inp s \<noteq> None)
   \<and> (pvDiffKind (previewRow env inp dups s) \<in> {DIFF_NEW, DIFF_NO_OP, DIFF_UPDATE_CANDIDATE}
      \<longleftrightarrow> \<not> hasErrors (pvIssues (previewRow env inp dups s)))"
proof -
  have "pvDiffKind r \<in> {DIFF_NEW, DIFF_NO_OP, DIFF_UPDATE_CANDIDATE} \<longleftrightarrow> pvDiffKind r \<notin> {DIFF_CONFLICT, DIFF_ERROR}" for r
    by (cases "pvDiffKind r") auto
  then show ?thesis
    using conflict_iff [of env inp dups s] ready_iff [of env inp dups s] by (metis (no_types))
qed

text \<open>
  Claim C21: an applicable preview is safe to apply: it has rows, every row is new, unchanged or an
  update without an error, has an active transport condition, a key of at most 160 characters, an
  address and a name, exactly one driver and vehicle where it names them, no open review except for
  zero boxes, and no two rows share an order key.
\<close>

theorem applicable_preview_is_sound:
  assumes "buildDsvDispatchPreviewDiff env inp = Inr p" and "canApply p"
  shows "previewRows p \<noteq> [] \<and> (\<forall>r \<in> set (previewRows p). row_sound inp r
      \<and> (\<forall>i \<in> set (pvIssues r). issueCode i = ''SHIPPED_BOXES_ZERO''))
    \<and> distinct (map pvSellerOrderKey (previewRows p))
    \<and> length (previewRows p) = length (inputRows inp)"
proof -
  obtain dups where dups: "dups = duplicateValues (map (\<lambda>r. normalizeText (srSellerOrderKey r)) (inputRows inp))"
    and rows: "previewRows p = sort_by (comparePreviewRows env) (map (previewRow env inp dups) (sortSourceRows env (inputRows inp)))"
    and apply': "canApply p \<longleftrightarrow> previewRows p \<noteq> [] \<and> countKind (previewRows p) DIFF_ERROR = 0
       \<and> blockingReviewRows (previewRows p) = 0 \<and> countKind (previewRows p) DIFF_CONFLICT = 0"
    using preview_rows [OF assms(1)] by metis
  have src: "\<exists>s. r = previewRow env inp dups s" if "r \<in> set (previewRows p)" for r using that rows by auto
  have ok: "\<not> hasErrors (pvIssues r)" if r: "r \<in> set (previewRows p)" for r
  proof -
    obtain s where s: "r = previewRow env inp dups s" using src [OF r] by blast
    have "pvDiffKind r \<noteq> DIFF_CONFLICT \<and> pvDiffKind r \<noteq> DIFF_ERROR"
      using apply' assms(2) r unfolding countKind_0 by blast
    then show ?thesis using ready_iff [of env inp dups s] s by simp
  qed
  have sound: "row_sound inp r \<and> pvSellerOrderKey r \<notin> set dups" if "r \<in> set (previewRows p)" for r
    using src [OF that] ok [OF that] ready_row_sound by blast
  have rev: "issueCode i = ''SHIPPED_BOXES_ZERO''" if "r \<in> set (previewRows p)" "i \<in> set (pvIssues r)" for r i
  proof -
    have "issueSeverity i = SEVERITY_REVIEW"
      using ok [OF that(1)] that(2) by (simp add: hasErrors_def not_error)
    then show ?thesis using apply' assms(2) that unfolding blockingReviewRows_def by (auto simp: filter_empty_conv)
  qed
  let ?keys = "map (\<lambda>r. normalizeText (srSellerOrderKey r)) (inputRows inp)"
  have ms: "mset (map pvSellerOrderKey (previewRows p)) = mset ?keys"
    by (simp add: rows sortSourceRows_def image_mset.compositionality comp_def)
  then have "\<forall>v \<in> set ?keys. v \<notin> set dups"
    using sound by (metis (no_types, lifting) imageE list.set_map set_mset_mset)
  then have "distinct ?keys" unfolding dups by (rule no_duplicates_distinct)
  then have "distinct (map pvSellerOrderKey (previewRows p))" using ms mset_eq_imp_distinct_iff by blast
  moreover have "length (previewRows p) = length (inputRows inp)" by (simp add: rows sortSourceRows_def)
  ultimately show ?thesis using apply' assms(2) sound rev by blast
qed

text \<open>
  The summary partitions the uploaded rows: the five kinds add up to the number of rows of
  the file, and the ready rows are the new, unchanged and updated ones.
\<close>

theorem summary_partitions_rows:
  assumes "buildDsvDispatchPreviewDiff env inp = Inr p"
  shows "newRows (previewSummary p) + noOpRows (previewSummary p) + updateCandidateRows (previewSummary p)
      + conflictRows (previewSummary p) + errorRows (previewSummary p) = length (inputRows inp)
    \<and> readyRows (previewSummary p) = int (newRows (previewSummary p) + noOpRows (previewSummary p) + updateCandidateRows (previewSummary p))
    \<and> totalRows (previewSummary p) = length (inputRows inp)"
proof -
  obtain dups where rows: "previewRows p = sort_by (comparePreviewRows env) (map (previewRow env inp dups) (sortSourceRows env (inputRows inp)))"
    and sum: "previewSummary p = summarize (previewRows p)"
    using preview_rows [OF assms] by metis
  have part: "countKind rs DIFF_NEW + countKind rs DIFF_NO_OP + countKind rs DIFF_UPDATE_CANDIDATE
      + countKind rs DIFF_CONFLICT + countKind rs DIFF_ERROR = length rs" for rs
  proof (induction rs)
    case (Cons r rs)
    then show ?case by (cases "pvDiffKind r") (simp_all add: countKind_def)
  qed (simp add: countKind_def)
  have "length (previewRows p) = length (inputRows inp)" by (simp add: rows sortSourceRows_def)
  then show ?thesis using part [of "previewRows p"] unfolding sum summarize_def by simp
qed

text \<open>
  Claim C35: the preview does not depend on the order in which the rows were uploaded: with distinct
  row numbers and any consistent locale comparison, a permutation of the rows gives the same rows,
  the same summary, the same candidates and the same two hashes.
\<close>

theorem preview_independent_of_row_order:
  assumes "sign_comparator (localeCompare env)" and "mset rows = mset rows'" and "distinct (map srRowNumber rows)"
  shows "buildDsvDispatchPreviewDiff env (inp\<lparr>inputRows := rows\<rparr>) = buildDsvDispatchPreviewDiff env (inp\<lparr>inputRows := rows'\<rparr>)"
proof -
  have sorted: "sortSourceRows env rows = sortSourceRows env rows'"
    using assms by (rule sortSourceRows_permutation)
  let ?keys = "\<lambda>rs. map (\<lambda>r. normalizeText (srSellerOrderKey r)) rs"
  have "mset (?keys rows) = mset (?keys rows')" using assms(2) by (metis mset_map)
  then have "count_list (?keys rows) v = count_list (?keys rows') v" for v by (metis count_mset)
  then have "set (duplicateValues (?keys rows)) = set (duplicateValues (?keys rows'))"
    by (intro set_eqI) (simp add: duplicateValues_iff)
  then have row: "previewRow env inp (duplicateValues (?keys rows)) = previewRow env inp (duplicateValues (?keys rows'))" for inp
    by (rule previewRow_cong)
  have inp: "previewRow env (inp\<lparr>inputRows := rs\<rparr>) = previewRow env inp"
    "sourceKindOf (inp\<lparr>inputRows := rs\<rparr>) = sourceKindOf inp"
    "collectCandidates (inp\<lparr>inputRows := rs\<rparr>) = collectCandidates inp" for rs
    by (simp_all add: previewRow_inputRows sourceKindOf_def collectCandidates_def [abs_def] isConditionCandidate_def [abs_def])
  have sel: "inputFileName (inp\<lparr>inputRows := rs\<rparr>) = inputFileName inp"
    "inputPlanDate (inp\<lparr>inputRows := rs\<rparr>) = inputPlanDate inp" "inputRows (inp\<lparr>inputRows := rs\<rparr>) = rs" for rs
    by simp_all
  show ?thesis
    unfolding buildDsvDispatchPreviewDiff_def inp sel Let_def sorted row ..
qed

section \<open>A concrete import\<close>

definition demo_row :: "real \<Rightarrow> string \<Rightarrow> source_row" where
  "demo_row n key =
     \<lparr>srAddress = ''Street 1'', srAddressResolutionStatus = None, srConditionCode = ''cold'', srCustomerCode = ''C1'',
      srDetailAddress = None, srDestinationName = ''Shop'', srDriverName = [], srJibunAddress = None,
      srLatitude = None, srLongitude = None, srNotes = None, srPostalCode = None, srRawAddress = None,
      srRowNumber = Num n, srSellerOrderKey = key, srShippedBoxes = Num 3, srVehiclePlate = []\<rparr>"

definition demo_snapshots :: preview_snapshots where
  "demo_snapshots =
     \<lparr>canonicalOrders = [],
      conditions = [\<lparr>conditionCodeOf = ''COLD'', conditionComparisonKeyOf = None, conditionSnapId = ''c1'',
                     conditionRawValue = None, conditionSnapStatus = Some ''ACTIVE''\<rparr>],
      customers = [], destinations = [], drivers = [], vehicles = []\<rparr>"

definition preview_demo_input :: preview_input where
  "preview_demo_input = \<lparr>inputFileName = ''f.xlsx'', inputPlanDate = ''2026-01-02'',
     inputRows = [demo_row 2 ''K1''], inputShopId = ''s1'', inputSnapshots = demo_snapshots,
     inputSourceKind = None\<rparr>"

definition preview_demo_env :: preview_env where
  "preview_demo_env = \<lparr>localeCompare = compare_text, numberText = (\<lambda>_. ''0''), sha256 = (\<lambda>s. ''h''),
     destinationIdentity = (\<lambda>a d n. (a, n))\<rparr>"

lemma demo_applicable:
  "case buildDsvDispatchPreviewDiff preview_demo_env preview_demo_input of Inl _ \<Rightarrow> False | Inr p \<Rightarrow> canApply p"
  by code_simp

lemma demo_preview: "\<exists>p. buildDsvDispatchPreviewDiff preview_demo_env preview_demo_input = Inr p \<and> canApply p"
  using demo_applicable by (cases "buildDsvDispatchPreviewDiff preview_demo_env preview_demo_input") simp_all

theorem applicable_preview_is_sound_witness:
  "\<exists>p. buildDsvDispatchPreviewDiff preview_demo_env preview_demo_input = Inr p \<and> canApply p
     \<and> (\<forall>r \<in> set (previewRows p). row_sound preview_demo_input r) \<and> length (previewRows p) = 1"
proof -
  obtain p where p: "buildDsvDispatchPreviewDiff preview_demo_env preview_demo_input = Inr p" "canApply p" using demo_preview by blast
  have "length (inputRows preview_demo_input) = 1" by (simp add: preview_demo_input_def)
  then show ?thesis using applicable_preview_is_sound [OF p] p by (intro exI [of _ p]) simp
qed

theorem summary_partitions_rows_witness:
  "\<exists>p. buildDsvDispatchPreviewDiff preview_demo_env preview_demo_input = Inr p \<and> totalRows (previewSummary p) = 1"
proof -
  obtain p where p: "buildDsvDispatchPreviewDiff preview_demo_env preview_demo_input = Inr p" using demo_preview by blast
  have "length (inputRows preview_demo_input) = 1" by (simp add: preview_demo_input_def)
  then show ?thesis using summary_partitions_rows [OF p] p by (intro exI [of _ p]) simp
qed

theorem preview_independent_of_row_order_witness:
  "buildDsvDispatchPreviewDiff preview_demo_env (preview_demo_input\<lparr>inputRows := [demo_row 2 ''K1'', demo_row 3 ''K2'']\<rparr>)
   = buildDsvDispatchPreviewDiff preview_demo_env (preview_demo_input\<lparr>inputRows := [demo_row 3 ''K2'', demo_row 2 ''K1'']\<rparr>)"
proof (rule preview_independent_of_row_order)
  show "sign_comparator (localeCompare preview_demo_env)"
    using text_order.sign_comparator_axioms by (simp add: preview_demo_env_def)
qed (simp_all add: demo_row_def)

end
