(* ===== verification/Payments.thy ===== *)
theory Payments
  imports Machines JsText
begin

text \<open>
  The payment of an order as the office and the driver see it: payments/order-payment.ts and
  payments/normalized-payment-status.ts. A \<^verbatim>\<open>Prisma.Decimal\<close> of a
  \<^verbatim>\<open>Decimal(18,2)\<close> column is its exact number of hundredths, an \<^typ>\<open>int\<close>; the text of an
  amount is what \<^verbatim>\<open>toFixed\<close> writes. The payload of the commerce platform is an untyped value.
\<close>

section \<open>Decimal amounts\<close>

type_synonym money = int

definition two_digits :: "nat \<Rightarrow> string" where
  "two_digits n = [digit_char (n div 10), digit_char (n mod 10)]"

text \<open>\<^verbatim>\<open>toFixed(2)\<close> and \<^verbatim>\<open>toFixed()\<close>, which writes no trailing zeros.\<close>

definition toFixed2 :: "money \<Rightarrow> string" where
  "toFixed2 c =
     (let a = nat \<bar>c\<bar>
      in (if c < 0 then ''-'' else []) @ js_nat (a div 100) @ ''.'' @ two_digits (a mod 100))"

definition toFixed :: "money \<Rightarrow> string" where
  "toFixed c =
     (let a = nat \<bar>c\<bar>; f = a mod 100
      in (if c < 0 then ''-'' else []) @ js_nat (a div 100)
         @ (if f = 0 then [] else if f mod 10 = 0 then CHR ''.'' # [digit_char (f div 10)]
            else CHR ''.'' # two_digits f))"

text \<open>\<^verbatim>\<open>new Prisma.Decimal(text)\<close> for a text with at most two decimals.\<close>

definition decimalOf :: "string \<Rightarrow> money" where
  "decimalOf s =
     (let negative = starts_with ''-'' s;
          parts = js_split CHR ''.'' (if negative then drop 1 s else s);
          fraction = (case parts of _ # f # _ \<Rightarrow> f | _ \<Rightarrow> []);
          cents = int (100 * digits_val (hd parts) + digits_val (padEnd 2 CHR ''0'' fraction))
      in if negative then - cents else cents)"

section \<open>order-payment.ts\<close>

datatype payment_method = CASH | ETRANSFER | OTHER_METHOD | UNKNOWN_METHOD

datatype amount_source = SHOPIFY_OUTSTANDING | UNPAID_ORDER_TOTAL | AMOUNT_PAID | AMOUNT_UNKNOWN

record order_payment =
  opMethod :: payment_method
  opMethodTitle :: "string option"
  opGatewayNames :: "string list"
  opFinancialStatus :: "string option"
  opExpectedAmount :: "string option"
  opCurrencyCode :: "string option"
  opExpectedAmountSource :: amount_source
  opRequiresCashInput :: bool

text \<open>A value of unknown type that may also be a \<^verbatim>\<open>Prisma.Decimal\<close>.\<close>

datatype amount_value = Decimal money | Untyped json

record order_row =
  orRawPayload :: json
  orFinancialStatus :: json
  orCurrencyCode :: json
  orTotalPriceAmount :: amount_value

definition js_record :: "json \<Rightarrow> json" where
  "js_record v = (if is_record v then v else JNull)"

definition js_string :: "json \<Rightarrow> string option" where
  "js_string v = (case v of JStr s \<Rightarrow> if js_trim s \<noteq> [] then Some (js_trim s) else None | _ \<Rightarrow> None)"

definition js_strings :: "json \<Rightarrow> string list" where
  "js_strings v =
     (case v of JArr vs \<Rightarrow> set_order (List.map_filter js_string vs) | _ \<Rightarrow> [])"

definition currency :: "json \<Rightarrow> string option" where
  "currency v =
     (case map_option toUpperCase (js_string v) of
        Some t \<Rightarrow> if is_currency_code t then Some t else None
      | None \<Rightarrow> None)"

text \<open>\<^verbatim>\<open>value.toLowerCase().replace(/[\s_()-]+/gu, '')\<close>\<close>

function dropSeparators :: "string \<Rightarrow> string" where
  "dropSeparators s =
     (case s of
        [] \<Rightarrow> []
      | c # cs \<Rightarrow>
          (if c \<in> set ''_()-'' then dropSeparators cs
           else case List.find (\<lambda>u. u \<noteq> [] \<and> starts_with u s) ws_units of
                  Some u \<Rightarrow> dropSeparators (drop (length u) s)
                | None \<Rightarrow> c # dropSeparators cs))"
  by pat_completeness auto
termination dropSeparators
  by (relation "measure length") (auto simp: find_Some_iff)

declare dropSeparators.simps [simp del]

definition compact :: "string \<Rightarrow> string" where
  "compact s = dropSeparators (toLowerCase s)"

definition classifyMethod :: "string \<Rightarrow> payment_method" where
  "classifyMethod title =
     (let name = compact title
      in if name \<in> set [''cash'', ''cod'', ''cashondelivery'', ''cashondeliverycod'',
                         [CHR 0xED, CHR 0x98, CHR 0x84, CHR 0xEA, CHR 0xB8, CHR 0x88]] then CASH
         else if name \<in> set [''etransfer'', ''emailtransfer'', ''emailmoneytransfer'', ''moneytransfer'',
                              ''interac'', ''interacetransfer''] then ETRANSFER
         else if name \<in> set [''manual'', ''unknown'', ''unknownpaymentmethod''] then UNKNOWN_METHOD
         else OTHER_METHOD)"

definition formatGateway :: "string \<Rightarrow> string" where
  "formatGateway title =
     (let m = classifyMethod title
      in if m = CASH then ''Cash''
         else if m = ETRANSFER then ''e-Transfer''
         else if compact title = ''shopifypayments'' then ''Shopify Payments''
         else if compact title = ''shopifystorecredit'' then ''Shopify Store Credit''
         else if compact title = ''manual'' then ''Manual''
         else title)"

definition manualPaymentMethod :: "json \<Rightarrow> string option" where
  "manualPaymentMethod v =
     (case v of JStr s \<Rightarrow> if s = ''CASH'' \<or> s = ''ETRANSFER'' then Some s else None | _ \<Rightarrow> None)"

definition manualFinancialStatus :: "json \<Rightarrow> string option" where
  "manualFinancialStatus v =
     (case v of JStr s \<Rightarrow> if s = ''PAID'' \<or> s = ''PENDING'' \<or> s = ''UNKNOWN'' then Some s else None | _ \<Rightarrow> None)"

text \<open>\<^verbatim>\<open>/^-?\d{1,16}(?:\.\d{1,2})?$/u\<close>\<close>

definition unsigned_amount :: "string \<Rightarrow> bool" where
  "unsigned_amount t =
     (let w = takeWhile is_digit t; r = dropWhile is_digit t
      in 1 \<le> length w \<and> length w \<le> 16
         \<and> (case r of [] \<Rightarrow> True
            | c # f \<Rightarrow> c = CHR ''.'' \<and> list_all is_digit f \<and> (length f = 1 \<or> length f = 2)))"

definition is_amount :: "string \<Rightarrow> bool" where
  "is_amount t = unsigned_amount (if starts_with ''-'' t then drop 1 t else t)"

definition amount_text :: "amount_value \<Rightarrow> string option" where
  "amount_text v = (case v of Decimal c \<Rightarrow> Some (toFixed c) | Untyped j \<Rightarrow> js_string j)"

definition normalizeAmount :: "string \<Rightarrow> string" where
  "normalizeAmount t =
     (let negative = starts_with ''-'' t;
          parts = js_split CHR ''.'' (if negative then drop 1 t else t);
          whole = hd parts;
          fraction = (case parts of _ # f # _ \<Rightarrow> f | _ \<Rightarrow> []);
          normalized = stripLeadingZeros whole @ ''.'' @ padEnd 2 CHR ''0'' fraction
      in if negative \<and> normalized \<noteq> ''0.00'' then CHR ''-'' # normalized else normalized)"

definition exactMoney :: "amount_value \<Rightarrow> string option" where
  "exactMoney v =
     (case amount_text v of
        None \<Rightarrow> None
      | Some t \<Rightarrow> if is_amount t then Some (normalizeAmount t) else None)"

definition paymentTitles :: "json \<Rightarrow> string list \<Rightarrow> string list" where
  "paymentTitles raw gatewayNames =
     (let manualMethod = coalesce (manualPaymentMethod (jget raw ''cleverManualPaymentMethod''))
                           (manualPaymentMethod (jget raw ''cleverManualPaymentStatus''));
          legacyTitle = coalesce (js_string (jget raw ''paymentMethodTitle''))
                          (coalesce (js_string (jget raw ''payment_method_title''))
                            (coalesce (js_string (jget raw ''paymentMethod''))
                              (js_string (jget raw ''payment_method''))));
          namedGateways = filter (\<lambda>name. compact name \<noteq> ''manual'') gatewayNames
      in if namedGateways \<noteq> [] then map formatGateway namedGateways
         else case manualMethod of Some m \<Rightarrow> [formatGateway m]
            | None \<Rightarrow> (case legacyTitle of Some t \<Rightarrow> [t] | None \<Rightarrow> map formatGateway gatewayNames))"

definition sourceFinancialStatusOf :: "json \<Rightarrow> json \<Rightarrow> string option" where
  "sourceFinancialStatusOf raw financialStatus =
     coalesce (map_option toUpperCase (js_string (jget raw ''displayFinancialStatus'')))
       (coalesce (map_option toUpperCase (js_string (jget raw ''financial_status'')))
         (map_option toUpperCase (js_string financialStatus)))"

definition financialStatusOf :: "json \<Rightarrow> json \<Rightarrow> string option" where
  "financialStatusOf raw financialStatus =
     coalesce (manualFinancialStatus (jget raw ''cleverManualPaymentStatus''))
       (coalesce (map_option toUpperCase (js_string financialStatus))
         (sourceFinancialStatusOf raw financialStatus))"

text \<open>The three sources of the expected amount, in the order they are tried.\<close>

definition resolveExpected :: "json \<Rightarrow> order_row \<Rightarrow> order_payment \<Rightarrow> order_payment" where
  "resolveExpected raw row p =
     (let status = opFinancialStatus p; sourceStatus = sourceFinancialStatusOf raw (orFinancialStatus row)
      in if status = Some ''PAID''
            \<or> status = None \<and> jget raw ''normalizedPaymentStatus'' = JStr ''PAID_CONFIRMED'' then
           p\<lparr>opExpectedAmount := Some ''0.00'', opExpectedAmountSource := AMOUNT_PAID\<rparr>
         else if jget raw ''totalOutstandingSet'' \<noteq> JUndefined \<and> jget raw ''totalOutstandingSet'' \<noteq> JNull then
           (let outstanding = js_record (jget (js_record (jget raw ''totalOutstandingSet'')) ''shopMoney'')
            in case (exactMoney (Untyped (jget outstanding ''amount'')), currency (jget outstanding ''currencyCode'')) of
                 (Some a, Some c) \<Rightarrow>
                   (if opCurrencyCode p = None \<or> opCurrencyCode p = Some c then
                      p\<lparr>opExpectedAmount := Some a, opCurrencyCode := Some c,
                        opExpectedAmountSource := SHOPIFY_OUTSTANDING\<rparr>
                    else p)
               | _ \<Rightarrow> p)
         else if (status = Some ''PENDING'' \<or> status = Some ''UNPAID'') \<and> opCurrencyCode p \<noteq> None
            \<and> (sourceStatus = None \<or> sourceStatus = Some ''PENDING'' \<or> sourceStatus = Some ''UNPAID'') then
           (case exactMoney (orTotalPriceAmount row) of
              Some a \<Rightarrow>
                (if \<not> starts_with ''-'' a then
                   p\<lparr>opExpectedAmount := Some a, opExpectedAmountSource := UNPAID_ORDER_TOTAL\<rparr>
                 else p)
            | None \<Rightarrow> p)
         else p)"

definition exceptionFinancialStatuses :: "string list" where
  "exceptionFinancialStatuses = [''EXPIRED'', ''PARTIALLY_REFUNDED'', ''REFUNDED'', ''VOIDED'']"

definition requiresCash :: "order_payment \<Rightarrow> bool" where
  "requiresCash p =
     (opMethod p = CASH
      \<and> coalesce_def_value (opFinancialStatus p) [] \<notin> set exceptionFinancialStatuses
      \<and> (case opExpectedAmount p of None \<Rightarrow> True | Some a \<Rightarrow> \<not> starts_with ''-'' a \<and> a \<noteq> ''0.00''))"

definition resolveOrderPayment :: "order_row \<Rightarrow> order_payment" where
  "resolveOrderPayment row =
     (let raw = js_record (orRawPayload row);
          gatewayNames = js_strings (jcoalesce (jget raw ''paymentGatewayNames'') (jget raw ''payment_gateway_names''));
          titles = paymentTitles raw gatewayNames;
          methods = set_order (map classifyMethod titles);
          p = resolveExpected raw row
                \<lparr>opMethod = (if length methods = 1 then hd methods else UNKNOWN_METHOD),
                 opMethodTitle = (if titles = [] then None else Some (joinWith '' / '' (set_order titles))),
                 opGatewayNames = gatewayNames,
                 opFinancialStatus = financialStatusOf raw (orFinancialStatus row),
                 opExpectedAmount = None,
                 opCurrencyCode = coalesce (currency (orCurrencyCode row)) (currency (jget raw ''currency'')),
                 opExpectedAmountSource = AMOUNT_UNKNOWN,
                 opRequiresCashInput = False\<rparr>
      in p\<lparr>opRequiresCashInput := requiresCash p\<rparr>)"

section \<open>normalized-payment-status.ts\<close>

datatype normalized_payment_status =
    PAID_CONFIRMED | CASH_COLLECT_REQUIRED | TRANSFER_CHECK_PENDING
  | ONLINE_PAYMENT_PENDING_OR_FAILED | NOT_DELIVERABLE_OR_EXCEPTION | UNKNOWN_REVIEW

definition normalizedPaymentStatuses :: "(string \<times> normalized_payment_status) list" where
  "normalizedPaymentStatuses =
     [(''PAID_CONFIRMED'', PAID_CONFIRMED), (''CASH_COLLECT_REQUIRED'', CASH_COLLECT_REQUIRED),
      (''TRANSFER_CHECK_PENDING'', TRANSFER_CHECK_PENDING),
      (''ONLINE_PAYMENT_PENDING_OR_FAILED'', ONLINE_PAYMENT_PENDING_OR_FAILED),
      (''NOT_DELIVERABLE_OR_EXCEPTION'', NOT_DELIVERABLE_OR_EXCEPTION), (''UNKNOWN_REVIEW'', UNKNOWN_REVIEW)]"

definition readNormalizedPaymentStatus :: "json \<Rightarrow> normalized_payment_status option" where
  "readNormalizedPaymentStatus v =
     (case v of JStr s \<Rightarrow> map_of normalizedPaymentStatuses s | _ \<Rightarrow> None)"

definition resolveNormalizedPaymentStatus :: "json \<Rightarrow> json \<Rightarrow> normalized_payment_status option" where
  "resolveNormalizedPaymentStatus financialStatus normalizedStatus =
     (case readNormalizedPaymentStatus normalizedStatus of
        Some s \<Rightarrow> Some s
      | None \<Rightarrow>
          (case financialStatus of
             JStr t \<Rightarrow>
               (let fs = toUpperCase (js_trim t)
                in if fs = [] then None
                   else if fs = ''PAID'' then Some PAID_CONFIRMED
                   else if fs \<in> set exceptionFinancialStatuses then Some NOT_DELIVERABLE_OR_EXCEPTION
                   else Some UNKNOWN_REVIEW)
           | _ \<Rightarrow> None))"

section \<open>Amounts as text\<close>

lemma two_digits_val [simp]: "n < 100 \<Longrightarrow> digits_val (two_digits n) = n"
  by (simp add: two_digits_def digits_val_Cons digits_val_single)

lemma two_digits_digits [simp]: "n < 100 \<Longrightarrow> list_all is_digit (two_digits n)"
  by (simp add: two_digits_def)

lemma length_two_digits [simp]: "length (two_digits n) = 2"
  by (simp add: two_digits_def)

lemma two_digits_not_Nil [simp]: "two_digits n \<noteq> []"
  by (simp add: two_digits_def)

lemma two_digits_of: "list_all is_digit f \<Longrightarrow> length f = 2 \<Longrightarrow> two_digits (digits_val f) = f"
  by (cases f; cases "tl f")
    (auto simp: two_digits_def digits_val_Cons digit_val_lt digit_char_val)

lemma not_digit_dot [simp]: "\<not> is_digit CHR ''.''" and not_digit_minus [simp]: "\<not> is_digit CHR ''-''"
  by (simp_all add: is_digit_def)

lemma digits_no_dot: "list_all is_digit w \<Longrightarrow> CHR ''.'' \<notin> set w"
  by (induction w) auto

lemma digits_no_minus: "list_all is_digit w \<Longrightarrow> w \<noteq> [] \<Longrightarrow> \<not> starts_with ''-'' (w @ r)"
  by (cases w) auto

text \<open>The shape of an amount: digits, and a fraction that may be missing.\<close>

definition joinAmount :: "string \<Rightarrow> string \<Rightarrow> string" where
  "joinAmount w f = w @ (if f = [] then [] else CHR ''.'' # f)"

definition amount_parts :: "string \<Rightarrow> string \<Rightarrow> bool" where
  "amount_parts w f =
     (list_all is_digit w \<and> list_all is_digit f \<and> w \<noteq> [] \<and> length w \<le> 16 \<and> length f \<le> 2)"

lemma unsigned_amount_joinAmount: "amount_parts w f \<Longrightarrow> unsigned_amount (joinAmount w f)"
proof -
  assume a: "amount_parts w f"
  then have w: "\<And>r. takeWhile is_digit (w @ r) = w @ takeWhile is_digit r"
      "\<And>r. dropWhile is_digit (w @ r) = dropWhile is_digit r"
    by (auto simp: amount_parts_def list_all_iff)
  from a have "length f \<le> 2" by (simp add: amount_parts_def)
  then consider "f = []" | "length f = 1" | "length f = 2"
    by (cases f) (auto simp: le_Suc_eq numeral_2_eq_2)
  moreover have tw: "takeWhile is_digit w = w" and dw: "dropWhile is_digit w = []" using w [of "[]"] by simp_all
  ultimately show ?thesis
    using a by cases (auto simp: amount_parts_def unsigned_amount_def joinAmount_def Let_def Suc_le_eq w tw dw)
qed

lemma unsigned_amount_parts:
  assumes "unsigned_amount t"
  obtains w f where "t = joinAmount w f" and "amount_parts w f"
proof -
  let ?w = "takeWhile is_digit t" and ?r = "dropWhile is_digit t"
  have w: "list_all is_digit ?w" by (auto simp: list_all_iff dest: set_takeWhileD)
  have len: "?w \<noteq> []" "length ?w \<le> 16" using assms by (auto simp: unsigned_amount_def Let_def)
  show ?thesis
  proof (cases ?r)
    case Nil
    then have "t = joinAmount ?w []"
      using takeWhile_dropWhile_id [of is_digit t] unfolding joinAmount_def by (metis append_Nil2)
    then show ?thesis using that [of ?w "[]"] w len by (simp add: amount_parts_def)
  next
    case (Cons c f)
    then have "c = CHR ''.'' \<and> list_all is_digit f \<and> f \<noteq> [] \<and> length f \<le> 2"
      using assms by (auto simp: unsigned_amount_def Let_def)
    moreover have "t = joinAmount ?w f"
      using calculation Cons takeWhile_dropWhile_id [of is_digit t] by (simp add: joinAmount_def)
    ultimately show ?thesis using that [of ?w f] w len by (simp add: amount_parts_def)
  qed
qed

lemma split_joinAmount:
  "amount_parts w f \<Longrightarrow> js_split CHR ''.'' (joinAmount w f) = (if f = [] then [w] else [w, f])"
  by (simp add: amount_parts_def joinAmount_def digits_no_dot)

lemma joinAmount_no_minus: "amount_parts w f \<Longrightarrow> \<not> starts_with ''-'' (joinAmount w f)"
  by (simp add: amount_parts_def joinAmount_def digits_no_minus)

text \<open>The number of hundredths an unsigned amount stands for, and its canonical text.\<close>

definition cents :: "string \<Rightarrow> string \<Rightarrow> nat" where
  "cents w f = 100 * digits_val w + digits_val (padEnd 2 CHR ''0'' f)"

lemma pad_fraction:
  assumes "amount_parts w f"
  shows "list_all is_digit (padEnd 2 CHR ''0'' f)" and "length (padEnd 2 CHR ''0'' f) = 2"
  using assms by (auto simp: amount_parts_def padEnd_def list_all_iff is_digit_def)

lemma cents_lt:
  assumes "amount_parts w f"
  shows "cents w f < 10 ^ 18"
proof -
  have "digits_val w < 10 ^ length w" and len: "length w \<le> 16"
    using assms by (auto simp: amount_parts_def digits_val_lt)
  moreover have "(10 :: nat) ^ length w \<le> 10 ^ 16" using len by (intro power_increasing) auto
  moreover have "digits_val (padEnd 2 CHR ''0'' f) < 10 ^ 2"
    using pad_fraction [OF assms] digits_val_lt by metis
  ultimately have "digits_val w < 10 ^ 16" "digits_val (padEnd 2 CHR ''0'' f) < 100" by simp_all
  then show ?thesis by (simp add: cents_def)
qed

lemma canonical_parts:
  assumes "amount_parts w f"
  shows "js_nat (cents w f div 100) = stripLeadingZeros w"
    and "two_digits (cents w f mod 100) = padEnd 2 CHR ''0'' f"
proof -
  have f: "digits_val (padEnd 2 CHR ''0'' f) < 100"
    using digits_val_lt [OF pad_fraction(1) [OF assms]] pad_fraction(2) [OF assms] by simp
  show "js_nat (cents w f div 100) = stripLeadingZeros w"
    using f assms by (simp add: cents_def amount_parts_def stripLeadingZeros_eq)
  show "two_digits (cents w f mod 100) = padEnd 2 CHR ''0'' f"
    using f pad_fraction [OF assms] by (simp add: cents_def two_digits_of)
qed

lemma decimalOf_parts:
  assumes "amount_parts w f"
  shows "decimalOf (joinAmount w f) = int (cents w f)"
    and "decimalOf (CHR ''-'' # joinAmount w f) = - int (cents w f)"
  using split_joinAmount [OF assms] joinAmount_no_minus [OF assms]
  by (simp_all add: decimalOf_def cents_def Let_def)

lemma toFixed2_cents:
  assumes "amount_parts w f"
  shows "toFixed2 (int (cents w f)) = stripLeadingZeros w @ ''.'' @ padEnd 2 CHR ''0'' f"
  using canonical_parts [OF assms] by (simp add: toFixed2_def)

text \<open>Every amount text is a joined pair, with or without a sign.\<close>

lemma is_amount_cases:
  assumes "is_amount t"
  obtains w f where "amount_parts w f" and "t = joinAmount w f"
    | w f where "amount_parts w f" and "t = CHR ''-'' # joinAmount w f"
proof (cases "starts_with ''-'' t")
  case True
  then obtain r where "t = CHR ''-'' # r" by (cases t) auto
  then show ?thesis using assms that(2) by (auto simp: is_amount_def elim!: unsigned_amount_parts)
next
  case False
  then show ?thesis using assms that(1) by (auto simp: is_amount_def elim!: unsigned_amount_parts)
qed

lemma toFixed2_joinAmount:
  "toFixed2 c = (if c < 0 then ''-'' else []) @ joinAmount (js_nat (nat \<bar>c\<bar> div 100)) (two_digits (nat \<bar>c\<bar> mod 100))"
  by (simp add: toFixed2_def joinAmount_def Let_def)

lemma whole_length:
  assumes "\<bar>c\<bar> < 10 ^ 18"
  shows "length (js_nat (nat \<bar>c\<bar> div 100)) \<le> 16"
proof (rule js_nat_length)
  have "nat \<bar>c\<bar> < 10 ^ 16 * 100" using assms by (simp add: nat_less_iff)
  then show "nat \<bar>c\<bar> div 100 < 10 ^ 16" by (rule less_mult_imp_div_less)
qed simp

lemma toFixed2_parts: "\<bar>c\<bar> < 10 ^ 18 \<Longrightarrow> amount_parts (js_nat (nat \<bar>c\<bar> div 100)) (two_digits (nat \<bar>c\<bar> mod 100))"
  using whole_length [of c] by (simp add: amount_parts_def)

lemma cents_toFixed2: "cents (js_nat (n div 100)) (two_digits (n mod 100)) = n"
  by (simp add: cents_def padEnd_def)

lemma decimalOf_toFixed2: "\<bar>c\<bar> < 10 ^ 18 \<Longrightarrow> decimalOf (toFixed2 c) = c"
  using decimalOf_parts [OF toFixed2_parts [of c]] cents_toFixed2 [of "nat \<bar>c\<bar>"]
  by (cases "c < 0") (simp_all add: toFixed2_joinAmount)

lemma is_amount_toFixed2: "\<bar>c\<bar> < 10 ^ 18 \<Longrightarrow> is_amount (toFixed2 c)"
  using unsigned_amount_joinAmount [OF toFixed2_parts [of c]] joinAmount_no_minus [OF toFixed2_parts [of c]]
  by (cases "c < 0") (simp_all add: is_amount_def toFixed2_joinAmount)

lemma toFixed2_negative: "starts_with ''-'' (toFixed2 c) \<longleftrightarrow> c < 0"
  using digits_no_minus [of "js_nat (nat \<bar>c\<bar> div 100)"] by (cases "c < 0") (simp_all add: toFixed2_def Let_def)

lemma digit_char_0: "digit_char 0 = CHR ''0''"
  using digit_char_val [of "CHR ''0''"] by (simp add: is_digit_def digit_val_def)

lemma toFixed2_0: "toFixed2 0 = ''0.00''"
  by (simp add: toFixed2_def two_digits_def js_nat.simps digit_char_0)

lemma toFixed2_zero:
  assumes "\<bar>c\<bar> < 10 ^ 18"
  shows "toFixed2 c = ''0.00'' \<longleftrightarrow> c = 0"
proof
  assume "toFixed2 c = ''0.00''"
  then have "toFixed2 c = toFixed2 0" by (simp only: toFixed2_0)
  then show "c = 0" using decimalOf_toFixed2 [OF assms] decimalOf_toFixed2 [of 0] by simp
qed (simp only: toFixed2_0)

lemma minus_toFixed2: "0 < c \<Longrightarrow> CHR ''-'' # toFixed2 c = toFixed2 (- c)"
  by (simp add: toFixed2_joinAmount)

text \<open>Normalising an amount writes the canonical text of its value.\<close>

lemma normalizeAmount_eq: "is_amount t \<Longrightarrow> normalizeAmount t = toFixed2 (decimalOf t)"
proof (erule is_amount_cases)
  fix w f
  assume p: "amount_parts w f" and t: "t = joinAmount w f"
  show ?thesis
    using split_joinAmount [OF p] joinAmount_no_minus [OF p] t decimalOf_parts(1) [OF p] toFixed2_cents [OF p]
    by (simp add: normalizeAmount_def Let_def)
next
  fix w f
  assume p: "amount_parts w f" and t: "t = CHR ''-'' # joinAmount w f"
  have n: "normalizeAmount t = (if toFixed2 (int (cents w f)) \<noteq> ''0.00''
      then CHR ''-'' # toFixed2 (int (cents w f)) else toFixed2 (int (cents w f)))"
    using split_joinAmount [OF p] t toFixed2_cents [OF p] by (simp add: normalizeAmount_def Let_def)
  have lt: "\<bar>int (cents w f)\<bar> < 10 ^ 18"
    using cents_lt [OF p] by (metis abs_of_nat of_nat_less_iff of_nat_numeral of_nat_power)
  show ?thesis
  proof (cases "cents w f = 0")
    case True
    then show ?thesis using n lt decimalOf_parts(2) [OF p] t toFixed2_zero [of 0] by simp
  next
    case False
    then show ?thesis
      using n toFixed2_zero [OF lt] decimalOf_parts(2) [OF p] t minus_toFixed2 [of "int (cents w f)"] by simp
  qed
qed

lemma decimalOf_bound: "is_amount t \<Longrightarrow> \<bar>decimalOf t\<bar> < 10 ^ 18"
proof (erule is_amount_cases)
  fix w f
  assume p: "amount_parts w f"
  have lt: "int (cents w f) < 10 ^ 18"
    using cents_lt [OF p] by (metis of_nat_less_iff of_nat_numeral of_nat_power)
  show "\<bar>decimalOf t\<bar> < 10 ^ 18" if "t = joinAmount w f"
    using lt that decimalOf_parts(1) [OF p] by simp
  show "\<bar>decimalOf t\<bar> < 10 ^ 18" if "t = CHR ''-'' # joinAmount w f"
    using lt that decimalOf_parts(2) [OF p] by simp
qed

lemma exactMoney_SomeE:
  assumes "exactMoney v = Some s"
  obtains c where "s = toFixed2 c" and "\<bar>c\<bar> < 10 ^ 18"
  using assms normalizeAmount_eq decimalOf_bound
  by (auto simp: exactMoney_def split: option.splits if_splits)

text \<open>The text of a decimal column is an amount with the column's value.\<close>

definition fraction_text :: "nat \<Rightarrow> string" where
  "fraction_text f = (if f = 0 then [] else if f mod 10 = 0 then [digit_char (f div 10)] else two_digits f)"

lemma fraction_text:
  assumes "f < 100"
  shows "list_all is_digit (fraction_text f)" and "length (fraction_text f) \<le> 2"
    and "digits_val (padEnd 2 CHR ''0'' (fraction_text f)) = f"
proof -
  have z: "digit_val CHR ''0'' = 0" by (simp add: digit_val_def)
  have "f = 10 * (f div 10)" if "f mod 10 = 0" using that by presburger
  then show "digits_val (padEnd 2 CHR ''0'' (fraction_text f)) = f"
    using assms z two_digits_val [of f]
    by (auto simp: fraction_text_def padEnd_def digits_val_Cons digits_val_single numeral_2_eq_2)
qed (use assms in \<open>auto simp: fraction_text_def\<close>)

lemma toFixed_joinAmount:
  "toFixed c = (if c < 0 then ''-'' else []) @ joinAmount (js_nat (nat \<bar>c\<bar> div 100)) (fraction_text (nat \<bar>c\<bar> mod 100))"
  by (simp add: toFixed_def joinAmount_def fraction_text_def Let_def)

lemma toFixed_parts:
  assumes "\<bar>c\<bar> < 10 ^ 18"
  shows "amount_parts (js_nat (nat \<bar>c\<bar> div 100)) (fraction_text (nat \<bar>c\<bar> mod 100))"
    and "cents (js_nat (nat \<bar>c\<bar> div 100)) (fraction_text (nat \<bar>c\<bar> mod 100)) = nat \<bar>c\<bar>"
  using whole_length [OF assms] fraction_text [of "nat \<bar>c\<bar> mod 100"]
  by (simp_all add: amount_parts_def cents_def)

lemma toFixed_amount:
  assumes "\<bar>c\<bar> < 10 ^ 18"
  shows "is_amount (toFixed c) \<and> decimalOf (toFixed c) = c"
  using unsigned_amount_joinAmount [OF toFixed_parts(1) [OF assms]]
    joinAmount_no_minus [OF toFixed_parts(1) [OF assms]]
    decimalOf_parts [OF toFixed_parts(1) [OF assms]] toFixed_parts(2) [OF assms]
  by (cases "c < 0") (simp_all add: is_amount_def toFixed_joinAmount)

text \<open>A text that begins with a digit or a sign and ends with a digit has nothing to trim.\<close>

lemma ws_units_not_amount:
  "u \<in> set ws_units \<Longrightarrow> u \<noteq> [] \<and> \<not> is_digit (hd u) \<and> hd u \<noteq> CHR ''-'' \<and> \<not> is_digit (last u)"
  by (auto simp: ws_units_def is_digit_def)

lemma starts_with_hd: "starts_with u s \<Longrightarrow> u \<noteq> [] \<Longrightarrow> hd u = hd s"
  by (cases u; cases s) auto

lemma js_trim_amount:
  assumes "s \<noteq> []" and "is_digit (hd s) \<or> hd s = CHR ''-''" and "is_digit (last s)"
  shows "js_trim s = s"
proof -
  have "no_unit ws_units s"
    using assms(2) ws_units_not_amount starts_with_hd unfolding no_unit_def by metis
  moreover have "no_unit (map rev ws_units) (rev s)"
    unfolding no_unit_def
  proof (intro ballI impI notI)
    fix u
    assume "u \<in> set (map rev ws_units)" and "u \<noteq> []" and sw: "starts_with u (rev s)"
    then have "hd u = last s" and "rev u \<in> set ws_units"
      using starts_with_hd [OF sw] by (auto simp: hd_rev)
    then show False using ws_units_not_amount [of "rev u"] assms(3) \<open>u \<noteq> []\<close> by (simp add: last_rev)
  qed
  ultimately show ?thesis by (simp add: js_trim_def strip_units_none)
qed

lemma js_trim_toFixed2: "js_trim (toFixed2 c) = toFixed2 c"
proof (rule js_trim_amount)
  obtain d ds where j: "js_nat (nat \<bar>c\<bar> div 100) = d # ds"
    using js_nat_not_Nil by (metis neq_Nil_conv)
  then have "is_digit d" using js_nat_digits [of "nat \<bar>c\<bar> div 100"] by simp
  then show "is_digit (hd (toFixed2 c)) \<or> hd (toFixed2 c) = CHR ''-''"
    by (cases "c < 0") (use j in \<open>auto simp: toFixed2_def Let_def\<close>)
  show "is_digit (last (toFixed2 c))" by (simp add: toFixed2_def Let_def two_digits_def)
qed (simp add: toFixed2_def Let_def)

lemma toFixed2_not_Nil: "toFixed2 c \<noteq> []"
  by (simp add: toFixed2_def Let_def)

lemma exactMoney_toFixed2: "\<bar>c\<bar> < 10 ^ 18 \<Longrightarrow> exactMoney (Untyped (JStr (toFixed2 c))) = Some (toFixed2 c)"
  using is_amount_toFixed2 [of c] normalizeAmount_eq [of "toFixed2 c"] decimalOf_toFixed2 [of c]
  by (simp add: exactMoney_def amount_text_def js_string_def js_trim_toFixed2 toFixed2_not_Nil)

lemma exactMoney_Decimal: "\<bar>c\<bar> < 10 ^ 18 \<Longrightarrow> exactMoney (Decimal c) = Some (toFixed2 c)"
  using toFixed_amount [of c] normalizeAmount_eq [of "toFixed c"]
  by (simp add: exactMoney_def amount_text_def)

section \<open>What the driver collects\<close>

text \<open>
  Claim C36: \<^verbatim>\<open>exactMoney\<close> is a round trip between amounts and their canonical text. Whatever value
  it accepts, the answer is the two-decimal text of a number of at most 18 digits, reading the answer
  again gives it back, and every value of a \<^verbatim>\<open>Decimal(18,2)\<close> column is accepted and written without
  loss.
\<close>

theorem exactMoney_round_trip:
  "(exactMoney v = Some s \<longrightarrow>
      s = toFixed2 (decimalOf s) \<and> \<bar>decimalOf s\<bar> < 10 ^ 18 \<and> exactMoney (Untyped (JStr s)) = Some s)
   \<and> (\<bar>c\<bar> < 10 ^ 18 \<longrightarrow> exactMoney (Decimal c) = Some (toFixed2 c) \<and> decimalOf (toFixed2 c) = c)"
proof (intro conjI impI)
  assume "exactMoney v = Some s"
  then obtain d where s: "s = toFixed2 d" and d: "\<bar>d\<bar> < 10 ^ 18" by (rule exactMoney_SomeE)
  then have "decimalOf s = d" using decimalOf_toFixed2 by simp
  then show "s = toFixed2 (decimalOf s)" and "\<bar>decimalOf s\<bar> < 10 ^ 18"
    and "exactMoney (Untyped (JStr s)) = Some s"
    using s d exactMoney_toFixed2 [OF d] by simp_all
qed (simp_all only: exactMoney_Decimal decimalOf_toFixed2)

theorem exactMoney_round_trip_witness:
  "exactMoney (Untyped (JStr '' 007.5 '')) = Some ''7.50'' \<and> decimalOf ''7.50'' = 750
   \<and> exactMoney (Untyped (JStr ''7.50'')) = Some ''7.50''
   \<and> exactMoney (Decimal (- 20)) = Some ''-0.20''"
proof -
  have in1: "exactMoney (Untyped (JStr '' 007.5 '')) = Some ''7.50''" and v: "decimalOf ''7.50'' = 750"
    and out: "toFixed2 (- 20) = ''-0.20''"
    by code_simp+
  note rt = exactMoney_round_trip [of "Untyped (JStr '' 007.5 '')" "''7.50''" "-20"]
  have "exactMoney (Untyped (JStr ''7.50'')) = Some ''7.50''" using rt in1 by blast
  moreover have "exactMoney (Decimal (- 20)) = Some ''-0.20''" using rt out by simp
  ultimately show ?thesis using in1 v by blast
qed

text \<open>Facts on the pieces of \<^verbatim>\<open>resolveOrderPayment\<close>.\<close>

lemma set_order_singleton: "length (set_order xs) = 1 \<and> hd (set_order xs) = x \<longleftrightarrow> xs \<noteq> [] \<and> list_all (\<lambda>y. y = x) xs"
proof
  assume "length (set_order xs) = 1 \<and> hd (set_order xs) = x"
  then have "set_order xs = [x]" by (cases "set_order xs") auto
  then have "set xs = {x}" using set_set_order [of xs] by simp
  then show "xs \<noteq> [] \<and> list_all (\<lambda>y. y = x) xs" by (auto simp: list_all_iff)
next
  assume a: "xs \<noteq> [] \<and> list_all (\<lambda>y. y = x) xs"
  then have "set (set_order xs) = {x}" by (cases xs) (auto simp: list_all_iff)
  then have "set_order xs = [x]"
    using distinct_set_order [of xs] by (cases "set_order xs"; cases "tl (set_order xs)") auto
  then show "length (set_order xs) = 1 \<and> hd (set_order xs) = x" by simp
qed

lemma resolveExpected_keeps [simp]:
  "opMethod (resolveExpected raw row p) = opMethod p"
  "opFinancialStatus (resolveExpected raw row p) = opFinancialStatus p"
  by (auto simp: resolveExpected_def Let_def split: option.splits)

lemma resolveExpected_amount:
  assumes "opExpectedAmount p = None" and "opExpectedAmount (resolveExpected raw row p) = Some a"
  obtains c where "a = toFixed2 c" and "\<bar>c\<bar> < 10 ^ 18"
proof -
  have "a = ''0.00'' \<or> (\<exists>v. exactMoney v = Some a)"
    using assms by (auto simp: resolveExpected_def Let_def split: option.splits if_splits)
  then show ?thesis
  proof
    assume "a = ''0.00''"
    then show ?thesis using that [of 0] by (simp add: toFixed2_0)
  next
    assume "\<exists>v. exactMoney v = Some a"
    then show ?thesis using that by (auto elim: exactMoney_SomeE)
  qed
qed

lemma positive_amount:
  "a = toFixed2 c \<Longrightarrow> \<bar>c\<bar> < 10 ^ 18 \<Longrightarrow> (\<not> starts_with ''-'' a \<and> a \<noteq> ''0.00'') = (0 < decimalOf a)"
  using toFixed2_negative [of c] toFixed2_zero [of c] decimalOf_toFixed2 [of c] by auto

definition rawOf :: "order_row \<Rightarrow> json" where
  "rawOf row = js_record (orRawPayload row)"

definition gatewaysOf :: "order_row \<Rightarrow> string list" where
  "gatewaysOf row =
     js_strings (jcoalesce (jget (rawOf row) ''paymentGatewayNames'') (jget (rawOf row) ''payment_gateway_names''))"

text \<open>
  The driver is asked for the received cash exactly when every payment title of the order
  is a cash title, the order is not refunded, voided or expired, and the expected amount is unknown
  or positive as a number.
\<close>

theorem cash_input_exactly:
  "opRequiresCashInput (resolveOrderPayment row) =
     (paymentTitles (rawOf row) (gatewaysOf row) \<noteq> []
      \<and> list_all (\<lambda>t. classifyMethod t = CASH) (paymentTitles (rawOf row) (gatewaysOf row))
      \<and> (case opFinancialStatus (resolveOrderPayment row) of
           None \<Rightarrow> True | Some s \<Rightarrow> s \<notin> {''EXPIRED'', ''PARTIALLY_REFUNDED'', ''REFUNDED'', ''VOIDED''})
      \<and> (case opExpectedAmount (resolveOrderPayment row) of None \<Rightarrow> True | Some a \<Rightarrow> 0 < decimalOf a))"
proof -
  let ?titles = "paymentTitles (rawOf row) (gatewaysOf row)"
  let ?p = "resolveOrderPayment row"
  have m: "opMethod ?p = CASH \<longleftrightarrow> ?titles \<noteq> [] \<and> list_all (\<lambda>t. classifyMethod t = CASH) ?titles"
  proof -
    have "opMethod ?p = (let ms = set_order (map classifyMethod ?titles)
        in if length ms = 1 then hd ms else UNKNOWN_METHOD)"
      by (simp add: resolveOrderPayment_def Let_def rawOf_def gatewaysOf_def)
    then show ?thesis
      using set_order_singleton [of "map classifyMethod ?titles" CASH]
      by (simp add: Let_def list.pred_map comp_def split: if_splits)
  qed
  have e: "(case opExpectedAmount ?p of None \<Rightarrow> True | Some a \<Rightarrow> \<not> starts_with ''-'' a \<and> a \<noteq> ''0.00'')
      = (case opExpectedAmount ?p of None \<Rightarrow> True | Some a \<Rightarrow> 0 < decimalOf a)"
  proof (cases "opExpectedAmount ?p")
    case (Some a)
    then obtain c where "a = toFixed2 c" "\<bar>c\<bar> < 10 ^ 18"
      by (auto simp: resolveOrderPayment_def Let_def elim: resolveExpected_amount [rotated])
    then show ?thesis using Some positive_amount by simp
  qed simp
  have "opRequiresCashInput ?p = requiresCash ?p"
    by (simp add: resolveOrderPayment_def Let_def requiresCash_def)
  then show ?thesis
    using m e by (auto simp: requiresCash_def exceptionFinancialStatuses_def split: option.splits)
qed

lemma exactMoney_nonneg: "exactMoney v = Some a \<Longrightarrow> \<not> starts_with ''-'' a \<Longrightarrow> 0 \<le> decimalOf a"
  using toFixed2_negative decimalOf_toFixed2 by (auto elim!: exactMoney_SomeE)

definition balanceOf :: "json \<Rightarrow> json" where
  "balanceOf raw = js_record (jget (js_record (jget raw ''totalOutstandingSet'')) ''shopMoney'')"

lemma resolveExpected_explained:
  fixes raw row p
  assumes "opExpectedAmount p = None" and "opExpectedAmountSource p = AMOUNT_UNKNOWN"
  defines "q \<equiv> resolveExpected raw row p"
  shows
  "(case opExpectedAmountSource q of
      AMOUNT_UNKNOWN \<Rightarrow> opExpectedAmount q = None
    | AMOUNT_PAID \<Rightarrow>
        opExpectedAmount q = Some ''0.00''
        \<and> (opFinancialStatus q = Some ''PAID''
           \<or> opFinancialStatus q = None \<and> jget raw ''normalizedPaymentStatus'' = JStr ''PAID_CONFIRMED'')
    | SHOPIFY_OUTSTANDING \<Rightarrow>
        opExpectedAmount q \<noteq> None
        \<and> opExpectedAmount q = exactMoney (Untyped (jget (balanceOf raw) ''amount''))
        \<and> opCurrencyCode q = currency (jget (balanceOf raw) ''currencyCode'')
        \<and> opCurrencyCode p \<in> {None, opCurrencyCode q}
    | UNPAID_ORDER_TOTAL \<Rightarrow>
        jget raw ''totalOutstandingSet'' \<in> {JUndefined, JNull}
        \<and> opFinancialStatus q \<in> {Some ''PENDING'', Some ''UNPAID''}
        \<and> sourceFinancialStatusOf raw (orFinancialStatus row) \<in> {None, Some ''PENDING'', Some ''UNPAID''}
        \<and> opCurrencyCode q \<noteq> None
        \<and> opExpectedAmount q = exactMoney (orTotalPriceAmount row)
        \<and> (case opExpectedAmount q of None \<Rightarrow> False | Some a \<Rightarrow> 0 \<le> decimalOf a))"
proof (cases "opFinancialStatus p = Some ''PAID''
    \<or> opFinancialStatus p = None \<and> jget raw ''normalizedPaymentStatus'' = JStr ''PAID_CONFIRMED''")
  case True
  then show ?thesis by (simp add: q_def resolveExpected_def Let_def)
next
  case unpaid: False
  show ?thesis
  proof (cases "jget raw ''totalOutstandingSet'' \<in> {JUndefined, JNull}")
    case False
    show ?thesis
      using unpaid False assms(1,2)
      by (cases "exactMoney (Untyped (jget (balanceOf raw) ''amount''))";
          cases "currency (jget (balanceOf raw) ''currencyCode'')")
        (simp_all only: q_def resolveExpected_def Let_def balanceOf_def if_not_P [OF unpaid], auto)
  next
    case True
    then have none: "\<not> (jget raw ''totalOutstandingSet'' \<noteq> JUndefined \<and> jget raw ''totalOutstandingSet'' \<noteq> JNull)"
      by simp
    show ?thesis
      using unpaid True assms(1,2) exactMoney_nonneg [of "orTotalPriceAmount row"]
      by (cases "exactMoney (orTotalPriceAmount row)")
        (simp_all only: q_def resolveExpected_def Let_def if_not_P [OF unpaid] if_not_P [OF none],
         auto)
  qed
qed

lemma resolveOrderPayment_base:
  obtains p where
    "opExpectedAmount (resolveOrderPayment row) = opExpectedAmount (resolveExpected (rawOf row) row p)"
    "opExpectedAmountSource (resolveOrderPayment row) = opExpectedAmountSource (resolveExpected (rawOf row) row p)"
    "opFinancialStatus (resolveOrderPayment row) = opFinancialStatus (resolveExpected (rawOf row) row p)"
    "opCurrencyCode (resolveOrderPayment row) = opCurrencyCode (resolveExpected (rawOf row) row p)"
    "opExpectedAmount p = None" "opExpectedAmountSource p = AMOUNT_UNKNOWN"
    "coalesce (currency (orCurrencyCode row)) (currency (jget (rawOf row) ''currency'')) = opCurrencyCode p"
proof
  let ?titles = "paymentTitles (rawOf row) (gatewaysOf row)"
  let ?m = "set_order (map classifyMethod ?titles)"
  let ?p = "\<lparr>opMethod = (if length ?m = 1 then hd ?m else UNKNOWN_METHOD),
    opMethodTitle = (if ?titles = [] then None else Some (joinWith '' / '' (set_order ?titles))),
    opGatewayNames = gatewaysOf row,
    opFinancialStatus = financialStatusOf (rawOf row) (orFinancialStatus row),
    opExpectedAmount = None,
    opCurrencyCode = coalesce (currency (orCurrencyCode row)) (currency (jget (rawOf row) ''currency'')),
    opExpectedAmountSource = AMOUNT_UNKNOWN, opRequiresCashInput = False\<rparr>"
  have eq: "resolveOrderPayment row = (let q = resolveExpected (rawOf row) row ?p
      in q\<lparr>opRequiresCashInput := requiresCash q\<rparr>)"
    by (simp only: resolveOrderPayment_def Let_def rawOf_def gatewaysOf_def)
  show "opExpectedAmount (resolveOrderPayment row) = opExpectedAmount (resolveExpected (rawOf row) row ?p)"
    "opExpectedAmountSource (resolveOrderPayment row) = opExpectedAmountSource (resolveExpected (rawOf row) row ?p)"
    "opFinancialStatus (resolveOrderPayment row) = opFinancialStatus (resolveExpected (rawOf row) row ?p)"
    "opCurrencyCode (resolveOrderPayment row) = opCurrencyCode (resolveExpected (rawOf row) row ?p)"
    by (simp_all add: eq Let_def)
qed simp_all

text \<open>
  The expected amount is explained by its source. A paid order expects nothing; an
  outstanding balance is taken over exactly, in its own currency, when it agrees with the order's; the
  order total stands in only for an order without an explicit balance that its own status and the
  commerce platform both hold unpaid, in a known currency and for a non-negative total; otherwise no
  amount is given. A malformed or conflicting explicit balance never falls back to the total.
\<close>

theorem expected_amount_explained:
  "(case opExpectedAmountSource (resolveOrderPayment row) of
      AMOUNT_UNKNOWN \<Rightarrow> opExpectedAmount (resolveOrderPayment row) = None
    | AMOUNT_PAID \<Rightarrow>
        opExpectedAmount (resolveOrderPayment row) = Some ''0.00''
        \<and> (opFinancialStatus (resolveOrderPayment row) = Some ''PAID''
           \<or> opFinancialStatus (resolveOrderPayment row) = None
             \<and> jget (rawOf row) ''normalizedPaymentStatus'' = JStr ''PAID_CONFIRMED'')
    | SHOPIFY_OUTSTANDING \<Rightarrow>
        opExpectedAmount (resolveOrderPayment row) \<noteq> None
        \<and> opExpectedAmount (resolveOrderPayment row) = exactMoney (Untyped (jget (balanceOf (rawOf row)) ''amount''))
        \<and> opCurrencyCode (resolveOrderPayment row) = currency (jget (balanceOf (rawOf row)) ''currencyCode'')
        \<and> coalesce (currency (orCurrencyCode row)) (currency (jget (rawOf row) ''currency''))
            \<in> {None, opCurrencyCode (resolveOrderPayment row)}
    | UNPAID_ORDER_TOTAL \<Rightarrow>
        jget (rawOf row) ''totalOutstandingSet'' \<in> {JUndefined, JNull}
        \<and> opFinancialStatus (resolveOrderPayment row) \<in> {Some ''PENDING'', Some ''UNPAID''}
        \<and> sourceFinancialStatusOf (rawOf row) (orFinancialStatus row) \<in> {None, Some ''PENDING'', Some ''UNPAID''}
        \<and> opCurrencyCode (resolveOrderPayment row) \<noteq> None
        \<and> opExpectedAmount (resolveOrderPayment row) = exactMoney (orTotalPriceAmount row)
        \<and> (case opExpectedAmount (resolveOrderPayment row) of None \<Rightarrow> False | Some a \<Rightarrow> 0 \<le> decimalOf a))"
proof -
  obtain p where r:
      "opExpectedAmount (resolveOrderPayment row) = opExpectedAmount (resolveExpected (rawOf row) row p)"
      "opExpectedAmountSource (resolveOrderPayment row) = opExpectedAmountSource (resolveExpected (rawOf row) row p)"
      "opFinancialStatus (resolveOrderPayment row) = opFinancialStatus (resolveExpected (rawOf row) row p)"
      "opCurrencyCode (resolveOrderPayment row) = opCurrencyCode (resolveExpected (rawOf row) row p)"
    and p: "opExpectedAmount p = None" "opExpectedAmountSource p = AMOUNT_UNKNOWN"
    and c: "coalesce (currency (orCurrencyCode row)) (currency (jget (rawOf row) ''currency'')) = opCurrencyCode p"
    by (rule resolveOrderPayment_base)
  show ?thesis unfolding r c by (rule resolveExpected_explained [OF p])
qed

end
