(* ===== verification/CashReceipts.thy ===== *)
theory CashReceipts
  imports Payments ShopScope
begin

text \<open>
  Cash on delivery from the driver's completion of a stop to the office's settlement:
  driver/driver-completion.ts and payments/cash-settlement.service.ts. The tables are lists of rows in
  the order of insertion, unique constraints are checked where a row is created. The digest
  \<^verbatim>\<open>sha256(JSON.stringify(v))\<close> is a parameter; identifiers from \<^verbatim>\<open>randomUUID\<close> and the clock are
  arguments. A transaction holds the lock of its route plan, so its statements run without interference.
\<close>

section \<open>Rows\<close>

datatype cash_error =
    CASH_COMPLETION_INVALID | CASH_RECEIVED_REQUIRED | CASH_COMPLETION_CONFLICT
  | SETTLEMENT_INVALID | SETTLEMENT_CONFLICT | CASH_NOT_FOUND
  | UNIQUE_CONSTRAINT | RECORD_NOT_FOUND | BIGINT_SYNTAX | APP_ID_INVALID

record event_input =
  eiShopId :: string
  eiShopDomain :: string
  eiDriverId :: string
  eiEventType :: string
  eiClientEventId :: "string option"
  eiDeliveryStopId :: "string option"
  eiRoutePlanId :: "string option"
  eiAssignmentGeneration :: "string option"
  eiExpectedRouteVersionId :: "string option"
  eiDriverContractVersion :: "int option"
  eiLatitude :: "string option"
  eiLongitude :: "string option"
  eiOccurredAt :: int
  eiPayload :: json

record completion_input =
  cashReceived :: "(string \<times> string) option"

record completion_receipt =
  crId :: string
  crEventId :: string
  crClientEventId :: string
  crShopId :: string
  crDriverId :: string
  crRoutePlanId :: string
  crDeliveryStopId :: string
  crAssignmentGeneration :: int
  crExpectedRouteVersionId :: string
  crRequestHash :: string
  crPayment :: json
  crExpectedAmount :: "money option"
  crActualAmount :: "money option"
  crDifferenceAmount :: "money option"
  crCurrencyCode :: "string option"
  crOccurredAt :: int
  crRecordedAt :: int
  crResult :: json

record delivery_stop =
  dsId :: string
  dsShopId :: string
  dsOrderId :: string
  dsStatus :: string
  dsRoutes :: "(string \<times> string option) list"

record cash_settlement =
  csId :: string
  csShopId :: string
  csRoutePlanId :: string
  csReceiptId :: string
  csCommandId :: string
  csRevision :: int
  csRequestHash :: string
  csConfirmedAmount :: money
  csCurrency :: string
  csDifferenceFromActual :: money
  csDifferenceFromExpected :: "money option"
  csReason :: "string option"
  csActor :: string
  csRecordedAt :: int

record cash_db =
  cdShops :: "((string \<times> string) \<times> string) list"
  cdRoutes :: "(string \<times> string) list"
  cdStops :: "delivery_stop list"
  cdOrders :: "(string \<times> order_row) list"
  cdReceipts :: "completion_receipt list"
  cdSettlements :: "cash_settlement list"

section \<open>driver-completion.ts\<close>

definition KFOOD_DELIVERY_APP_ID :: string where
  "KFOOD_DELIVERY_APP_ID = ''clever-route-kfood''"

definition KFOOD_DELIVERY_SHOP_DOMAIN :: string where
  "KFOOD_DELIVERY_SHOP_DOMAIN = ''7hrud1-xq.myshopify.com''"

definition readStoredDriverStopCompletion :: "json \<Rightarrow> json option" where
  "readStoredDriverStopCompletion result =
     (let completion = jget (js_record result) ''completion''
      in if is_record completion then Some completion else None)"

text \<open>\<^verbatim>\<open>!value\<close> on a text that may be missing.\<close>

definition missing :: "string option \<Rightarrow> bool" where
  "missing v = (v = None \<or> v = Some [])"

text \<open>\<^verbatim>\<open>/^(?:0|[1-9]\d{0,15})(?:\.\d{1,2})?$/u\<close>\<close>

definition is_cash_amount :: "string \<Rightarrow> bool" where
  "is_cash_amount t =
     (unsigned_amount t \<and> (hd t = CHR ''0'' \<longrightarrow> length (takeWhile is_digit t) = 1))"

fun readCashReceived :: "json \<Rightarrow> cash_error + (string \<times> string)" where
  "readCashReceived (JObj kvs) =
     (if \<not> list_all (\<lambda>k. k \<in> set [''amount'', ''currency'']) (map fst kvs) then Inl CASH_COMPLETION_INVALID
      else case (jget (JObj kvs) ''amount'', jget (JObj kvs) ''currency'') of
             (JStr a, JStr c) \<Rightarrow>
               (if is_cash_amount a \<and> is_currency_code c then Inr (toFixed2 (decimalOf a), c)
                else Inl CASH_COMPLETION_INVALID)
           | _ \<Rightarrow> Inl CASH_COMPLETION_INVALID)"
| "readCashReceived _ = Inl CASH_COMPLETION_INVALID"

definition readDriverCompletion :: "event_input \<Rightarrow> cash_error + completion_input option" where
  "readDriverCompletion ei =
     (let raw = jget (js_record (eiPayload ei)) ''completion''; completion = js_record raw
      in if raw = JUndefined then Inr None
         else if eiShopDomain ei \<noteq> KFOOD_DELIVERY_SHOP_DOMAIN \<or> eiEventType ei \<noteq> ''STOP_DELIVERED''
            \<or> eiDriverContractVersion ei \<noteq> Some 2 \<or> missing (eiClientEventId ei) \<or> missing (eiDeliveryStopId ei)
            \<or> missing (eiRoutePlanId ei) \<or> missing (eiAssignmentGeneration ei) \<or> missing (eiExpectedRouteVersionId ei)
            \<or> jget completion ''version'' \<noteq> JNum (Num 1)
            \<or> \<not> list_all (\<lambda>k. k \<in> set [''version'', ''cashReceived'']) (jkeys completion)
         then Inl CASH_COMPLETION_INVALID
         else if jget completion ''cashReceived'' = JUndefined then Inr (Some \<lparr>cashReceived = None\<rparr>)
         else case readCashReceived (jget completion ''cashReceived'') of
                Inl e \<Rightarrow> Inl e
              | Inr cash \<Rightarrow> Inr (Some \<lparr>cashReceived = Some cash\<rparr>))"

fun canonical :: "json \<Rightarrow> json" where
  "canonical (JArr vs) = JArr (map canonical vs)"
| "canonical (JObj kvs) =
     JObj (sort_by (\<lambda>a b. compare_text (fst a) (fst b)) (map (\<lambda>(k, v). (k, canonical v)) kvs))"
| "canonical v = v"

definition completionInputJson :: "completion_input \<Rightarrow> json" where
  "completionInputJson c =
     JObj ((''version'', JNum (Num 1)) #
       (case cashReceived c of None \<Rightarrow> []
        | Some (a, cur) \<Rightarrow> [(''cashReceived'', JObj [(''amount'', JStr a), (''currency'', JStr cur)])]))"

definition objectEntries :: "json \<Rightarrow> (string \<times> json) list" where
  "objectEntries v = (case v of JObj kvs \<Rightarrow> kvs | _ \<Rightarrow> [])"

definition requestHash :: "(json \<Rightarrow> string) \<Rightarrow> event_input \<Rightarrow> completion_input \<Rightarrow> string" where
  "requestHash digest ei c =
     digest (canonical (JObj
       [(''shopId'', JStr (eiShopId ei)), (''shopDomain'', JStr (eiShopDomain ei)), (''driverId'', JStr (eiDriverId ei)),
        (''routePlanId'', jOpt JStr (eiRoutePlanId ei)), (''deliveryStopId'', jOpt JStr (eiDeliveryStopId ei)),
        (''clientEventId'', jOpt JStr (eiClientEventId ei)), (''eventType'', JStr (eiEventType ei)),
        (''assignmentGeneration'', jOpt JStr (eiAssignmentGeneration ei)),
        (''expectedRouteVersionId'', jOpt JStr (eiExpectedRouteVersionId ei)),
        (''driverContractVersion'', jOpt (\<lambda>n. JNum (Num (real_of_int n))) (eiDriverContractVersion ei)),
        (''occurredAt'', JStr (toISOString (eiOccurredAt ei))),
        (''latitude'', jOpt JStr (eiLatitude ei)), (''longitude'', jOpt JStr (eiLongitude ei)),
        (''payload'', JObj (jset ''completion'' (completionInputJson c) (objectEntries (eiPayload ei))))]))"

definition findReceipt :: "cash_db \<Rightarrow> string \<Rightarrow> completion_receipt option" where
  "findReceipt db clientEventId = List.find (\<lambda>r. crClientEventId r = clientEventId) (cdReceipts db)"

definition markDuplicate :: "json \<Rightarrow> json" where
  "markDuplicate result = JObj (jset ''duplicate'' (JBool True) (objectEntries result))"

definition replayDriverCompletion ::
  "(json \<Rightarrow> string) \<Rightarrow> cash_db \<Rightarrow> event_input \<Rightarrow> cash_error + json option" where
  "replayDriverCompletion digest db ei =
     (case eiClientEventId ei of
        None \<Rightarrow> Inr None
      | Some cid \<Rightarrow>
          (case findReceipt db cid of
             None \<Rightarrow> Inr None
           | Some receipt \<Rightarrow>
               (case readDriverCompletion ei of
                  Inl e \<Rightarrow> Inl e
                | Inr None \<Rightarrow> Inl CASH_COMPLETION_CONFLICT
                | Inr (Some c) \<Rightarrow>
                    (if crRequestHash receipt \<noteq> requestHash digest ei c then Inl CASH_COMPLETION_CONFLICT
                     else Inr (Some (markDuplicate (crResult receipt)))))))"

definition findStop :: "cash_db \<Rightarrow> event_input \<Rightarrow> delivery_stop option" where
  "findStop db ei =
     List.find (\<lambda>s. Some (dsId s) = eiDeliveryStopId ei \<and> dsShopId s = eiShopId ei
       \<and> list_ex (\<lambda>(plan, driver). Some plan = eiRoutePlanId ei \<and> driver = Some (eiDriverId ei)) (dsRoutes s))
       (cdStops db)"

definition hasReceipt :: "cash_db \<Rightarrow> delivery_stop \<Rightarrow> bool" where
  "hasReceipt db s = list_ex (\<lambda>r. crDeliveryStopId r = dsId s \<and> crShopId r = dsShopId s) (cdReceipts db)"

definition checkCash :: "completion_input \<Rightarrow> order_payment \<Rightarrow> cash_error option" where
  "checkCash c payment =
     (case cashReceived c of
        None \<Rightarrow> if opRequiresCashInput payment then Some CASH_RECEIVED_REQUIRED else None
      | Some (a, cur) \<Rightarrow>
          if opMethod payment \<noteq> CASH \<or> opCurrencyCode payment \<noteq> Some cur
             \<or> \<not> opRequiresCashInput payment \<and> a \<noteq> ''0.00''
          then Some CASH_COMPLETION_INVALID else None)"

definition prepareDriverCompletion ::
  "cash_db \<Rightarrow> event_input \<Rightarrow> cash_error + (completion_input \<times> order_payment) option" where
  "prepareDriverCompletion db ei =
     (case readDriverCompletion ei of
        Inl e \<Rightarrow> Inl e
      | Inr None \<Rightarrow> Inr None
      | Inr (Some c) \<Rightarrow>
          (case findStop db ei of
             None \<Rightarrow> Inl CASH_COMPLETION_INVALID
           | Some stop \<Rightarrow>
               (if hasReceipt db stop \<or> dsStatus stop \<in> set [''DELIVERED'', ''FAILED'', ''SKIPPED'', ''CANCELLED'']
                then Inl CASH_COMPLETION_CONFLICT
                else case map_of (cdOrders db) (dsOrderId stop) of
                       None \<Rightarrow> Inl RECORD_NOT_FOUND
                     | Some order \<Rightarrow>
                         (let payment = resolveOrderPayment order
                          in case checkCash c payment of
                               Some e \<Rightarrow> Inl e
                             | None \<Rightarrow> Inr (Some (c, payment))))))"

fun methodText :: "payment_method \<Rightarrow> string" where
  "methodText CASH = ''CASH''"
| "methodText ETRANSFER = ''ETRANSFER''"
| "methodText OTHER_METHOD = ''OTHER''"
| "methodText UNKNOWN_METHOD = ''UNKNOWN''"

fun sourceText :: "amount_source \<Rightarrow> string" where
  "sourceText SHOPIFY_OUTSTANDING = ''SHOPIFY_OUTSTANDING''"
| "sourceText UNPAID_ORDER_TOTAL = ''UNPAID_ORDER_TOTAL''"
| "sourceText AMOUNT_PAID = ''PAID''"
| "sourceText AMOUNT_UNKNOWN = ''UNKNOWN''"

definition paymentJson :: "order_payment \<Rightarrow> json" where
  "paymentJson p =
     JObj [(''method'', JStr (methodText (opMethod p))), (''methodTitle'', jOpt JStr (opMethodTitle p)),
       (''gatewayNames'', JArr (map JStr (opGatewayNames p))), (''financialStatus'', jOpt JStr (opFinancialStatus p)),
       (''expectedAmount'', jOpt JStr (opExpectedAmount p)), (''currencyCode'', jOpt JStr (opCurrencyCode p)),
       (''expectedAmountSource'', JStr (sourceText (opExpectedAmountSource p))),
       (''requiresCashInput'', JBool (opRequiresCashInput p))]"

text \<open>\<^verbatim>\<open>BigInt(text)\<close>; the routes pass decimal digits only.\<close>

definition bigInt :: "string \<Rightarrow> int option" where
  "bigInt s = (if s \<noteq> [] \<and> list_all is_digit s then Some (int (digits_val s)) else None)"

definition uniqueReceipt :: "cash_db \<Rightarrow> completion_receipt \<Rightarrow> bool" where
  "uniqueReceipt db r =
     list_all (\<lambda>q. crId q \<noteq> crId r \<and> crEventId q \<noteq> crEventId r \<and> crClientEventId q \<noteq> crClientEventId r
       \<and> crDeliveryStopId q \<noteq> crDeliveryStopId r) (cdReceipts db)"

definition differenceOf :: "completion_input \<Rightarrow> order_payment \<Rightarrow> money option" where
  "differenceOf c payment =
     (case (cashReceived c, opExpectedAmount payment) of
        (Some (a, _), Some e) \<Rightarrow> Some (decimalOf a - decimalOf e) | _ \<Rightarrow> None)"

definition completionJson ::
  "event_input \<Rightarrow> completion_input \<Rightarrow> order_payment \<Rightarrow> string \<Rightarrow> string \<Rightarrow> int \<Rightarrow> json" where
  "completionJson ei c payment freshId eventId createdAt =
     JObj [(''id'', JStr freshId), (''eventId'', JStr eventId), (''deliveryStopId'', jOpt JStr (eiDeliveryStopId ei)),
       (''routePlanId'', jOpt JStr (eiRoutePlanId ei)), (''driverId'', JStr (eiDriverId ei)),
       (''assignmentGeneration'', jOpt JStr (eiAssignmentGeneration ei)),
       (''expectedRouteVersionId'', jOpt JStr (eiExpectedRouteVersionId ei)),
       (''method'', JStr (methodText (opMethod payment))), (''payment'', paymentJson payment),
       (''expectedAmount'', jOpt JStr (opExpectedAmount payment)),
       (''actualAmount'', jOpt JStr (map_option fst (cashReceived c))),
       (''differenceAmount'', jOpt JStr (map_option toFixed2 (differenceOf c payment))),
       (''currencyCode'', jOpt JStr (opCurrencyCode payment)),
       (''occurredAt'', JStr (toISOString (eiOccurredAt ei))), (''recordedAt'', JStr (toISOString createdAt))]"

definition saveDriverCompletion ::
  "(json \<Rightarrow> string) \<Rightarrow> cash_db \<Rightarrow> event_input \<Rightarrow> completion_input \<times> order_payment \<Rightarrow> string \<Rightarrow> int
   \<Rightarrow> (string \<times> json) list \<Rightarrow> string \<Rightarrow> cash_db \<times> (cash_error + json)" where
  "saveDriverCompletion digest db ei prepared eventId createdAt result freshId =
     (case prepared of (c, payment) \<Rightarrow>
        (let completion = completionJson ei c payment freshId eventId createdAt;
             saved = JObj (jset ''completion'' completion result)
         in case bigInt (coalesce_def_value (eiAssignmentGeneration ei) []) of
              None \<Rightarrow> (db, Inl BIGINT_SYNTAX)
            | Some generation \<Rightarrow>
                (let receipt =
                       \<lparr>crId = freshId, crEventId = eventId, crClientEventId = coalesce_def_value (eiClientEventId ei) [],
                        crShopId = eiShopId ei, crDriverId = eiDriverId ei,
                        crRoutePlanId = coalesce_def_value (eiRoutePlanId ei) [],
                        crDeliveryStopId = coalesce_def_value (eiDeliveryStopId ei) [],
                        crAssignmentGeneration = generation,
                        crExpectedRouteVersionId = coalesce_def_value (eiExpectedRouteVersionId ei) [],
                        crRequestHash = requestHash digest ei c, crPayment = jsonClone (paymentJson payment),
                        crExpectedAmount = map_option decimalOf (opExpectedAmount payment),
                        crActualAmount = map_option (\<lambda>(a, _). decimalOf a) (cashReceived c),
                        crDifferenceAmount = differenceOf c payment,
                        crCurrencyCode = opCurrencyCode payment, crOccurredAt = eiOccurredAt ei,
                        crRecordedAt = createdAt, crResult = jsonClone saved\<rparr>
                 in if uniqueReceipt db receipt
                    then (db\<lparr>cdReceipts := cdReceipts db @ [receipt]\<rparr>, Inr saved)
                    else (db, Inl UNIQUE_CONSTRAINT))))"

text \<open>
  The completion part of \<^verbatim>\<open>recordDriverEvent\<close>: a committed completion is replayed, otherwise the
  prepared one is saved with the result of the event, and an event without a completion is passed on.
\<close>

definition recordCompletion ::
  "(json \<Rightarrow> string) \<Rightarrow> cash_db \<Rightarrow> event_input \<Rightarrow> string \<Rightarrow> int \<Rightarrow> (string \<times> json) list \<Rightarrow> string
   \<Rightarrow> cash_db \<times> (cash_error + json)" where
  "recordCompletion digest db ei eventId createdAt result freshId =
     (case readDriverCompletion ei of
        Inl e \<Rightarrow> (db, Inl e)
      | Inr _ \<Rightarrow>
          (case replayDriverCompletion digest db ei of
             Inl e \<Rightarrow> (db, Inl e)
           | Inr (Some replay) \<Rightarrow> (db, Inr replay)
           | Inr None \<Rightarrow>
               (case prepareDriverCompletion db ei of
                  Inl e \<Rightarrow> (db, Inl e)
                | Inr None \<Rightarrow> (db, Inr (JObj result))
                | Inr (Some prepared) \<Rightarrow>
                    saveDriverCompletion digest db ei prepared eventId createdAt result freshId)))"

section \<open>cash-settlement.service.ts\<close>

record settlement_scope =
  scAppId :: string
  scShopDomain :: string
  scRoutePlanId :: string

record settlement_command =
  scmCommandId :: string
  scmReceiptId :: string
  scmExpectedRevision :: int
  scmConfirmedAmount :: string
  scmCurrency :: string
  scmReason :: "string option"

record settlement_dto =
  sdId :: string
  sdCommandId :: string
  sdReceiptId :: string
  sdRevision :: int
  sdConfirmedAmount :: string
  sdCurrency :: string
  sdDifferenceFromActual :: string
  sdDifferenceFromExpected :: "string option"
  sdReason :: "string option"
  sdActor :: string
  sdRecordedAt :: string

text \<open>\<^verbatim>\<open>body.reason.trim() || null\<close>, with the bound of 1000 code units.\<close>

definition readReason :: "json \<Rightarrow> cash_error + string option" where
  "readReason v =
     (case v of
        JUndefined \<Rightarrow> Inr None
      | JNull \<Rightarrow> Inr None
      | JStr s \<Rightarrow>
          (if js_length (js_trim s) > 1000 then Inl SETTLEMENT_INVALID
           else Inr (if js_trim s = [] then None else Some (js_trim s)))
      | _ \<Rightarrow> Inl SETTLEMENT_INVALID)"

definition readCashSettlementCommand :: "json \<Rightarrow> cash_error + settlement_command" where
  "readCashSettlementCommand body =
     (if \<not> is_record body
         \<or> \<not> list_all (\<lambda>k. k \<in> set [''commandId'', ''receiptId'', ''expectedRevision'', ''confirmedAmount'',
                                  ''currency'', ''reason'']) (jkeys body)
      then Inl SETTLEMENT_INVALID
      else case (jget body ''commandId'', jget body ''receiptId'', jget body ''expectedRevision'',
                 jget body ''confirmedAmount'', jget body ''currency'') of
             (JStr commandId, JStr receiptId, JNum (Num revision), JStr amount, JStr cur) \<Rightarrow>
               (if \<not> is_uuid commandId \<or> \<not> is_uuid receiptId \<or> \<not> isSafeInteger (Num revision) \<or> revision < 0
                   \<or> \<not> is_cash_amount amount \<or> \<not> is_currency_code cur
                then Inl SETTLEMENT_INVALID
                else case readReason (jget body ''reason'') of
                       Inl e \<Rightarrow> Inl e
                     | Inr reason \<Rightarrow>
                         (if revision > 0 \<and> reason = None then Inl SETTLEMENT_INVALID
                          else Inr \<lparr>scmCommandId = toLowerCase commandId, scmReceiptId = toLowerCase receiptId,
                                    scmExpectedRevision = \<lfloor>revision\<rfloor>,
                                    scmConfirmedAmount = toFixed2 (decimalOf amount), scmCurrency = cur,
                                    scmReason = reason\<rparr>))
           | _ \<Rightarrow> Inl SETTLEMENT_INVALID)"

definition settlementShopId :: "cash_db \<Rightarrow> settlement_scope \<Rightarrow> cash_error + string" where
  "settlementShopId db sc =
     (if \<not> is_uuid (scRoutePlanId sc) \<or> scAppId sc \<noteq> KFOOD_DELIVERY_APP_ID
         \<or> toLowerCase (js_trim (scShopDomain sc)) \<noteq> KFOOD_DELIVERY_SHOP_DOMAIN then Inl CASH_NOT_FOUND
      else case normalizeShopifyAppId (Some (scAppId sc)) of
             Inl _ \<Rightarrow> Inl APP_ID_INVALID
           | Inr appId \<Rightarrow>
               (case map_of (cdShops db) (appId, scShopDomain sc) of
                  None \<Rightarrow> Inl CASH_NOT_FOUND | Some shopId \<Rightarrow> Inr shopId))"

definition serialize :: "cash_settlement \<Rightarrow> settlement_dto" where
  "serialize row =
     \<lparr>sdId = csId row, sdCommandId = csCommandId row, sdReceiptId = csReceiptId row, sdRevision = csRevision row,
      sdConfirmedAmount = toFixed2 (csConfirmedAmount row), sdCurrency = csCurrency row,
      sdDifferenceFromActual = toFixed2 (csDifferenceFromActual row),
      sdDifferenceFromExpected = map_option toFixed2 (csDifferenceFromExpected row),
      sdReason = csReason row, sdActor = csActor row, sdRecordedAt = toISOString (csRecordedAt row)\<rparr>"

definition isCashReceipt :: "completion_receipt \<Rightarrow> bool" where
  "isCashReceipt r =
     (case readStoredDriverStopCompletion (crResult r) of
        Some completion \<Rightarrow> jget completion ''method'' = JStr ''CASH'' | None \<Rightarrow> False)"

text \<open>The settlements of a receipt, newest revision first.\<close>

definition settlementsOf :: "cash_db \<Rightarrow> completion_receipt \<Rightarrow> cash_settlement list" where
  "settlementsOf db r =
     sort_by (\<lambda>a b. compare_int (csRevision b) (csRevision a))
       (filter (\<lambda>s. csReceiptId s = crId r \<and> csShopId s = crShopId r) (cdSettlements db))"

definition listSettlements ::
  "cash_db \<Rightarrow> settlement_scope \<Rightarrow> cash_error + (json \<times> int \<times> settlement_dto option \<times> settlement_dto list) list" where
  "listSettlements db sc =
     (case settlementShopId db sc of
        Inl e \<Rightarrow> Inl e
      | Inr shopId \<Rightarrow>
          (if (scRoutePlanId sc, shopId) \<notin> set (cdRoutes db) then Inl CASH_NOT_FOUND
           else Inr (concat (map (\<lambda>r.
             (if \<not> isCashReceipt r \<or> crActualAmount r = None \<or> crCurrencyCode r = None then []
              else let history = map serialize (settlementsOf db r)
                   in case readStoredDriverStopCompletion (crResult r) of
                        None \<Rightarrow> []
                      | Some completion \<Rightarrow>
                          [(completion, (case history of [] \<Rightarrow> 0 | s # _ \<Rightarrow> sdRevision s),
                            (case history of [] \<Rightarrow> None | s # _ \<Rightarrow> Some s), history)]))
             (sort_by (\<lambda>a b. compare_int (crRecordedAt a) (crRecordedAt b))
               (filter (\<lambda>r. crShopId r = shopId \<and> crRoutePlanId r = scRoutePlanId sc) (cdReceipts db)))))))"

definition commandJson :: "settlement_command \<Rightarrow> string \<Rightarrow> string \<Rightarrow> json" where
  "commandJson cmd routePlanId actor =
     JObj [(''commandId'', JStr (scmCommandId cmd)), (''receiptId'', JStr (scmReceiptId cmd)),
       (''expectedRevision'', JNum (Num (real_of_int (scmExpectedRevision cmd)))),
       (''confirmedAmount'', JStr (scmConfirmedAmount cmd)), (''currency'', JStr (scmCurrency cmd)),
       (''reason'', jOpt JStr (scmReason cmd)), (''routePlanId'', JStr routePlanId), (''actor'', JStr actor)]"

definition findSettlement :: "cash_db \<Rightarrow> string \<times> string \<Rightarrow> cash_settlement option" where
  "findSettlement db key = List.find (\<lambda>s. (csShopId s, csCommandId s) = key) (cdSettlements db)"

definition latestSettlement :: "cash_db \<Rightarrow> string \<Rightarrow> string \<Rightarrow> cash_settlement option" where
  "latestSettlement db receiptId shopId =
     (case sort_by (\<lambda>a b. compare_int (csRevision b) (csRevision a))
             (filter (\<lambda>s. csReceiptId s = receiptId \<and> csShopId s = shopId) (cdSettlements db)) of
        [] \<Rightarrow> None | s # _ \<Rightarrow> Some s)"

definition uniqueSettlement :: "cash_db \<Rightarrow> cash_settlement \<Rightarrow> bool" where
  "uniqueSettlement db s =
     list_all (\<lambda>q. csId q \<noteq> csId s \<and> (csShopId q, csCommandId q) \<noteq> (csShopId s, csCommandId s)
       \<and> (csReceiptId q, csRevision q) \<noteq> (csReceiptId s, csRevision s)) (cdSettlements db)"

definition newSettlement ::
  "completion_receipt \<Rightarrow> settlement_command \<Rightarrow> string \<Rightarrow> string \<Rightarrow> money \<Rightarrow> string \<Rightarrow> string \<Rightarrow> string \<Rightarrow> int
   \<Rightarrow> cash_settlement" where
  "newSettlement receipt cmd shopId routePlanId actual hash actor freshId now =
     (let amount = decimalOf (scmConfirmedAmount cmd)
      in \<lparr>csId = freshId, csShopId = shopId, csRoutePlanId = routePlanId, csReceiptId = crId receipt,
          csCommandId = scmCommandId cmd, csRevision = scmExpectedRevision cmd + 1, csRequestHash = hash,
          csConfirmedAmount = amount, csCurrency = scmCurrency cmd, csDifferenceFromActual = amount - actual,
          csDifferenceFromExpected = map_option (\<lambda>e. amount - e) (crExpectedAmount receipt),
          csReason = scmReason cmd, csActor = actor, csRecordedAt = now\<rparr>)"

text \<open>The transaction under the lock of the route plan.\<close>

definition confirmInTransaction ::
  "(json \<Rightarrow> string) \<Rightarrow> cash_db \<Rightarrow> string \<Rightarrow> string \<Rightarrow> settlement_command \<Rightarrow> string \<Rightarrow> string \<Rightarrow> int
   \<Rightarrow> cash_db \<times> (cash_error + settlement_dto \<times> bool)" where
  "confirmInTransaction digest db shopId routePlanId cmd actor freshId now =
     (let hash = digest (commandJson cmd routePlanId actor)
      in if (routePlanId, shopId) \<notin> set (cdRoutes db) then (db, Inl CASH_NOT_FOUND)
         else case findSettlement db (shopId, scmCommandId cmd) of
                Some original \<Rightarrow>
                  (if csRequestHash original \<noteq> hash then (db, Inl SETTLEMENT_CONFLICT)
                   else (db, Inr (serialize original, True)))
              | None \<Rightarrow>
                  (case List.find (\<lambda>r. crId r = scmReceiptId cmd \<and> crShopId r = shopId \<and> crRoutePlanId r = routePlanId)
                          (cdReceipts db) of
                     None \<Rightarrow> (db, Inl CASH_NOT_FOUND)
                   | Some receipt \<Rightarrow>
                       (case crActualAmount receipt of
                          None \<Rightarrow> (db, Inl SETTLEMENT_INVALID)
                        | Some actual \<Rightarrow>
                            (if \<not> isCashReceipt receipt \<or> crCurrencyCode receipt \<noteq> Some (scmCurrency cmd)
                             then (db, Inl SETTLEMENT_INVALID)
                             else if (case latestSettlement db (crId receipt) shopId of None \<Rightarrow> 0 | Some s \<Rightarrow> csRevision s)
                                     \<noteq> scmExpectedRevision cmd
                             then (db, Inl SETTLEMENT_CONFLICT)
                             else let row = newSettlement receipt cmd shopId routePlanId actual hash actor freshId now
                                  in if uniqueSettlement db row
                                     then (db\<lparr>cdSettlements := cdSettlements db @ [row]\<rparr>, Inr (serialize row, False))
                                     else (db, Inl UNIQUE_CONSTRAINT)))))"

definition confirm ::
  "(json \<Rightarrow> string) \<Rightarrow> cash_db \<Rightarrow> settlement_scope \<Rightarrow> string \<Rightarrow> json \<Rightarrow> string \<Rightarrow> int
   \<Rightarrow> cash_db \<times> (cash_error + settlement_dto \<times> bool)" where
  "confirm digest db sc actor command freshId now =
     (case settlementShopId db sc of
        Inl e \<Rightarrow> (db, Inl e)
      | Inr shopId \<Rightarrow>
          (case readCashSettlementCommand command of
             Inl e \<Rightarrow> (db, Inl e)
           | Inr cmd \<Rightarrow>
               (case confirmInTransaction digest db shopId (scRoutePlanId sc) cmd actor freshId now of
                  (db', Inl e) \<Rightarrow> (db', Inl (if e = UNIQUE_CONSTRAINT then SETTLEMENT_CONFLICT else e))
                | (db', Inr r) \<Rightarrow> (db', Inr r))))"

section \<open>The history of the tables\<close>

datatype cash_command =
    Complete event_input string int "(string \<times> json) list" string
  | Confirm settlement_scope string json string int
  | OtherWrites "((string \<times> string) \<times> string) list" "(string \<times> string) list" "delivery_stop list"
      "(string \<times> order_row) list"

text \<open>Other parts of the program may rewrite shops, routes, stops and orders in any way.\<close>

fun cash_step :: "(json \<Rightarrow> string) \<Rightarrow> cash_db \<Rightarrow> cash_command \<Rightarrow> cash_db" where
  "cash_step digest db (Complete ei eventId createdAt result freshId) =
     fst (recordCompletion digest db ei eventId createdAt result freshId)"
| "cash_step digest db (Confirm sc actor command freshId now) = fst (confirm digest db sc actor command freshId now)"
| "cash_step digest db (OtherWrites shops routes stops orders) =
     db\<lparr>cdShops := shops, cdRoutes := routes, cdStops := stops, cdOrders := orders\<rparr>"

definition revisions :: "cash_db \<Rightarrow> string \<Rightarrow> int list" where
  "revisions db receiptId = map csRevision (filter (\<lambda>s. csReceiptId s = receiptId) (cdSettlements db))"

text \<open>A settlement belongs to a receipt and its differences are those of the receipt's amounts.\<close>

definition settles :: "completion_receipt \<Rightarrow> cash_settlement \<Rightarrow> bool" where
  "settles r s =
     (csReceiptId s = crId r \<and> csShopId s = crShopId r \<and> csRoutePlanId s = crRoutePlanId r
      \<and> isCashReceipt r \<and> crCurrencyCode r = Some (csCurrency s)
      \<and> 0 \<le> csConfirmedAmount s \<and> csConfirmedAmount s < 10 ^ 18
      \<and> crActualAmount r = Some (csConfirmedAmount s - csDifferenceFromActual s)
      \<and> csDifferenceFromExpected s = map_option (\<lambda>e. csConfirmedAmount s - e) (crExpectedAmount r)
      \<and> (1 < csRevision s \<longrightarrow> csReason s \<noteq> None))"

definition receipts_ok :: "cash_db \<Rightarrow> bool" where
  "receipts_ok db =
     (distinct (map crId (cdReceipts db)) \<and> distinct (map crClientEventId (cdReceipts db))
      \<and> distinct (map crDeliveryStopId (cdReceipts db)))"

definition ledger_ok :: "cash_db \<Rightarrow> bool" where
  "ledger_ok db =
     (distinct (map (\<lambda>s. (csShopId s, csCommandId s)) (cdSettlements db))
      \<and> list_all (\<lambda>s. list_ex (\<lambda>r. settles r s) (cdReceipts db)) (cdSettlements db)
      \<and> (\<forall>k. revisions db k = map int [1..<Suc (length (revisions db k))]))"

definition cash_inv :: "cash_db \<Rightarrow> bool" where
  "cash_inv db = (receipts_ok db \<and> ledger_ok db)"

text \<open>What the two writing operations do to the tables.\<close>

lemma saveDriverCompletion_cases:
  assumes "saveDriverCompletion digest db ei (c, p) eventId createdAt result freshId = (db', res)"
  obtains e where "res = Inl e" and "db' = db"
  | r where "res = Inr (JObj (jset ''completion'' (completionJson ei c p freshId eventId createdAt) result))"
      and "db' = db\<lparr>cdReceipts := cdReceipts db @ [r]\<rparr>" and "uniqueReceipt db r"
      and "crClientEventId r = coalesce_def_value (eiClientEventId ei) []"
      and "crDeliveryStopId r = coalesce_def_value (eiDeliveryStopId ei) []"
      and "crRequestHash r = requestHash digest ei c"
      and "crExpectedAmount r = map_option decimalOf (opExpectedAmount p)"
      and "crActualAmount r = map_option (\<lambda>(a, _). decimalOf a) (cashReceived c)"
      and "crDifferenceAmount r = differenceOf c p" and "crCurrencyCode r = opCurrencyCode p"
      and "crResult r = jsonClone (JObj (jset ''completion'' (completionJson ei c p freshId eventId createdAt) result))"
proof (cases "bigInt (coalesce_def_value (eiAssignmentGeneration ei) [])")
  case None
  then show ?thesis using assms that(1) [of BIGINT_SYNTAX] by (simp add: saveDriverCompletion_def)
next
  case (Some g)
  let ?r = "\<lparr>crId = freshId, crEventId = eventId, crClientEventId = coalesce_def_value (eiClientEventId ei) [],
    crShopId = eiShopId ei, crDriverId = eiDriverId ei, crRoutePlanId = coalesce_def_value (eiRoutePlanId ei) [],
    crDeliveryStopId = coalesce_def_value (eiDeliveryStopId ei) [], crAssignmentGeneration = g,
    crExpectedRouteVersionId = coalesce_def_value (eiExpectedRouteVersionId ei) [],
    crRequestHash = requestHash digest ei c, crPayment = jsonClone (paymentJson p),
    crExpectedAmount = map_option decimalOf (opExpectedAmount p),
    crActualAmount = map_option (\<lambda>(a, _). decimalOf a) (cashReceived c), crDifferenceAmount = differenceOf c p,
    crCurrencyCode = opCurrencyCode p, crOccurredAt = eiOccurredAt ei, crRecordedAt = createdAt,
    crResult = jsonClone (JObj (jset ''completion'' (completionJson ei c p freshId eventId createdAt) result))\<rparr>"
  have eq: "saveDriverCompletion digest db ei (c, p) eventId createdAt result freshId =
      (if uniqueReceipt db ?r then (db\<lparr>cdReceipts := cdReceipts db @ [?r]\<rparr>,
         Inr (JObj (jset ''completion'' (completionJson ei c p freshId eventId createdAt) result)))
       else (db, Inl UNIQUE_CONSTRAINT))"
    using Some by (simp only: saveDriverCompletion_def Let_def prod.case option.case)
  show ?thesis
  proof (cases "uniqueReceipt db ?r")
    case True
    then show ?thesis using assms eq by (intro that(2) [of ?r]) simp_all
  next
    case False
    then show ?thesis using assms eq that(1) [of UNIQUE_CONSTRAINT] by simp
  qed
qed

lemma recordCompletion_cases:
  assumes "recordCompletion digest db ei eventId createdAt result freshId = (db', res)"
  obtains "db' = db"
  | c p where "readDriverCompletion ei = Inr (Some c)" and "replayDriverCompletion digest db ei = Inr None"
      and "prepareDriverCompletion db ei = Inr (Some (c, p))"
      and "saveDriverCompletion digest db ei (c, p) eventId createdAt result freshId = (db', res)"
proof (cases "db' = db")
  case False
  then obtain q where q: "prepareDriverCompletion db ei = Inr (Some q)" "replayDriverCompletion digest db ei = Inr None"
      "saveDriverCompletion digest db ei q eventId createdAt result freshId = (db', res)"
    using assms by (auto simp: recordCompletion_def split: sum.splits option.splits)
  obtain c p where cp: "q = (c, p)" by (cases q)
  have "readDriverCompletion ei = Inr (Some c)"
    using q(1) cp by (auto simp: prepareDriverCompletion_def Let_def split: sum.splits option.splits if_splits)
  then show ?thesis using q cp that(2) by blast
qed (use that(1) in blast)

lemma confirmInTransaction_cases:
  assumes "confirmInTransaction digest db shopId plan cmd actor freshId now = (db', res)"
  obtains e where "res = Inl e" and "db' = db"
  | orig where "findSettlement db (shopId, scmCommandId cmd) = Some orig" and "db' = db" and "res = Inr (serialize orig, True)"
      and "csRequestHash orig = digest (commandJson cmd plan actor)"
  | r actual s where "findSettlement db (shopId, scmCommandId cmd) = None"
      and "List.find (\<lambda>r. crId r = scmReceiptId cmd \<and> crShopId r = shopId \<and> crRoutePlanId r = plan) (cdReceipts db) = Some r"
      and "crActualAmount r = Some actual" and "isCashReceipt r" and "crCurrencyCode r = Some (scmCurrency cmd)"
      and "(case latestSettlement db (crId r) shopId of None \<Rightarrow> 0 | Some s \<Rightarrow> csRevision s) = scmExpectedRevision cmd"
      and "s = newSettlement r cmd shopId plan actual (digest (commandJson cmd plan actor)) actor freshId now"
      and "uniqueSettlement db s" and "db' = db\<lparr>cdSettlements := cdSettlements db @ [s]\<rparr>"
      and "res = Inr (serialize s, False)"
proof (cases "\<exists>e. res = Inl e \<and> db' = db")
  case True
  then show ?thesis using that(1) by blast
next
  case ok: False
  then have route: "(plan, shopId) \<in> set (cdRoutes db)"
    using assms by (cases "(plan, shopId) \<in> set (cdRoutes db)") (auto simp: confirmInTransaction_def)
  show ?thesis
  proof (cases "findSettlement db (shopId, scmCommandId cmd)")
    case (Some orig)
    then show ?thesis
      using assms route ok that(2) by (auto simp: confirmInTransaction_def Let_def split: if_splits)
  next
    case None
    let ?find = "List.find (\<lambda>r. crId r = scmReceiptId cmd \<and> crShopId r = shopId \<and> crRoutePlanId r = plan) (cdReceipts db)"
    obtain r where r: "?find = Some r"
      using assms route None ok by (cases ?find) (auto simp: confirmInTransaction_def Let_def)
    obtain actual where a: "crActualAmount r = Some actual"
      using assms route None r ok by (cases "crActualAmount r") (auto simp: confirmInTransaction_def Let_def)
    show ?thesis
      using assms route None r a ok that(3) [OF None r a]
      by (auto simp: confirmInTransaction_def Let_def split: if_splits)
  qed
qed

lemma confirm_cases:
  assumes "confirm digest db sc actor command freshId now = (db', res)"
  obtains e where "res = Inl e" and "db' = db"
  | shopId cmd r where "settlementShopId db sc = Inr shopId" and "readCashSettlementCommand command = Inr cmd"
      and "confirmInTransaction digest db shopId (scRoutePlanId sc) cmd actor freshId now = (db', Inr r)" and "res = Inr r"
proof (cases "settlementShopId db sc")
  case (Inl e)
  then show ?thesis using assms that(1) by (auto simp: confirm_def)
next
  case shop: (Inr shopId)
  show ?thesis
  proof (cases "readCashSettlementCommand command")
    case (Inl e)
    then show ?thesis using assms shop that(1) by (auto simp: confirm_def)
  next
    case cmd: (Inr cmd)
    obtain db1 r where t: "confirmInTransaction digest db shopId (scRoutePlanId sc) cmd actor freshId now = (db1, r)"
      by (cases "confirmInTransaction digest db shopId (scRoutePlanId sc) cmd actor freshId now")
    show ?thesis
    proof (cases r)
      case (Inl e)
      then have "db1 = db" using t by (auto elim: confirmInTransaction_cases)
      then show ?thesis using assms shop cmd t Inl that(1) by (auto simp: confirm_def)
    next
      case (Inr x)
      then have eq: "db1 = db'" "res = Inr x" using assms shop cmd t by (auto simp: confirm_def)
      show ?thesis by (rule that(2) [OF shop cmd t [unfolded eq(1) Inr] eq(2)])
    qed
  qed
qed

section \<open>Revisions\<close>

lemma readCashSettlementCommand_InrE:
  assumes "readCashSettlementCommand body = Inr cmd"
  obtains a revision where "is_cash_amount a" and "scmConfirmedAmount cmd = toFixed2 (decimalOf a)"
    and "0 \<le> revision" and "scmExpectedRevision cmd = \<lfloor>revision :: real\<rfloor>"
    and "revision > 0 \<longrightarrow> scmReason cmd \<noteq> None"
proof -
  obtain i rid revision a cur where fields: "jget body ''commandId'' = JStr i" "jget body ''receiptId'' = JStr rid"
      "jget body ''expectedRevision'' = JNum (Num revision)" "jget body ''confirmedAmount'' = JStr a"
      "jget body ''currency'' = JStr cur"
    using assms unfolding readCashSettlementCommand_def
    by (auto split: if_splits json.split_asm jsnum.split_asm)
  obtain reason where reason: "readReason (jget body ''reason'') = Inr reason"
    using assms fields unfolding readCashSettlementCommand_def
    by (cases "readReason (jget body ''reason'')") (simp_all split: if_splits)
  have "is_cash_amount a \<and> 0 \<le> revision \<and> (revision > 0 \<longrightarrow> reason \<noteq> None)
      \<and> scmConfirmedAmount cmd = toFixed2 (decimalOf a) \<and> scmExpectedRevision cmd = \<lfloor>revision\<rfloor> \<and> scmReason cmd = reason"
    using assms fields reason unfolding readCashSettlementCommand_def by (auto split: if_splits)
  then show ?thesis using that [of a revision] by blast
qed

lemma command_amount:
  assumes "readCashSettlementCommand body = Inr cmd"
  shows "0 \<le> scmExpectedRevision cmd" and "0 \<le> decimalOf (scmConfirmedAmount cmd)"
    and "decimalOf (scmConfirmedAmount cmd) < 10 ^ 18" and "0 < scmExpectedRevision cmd \<Longrightarrow> scmReason cmd \<noteq> None"
proof -
  obtain a revision where a: "is_cash_amount a" "scmConfirmedAmount cmd = toFixed2 (decimalOf a)"
    and rev: "0 \<le> revision" "scmExpectedRevision cmd = \<lfloor>revision :: real\<rfloor>" "revision > 0 \<longrightarrow> scmReason cmd \<noteq> None"
    by (rule readCashSettlementCommand_InrE [OF assms])
  have u: "unsigned_amount a" using a(1) by (simp add: is_cash_amount_def)
  have pos: "0 \<le> decimalOf a" and am: "is_amount a"
    using u decimalOf_parts(1) joinAmount_no_minus by (auto elim!: unsigned_amount_parts simp: is_amount_def)
  then show "0 \<le> decimalOf (scmConfirmedAmount cmd)" and "decimalOf (scmConfirmedAmount cmd) < 10 ^ 18"
    using a(2) decimalOf_bound [OF am] decimalOf_toFixed2 [OF decimalOf_bound [OF am]] by simp_all
  show "0 \<le> scmExpectedRevision cmd" and "0 < scmExpectedRevision cmd \<Longrightarrow> scmReason cmd \<noteq> None"
    using rev by auto
qed

text \<open>The newest revision of a contiguous ledger is the number of its rows.\<close>

lemma latest_of_contiguous:
  assumes "map csRevision rows = map int [1..<Suc (length rows)]"
  shows "(case sort_by (\<lambda>a b. compare_int (csRevision b) (csRevision a)) rows of [] \<Rightarrow> 0 | s # _ \<Rightarrow> csRevision s)
     = int (length rows)"
proof (cases "sort_by (\<lambda>a b. compare_int (csRevision b) (csRevision a)) rows")
  case Nil
  then have "length rows = 0" by (metis length_sort_by list.size(3))
  then show ?thesis using Nil by simp
next
  case (Cons s ss)
  let ?cmp = "\<lambda>a b. compare_int (csRevision b) (csRevision a)"
  have "comparator ?cmp"
    by unfold_locales (auto simp: compare_int_def)
  then have srt: "sorted_wrt (\<lambda>a b. ?cmp a b \<le> 0) (s # ss)" using comparator.sorted_sort_by Cons by metis
  have sets: "set (s # ss) = set rows" using set_sort_by Cons by metis
  have revs: "csRevision ` set rows = int ` {1..<Suc (length rows)}"
    by (metis assms image_set set_upt)
  have "length rows \<ge> 1" using sets by (cases rows) auto
  then have "int (length rows) \<in> csRevision ` set rows" using revs by auto
  then have "int (length rows) \<le> csRevision s" using srt sets by (auto simp: compare_int_def)
  moreover have "csRevision s \<in> csRevision ` set rows" using sets by auto
  then have "csRevision s \<in> int ` {1..<Suc (length rows)}" by (simp only: revs)
  ultimately show ?thesis using Cons by auto
qed

lemma length_revisions:
  "length (revisions db k) = length (filter (\<lambda>s. csReceiptId s = k) (cdSettlements db))"
  by (simp add: revisions_def)

lemma receipt_unique:
  "receipts_ok db \<Longrightarrow> r \<in> set (cdReceipts db) \<Longrightarrow> q \<in> set (cdReceipts db) \<Longrightarrow> crId r = crId q \<Longrightarrow> r = q"
  unfolding receipts_ok_def by (metis distinct_map inj_onD)

lemma latestSettlement_revision:
  assumes "cash_inv db" and "r \<in> set (cdReceipts db)"
  shows "(case latestSettlement db (crId r) (crShopId r) of None \<Rightarrow> 0 | Some s \<Rightarrow> csRevision s)
    = int (length (revisions db (crId r)))"
proof -
  let ?rows = "filter (\<lambda>s. csReceiptId s = crId r) (cdSettlements db)"
  have "filter (\<lambda>s. csReceiptId s = crId r \<and> csShopId s = crShopId r) (cdSettlements db) = ?rows"
  proof (rule filter_cong [OF refl])
    fix s
    assume "s \<in> set (cdSettlements db)"
    then obtain q where "q \<in> set (cdReceipts db)" and "settles q s"
      using assms(1) by (auto simp: cash_inv_def ledger_ok_def list_all_iff list_ex_iff)
    then show "(csReceiptId s = crId r \<and> csShopId s = crShopId r) = (csReceiptId s = crId r)"
      using receipt_unique [of db q r] assms by (auto simp: settles_def cash_inv_def)
  qed
  moreover have "revisions db (crId r) = map int [1..<Suc (length (revisions db (crId r)))]"
    using assms(1) unfolding cash_inv_def ledger_ok_def by blast
  then have "map csRevision ?rows = map int [1..<Suc (length ?rows)]"
    unfolding length_revisions by (simp only: revisions_def)
  note latest_of_contiguous [OF this]
  ultimately show ?thesis
    by (simp add: latestSettlement_def length_revisions split: list.splits)
qed

section \<open>Every command keeps the tables consistent\<close>

text \<open>Commands only add rows, and at most one each.\<close>

lemma Complete_adds:
  assumes "cash_step digest db (Complete ei eventId createdAt result freshId) = db'"
  obtains "db' = db" | r where "db' = db\<lparr>cdReceipts := cdReceipts db @ [r]\<rparr>" and "uniqueReceipt db r"
proof -
  obtain res where "recordCompletion digest db ei eventId createdAt result freshId = (db', res)"
    using assms by (cases "recordCompletion digest db ei eventId createdAt result freshId") auto
  then show ?thesis
  proof (cases rule: recordCompletion_cases)
    case (2 c p)
    show ?thesis by (rule saveDriverCompletion_cases [OF 2(4)]) (use that in blast)+
  qed (use that in blast)
qed

lemma Confirm_adds:
  assumes "cash_step digest db (Confirm sc actor command freshId now) = db'"
  obtains "db' = db"
  | shopId cmd r actual s where "settlementShopId db sc = Inr shopId" and "readCashSettlementCommand command = Inr cmd"
      and "List.find (\<lambda>r. crId r = scmReceiptId cmd \<and> crShopId r = shopId \<and> crRoutePlanId r = scRoutePlanId sc) (cdReceipts db) = Some r"
      and "crActualAmount r = Some actual" and "isCashReceipt r" and "crCurrencyCode r = Some (scmCurrency cmd)"
      and "(case latestSettlement db (crId r) shopId of None \<Rightarrow> 0 | Some s \<Rightarrow> csRevision s) = scmExpectedRevision cmd"
      and "s = newSettlement r cmd shopId (scRoutePlanId sc) actual (digest (commandJson cmd (scRoutePlanId sc) actor)) actor freshId now"
      and "uniqueSettlement db s" and "db' = db\<lparr>cdSettlements := cdSettlements db @ [s]\<rparr>"
proof -
  obtain res where c: "confirm digest db sc actor command freshId now = (db', res)"
    using assms by (cases "confirm digest db sc actor command freshId now") auto
  from c show ?thesis
  proof (cases rule: confirm_cases)
    case (2 shopId cmd x)
    show ?thesis
      by (rule confirmInTransaction_cases [OF 2(3)]) (use that 2(1,2) in blast)+
  qed (use that in blast)
qed

lemma settles_of_new:
  assumes "readCashSettlementCommand command = Inr cmd" and "crActualAmount r = Some actual" and "isCashReceipt r"
    and "crCurrencyCode r = Some (scmCurrency cmd)" and "crShopId r = shopId" and "crRoutePlanId r = plan"
  shows "settles r (newSettlement r cmd shopId plan actual hash actor freshId now)"
  using assms command_amount [OF assms(1)] by (simp add: settles_def newSettlement_def Let_def)

lemma cash_inv_add_receipt:
  assumes "cash_inv db" and "uniqueReceipt db r"
  shows "cash_inv (db\<lparr>cdReceipts := cdReceipts db @ [r]\<rparr>)"
  using assms
  by (auto simp: cash_inv_def receipts_ok_def ledger_ok_def revisions_def uniqueReceipt_def list_all_iff list_ex_iff
      simp del: upt_Suc)

lemma cash_inv_add_settlement:
  assumes inv: "cash_inv db" and r: "r \<in> set (cdReceipts db)" and s: "settles r s" "uniqueSettlement db s"
    and rev: "csRevision s = int (length (revisions db (crId r))) + 1"
  shows "cash_inv (db\<lparr>cdSettlements := cdSettlements db @ [s]\<rparr>)"
proof -
  let ?db = "db\<lparr>cdSettlements := cdSettlements db @ [s]\<rparr>"
  have id: "csReceiptId s = crId r" using s(1) by (simp add: settles_def)
  have revs: "revisions ?db k = map int [1..<Suc (length (revisions ?db k))]" for k
  proof -
    have old: "revisions db k = map int [1..<Suc (length (revisions db k))]"
      using inv unfolding cash_inv_def ledger_ok_def by blast
    have new: "revisions ?db k = revisions db k @ (if k = crId r then [csRevision s] else [])"
      using id by (simp add: revisions_def)
    show ?thesis
    proof (cases "k = crId r")
      case True
      then have "revisions ?db k = map int [1..<Suc (length (revisions db k))] @ [int (Suc (length (revisions db k)))]"
        using new old rev by simp
      also have "\<dots> = map int [1..<Suc (length (revisions ?db k))]" using True new by simp
      finally show ?thesis .
    next
      case False
      then show ?thesis using new old by simp
    qed
  qed
  have "distinct (map (\<lambda>s. (csShopId s, csCommandId s)) (cdSettlements ?db))"
    using inv s(2) by (auto simp: cash_inv_def ledger_ok_def uniqueSettlement_def list_all_iff)
  moreover have "list_all (\<lambda>s. list_ex (\<lambda>r. settles r s) (cdReceipts ?db)) (cdSettlements ?db)"
    using inv s(1) r by (auto simp: cash_inv_def ledger_ok_def list_all_iff list_ex_iff)
  moreover have "receipts_ok ?db" using inv by (simp add: cash_inv_def receipts_ok_def)
  ultimately show ?thesis using revs unfolding cash_inv_def ledger_ok_def by blast
qed

lemma cash_step_inv: "cash_inv db \<Longrightarrow> cash_inv (cash_step digest db cmd)"
proof (cases cmd)
  case (Complete ei eventId createdAt result freshId)
  assume inv: "cash_inv db"
  show ?thesis unfolding Complete
    by (rule Complete_adds [of digest db ei eventId createdAt result freshId, OF refl])
      (use inv cash_inv_add_receipt in \<open>simp_all del: cash_step.simps\<close>)
next
  case (Confirm sc actor command freshId now)
  assume inv: "cash_inv db"
  show ?thesis unfolding Confirm
  proof (rule Confirm_adds [of digest db sc actor command freshId now, OF refl])
    fix shopId cmd r actual s
    assume h: "readCashSettlementCommand command = Inr cmd"
      "List.find (\<lambda>r. crId r = scmReceiptId cmd \<and> crShopId r = shopId \<and> crRoutePlanId r = scRoutePlanId sc) (cdReceipts db) = Some r"
      "crActualAmount r = Some actual" "isCashReceipt r" "crCurrencyCode r = Some (scmCurrency cmd)"
      "(case latestSettlement db (crId r) shopId of None \<Rightarrow> 0 | Some s \<Rightarrow> csRevision s) = scmExpectedRevision cmd"
      "s = newSettlement r cmd shopId (scRoutePlanId sc) actual (digest (commandJson cmd (scRoutePlanId sc) actor)) actor freshId now"
      "uniqueSettlement db s"
    have r: "r \<in> set (cdReceipts db)" "crShopId r = shopId" "crRoutePlanId r = scRoutePlanId sc"
      using find_SomeD [OF h(2)] by simp_all
    have "settles r s" unfolding h(7) by (rule settles_of_new [OF h(1,3,4,5) r(2,3)])
    moreover have "csRevision s = int (length (revisions db (crId r))) + 1"
      using latestSettlement_revision [OF inv r(1)] h(6,7) r(2) by (simp add: newSettlement_def Let_def)
    ultimately have "cash_inv (db\<lparr>cdSettlements := cdSettlements db @ [s]\<rparr>)"
      by (intro cash_inv_add_settlement [OF inv r(1) _ h(8)])
    moreover assume "cash_step digest db (Confirm sc actor command freshId now) = db\<lparr>cdSettlements := cdSettlements db @ [s]\<rparr>"
    ultimately show "cash_inv (cash_step digest db (Confirm sc actor command freshId now))" by (simp only:)
  qed (use inv in \<open>simp del: cash_step.simps\<close>)
next
  case (OtherWrites shops routes stops orders)
  assume "cash_inv db"
  then show ?thesis unfolding OtherWrites
    by (simp add: cash_inv_def receipts_ok_def ledger_ok_def revisions_def del: upt_Suc)
qed

lemma find_append_None: "List.find P xs = None \<Longrightarrow> List.find P (xs @ ys) = List.find P ys"
  by (induction xs) (auto split: if_splits)

lemma find_append_Some: "List.find P xs = Some x \<Longrightarrow> List.find P (xs @ ys) = Some x"
  by (induction xs) auto

lemma cash_step_tables:
  obtains rs ss where "cdReceipts (cash_step digest db cmd) = cdReceipts db @ rs"
    and "cdSettlements (cash_step digest db cmd) = cdSettlements db @ ss"
proof (cases cmd)
  case (Complete ei eventId createdAt result freshId)
  show ?thesis
    by (rule Complete_adds [of digest db ei eventId createdAt result freshId, OF refl])
      (use that [of "[]" "[]"] that [of "[_]" "[]"] Complete in \<open>simp_all del: cash_step.simps\<close>)
next
  case (Confirm sc actor command freshId now)
  show ?thesis
    by (rule Confirm_adds [of digest db sc actor command freshId now, OF refl])
      (use that [of "[]" "[]"] that [of "[]" "[_]"] Confirm in \<open>simp_all del: cash_step.simps\<close>)
next
  case (OtherWrites shops routes stops orders)
  then show ?thesis using that [of "[]" "[]"] by simp
qed

interpretation receipts: final_rows "cash_step digest" cash_inv findReceipt "\<lambda>_. True" for digest
proof
  fix db k r cmd
  assume "findReceipt db k = Some r"
  moreover obtain rs where "cdReceipts (cash_step digest db cmd) = cdReceipts db @ rs"
    by (rule cash_step_tables)
  ultimately show "findReceipt (cash_step digest db cmd) k = Some r"
    by (simp add: findReceipt_def find_append_Some)
qed (rule cash_step_inv)

interpretation settlements: final_rows "cash_step digest" cash_inv findSettlement "\<lambda>_. True" for digest
proof
  fix db k s cmd
  assume "findSettlement db k = Some s"
  moreover obtain ss where "cdSettlements (cash_step digest db cmd) = cdSettlements db @ ss"
    by (rule cash_step_tables)
  ultimately show "findSettlement (cash_step digest db cmd) k = Some s"
    by (simp add: findSettlement_def find_append_Some)
qed

interpretation revision_count: monotone_machine "cash_step digest" cash_inv "\<lambda>db k. length (revisions db k)" for digest
proof
  fix db k cmd
  obtain ss where "cdSettlements (cash_step digest db cmd) = cdSettlements db @ ss"
    by (rule cash_step_tables)
  then show "length (revisions db k) \<le> length (revisions (cash_step digest db cmd) k)"
    by (simp add: revisions_def)
qed

section \<open>What the driver recorded\<close>

lemma prepare_of_completion:
  assumes "readDriverCompletion ei = Inr (Some c)" and "prepareDriverCompletion db ei = Inr (Some (c', p))"
  shows "c' = c" and "checkCash c p = None"
  using assms
  by (auto simp: prepareDriverCompletion_def Let_def split: option.splits if_splits)

lemma prepare_not_None: "readDriverCompletion ei = Inr (Some c) \<Longrightarrow> prepareDriverCompletion db ei \<noteq> Inr None"
  by (auto simp: prepareDriverCompletion_def Let_def split: option.splits)

text \<open>A completion under a new identifier is a new receipt.\<close>

lemma recordCompletion_new:
  assumes "recordCompletion digest db ei eventId createdAt result freshId = (db', Inr saved)"
    and "readDriverCompletion ei = Inr (Some c)" and "eiClientEventId ei = Some cid" and "findReceipt db cid = None"
  obtains p where "prepareDriverCompletion db ei = Inr (Some (c, p))"
    and "saveDriverCompletion digest db ei (c, p) eventId createdAt result freshId = (db', Inr saved)"
proof -
  have replay: "replayDriverCompletion digest db ei = Inr None"
    using assms(3,4) by (simp add: replayDriverCompletion_def)
  obtain c' p where p: "prepareDriverCompletion db ei = Inr (Some (c', p))"
    using assms(1,2) replay prepare_not_None [OF assms(2), of db]
    by (auto simp: recordCompletion_def split: sum.splits option.splits)
  then have "c' = c" using prepare_of_completion(1) [OF assms(2)] by simp
  then show ?thesis using that [of p] p assms(1,2) replay by (simp add: recordCompletion_def)
qed

lemma recordCompletion_receipt:
  assumes "recordCompletion digest db ei eventId createdAt result freshId = (db', Inr saved)"
    and "readDriverCompletion ei = Inr (Some c)" and "eiClientEventId ei = Some cid" and "findReceipt db cid = None"
  obtains r where "findReceipt db' cid = Some r" and "crRequestHash r = requestHash digest ei c"
    and "crResult r = jsonClone saved"
proof -
  obtain p where p: "saveDriverCompletion digest db ei (c, p) eventId createdAt result freshId = (db', Inr saved)"
    by (rule recordCompletion_new [OF assms])
  from p show ?thesis
  proof (cases rule: saveDriverCompletion_cases)
    case (2 r)
    have "findReceipt db' cid = Some r"
      using assms(3,4) 2(2,4) by (simp add: findReceipt_def find_append_None)
    then show ?thesis using that 2 by simp
  qed simp
qed

lemma recordCompletion_known:
  assumes "findReceipt db cid = Some r" and "eiClientEventId ei = Some cid"
  shows "readDriverCompletion ei = Inr (Some c) \<Longrightarrow> crRequestHash r = requestHash digest ei c \<Longrightarrow>
      recordCompletion digest db ei eventId createdAt result freshId = (db, Inr (markDuplicate (crResult r)))"
    and "(\<And>c. readDriverCompletion ei = Inr (Some c) \<Longrightarrow> crRequestHash r \<noteq> requestHash digest ei c) \<Longrightarrow>
      \<exists>e. recordCompletion digest db ei eventId createdAt result freshId = (db, Inl e)"
  using assms by (auto simp: recordCompletion_def replayDriverCompletion_def split: sum.splits option.splits)

text \<open>
  Claim C27: a committed completion is replayed for ever. Whatever is completed, settled or rewritten in
  orders, stops and routes afterwards, the same request is answered with the stored result, marked as a
  duplicate, and writes nothing; any other request under the same identifier is refused and writes nothing.
\<close>

theorem completion_replays_for_ever:
  assumes "cash_inv db"
    and "recordCompletion digest db ei eventId createdAt result freshId = (db', Inr saved)"
    and "readDriverCompletion ei = Inr (Some c)" and "eiClientEventId ei = Some cid" and "findReceipt db cid = None"
  shows "recordCompletion digest (foldl (cash_step digest) db' cmds) ei eventId' createdAt' result' freshId'
      = (foldl (cash_step digest) db' cmds, Inr (markDuplicate (jsonClone saved)))
    \<and> (eiClientEventId ei' = Some cid
       \<and> (\<forall>c'. readDriverCompletion ei' = Inr (Some c') \<longrightarrow> requestHash digest ei' c' \<noteq> requestHash digest ei c)
       \<longrightarrow> (\<exists>e. recordCompletion digest (foldl (cash_step digest) db' cmds) ei' eventId' createdAt' result' freshId'
              = (foldl (cash_step digest) db' cmds, Inl e)))"
proof -
  obtain r where r: "findReceipt db' cid = Some r" "crRequestHash r = requestHash digest ei c" "crResult r = jsonClone saved"
    by (rule recordCompletion_receipt [OF assms(2-5)])
  have "cash_inv db'"
    using cash_step_inv [OF assms(1), of digest "Complete ei eventId createdAt result freshId"] assms(2) by simp
  then have later: "findReceipt (foldl (cash_step digest) db' cmds) cid = Some r"
    using receipts.run_final r(1) by simp
  have other: "\<exists>e. recordCompletion digest (foldl (cash_step digest) db' cmds) ei' eventId' createdAt' result' freshId'
      = (foldl (cash_step digest) db' cmds, Inl e)"
    if "eiClientEventId ei' = Some cid
      \<and> (\<forall>c'. readDriverCompletion ei' = Inr (Some c') \<longrightarrow> requestHash digest ei' c' \<noteq> requestHash digest ei c)"
    by (rule recordCompletion_known(2) [OF later]) (use that r(2) in \<open>simp, metis\<close>)
  show ?thesis
    using recordCompletion_known(1) [OF later assms(4,3), of digest] r(2,3) other by simp
qed

text \<open>The result of a saved completion, read back from its column.\<close>

lemma methodText_CASH [simp]: "methodText m = ''CASH'' \<longleftrightarrow> m = CASH"
  by (cases m) auto

lemma isCashReceipt_saved:
  assumes "crResult r = jsonClone (JObj (jset ''completion'' (completionJson ei c p freshId eventId createdAt) result))"
  shows "isCashReceipt r = (opMethod p = CASH)"
proof -
  obtain kvs where kvs: "completionJson ei c p freshId eventId createdAt = JObj kvs"
    by (simp add: completionJson_def)
  have m: "jget (JObj kvs) ''method'' = JStr (methodText (opMethod p))"
    by (simp add: completionJson_def flip: kvs)
  let ?v = "JObj (jset ''completion'' (JObj kvs) result)"
  have "jget (jsonClone ?v) ''completion'' = jsonClone (JObj kvs)"
    using jget_jsonClone [of "jset ''completion'' (JObj kvs) result" "''completion''"]
    by (simp del: jsonClone.simps jget.simps)
  moreover have "jget (jsonClone (JObj kvs)) ''method'' = JStr (methodText (opMethod p))"
    using jget_jsonClone [of kvs "''method''"] m by (simp del: jsonClone.simps(1) jget.simps)
  ultimately show ?thesis
    using assms kvs
    by (simp add: isCashReceipt_def readStoredDriverStopCompletion_def js_record_def Let_def jsonClone.simps(1)
        del: jget.simps)
qed

lemma readDriverCompletion_amount:
  assumes "readDriverCompletion ei = Inr (Some c)" and "cashReceived c = Some (a, cur)"
  shows "0 \<le> decimalOf a" and "decimalOf a < 10 ^ 18"
proof -
  have "readCashReceived (jget (js_record (jget (js_record (eiPayload ei)) ''completion'')) ''cashReceived'') = Inr (a, cur)"
    using assms by (auto simp: readDriverCompletion_def Let_def split: if_splits sum.splits)
  then obtain t where t: "is_cash_amount t" "a = toFixed2 (decimalOf t)"
    by (elim readCashReceived.elims) (auto split: if_splits json.splits)
  have pos: "0 \<le> decimalOf t" and am: "is_amount t"
    using t(1) decimalOf_parts(1) joinAmount_no_minus
    by (auto elim!: unsigned_amount_parts simp: is_amount_def is_cash_amount_def)
  then show "0 \<le> decimalOf a" and "decimalOf a < 10 ^ 18"
    using t(2) decimalOf_bound [OF am] decimalOf_toFixed2 [OF decimalOf_bound [OF am]] by simp_all
qed

text \<open>
  Claim C37: a new completion adds exactly one receipt, for its stop, and the receipt accounts for the
  cash: it carries an amount whenever the order requires one and only for an order paid in cash, in the
  order's currency and not negative; the recorded difference is exactly received minus expected; and the
  stored result is one the settlement service takes for a cash receipt exactly when the order is paid in cash.
\<close>

theorem completion_accounts_for_cash:
  assumes "recordCompletion digest db ei eventId createdAt result freshId = (db', Inr saved)"
    and "readDriverCompletion ei = Inr (Some c)" and "eiClientEventId ei = Some cid" and "findReceipt db cid = None"
  shows "\<exists>p r. prepareDriverCompletion db ei = Inr (Some (c, p)) \<and> cdReceipts db' = cdReceipts db @ [r]
    \<and> Some (crDeliveryStopId r) = eiDeliveryStopId ei
    \<and> (opRequiresCashInput p \<longrightarrow> crActualAmount r \<noteq> None)
    \<and> (case crActualAmount r of None \<Rightarrow> True
       | Some a \<Rightarrow> 0 \<le> a \<and> opMethod p = CASH \<and> crCurrencyCode r = map_option snd (cashReceived c)
           \<and> (opRequiresCashInput p \<or> a = 0))
    \<and> crDifferenceAmount r =
        (case (crActualAmount r, crExpectedAmount r) of (Some a, Some e) \<Rightarrow> Some (a - e) | _ \<Rightarrow> None)
    \<and> isCashReceipt r = (opMethod p = CASH)"
proof -
  obtain p where prep: "prepareDriverCompletion db ei = Inr (Some (c, p))"
    and save: "saveDriverCompletion digest db ei (c, p) eventId createdAt result freshId = (db', Inr saved)"
    by (rule recordCompletion_new [OF assms])
  have check: "checkCash c p = None" by (rule prepare_of_completion(2) [OF assms(2) prep])
  have stop: "Some (coalesce_def_value (eiDeliveryStopId ei) []) = eiDeliveryStopId ei"
    using assms(2) by (cases "eiDeliveryStopId ei")
      (auto simp: readDriverCompletion_def Let_def missing_def split: if_splits)
  from save show ?thesis
  proof (cases rule: saveDriverCompletion_cases)
    case (2 r)
    have diff: "crDifferenceAmount r =
        (case (crActualAmount r, crExpectedAmount r) of (Some a, Some e) \<Rightarrow> Some (a - e) | _ \<Rightarrow> None)"
      using 2(7,8,9) by (auto simp: differenceOf_def split: option.splits)
    have cash: "case crActualAmount r of None \<Rightarrow> True
       | Some a \<Rightarrow> 0 \<le> a \<and> opMethod p = CASH \<and> crCurrencyCode r = map_option snd (cashReceived c)
           \<and> (opRequiresCashInput p \<or> a = 0)"
    proof (cases "cashReceived c")
      case (Some ac)
      obtain a cur where ac: "ac = (a, cur)" by (cases ac)
      have "decimalOf ''0.00'' = 0" using decimalOf_toFixed2 [of 0] by (simp add: toFixed2_0)
      then show ?thesis
        using Some ac check 2(8,10) readDriverCompletion_amount(1) [OF assms(2), of a cur]
        by (auto simp: checkCash_def split: if_splits)
    qed (use 2(8) in simp)
    have req: "opRequiresCashInput p \<longrightarrow> crActualAmount r \<noteq> None"
      using check 2(8) by (auto simp: checkCash_def split: option.splits if_splits)
    show ?thesis
      using prep 2(2,5) stop diff cash req isCashReceipt_saved [OF 2(11)]
      by (intro exI [of _ p] exI [of _ r]) simp
  qed simp
qed

section \<open>What the office settled\<close>

text \<open>
  Claim C20: the ledger of settlements is consistent after every history of completions, confirmations
  and other writes. The revisions of a receipt are 1, 2, 3 and so on in the order of recording, no command
  is recorded twice, every settlement belongs to a cash receipt of its shop and route in its currency,
  its differences are exactly confirmed minus actual and confirmed minus expected, and every correction
  has a reason. No stop and no client event has two receipts.
\<close>

theorem settlement_ledger_consistent:
  "ledger_ok (foldl (cash_step digest) (db\<lparr>cdReceipts := [], cdSettlements := []\<rparr>) cmds)
   \<and> receipts_ok (foldl (cash_step digest) (db\<lparr>cdReceipts := [], cdSettlements := []\<rparr>) cmds)"
proof -
  have "cash_inv (db\<lparr>cdReceipts := [], cdSettlements := []\<rparr>)"
    by (simp add: cash_inv_def receipts_ok_def ledger_ok_def revisions_def)
  then have "cash_inv (foldl (cash_step digest) (db\<lparr>cdReceipts := [], cdSettlements := []\<rparr>) cmds)"
    by (rule receipts.run_inv)
  then show ?thesis by (simp add: cash_inv_def)
qed

lemma confirm_new:
  assumes inv: "cash_inv db" and new: "confirm digest db sc actor command freshId now = (db', Inr (dto, False))"
    and cmd: "readCashSettlementCommand command = Inr cmd"
  obtains shopId s where "settlementShopId db sc = Inr shopId"
    and "findSettlement db' (shopId, scmCommandId cmd) = Some s" and "dto = serialize s"
    and "csRequestHash s = digest (commandJson cmd (scRoutePlanId sc) actor)"
    and "int (length (revisions db' (scmReceiptId cmd))) = scmExpectedRevision cmd + 1"
proof -
  from new show ?thesis
  proof (cases rule: confirm_cases)
    case (2 shopId cmd' x)
    then have t: "confirmInTransaction digest db shopId (scRoutePlanId sc) cmd actor freshId now = (db', Inr (dto, False))"
      using cmd by simp
    from t show ?thesis
    proof (cases rule: confirmInTransaction_cases)
      case (3 r actual s)
      have r: "r \<in> set (cdReceipts db)" "crId r = scmReceiptId cmd" "crShopId r = shopId"
        using find_SomeD [OF 3(2)] by simp_all
      have s: "csShopId s = shopId" "csCommandId s = scmCommandId cmd" "csReceiptId s = crId r"
          "csRequestHash s = digest (commandJson cmd (scRoutePlanId sc) actor)"
        using 3(7) by (simp_all add: newSettlement_def Let_def)
      have "findSettlement db' (shopId, scmCommandId cmd) = Some s"
        using 3(1,9) s(1,2) by (simp add: findSettlement_def find_append_None)
      moreover have "int (length (revisions db' (scmReceiptId cmd))) = scmExpectedRevision cmd + 1"
        using latestSettlement_revision [OF inv r(1)] 3(6,9) r(2,3) s(3) by (simp add: revisions_def)
      ultimately show ?thesis using that [OF 2(1)] 3(10) s(4) by simp
    qed simp_all
  qed simp
qed

text \<open>
  Claim C26: a confirmation is recorded once. After it, whatever else happens to the tables, repeating the
  command is answered with the recorded settlement as a duplicate, and no command that expects the same
  revision of the same receipt, from any actor, ever writes anything: the second of two concurrent
  corrections is refused instead of overwriting the first.
\<close>

theorem confirmation_recorded_once:
  assumes "cash_inv db" and "confirm digest db sc actor command freshId now = (db', Inr (dto, False))"
    and "readCashSettlementCommand command = Inr cmd" and "later = foldl (cash_step digest) db' cmds"
  shows "(settlementShopId later sc = settlementShopId db sc
      \<and> list_ex (\<lambda>(plan, shop). plan = scRoutePlanId sc \<and> settlementShopId db sc = Inr shop) (cdRoutes later)
      \<longrightarrow> confirm digest later sc actor command freshId' now' = (later, Inr (dto, True)))
    \<and> (readCashSettlementCommand command' = Inr cmd' \<and> scmReceiptId cmd' = scmReceiptId cmd
      \<and> scmExpectedRevision cmd' = scmExpectedRevision cmd
      \<longrightarrow> fst (confirm digest later sc' actor' command' freshId' now') = later)"
proof -
  obtain shopId s where s: "settlementShopId db sc = Inr shopId"
      "findSettlement db' (shopId, scmCommandId cmd) = Some s" "dto = serialize s"
      "csRequestHash s = digest (commandJson cmd (scRoutePlanId sc) actor)"
      "int (length (revisions db' (scmReceiptId cmd))) = scmExpectedRevision cmd + 1"
    by (rule confirm_new [OF assms(1-3)])
  have inv': "cash_inv db'"
    using cash_step_inv [OF assms(1), of digest "Confirm sc actor command freshId now"] assms(2) by simp
  then have inv: "cash_inv later" unfolding assms(4) by (rule receipts.run_inv)
  have found: "findSettlement later (shopId, scmCommandId cmd) = Some s"
    unfolding assms(4) using settlements.run_final [OF inv' s(2)] by simp
  have count: "scmExpectedRevision cmd < int (length (revisions later (scmReceiptId cmd)))"
    using revision_count.run_mono [OF inv', of "scmReceiptId cmd" digest cmds] s(5) unfolding assms(4) by linarith
  have repeat: "confirm digest later sc actor command freshId' now' = (later, Inr (dto, True))"
    if "settlementShopId later sc = settlementShopId db sc"
      and "list_ex (\<lambda>(plan, shop). plan = scRoutePlanId sc \<and> settlementShopId db sc = Inr shop) (cdRoutes later)"
  proof -
    have "(scRoutePlanId sc, shopId) \<in> set (cdRoutes later)" using that(2) s(1) by (auto simp: list_ex_iff)
    then show ?thesis
      using that(1) s(1,3,4) assms(3) found by (simp add: confirm_def confirmInTransaction_def)
  qed
  have stale: "fst (confirm digest later sc' actor' command' freshId' now') = later"
    if h: "readCashSettlementCommand command' = Inr cmd'" "scmReceiptId cmd' = scmReceiptId cmd"
      "scmExpectedRevision cmd' = scmExpectedRevision cmd"
  proof (rule Confirm_adds [of digest later sc' actor' command' freshId' now', OF refl])
    fix shopId' c r actual q
    assume c: "readCashSettlementCommand command' = Inr c"
      and f: "List.find (\<lambda>r. crId r = scmReceiptId c \<and> crShopId r = shopId' \<and> crRoutePlanId r = scRoutePlanId sc') (cdReceipts later) = Some r"
      and l: "(case latestSettlement later (crId r) shopId' of None \<Rightarrow> 0 | Some s \<Rightarrow> csRevision s) = scmExpectedRevision c"
    have "r \<in> set (cdReceipts later)" "crId r = scmReceiptId cmd" "crShopId r = shopId'"
      using find_SomeD [OF f] c h by auto
    then show ?thesis using latestSettlement_revision [OF inv, of r] l count c h by simp
  qed simp
  show ?thesis using repeat stale by blast
qed

section \<open>A cash delivery from the stop to the ledger\<close>

definition sample_digest :: "json \<Rightarrow> string" where
  "sample_digest v = ''digest''"

definition sample_order :: order_row where
  "sample_order =
     \<lparr>orRawPayload = JObj [(''paymentGatewayNames'', JArr [JStr ''Cash''])],
      orFinancialStatus = JStr ''pending'', orCurrencyCode = JStr ''CAD'', orTotalPriceAmount = Decimal 2550\<rparr>"

definition sample_db :: cash_db where
  "sample_db =
     \<lparr>cdShops = [((''clever-route-kfood'', ''7hrud1-xq.myshopify.com''), ''shop'')],
      cdRoutes = [(''11111111-1111-4111-8111-111111111111'', ''shop'')],
      cdStops = [\<lparr>dsId = ''stop'', dsShopId = ''shop'', dsOrderId = ''order'', dsStatus = ''PENDING'',
                  dsRoutes = [(''11111111-1111-4111-8111-111111111111'', Some ''driver'')]\<rparr>],
      cdOrders = [(''order'', sample_order)], cdReceipts = [], cdSettlements = []\<rparr>"

definition sample_event :: event_input where
  "sample_event =
     \<lparr>eiShopId = ''shop'', eiShopDomain = ''7hrud1-xq.myshopify.com'', eiDriverId = ''driver'',
      eiEventType = ''STOP_DELIVERED'', eiClientEventId = Some ''client'', eiDeliveryStopId = Some ''stop'',
      eiRoutePlanId = Some ''11111111-1111-4111-8111-111111111111'', eiAssignmentGeneration = Some ''3'',
      eiExpectedRouteVersionId = Some ''version'', eiDriverContractVersion = Some 2, eiLatitude = None,
      eiLongitude = None, eiOccurredAt = 1767225600000,
      eiPayload = JObj [(''completion'', JObj [(''version'', JNum (Num 1)),
        (''cashReceived'', JObj [(''amount'', JStr ''25''), (''currency'', JStr ''CAD'')])])]\<rparr>"

definition sample_completed :: "cash_db \<times> (cash_error + json)" where
  "sample_completed =
     recordCompletion sample_digest sample_db sample_event ''event'' 1767225601000
       [(''duplicate'', JBool False), (''eventId'', JStr ''event'')] ''22222222-2222-4222-8222-222222222222''"

lemma sample_db_simps [simp]:
  "cdRoutes sample_db = [(''11111111-1111-4111-8111-111111111111'', ''shop'')]"
  "dsStatus (hd (cdStops sample_db)) = ''PENDING''" "dsOrderId (hd (cdStops sample_db)) = ''order''"
  "cdOrders sample_db = [(''order'', sample_order)]" "cdReceipts sample_db = []" "cdSettlements sample_db = []"
  by (simp_all add: sample_db_def)

lemma sample_event_simps [simp]:
  "eiShopId sample_event = ''shop''" "eiClientEventId sample_event = Some ''client''"
  "eiRoutePlanId sample_event = Some ''11111111-1111-4111-8111-111111111111''"
  "eiAssignmentGeneration sample_event = Some ''3''"
  by (simp_all add: sample_event_def)

lemma sample_inv: "cash_inv sample_db"
  by (simp add: cash_inv_def receipts_ok_def ledger_ok_def revisions_def)

lemma sample_read:
  "readDriverCompletion sample_event = Inr (Some \<lparr>cashReceived = Some (''25.00'', ''CAD'')\<rparr>)"
  by code_simp

abbreviation sample_payment :: order_payment where
  "sample_payment \<equiv> resolveOrderPayment sample_order"

lemma sample_payment:
  "opMethod sample_payment = CASH \<and> opCurrencyCode sample_payment = Some ''CAD''
   \<and> opExpectedAmount sample_payment = Some ''25.50'' \<and> opRequiresCashInput sample_payment"
  by code_simp

lemma sample_stop: "findStop sample_db sample_event = Some (hd (cdStops sample_db))"
  by (simp add: findStop_def sample_db_def sample_event_def)

lemma sample_prepared:
  "prepareDriverCompletion sample_db sample_event =
     Inr (Some (\<lparr>cashReceived = Some (''25.00'', ''CAD'')\<rparr>, sample_payment))"
  using sample_payment
  by (simp add: prepareDriverCompletion_def sample_read sample_stop hasReceipt_def checkCash_def)

lemma sample_completed_save:
  "sample_completed = saveDriverCompletion sample_digest sample_db sample_event
     (\<lparr>cashReceived = Some (''25.00'', ''CAD'')\<rparr>, sample_payment) ''event'' 1767225601000
     [(''duplicate'', JBool False), (''eventId'', JStr ''event'')] ''22222222-2222-4222-8222-222222222222''"
  using sample_prepared
  by (simp add: sample_completed_def recordCompletion_def sample_read replayDriverCompletion_def findReceipt_def)

lemma sample_generation: "bigInt ''3'' = Some 3"
  by code_simp

lemma sample_amounts: "decimalOf ''25.00'' = 2500" "decimalOf ''25.50'' = 2550"
  by code_simp+

lemma sample_receipts:
  obtains r where "cdReceipts (fst sample_completed) = [r]" and "isCashReceipt r"
    and "crId r = ''22222222-2222-4222-8222-222222222222''" and "crShopId r = ''shop''"
    and "crRoutePlanId r = ''11111111-1111-4111-8111-111111111111''" and "crActualAmount r = Some 2500"
    and "crCurrencyCode r = Some ''CAD''" and "\<not> isl (snd sample_completed)"
    and "fst sample_completed = sample_db\<lparr>cdReceipts := [r]\<rparr>"
proof -
  let ?json = "JObj (jset ''completion'' (completionJson sample_event \<lparr>cashReceived = Some (''25.00'', ''CAD'')\<rparr>
    sample_payment ''22222222-2222-4222-8222-222222222222'' ''event'' 1767225601000)
    [(''duplicate'', JBool False), (''eventId'', JStr ''event'')])"
  let ?r = "hd (cdReceipts (fst sample_completed))"
  have "crResult ?r = jsonClone ?json" and "fst sample_completed = sample_db\<lparr>cdReceipts := [?r]\<rparr>"
    and "crId ?r = ''22222222-2222-4222-8222-222222222222''" and "crShopId ?r = ''shop''"
    and "crRoutePlanId ?r = ''11111111-1111-4111-8111-111111111111''" and "crActualAmount ?r = Some 2500"
    and "crCurrencyCode ?r = Some ''CAD''" and "\<not> isl (snd sample_completed)"
    using sample_payment
    by (simp_all add: sample_completed_save saveDriverCompletion_def Let_def sample_generation
        uniqueReceipt_def sample_amounts del: jsonClone.simps)
  moreover from this(1) have "isCashReceipt ?r" using isCashReceipt_saved sample_payment by blast
  moreover from calculation(2) have "cdReceipts (fst sample_completed) = [?r]" by (metis cash_db.select_convs(5) cash_db.surjective cash_db.update_convs(5))
  ultimately show ?thesis using that by blast
qed

lemma sample_ok: "\<not> isl (snd sample_completed)"
  by (rule sample_receipts)

lemma sample_completed_eq:
  "recordCompletion sample_digest sample_db sample_event ''event'' 1767225601000
     [(''duplicate'', JBool False), (''eventId'', JStr ''event'')] ''22222222-2222-4222-8222-222222222222''
   = (fst sample_completed, Inr (projr (snd sample_completed)))"
  using sample_ok by (cases "snd sample_completed") (simp_all add: sample_completed_def prod_eq_iff)

lemma sample_new: "findReceipt sample_db ''client'' = None" and sample_client: "eiClientEventId sample_event = Some ''client''"
  by (simp_all add: findReceipt_def)

theorem completion_replays_for_ever_witness:
  "recordCompletion sample_digest (foldl (cash_step sample_digest) (fst sample_completed) [OtherWrites [] [] [] []])
     sample_event ''other'' 1767225700000 [] ''fresh''
   = (foldl (cash_step sample_digest) (fst sample_completed) [OtherWrites [] [] [] []],
      Inr (markDuplicate (jsonClone (projr (snd sample_completed)))))
   \<and> (\<exists>e. recordCompletion sample_digest (foldl (cash_step sample_digest) (fst sample_completed) [OtherWrites [] [] [] []])
        (sample_event\<lparr>eiPayload := JNull\<rparr>) ''other'' 1767225700000 [] ''fresh''
      = (foldl (cash_step sample_digest) (fst sample_completed) [OtherWrites [] [] [] []], Inl e))"
proof -
  have "eiClientEventId (sample_event\<lparr>eiPayload := JNull\<rparr>) = Some ''client''" and
    "readDriverCompletion (sample_event\<lparr>eiPayload := JNull\<rparr>) = Inr None"
    by (simp_all add: sample_client readDriverCompletion_def js_record_def)
  then show ?thesis
    using completion_replays_for_ever [OF sample_inv sample_completed_eq sample_read sample_client sample_new,
        of "[OtherWrites [] [] [] []]" "''other''" 1767225700000 "[]" "''fresh''" "sample_event\<lparr>eiPayload := JNull\<rparr>"]
    by simp
qed

theorem completion_accounts_for_cash_witness:
  "map crActualAmount (cdReceipts (fst sample_completed)) = [Some 2500]
   \<and> (\<exists>p r. prepareDriverCompletion sample_db sample_event = Inr (Some (\<lparr>cashReceived = Some (''25.00'', ''CAD'')\<rparr>, p))
      \<and> cdReceipts (fst sample_completed) = cdReceipts sample_db @ [r] \<and> isCashReceipt r = (opMethod p = CASH))"
proof -
  have "map crActualAmount (cdReceipts (fst sample_completed)) = [Some 2500]"
    by (rule sample_receipts) simp
  then show ?thesis
    using completion_accounts_for_cash [OF sample_completed_eq sample_read sample_client sample_new] by blast
qed

definition sample_scope :: settlement_scope where
  "sample_scope =
     \<lparr>scAppId = ''clever-route-kfood'', scShopDomain = ''7hrud1-xq.myshopify.com'',
      scRoutePlanId = ''11111111-1111-4111-8111-111111111111''\<rparr>"

definition sample_command :: json where
  "sample_command =
     JObj [(''commandId'', JStr ''33333333-3333-4333-8333-333333333333''),
       (''receiptId'', JStr ''22222222-2222-4222-8222-222222222222''), (''expectedRevision'', JNum (Num 0)),
       (''confirmedAmount'', JStr ''25.5''), (''currency'', JStr ''CAD'')]"

definition sample_confirmed :: "cash_db \<times> (cash_error + settlement_dto \<times> bool)" where
  "sample_confirmed =
     confirm sample_digest (fst sample_completed) sample_scope ''office'' sample_command ''row'' 1767230000000"

lemma sample_command_read:
  "readCashSettlementCommand sample_command =
     Inr \<lparr>scmCommandId = ''33333333-3333-4333-8333-333333333333'', scmReceiptId = ''22222222-2222-4222-8222-222222222222'',
       scmExpectedRevision = 0, scmConfirmedAmount = ''25.50'', scmCurrency = ''CAD'', scmReason = None\<rparr>"
  by code_simp

lemma sample_shop: "settlementShopId sample_db sample_scope = Inr ''shop''"
  by code_simp

lemma settlementShopId_cong: "cdShops db = cdShops db' \<Longrightarrow> settlementShopId db sc = settlementShopId db' sc"
  by (simp only: settlementShopId_def)

lemma sample_shop_completed: "settlementShopId (fst sample_completed) sample_scope = Inr ''shop''"
  by (rule sample_receipts) (use settlementShopId_cong [of "fst sample_completed" sample_db] sample_shop in simp)

lemma sample_confirmed_new:
  "\<not> isl (snd sample_confirmed) \<and> \<not> snd (projr (snd sample_confirmed))
   \<and> cdShops (fst sample_confirmed) = cdShops sample_db \<and> cdRoutes (fst sample_confirmed) = cdRoutes sample_db"
proof (rule sample_receipts)
  fix r
  assume r: "isCashReceipt r" "crId r = ''22222222-2222-4222-8222-222222222222''" "crShopId r = ''shop''"
    "crRoutePlanId r = ''11111111-1111-4111-8111-111111111111''" "crActualAmount r = Some 2500"
    "crCurrencyCode r = Some ''CAD''" "fst sample_completed = sample_db\<lparr>cdReceipts := [r]\<rparr>"
  show ?thesis
    using r sample_command_read sample_shop_completed
    by (simp add: sample_confirmed_def confirm_def confirmInTransaction_def Let_def sample_scope_def
        findSettlement_def latestSettlement_def uniqueSettlement_def)
qed

lemma sample_confirmed_eq:
  "confirm sample_digest (fst sample_completed) sample_scope ''office'' sample_command ''row'' 1767230000000
   = (fst sample_confirmed, Inr (fst (projr (snd sample_confirmed)), False))"
  using sample_confirmed_new by (cases "snd sample_confirmed") (auto simp: sample_confirmed_def prod_eq_iff)

theorem confirmation_recorded_once_witness:
  "confirm sample_digest (fst sample_confirmed) sample_scope ''office'' sample_command ''again'' 1767230001000
     = (fst sample_confirmed, Inr (fst (projr (snd sample_confirmed)), True))
   \<and> fst (confirm sample_digest (fst sample_confirmed) sample_scope ''other'' sample_command ''again'' 1767230001000)
     = fst sample_confirmed"
proof -
  have inv: "cash_inv (fst sample_completed)"
    using cash_step_inv [OF sample_inv, of sample_digest "Complete sample_event ''event'' 1767225601000
      [(''duplicate'', JBool False), (''eventId'', JStr ''event'')] ''22222222-2222-4222-8222-222222222222''"]
    by (simp add: sample_completed_def)
  have "settlementShopId (fst sample_confirmed) sample_scope = settlementShopId (fst sample_completed) sample_scope"
    and "list_ex (\<lambda>(plan, shop). plan = scRoutePlanId sample_scope
      \<and> settlementShopId (fst sample_completed) sample_scope = Inr shop) (cdRoutes (fst sample_confirmed))"
    using sample_shop_completed sample_confirmed_new settlementShopId_cong [of "fst sample_confirmed" sample_db]
      sample_shop by (simp_all add: sample_scope_def)
  then show ?thesis
    using confirmation_recorded_once [OF inv sample_confirmed_eq sample_command_read, of "fst sample_confirmed" "[]"
        "''again''" 1767230001000 sample_command
        "\<lparr>scmCommandId = ''33333333-3333-4333-8333-333333333333'', scmReceiptId = ''22222222-2222-4222-8222-222222222222'',
          scmExpectedRevision = 0, scmConfirmedAmount = ''25.50'', scmCurrency = ''CAD'', scmReason = None\<rparr>"
        sample_scope "''other''"] sample_command_read
    by simp
qed

end
