(* ===== verification/VehicleTrail.thy ===== *)
theory VehicleTrail
  imports GreatCircle Machines JsText
begin

text \<open>
  Vehicle positions as evidence: the folding of frozen GPS fixes and the plausibility of a jump
  (uvis/uvis-vehicle-trail-evidence.ts), the service window of a working day and the cut of the trail to
  it (dsv/dsv-service-window.ts), and the departure from the depot (route-tracking/depot-departure.ts).
  Coordinates and distances are real numbers, instants are milliseconds; a \<^verbatim>\<open>Date\<close> that may be
  invalid is an optional instant, a stored timestamp is its text.
\<close>

section \<open>uvis-vehicle-trail-evidence.ts\<close>

definition distanceMeters :: "real \<times> real \<Rightarrow> real \<times> real \<Rightarrow> real" where
  "distanceMeters l r =
     (let a = haversineChord (fst l) (snd l) (fst r) (snd r)
      in 2 * 6371000 * js_atan2 (sqrt a) (sqrt (1 - a)))"

record frozen_gap =
  fgContinuous :: bool
  fgLastObservedAt :: iso
  fgLastStaleAfter :: iso
  fgNoFixRepeats :: nat
  fgRepeats :: nat

record trail_sample =
  tsLatitude :: real
  tsLongitude :: real
  tsIgnitionOn :: "bool option"
  tsObservedAt :: iso
  tsSpeedKph :: "real option"
  tsStaleAfter :: iso
  tsFrozenGap :: "frozen_gap option"

definition tsPoint :: "trail_sample \<Rightarrow> real \<times> real" where
  "tsPoint s = (tsLatitude s, tsLongitude s)"

text \<open>Comparisons with an unreadable instant (\<^verbatim>\<open>NaN\<close>) are false.\<close>

definition isFreshSuccessor :: "iso \<Rightarrow> iso \<Rightarrow> iso \<Rightarrow> bool" where
  "isFreshSuccessor beforeObservedAt beforeStaleAfter afterObservedAt =
     (case (date_parse afterObservedAt, date_parse beforeObservedAt, date_parse beforeStaleAfter) of
        (Some afterMs, Some beforeMs, Some staleAfterMs) \<Rightarrow> afterMs - beforeMs \<ge> 30000 \<and> staleAfterMs \<ge> afterMs
      | _ \<Rightarrow> False)"

fun freshPairs :: "trail_sample list \<Rightarrow> bool" where
  "freshPairs (a # b # r) = (isFreshSuccessor (tsObservedAt a) (tsStaleAfter a) (tsObservedAt b) \<and> freshPairs (b # r))"
| "freshPairs _ = True"

definition frozenGapOf :: "trail_sample list \<Rightarrow> frozen_gap" where
  "frozenGapOf run =
     \<lparr>fgContinuous = freshPairs run, fgLastObservedAt = tsObservedAt (last run),
      fgLastStaleAfter = tsStaleAfter (last run),
      fgNoFixRepeats = length (filter (\<lambda>s. coalesce_def_value (tsSpeedKph s) 0 \<ge> 200) (tl run)),
      fgRepeats = length run\<rparr>"

definition isFrozenRun :: "trail_sample list \<Rightarrow> trail_sample list \<Rightarrow> bool" where
  "isFrozenRun run later =
     (length run \<ge> 3 \<and> list_all (\<lambda>s. tsIgnitionOn s = Some True) run
      \<and> (case later of [] \<Rightarrow> False | next # _ \<Rightarrow> distanceMeters (tsPoint (hd run)) (tsPoint next) \<ge> 500))"

function foldFrozenFixRuns :: "trail_sample list \<Rightarrow> trail_sample list" where
  "foldFrozenFixRuns [] = []"
| "foldFrozenFixRuns (first # r) =
     (let run = first # takeWhile (\<lambda>s. tsPoint s = tsPoint first) r;
          later = dropWhile (\<lambda>s. tsPoint s = tsPoint first) r
      in (if isFrozenRun run later then [first\<lparr>tsFrozenGap := Some (frozenGapOf run)\<rparr>] else run)
         @ foldFrozenFixRuns later)"
  by pat_completeness auto
termination foldFrozenFixRuns
  by (relation "measure length") (auto simp: le_imp_less_Suc length_dropWhile_le)

definition impliedSpeedMetersPerSecond :: "(real \<times> real) \<times> int \<Rightarrow> (real \<times> real) \<times> int \<Rightarrow> jsnum" where
  "impliedSpeedMetersPerSecond previous current =
     (let elapsedSeconds = real_of_int (snd current - snd previous) / 1000
      in if elapsedSeconds > 0 then Num (distanceMeters (fst previous) (fst current) / elapsedSeconds) else PosInf)"

definition hasImplausibleGpsJump :: "(real \<times> real) \<times> int \<Rightarrow> (real \<times> real) \<times> int \<Rightarrow> bool" where
  "hasImplausibleGpsJump previous current =
     (case impliedSpeedMetersPerSecond previous current of Num v \<Rightarrow> v > 55 | PosInf \<Rightarrow> True | _ \<Rightarrow> False)"

section \<open>dsv-service-window.ts\<close>

definition SERVICE_WINDOW_CENTER_RADIUS_M :: real where
  "SERVICE_WINDOW_CENTER_RADIUS_M = 300"

definition SERVICE_WINDOW_CENTER_MIN_STAY_MS :: int where
  "SERVICE_WINDOW_CENTER_MIN_STAY_MS = 10 * 60000"

text \<open>The loop over the points in the order of time: inside or not, and when.\<close>

fun centerLoop :: "int \<Rightarrow> int option \<Rightarrow> int option \<Rightarrow> (bool \<times> int) list \<Rightarrow> int option" where
  "centerLoop minStayMs stayStart lastInside [] =
     (case (stayStart, lastInside) of
        (Some s, Some l) \<Rightarrow> if l - s \<ge> minStayMs then Some s else None | _ \<Rightarrow> None)"
| "centerLoop minStayMs stayStart lastInside ((inside, t) # points) =
     (if inside then centerLoop minStayMs (coalesce stayStart (Some t)) (Some t) points
      else case stayStart of
             Some s \<Rightarrow> if t - s \<ge> minStayMs then Some s else centerLoop minStayMs None None points
           | None \<Rightarrow> centerLoop minStayMs None None points)"

definition centerPoints ::
  "((real \<times> real) \<times> int option) list \<Rightarrow> real \<times> real \<Rightarrow> real \<Rightarrow> (bool \<times> int) list" where
  "centerPoints samples center radiusMeters =
     sort_by (\<lambda>l r. compare_int (snd l) (snd r))
       (List.map_filter (\<lambda>(p, time). map_option (\<lambda>t. (distanceMeters center p \<le> radiusMeters, t)) time) samples)"

definition findCenterArrivalMs ::
  "((real \<times> real) \<times> int option) list \<Rightarrow> (real \<times> real) option \<Rightarrow> real \<Rightarrow> int \<Rightarrow> int option" where
  "findCenterArrivalMs samples center radiusMeters minStayMs =
     (case center of
        None \<Rightarrow> None
      | Some c \<Rightarrow> centerLoop minStayMs None None (centerPoints samples c radiusMeters))"

datatype end_source = STOP_ARRIVED_EVENT | STOP_RESULT_EVENT

type_synonym stop_events = "(string \<times> int option) list"

fun earliestOf :: "string list \<Rightarrow> int option \<Rightarrow> stop_events \<Rightarrow> int option" where
  "earliestOf types found [] = found"
| "earliestOf types found ((eventType, time) # events) =
     (case time of
        Some t \<Rightarrow>
          if eventType \<in> set types \<and> (found = None \<or> t < the found) then earliestOf types (Some t) events
          else earliestOf types found events
      | None \<Rightarrow> earliestOf types found events)"

fun lastStopLoop :: "(int \<times> end_source) option \<Rightarrow> stop_events list \<Rightarrow> (int \<times> end_source) option" where
  "lastStopLoop lst [] = lst"
| "lastStopLoop lst (events # stops) =
     (let arrived = earliestOf [''STOP_ARRIVED''] None events;
          reached = coalesce arrived (earliestOf [''STOP_DELIVERED'', ''STOP_FAILED''] None events)
      in case reached of
           None \<Rightarrow> None
         | Some t \<Rightarrow>
             lastStopLoop
               (if lst = None \<or> t > fst (the lst)
                then Some (t, if arrived = None then STOP_RESULT_EVENT else STOP_ARRIVED_EVENT) else lst) stops)"

definition findLastStopReached :: "stop_events list \<Rightarrow> (int \<times> end_source) option" where
  "findLastStopReached stops = lastStopLoop None stops"

record service_window =
  swStartMs :: int
  swEndMs :: "int option"

definition insideWindow :: "service_window \<Rightarrow> iso \<Rightarrow> bool" where
  "insideWindow w stamp =
     (case date_parse stamp of
        None \<Rightarrow> False
      | Some t \<Rightarrow> t \<ge> swStartMs w \<and> (case swEndMs w of None \<Rightarrow> True | Some e \<Rightarrow> t \<le> e))"

record geometry_anchor =
  gaObservedAt :: iso
  gaLineIndex :: nat
  gaCoordinateIndex :: nat

record matched_geometry =
  mgAnchors :: "geometry_anchor list option"
  mgCoordinates :: "(real \<times> real) list list"
  mgOther :: json

definition js_slice :: "'a list \<Rightarrow> nat \<Rightarrow> nat \<Rightarrow> 'a list" where
  "js_slice xs from until = take (until - from) (drop from xs)"

text \<open>The lines of a geometry one by one, with the lines and anchors kept so far.\<close>

fun trimLines ::
  "geometry_anchor list \<Rightarrow> nat \<Rightarrow> (real \<times> real) list list \<Rightarrow> (real \<times> real) list list \<times> geometry_anchor list
   \<Rightarrow> (real \<times> real) list list \<times> geometry_anchor list" where
  "trimLines kept lineIndex [] out = out"
| "trimLines kept lineIndex (line # lines) (coordinates, anchors) =
     (let own = filter (\<lambda>a. gaLineIndex a = lineIndex) kept;
          from = Min (set (map gaCoordinateIndex own)); until = Max (set (map gaCoordinateIndex own)) + 1;
          sliced = js_slice line from until
      in trimLines kept (lineIndex + 1) lines
           (if length own < 2 \<or> length sliced < 2 then (coordinates, anchors)
            else (coordinates @ [sliced],
                  anchors @ map (\<lambda>a. a\<lparr>gaCoordinateIndex := gaCoordinateIndex a - from,
                                       gaLineIndex := length coordinates\<rparr>) own)))"

definition trimGeometry :: "(iso \<Rightarrow> bool) \<Rightarrow> matched_geometry \<Rightarrow> matched_geometry option" where
  "trimGeometry inside g =
     (case mgAnchors g of
        None \<Rightarrow> Some g
      | Some anchors \<Rightarrow>
          (case trimLines (filter (\<lambda>a. inside (gaObservedAt a)) anchors) 0 (mgCoordinates g) ([], []) of
             (coordinates, kept) \<Rightarrow>
               if coordinates = [] then None else Some (g\<lparr>mgAnchors := Some kept, mgCoordinates := coordinates\<rparr>)))"

record daily_anchor =
  daCoordinateIndex :: nat
  daObservedAt :: iso

record inferred_tunnel =
  itFromObservedAt :: iso
  itConfirmedByObservedAt :: iso
  itOther :: json

record route_bridge =
  rbFromObservedAt :: iso
  rbToObservedAt :: iso
  rbReason :: string
  rbInferredTunnel :: "inferred_tunnel option"

record daily_route =
  drAnchors :: "daily_anchor list"
  drBridges :: "route_bridge list"
  drCoordinates :: "(real \<times> real) list"
  drSourceSampleCount :: nat

definition trimBridge :: "iso list \<Rightarrow> route_bridge \<Rightarrow> route_bridge" where
  "trimBridge keptAt b =
     (case rbInferredTunnel b of
        Some t \<Rightarrow>
          if itFromObservedAt t \<in> set keptAt \<and> itConfirmedByObservedAt t \<in> set keptAt then b
          else b\<lparr>rbInferredTunnel := None\<rparr>
      | None \<Rightarrow> b)"

definition trimDailyRoute :: "(iso \<Rightarrow> bool) \<Rightarrow> daily_route \<Rightarrow> daily_route option" where
  "trimDailyRoute inside route =
     (let kept = filter (\<lambda>a. inside (daObservedAt a)) (drAnchors route);
          from = Min (set (map daCoordinateIndex kept)); until = Max (set (map daCoordinateIndex kept)) + 1;
          coordinates = js_slice (drCoordinates route) from until
      in if length kept < 2 \<or> length coordinates < 2 then None
         else Some (route\<lparr>
           drAnchors := map (\<lambda>a. a\<lparr>daCoordinateIndex := daCoordinateIndex a - from\<rparr>) kept,
           drBridges := map (trimBridge (map daObservedAt kept))
             (filter (\<lambda>b. inside (rbFromObservedAt b) \<and> inside (rbToObservedAt b)) (drBridges route)),
           drCoordinates := coordinates,
           drSourceSampleCount := length kept\<rparr>))"

record trail_marker =
  tmKind :: string
  tmLatitude :: real
  tmLongitude :: real
  tmObservedAt :: iso

record trail_segment =
  sgRoadMatchedGeometry :: "matched_geometry option"
  sgSamples :: "trail_sample list"
  sgTrailMarker :: "trail_marker option"

record trail_session =
  seSegments :: "trail_segment list"

definition trimSegment :: "(iso \<Rightarrow> bool) \<Rightarrow> trail_segment \<Rightarrow> trail_segment option" where
  "trimSegment inside sg =
     (let samples = filter (\<lambda>s. inside (tsObservedAt s)) (sgSamples sg)
      in if samples = [] then None
         else Some (sg\<lparr>sgSamples := samples,
           sgRoadMatchedGeometry := Option.bind (sgRoadMatchedGeometry sg) (trimGeometry inside),
           sgTrailMarker := (case sgTrailMarker sg of
             Some m \<Rightarrow> if inside (tmObservedAt m) then Some m else None | None \<Rightarrow> None)\<rparr>))"

definition trimTrailToServiceWindow ::
  "'s trail_session_scheme list \<Rightarrow> daily_route option \<Rightarrow> service_window
   \<Rightarrow> daily_route option \<times> 's trail_session_scheme list" where
  "trimTrailToServiceWindow sessions dailyRoute w =
     (let inside = insideWindow w
      in (Option.bind dailyRoute (trimDailyRoute inside),
          List.map_filter (\<lambda>session.
            let segments = List.map_filter (trimSegment inside) (seSegments session)
            in if segments = [] then None else Some (session\<lparr>seSegments := segments\<rparr>)) sessions))"

section \<open>depot-departure.ts\<close>

definition DEPOT_RETURN_THRESHOLD_METERS :: real where
  "DEPOT_RETURN_THRESHOLD_METERS = 150"

definition DEPOT_DEPARTURE_LOOKBACK_MS :: int where
  "DEPOT_DEPARTURE_LOOKBACK_MS = 3 * 60 * 60 * 1000"

datatype depot_status = DEPOT_UNAVAILABLE | DEPOT_UNCONFIRMED | DEPOT_CONFIRMED

record depot_sample =
  dpId :: string
  dpPoint :: "real \<times> real"
  dpObservedAt :: int

record depot_evidence =
  evDistanceToDepotMeters :: "real option"
  evEvidenceEventId :: "string option"
  evObservedAt :: "string option"
  evSource :: string
  evStatus :: depot_status
  evThresholdMeters :: real

record depot_departure =
  ddArrivedAt :: "int option"
  ddDepartedAt :: "int option"
  ddEvidence :: depot_evidence

record depot_input =
  diDepot :: "(real \<times> real) option"
  diEndAt :: "int option"
  diSamples :: "depot_sample list"
  diStartedAt :: "int option"
  diStartedPosition :: "(real \<times> real) option"

definition depotHaversine :: "real \<times> real \<Rightarrow> real \<times> real \<Rightarrow> real" where
  "depotHaversine l r =
     (let a = haversineChord (fst l) (snd l) (fst r) (snd r)
      in 6371000 * 2 * js_atan2 (sqrt a) (sqrt (1 - a)))"

definition depotDeparture ::
  "int option \<Rightarrow> int option \<Rightarrow> ((real \<times> real) \<times> depot_sample) option \<Rightarrow> depot_status \<Rightarrow> depot_departure" where
  "depotDeparture arrivedAt departedAt confirmed status =
     \<lparr>ddArrivedAt = arrivedAt, ddDepartedAt = departedAt,
      ddEvidence = (case confirmed of
         None \<Rightarrow> \<lparr>evDistanceToDepotMeters = None, evEvidenceEventId = None, evObservedAt = None,
                 evSource = ''NONE'', evStatus = status, evThresholdMeters = DEPOT_RETURN_THRESHOLD_METERS\<rparr>
       | Some (depot, sample) \<Rightarrow>
           \<lparr>evDistanceToDepotMeters = Some (of_int \<lfloor>depotHaversine depot (dpPoint sample) * 10 + 1 / 2\<rfloor> / 10),
            evEvidenceEventId = Some (dpId sample), evObservedAt = Some (toISOString (dpObservedAt sample)),
            evSource = ''LOCATION_UPDATED'', evStatus = status, evThresholdMeters = DEPOT_RETURN_THRESHOLD_METERS\<rparr>)\<rparr>"

definition insideDepot :: "real \<times> real \<Rightarrow> real \<times> real \<Rightarrow> bool" where
  "insideDepot depot p = (depotHaversine depot p \<le> DEPOT_RETURN_THRESHOLD_METERS)"

text \<open>The two scans backwards: the last position inside among the first \<open>n\<close>, and the start of its stay.\<close>

fun lastInsideBelow :: "('a \<Rightarrow> bool) \<Rightarrow> 'a list \<Rightarrow> nat \<Rightarrow> nat option" where
  "lastInsideBelow inside xs 0 = None"
| "lastInsideBelow inside xs (Suc i) = (if inside (xs ! i) then Some i else lastInsideBelow inside xs i)"

fun firstInsideFrom :: "('a \<Rightarrow> bool) \<Rightarrow> 'a list \<Rightarrow> nat \<Rightarrow> nat" where
  "firstInsideFrom inside xs 0 = 0"
| "firstInsideFrom inside xs (Suc i) = (if inside (xs ! i) then firstInsideFrom inside xs i else Suc i)"

definition departedBeforeStart :: "real \<times> real \<Rightarrow> depot_sample list \<Rightarrow> depot_departure option" where
  "departedBeforeStart depot before =
     (let inside = (\<lambda>s. insideDepot depot (dpPoint s))
      in case lastInsideBelow inside before (length before) of
           None \<Rightarrow> None
         | Some lastInside \<Rightarrow>
             if lastInside + 1 < length before then
               Some (depotDeparture (Some (dpObservedAt (before ! firstInsideFrom inside before lastInside)))
                 (Some (dpObservedAt (before ! (lastInside + 1)))) (Some (depot, before ! (lastInside + 1))) DEPOT_CONFIRMED)
             else None)"

definition departedInWindow :: "real \<times> real \<Rightarrow> int option \<Rightarrow> depot_sample list \<Rightarrow> depot_departure" where
  "departedInWindow depot arrivedAt inWindow =
     (case arrivedAt of
        None \<Rightarrow> depotDeparture None None None DEPOT_UNCONFIRMED
      | Some a \<Rightarrow>
          (case List.find (\<lambda>s. dpObservedAt s \<ge> a \<and> \<not> insideDepot depot (dpPoint s)) inWindow of
             None \<Rightarrow> depotDeparture (Some a) None None DEPOT_UNCONFIRMED
           | Some d \<Rightarrow> depotDeparture (Some a) (Some (dpObservedAt d)) (Some (depot, d)) DEPOT_CONFIRMED))"

definition resolveDepotDeparture :: "depot_input \<Rightarrow> depot_departure" where
  "resolveDepotDeparture di =
     (case (diDepot di, diStartedAt di) of
        (Some depot, Some startedAt) \<Rightarrow>
          (let inWindow = filter (\<lambda>s. dpObservedAt s \<ge> startedAt
                 \<and> (case diEndAt di of None \<Rightarrow> True | Some e \<Rightarrow> dpObservedAt s < e)) (diSamples di);
               startedInside = (case diStartedPosition di of None \<Rightarrow> False | Some p \<Rightarrow> insideDepot depot p);
               before = filter (\<lambda>s. dpObservedAt s < startedAt
                 \<and> dpObservedAt s \<ge> startedAt - DEPOT_DEPARTURE_LOOKBACK_MS) (diSamples di);
               arrivedAt = (if startedInside then Some startedAt
                 else map_option dpObservedAt (List.find (\<lambda>s. insideDepot depot (dpPoint s)) inWindow))
           in case (if startedInside then None else departedBeforeStart depot before) of
                Some d \<Rightarrow> d
              | None \<Rightarrow> departedInWindow depot arrivedAt inWindow)
      | _ \<Rightarrow> depotDeparture None None None DEPOT_UNAVAILABLE)"

section \<open>Distances\<close>

text \<open>
  The two copies of the distance formula agree, and their value is a distance on the sphere: between
  zero and half of the great circle, zero from a point to itself, and the same in both directions.
\<close>

lemma distances_agree:
  "distanceMeters l r = depotHaversine l r \<and> 0 \<le> distanceMeters l r \<and> distanceMeters l r \<le> 6371000 * pi
   \<and> distanceMeters l l = 0 \<and> distanceMeters l r = distanceMeters r l"
  using sphere_distance_bounds [of "fst l" "snd l" "fst r" "snd r"]
    haversineChord_sym [of "fst l" "snd l" "fst r" "snd r"]
  by (simp add: distanceMeters_def depotHaversine_def Let_def haversineChord_self js_atan2_def)

section \<open>Frozen fixes\<close>

lemma foldFrozenFixRuns_hd:
  "xs \<noteq> [] \<Longrightarrow> foldFrozenFixRuns xs \<noteq> [] \<and> tsPoint (hd (foldFrozenFixRuns xs)) = tsPoint (hd xs)"
  by (cases xs) (auto simp: Let_def tsPoint_def)

lemma isFrozenRun_cong:
  "(xs = [] \<longleftrightarrow> ys = []) \<Longrightarrow> (xs \<noteq> [] \<Longrightarrow> tsPoint (hd xs) = tsPoint (hd ys)) \<Longrightarrow> isFrozenRun run xs = isFrozenRun run ys"
  by (cases xs; cases ys) (auto simp: isFrozenRun_def)

text \<open>A block of samples at one place, followed by samples that begin elsewhere, is one run.\<close>

lemma foldFrozenFixRuns_block:
  assumes "list_all (\<lambda>s. tsPoint s = tsPoint b) bs" and "q = [] \<or> tsPoint (hd q) \<noteq> tsPoint b"
  shows "foldFrozenFixRuns ((b # bs) @ q) =
    (if isFrozenRun (b # bs) q then [b\<lparr>tsFrozenGap := Some (frozenGapOf (b # bs))\<rparr>] else b # bs) @ foldFrozenFixRuns q"
proof -
  let ?P = "\<lambda>s. tsPoint s = tsPoint b"
  have "\<forall>x \<in> set bs. ?P x" using assms(1) by (simp add: list_all_iff)
  then have "takeWhile ?P (bs @ q) = bs @ takeWhile ?P q" and "dropWhile ?P (bs @ q) = dropWhile ?P q"
    by (simp_all add: takeWhile_append2 dropWhile_append2)
  moreover have "takeWhile ?P q = []" and "dropWhile ?P q = q" using assms(2) by (cases q; auto)+
  ultimately show ?thesis by (simp add: Let_def)
qed

text \<open>Every list is such a block, and folding keeps the place its later part begins at.\<close>

lemma run_decompose:
  obtains bs q where "b # r = (b # bs) @ q" and "list_all (\<lambda>s. tsPoint s = tsPoint b) bs"
    and "q = [] \<or> tsPoint (hd q) \<noteq> tsPoint b" and "length q \<le> length r"
proof
  let ?P = "\<lambda>s. tsPoint s = tsPoint b"
  show "b # r = (b # takeWhile ?P r) @ dropWhile ?P r" by simp
  show "list_all ?P (takeWhile ?P r)" by (auto simp: list_all_iff dest: set_takeWhileD)
  show "dropWhile ?P r = [] \<or> tsPoint (hd (dropWhile ?P r)) \<noteq> tsPoint b" using hd_dropWhile [of ?P r] by blast
  show "length (dropWhile ?P r) \<le> length r" by (rule length_dropWhile_le)
qed

lemma remdups_adj_block:
  assumes "list_all (\<lambda>s. f s = f b) bs" and "q = [] \<or> f (hd q) \<noteq> f b"
  shows "remdups_adj (map f ((b # bs) @ q)) = f b # remdups_adj (map f q)"
  using assms
proof (induction bs)
  case Nil
  then show ?case by (cases q) (auto simp: remdups_adj_Cons split: list.splits)
next
  case (Cons a as)
  then show ?case by simp
qed

text \<open>
  Folding the runs of repeated coordinates of a unit without a GPS fix is idempotent and keeps
  the places the vehicle was seen at, in their order: it only drops repetitions.
\<close>

theorem foldFrozenFixRuns_idempotent:
  "foldFrozenFixRuns (foldFrozenFixRuns samples) = foldFrozenFixRuns samples
   \<and> remdups_adj (map tsPoint (foldFrozenFixRuns samples)) = remdups_adj (map tsPoint samples)"
proof (induction samples rule: length_induct)
  case (1 samples)
  show ?case
  proof (cases samples)
    case (Cons b r)
    obtain bs q where d: "b # r = (b # bs) @ q" "list_all (\<lambda>s. tsPoint s = tsPoint b) bs"
        "q = [] \<or> tsPoint (hd q) \<noteq> tsPoint b" "length q \<le> length r"
      by (rule run_decompose)
    let ?q = "foldFrozenFixRuns q" and ?b = "b\<lparr>tsFrozenGap := Some (frozenGapOf (b # bs))\<rparr>"
    have IH: "foldFrozenFixRuns ?q = ?q" "remdups_adj (map tsPoint ?q) = remdups_adj (map tsPoint q)"
      using 1 d(4) Cons by (simp_all add: le_imp_less_Suc)
    have q: "?q = [] \<or> tsPoint (hd ?q) \<noteq> tsPoint b" "(?q = []) = (q = [])" "q \<noteq> [] \<Longrightarrow> tsPoint (hd ?q) = tsPoint (hd q)"
      using d(3) foldFrozenFixRuns_hd [of q] by (cases "q = []"; simp)+
    have same: "isFrozenRun (b # bs) ?q = isFrozenRun (b # bs) q" by (rule isFrozenRun_cong) (use q in auto)
    have place: "tsPoint ?b = tsPoint b" by (simp add: tsPoint_def)
    have once: "foldFrozenFixRuns (b # r) = (if isFrozenRun (b # bs) q then [?b] else b # bs) @ ?q"
      unfolding d(1) by (rule foldFrozenFixRuns_block [OF d(2,3)])
    have "foldFrozenFixRuns ([?b] @ ?q) = [?b] @ ?q"
      using foldFrozenFixRuns_block [of ?b "[]" ?q] q(1) IH(1) place by (simp add: isFrozenRun_def)
    moreover have "foldFrozenFixRuns ((b # bs) @ ?q) = (b # bs) @ ?q" if "\<not> isFrozenRun (b # bs) q"
      using foldFrozenFixRuns_block [OF d(2) q(1)] that same IH(1) by simp
    moreover have "remdups_adj (map tsPoint ([?b] @ ?q)) = remdups_adj (map tsPoint ((b # bs) @ q))"
      using remdups_adj_block [of tsPoint ?b "[]" ?q] remdups_adj_block [OF d(2,3)] q(1) IH(2) place by simp
    moreover have "remdups_adj (map tsPoint ((b # bs) @ ?q)) = remdups_adj (map tsPoint ((b # bs) @ q))"
      using remdups_adj_block [OF d(2) q(1)] remdups_adj_block [OF d(2,3)] IH(2) by simp
    ultimately show ?thesis unfolding Cons once d(1) [symmetric] using d(1) by (auto simp del: foldFrozenFixRuns.simps)
  qed simp
qed

section \<open>The start of the service window\<close>

text \<open>
  The stays inside the radius as the comment describes them: from the first point inside to the next
  point outside, or to the last point inside where the samples end inside.
\<close>

definition stayEnd :: "int \<Rightarrow> (bool \<times> int) list \<Rightarrow> int" where
  "stayEnd l points =
     (case dropWhile fst points of [] \<Rightarrow> snd (last ((True, l) # takeWhile fst points)) | (_, e) # _ \<Rightarrow> e)"

function stays :: "(bool \<times> int) list \<Rightarrow> (int \<times> int) list" where
  "stays [] = []"
| "stays ((False, t) # points) = stays points"
| "stays ((True, t) # points) = (t, stayEnd t points) # stays (dropWhile fst points)"
  by pat_completeness auto
termination stays
  by (relation "measure length") (auto simp: le_imp_less_Suc length_dropWhile_le)

lemma stayEnd_Cons_inside: "stayEnd l ((True, t) # points) = stayEnd t points"
  by (cases "dropWhile fst points") (simp_all add: stayEnd_def del: dropWhile_eq_Nil_conv)

lemma centerLoop_stay:
  "centerLoop m (Some s) (Some l) points =
     (if stayEnd l points - s \<ge> m then Some s else centerLoop m None None (dropWhile fst points))"
proof (induction points arbitrary: l)
  case Nil
  then show ?case by (simp add: stayEnd_def)
next
  case (Cons p points)
  then show ?case by (cases p) (auto simp: stayEnd_Cons_inside stayEnd_def [of l "(False, _) # _"])
qed

lemma centerLoop_stays:
  "centerLoop m None None points = map_option fst (List.find (\<lambda>(s, e). e - s \<ge> m) (stays points))"
  by (induction points rule: stays.induct) (auto simp: centerLoop_stay)

text \<open>The loop finds exactly the start of the first stay of the minimum length.\<close>

lemma center_arrival_is_first_long_stay:
  "findCenterArrivalMs samples center radiusMeters minStayMs =
     Option.bind center (\<lambda>c.
       map_option fst (List.find (\<lambda>(s, e). e - s \<ge> minStayMs) (stays (centerPoints samples c radiusMeters))))"
  by (cases center) (simp_all add: findCenterArrivalMs_def centerLoop_stays)

section \<open>The end of the service window\<close>

definition timesOf :: "string list \<Rightarrow> stop_events \<Rightarrow> int list" where
  "timesOf types events = List.map_filter (\<lambda>(e, t). if e \<in> set types then t else None) events"

definition minimumOf :: "int list \<Rightarrow> int option" where
  "minimumOf ts = (if ts = [] then None else Some (Min (set ts)))"

lemma timesOf_simps [simp]:
  "timesOf types [] = []"
  "timesOf types ((e, Some t) # events) = (if e \<in> set types then t # timesOf types events else timesOf types events)"
  "timesOf types ((e, None) # events) = timesOf types events"
  by (simp_all add: timesOf_def List.map_filter_simps)

lemma earliestOf_min: "earliestOf types found events = minimumOf (case_option [] (\<lambda>f. [f]) found @ timesOf types events)"
proof (induction types found events rule: earliestOf.induct)
  case (2 types found e time events)
  have cons: "minimumOf (f # t # ts) = minimumOf (min f t # ts)" for f t ts
    by (cases ts) (simp_all add: minimumOf_def min.assoc)
  show ?case
    using 2 cons by (cases time; cases found) (auto simp: min_def)
qed (simp split: option.splits add: minimumOf_def)

definition reachedAt :: "stop_events \<Rightarrow> int option" where
  "reachedAt events =
     coalesce (minimumOf (timesOf [''STOP_ARRIVED''] events)) (minimumOf (timesOf [''STOP_DELIVERED'', ''STOP_FAILED''] events))"

lemma lastStopLoop_max:
  "map_option fst (lastStopLoop lst stops) =
     (if list_all (\<lambda>e. reachedAt e \<noteq> None) stops
      then (if lst = None \<and> stops = [] then None
            else Some (Max (set (case_option [] (\<lambda>l. [fst l]) lst @ map (the \<circ> reachedAt) stops))))
      else None)"
proof (induction lst stops rule: lastStopLoop.induct)
  case (1 lst)
  then show ?case by (cases lst) auto
next
  case (2 lst events stops)
  show ?case
  proof (cases "reachedAt events")
    case None
    then show ?thesis by (simp add: earliestOf_min reachedAt_def)
  next
    case (Some t)
    have r: "coalesce (earliestOf [''STOP_ARRIVED''] None events)
        (earliestOf [''STOP_DELIVERED'', ''STOP_FAILED''] None events) = Some t"
      using Some by (simp add: earliestOf_min reachedAt_def)
    have m: "Max (insert a (insert b S)) = Max (insert (max a b) S)" if "finite S" for a b :: int and S
      using that by (cases "S = {}") (auto simp: max.assoc)
    note IH = 2 [OF refl refl r]
    show ?thesis
      using IH r Some m [of "(the \<circ> reachedAt) ` set stops"]
      by (cases lst) (auto simp: Let_def max_def)
  qed
qed

text \<open>The window ends when the last stop is reached.\<close>

lemma service_window_end:
  "map_option fst (findLastStopReached stops) =
     (if stops = [] \<or> None \<in> set (map reachedAt stops) then None
      else Some (Max (set (map (the \<circ> reachedAt) stops))))"
proof -
  have "None \<in> set (map reachedAt stops) \<longleftrightarrow> \<not> list_all (\<lambda>e. reachedAt e \<noteq> None) stops"
    by (induction stops) auto
  then show ?thesis using lastStopLoop_max [of None stops] by (simp add: findLastStopReached_def)
qed

text \<open>
  Claim C39: the service window of a day. It starts with the first stay at the center of the minimum
  length: cutting the stays out of the sorted samples and searching them in order gives what the single
  loop computes. It ends when the last stop is reached: the end is open exactly when there is no stop or
  some stop was never reached, and otherwise the latest of the stops' instants, where a stop counts from
  its earliest arrival, or without one from its earliest result.
\<close>

theorem service_window_start_and_end:
  "findCenterArrivalMs samples center radiusMeters minStayMs =
     Option.bind center (\<lambda>c.
       map_option fst (List.find (\<lambda>(s, e). e - s \<ge> minStayMs) (stays (centerPoints samples c radiusMeters))))
   \<and> map_option fst (findLastStopReached stops) =
     (if stops = [] \<or> None \<in> set (map reachedAt stops) then None
      else Some (Max (set (map (the \<circ> reachedAt) stops))))"
  using center_arrival_is_first_long_stay service_window_end by blast

section \<open>Cutting the trail\<close>

lemma js_slice_nth: "from \<le> i \<Longrightarrow> i < until \<Longrightarrow> until \<le> length xs \<Longrightarrow> js_slice xs from until ! (i - from) = xs ! i"
  by (simp add: js_slice_def)

lemma length_js_slice: "until \<le> length xs \<Longrightarrow> length (js_slice xs from until) = until - from"
  by (simp add: js_slice_def)

text \<open>The indices kept by a cut lie between their minimum and maximum.\<close>

lemma cut_bounds:
  assumes "a \<in> set kept"
  shows "Min (set (map f kept)) \<le> f a" and "f a < Max (set (map f kept)) + (1 :: nat)"
  using assms by (auto intro: Min_le Max_ge le_imp_less_Suc)

lemma cut_end:
  assumes "kept \<noteq> []" and "list_all (\<lambda>a. f a < n) kept"
  shows "Max (set (map f kept)) + 1 \<le> (n :: nat)"
proof -
  have "Max (f ` set kept) \<in> f ` set kept" using assms(1) by (intro Max_in) auto
  then show ?thesis using assms(2) by (auto simp: list_all_iff)
qed

text \<open>
  What the web adapter requires of a daily route: one anchor per source sample, a line of at least two
  coordinates that every anchor points into, and tunnels only between anchors that exist.
\<close>

definition anchors_in_range :: "daily_route \<Rightarrow> bool" where
  "anchors_in_range route = list_all (\<lambda>a. daCoordinateIndex a < length (drCoordinates route)) (drAnchors route)"

definition adapter_accepts :: "daily_route \<Rightarrow> bool" where
  "adapter_accepts route =
     (length (drAnchors route) = drSourceSampleCount route \<and> length (drCoordinates route) \<ge> 2
      \<and> anchors_in_range route
      \<and> list_all (\<lambda>b. case rbInferredTunnel b of None \<Rightarrow> True
           | Some t \<Rightarrow> itFromObservedAt t \<in> set (map daObservedAt (drAnchors route))
               \<and> itConfirmedByObservedAt t \<in> set (map daObservedAt (drAnchors route))) (drBridges route))"

definition anchorPoint :: "daily_route \<Rightarrow> daily_anchor \<Rightarrow> iso \<times> real \<times> real" where
  "anchorPoint route a = (daObservedAt a, drCoordinates route ! daCoordinateIndex a)"

text \<open>
  Claim C38: a daily route cut to the service window is one the web adapter accepts, holds exactly the
  anchors of the window with the coordinates they had before the cut, and no bridge that leaves the window.
\<close>

theorem trimmed_daily_route_accepted:
  assumes "anchors_in_range route" and "trimDailyRoute inside route = Some res"
  shows "adapter_accepts res
    \<and> map (anchorPoint res) (drAnchors res)
        = map (anchorPoint route) (filter (\<lambda>a. inside (daObservedAt a)) (drAnchors route))
    \<and> list_all (\<lambda>b. inside (rbFromObservedAt b) \<and> inside (rbToObservedAt b)) (drBridges res)"
proof -
  let ?kept = "filter (\<lambda>a. inside (daObservedAt a)) (drAnchors route)"
  let ?from = "Min (set (map daCoordinateIndex ?kept))" and ?until = "Max (set (map daCoordinateIndex ?kept)) + 1"
  let ?few = "length ?kept < 2 \<or> length (js_slice (drCoordinates route) ?from ?until) < 2"
  let ?res = "route\<lparr>drAnchors := map (\<lambda>a. a\<lparr>daCoordinateIndex := daCoordinateIndex a - ?from\<rparr>) ?kept,
      drBridges := map (trimBridge (map daObservedAt ?kept))
        (filter (\<lambda>b. inside (rbFromObservedAt b) \<and> inside (rbToObservedAt b)) (drBridges route)),
      drCoordinates := js_slice (drCoordinates route) ?from ?until, drSourceSampleCount := length ?kept\<rparr>"
  have eq: "trimDailyRoute inside route = (if ?few then None else Some ?res)"
    by (simp only: trimDailyRoute_def Let_def)
  have "\<not> ?few"
  proof
    assume ?few
    then have "trimDailyRoute inside route = None" unfolding eq by (rule if_P)
    then show False using assms(2) by simp
  qed
  then have ok: "\<not> length ?kept < 2" "\<not> length (js_slice (drCoordinates route) ?from ?until) < 2" by blast+
  have res: "res = ?res"
  proof -
    have "trimDailyRoute inside route = Some ?res" unfolding eq by (rule if_not_P [OF \<open>\<not> ?few\<close>])
    then show ?thesis unfolding assms(2) by (rule option.inject [THEN iffD1])
  qed
  have range: "list_all (\<lambda>a. daCoordinateIndex a < length (drCoordinates route)) ?kept"
    using assms(1) by (auto simp: anchors_in_range_def list_all_iff)
  have until: "?until \<le> length (drCoordinates route)"
    by (rule cut_end [OF _ range]) (use ok(1) in auto)
  have index: "daCoordinateIndex a - ?from < length (js_slice (drCoordinates route) ?from ?until)"
      "js_slice (drCoordinates route) ?from ?until ! (daCoordinateIndex a - ?from) = drCoordinates route ! daCoordinateIndex a"
    if "a \<in> set ?kept" for a
    using cut_bounds [OF that, of daCoordinateIndex] until
    by (simp_all only: length_js_slice [OF until] js_slice_nth [OF _ _ until])
  have at: "map daObservedAt (drAnchors res) = map daObservedAt ?kept" by (simp add: res)
  have "adapter_accepts res"
    using ok(2) index(1) unfolding adapter_accepts_def anchors_in_range_def at
    by (auto simp: res list_all_iff trimBridge_def split: option.splits)
  moreover have "map (anchorPoint res) (drAnchors res) = map (anchorPoint route) ?kept"
    using index(2) by (simp add: res anchorPoint_def)
  moreover have "list_all (\<lambda>b. inside (rbFromObservedAt b) \<and> inside (rbToObservedAt b)) (drBridges res)"
    by (auto simp: res list_all_iff trimBridge_def split: option.splits)
  ultimately show ?thesis by blast
qed

definition sample_route :: daily_route where
  "sample_route =
     \<lparr>drAnchors = map (\<lambda>i. \<lparr>daCoordinateIndex = i, daObservedAt = Iso (int i)\<rparr>) [0, 2, 3, 5],
      drBridges = [\<lparr>rbFromObservedAt = Iso 2, rbToObservedAt = Iso 3, rbReason = ''GPS_GAP'',
        rbInferredTunnel = Some \<lparr>itFromObservedAt = Iso 0, itConfirmedByObservedAt = Iso 3, itOther = JNull\<rparr>\<rparr>],
      drCoordinates = map (\<lambda>i. (real i, 0)) [0, 1, 2, 3, 4, 5], drSourceSampleCount = 4\<rparr>"

definition sample_cut :: daily_route where
  "sample_cut =
     \<lparr>drAnchors = [\<lparr>daCoordinateIndex = 0, daObservedAt = Iso 2\<rparr>, \<lparr>daCoordinateIndex = 1, daObservedAt = Iso 3\<rparr>,
        \<lparr>daCoordinateIndex = 3, daObservedAt = Iso 5\<rparr>],
      drBridges = [\<lparr>rbFromObservedAt = Iso 2, rbToObservedAt = Iso 3, rbReason = ''GPS_GAP'', rbInferredTunnel = None\<rparr>],
      drCoordinates = [(2, 0), (3, 0), (4, 0), (5, 0)], drSourceSampleCount = 3\<rparr>"

theorem trimmed_daily_route_accepted_witness:
  "trimDailyRoute (insideWindow \<lparr>swStartMs = 1, swEndMs = None\<rparr>) sample_route = Some sample_cut
   \<and> adapter_accepts sample_cut"
proof -
  have "trimDailyRoute (insideWindow \<lparr>swStartMs = 1, swEndMs = None\<rparr>) sample_route = Some sample_cut"
    by (simp add: trimDailyRoute_def sample_route_def sample_cut_def insideWindow_def js_slice_def trimBridge_def)
  moreover have "anchors_in_range sample_route" by (simp add: anchors_in_range_def sample_route_def)
  ultimately show ?thesis using trimmed_daily_route_accepted [of sample_route] by blast
qed

section \<open>Departure from the depot\<close>

lemma lastInsideBelow_Some:
  "lastInsideBelow inside xs n = Some i \<Longrightarrow> i < n \<and> inside (xs ! i) \<and> (\<forall>j. i < j \<and> j < n \<longrightarrow> \<not> inside (xs ! j))"
  by (induction n) (auto split: if_splits simp: less_Suc_eq)

lemma firstInsideFrom_spec:
  "firstInsideFrom inside xs i \<le> i \<and> (\<forall>j. firstInsideFrom inside xs i \<le> j \<and> j < i \<longrightarrow> inside (xs ! j))"
proof (induction i)
  case (Suc i)
  show ?case
  proof (cases "inside (xs ! i)")
    case True
    then show ?thesis using Suc less_Suc_eq by auto
  qed auto
qed simp

lemma depotDeparture_simps [simp]:
  "ddArrivedAt (depotDeparture a d c s) = a" "ddDepartedAt (depotDeparture a d c s) = d"
  "evStatus (ddEvidence (depotDeparture a d c s)) = s"
  "evEvidenceEventId (ddEvidence (depotDeparture a d c s)) = map_option (dpId \<circ> snd) c"
  by (simp_all add: depotDeparture_def split: option.splits)

text \<open>
  A confirmed departure: a sample outside the radius, after a presence at the depot that a position
  inside the radius proves and that began no later.
\<close>

definition present_at :: "depot_input \<Rightarrow> real \<times> real \<Rightarrow> int \<Rightarrow> bool" where
  "present_at di depot a =
     ((case diStartedPosition di of None \<Rightarrow> False | Some p \<Rightarrow> insideDepot depot p) \<and> diStartedAt di = Some a
      \<or> (\<exists>q \<in> set (diSamples di). insideDepot depot (dpPoint q) \<and> dpObservedAt q = a))"

definition confirmed_by :: "depot_input \<Rightarrow> real \<times> real \<Rightarrow> depot_departure \<Rightarrow> depot_sample \<Rightarrow> bool" where
  "confirmed_by di depot d s =
     (s \<in> set (diSamples di) \<and> \<not> insideDepot depot (dpPoint s) \<and> ddDepartedAt d = Some (dpObservedAt s)
      \<and> evEvidenceEventId (ddEvidence d) = Some (dpId s)
      \<and> (\<exists>a. ddArrivedAt d = Some a \<and> a \<le> dpObservedAt s \<and> present_at di depot a))"

lemma departedBeforeStart_confirmed:
  assumes "departedBeforeStart depot before = Some d" and "sorted (map dpObservedAt before)"
    and "set before \<subseteq> set (diSamples di)"
  shows "evStatus (ddEvidence d) = DEPOT_CONFIRMED \<and> (\<exists>s. confirmed_by di depot d s)"
proof -
  let ?in = "\<lambda>s. insideDepot depot (dpPoint s)"
  obtain i where i: "lastInsideBelow ?in before (length before) = Some i" "i + 1 < length before"
    and d: "d = depotDeparture (Some (dpObservedAt (before ! firstInsideFrom ?in before i)))
      (Some (dpObservedAt (before ! (i + 1)))) (Some (depot, before ! (i + 1))) DEPOT_CONFIRMED"
    using assms(1) by (auto simp: departedBeforeStart_def Let_def split: option.splits if_splits)
  let ?f = "firstInsideFrom ?in before i"
  have inside: "?in (before ! i)" and outside: "\<not> ?in (before ! (i + 1))"
    using lastInsideBelow_Some [OF i(1)] i(2) by auto
  have f: "?f \<le> i" "?in (before ! ?f)"
    using firstInsideFrom_spec [of ?in before i] inside by (auto simp: le_less)
  have "dpObservedAt (before ! ?f) \<le> dpObservedAt (before ! (i + 1))"
    using sorted_nth_mono [OF assms(2), of ?f "i + 1"] f(1) i(2) by simp
  moreover have "before ! (i + 1) \<in> set (diSamples di)" "before ! ?f \<in> set (diSamples di)"
    using assms(3) f(1) i(2) by (auto intro: nth_mem)
  ultimately have "confirmed_by di depot d (before ! (i + 1))"
    using outside f(2) by (auto simp: confirmed_by_def present_at_def d)
  then show ?thesis by (auto simp: d)
qed

lemma departedInWindow_cases:
  assumes "evStatus (ddEvidence (departedInWindow depot arrivedAt inWindow)) = DEPOT_CONFIRMED"
  obtains a s where "arrivedAt = Some a" and "s \<in> set inWindow" and "a \<le> dpObservedAt s"
    and "\<not> insideDepot depot (dpPoint s)"
    and "departedInWindow depot arrivedAt inWindow =
      depotDeparture (Some a) (Some (dpObservedAt s)) (Some (depot, s)) DEPOT_CONFIRMED"
proof (cases arrivedAt)
  case (Some a)
  let ?find = "List.find (\<lambda>s. dpObservedAt s \<ge> a \<and> \<not> insideDepot depot (dpPoint s)) inWindow"
  obtain s where s: "?find = Some s"
    using assms Some by (cases ?find) (auto simp: departedInWindow_def)
  then show ?thesis using that [of a s] Some find_SomeD [OF s] by (simp add: departedInWindow_def)
qed (use assms in \<open>simp add: departedInWindow_def\<close>)

text \<open>
  Over samples in the order of time, a departure from the depot is CONFIRMED exactly when a
  departure time is given, and it is then backed by the evidence: the departure is a sample outside the
  radius, its identifier is the evidence, and it comes after an arrival at which the vehicle was inside
  the radius.
\<close>

theorem depot_departure_backed:
  assumes "sorted (map dpObservedAt (diSamples di))"
  shows "(evStatus (ddEvidence (resolveDepotDeparture di)) = DEPOT_CONFIRMED
      \<longleftrightarrow> ddDepartedAt (resolveDepotDeparture di) \<noteq> None)
    \<and> (evStatus (ddEvidence (resolveDepotDeparture di)) = DEPOT_CONFIRMED
      \<longrightarrow> (\<exists>depot s. diDepot di = Some depot \<and> confirmed_by di depot (resolveDepotDeparture di) s))"
proof (cases "diDepot di = None \<or> diStartedAt di = None")
  case True
  then have "resolveDepotDeparture di = depotDeparture None None None DEPOT_UNAVAILABLE"
    by (auto simp: resolveDepotDeparture_def split: option.splits)
  then show ?thesis by simp
next
  case False
  then obtain depot st where d: "diDepot di = Some depot" and st: "diStartedAt di = Some st" by auto
  let ?win = "filter (\<lambda>s. dpObservedAt s \<ge> st \<and> (case diEndAt di of None \<Rightarrow> True | Some e \<Rightarrow> dpObservedAt s < e)) (diSamples di)"
  let ?before = "filter (\<lambda>s. dpObservedAt s < st \<and> dpObservedAt s \<ge> st - DEPOT_DEPARTURE_LOOKBACK_MS) (diSamples di)"
  let ?si = "case diStartedPosition di of None \<Rightarrow> False | Some p \<Rightarrow> insideDepot depot p"
  let ?arr = "if ?si then Some st else map_option dpObservedAt (List.find (\<lambda>s. insideDepot depot (dpPoint s)) ?win)"
  have eq: "resolveDepotDeparture di =
      (case (if ?si then None else departedBeforeStart depot ?before) of Some r \<Rightarrow> r | None \<Rightarrow> departedInWindow depot ?arr ?win)"
    by (simp only: resolveDepotDeparture_def d st option.case prod.case Let_def)
  show ?thesis
  proof (cases "if ?si then None else departedBeforeStart depot ?before")
    case (Some r)
    have "\<not> ?si" using Some by (metis option.distinct(1))
    then have bs: "departedBeforeStart depot ?before = Some r" using Some by simp
    have r: "evStatus (ddEvidence r) = DEPOT_CONFIRMED \<and> (\<exists>s. confirmed_by di depot r s)"
      by (rule departedBeforeStart_confirmed [OF bs]) (use assms in \<open>auto intro: sorted_filter\<close>)
    have "resolveDepotDeparture di = r" unfolding eq Some by simp
    then show ?thesis using r d by (auto simp: confirmed_by_def)
  next
    case None
    have w: "resolveDepotDeparture di = departedInWindow depot ?arr ?win" unfolding eq None by simp
    have iff: "evStatus (ddEvidence (departedInWindow depot a xs)) = DEPOT_CONFIRMED
        \<longleftrightarrow> ddDepartedAt (departedInWindow depot a xs) \<noteq> None" for a xs
      by (auto simp: departedInWindow_def split: option.splits)
    have backed: "confirmed_by di depot (departedInWindow depot ?arr ?win) s"
      if h1: "?arr = Some a" and h2: "s \<in> set ?win" and h3: "a \<le> dpObservedAt s"
        and h4: "\<not> insideDepot depot (dpPoint s)"
        and h5: "departedInWindow depot ?arr ?win =
          depotDeparture (Some a) (Some (dpObservedAt s)) (Some (depot, s)) DEPOT_CONFIRMED" for a s
    proof -
      have "present_at di depot a"
      proof (cases ?si)
        case True
        then show ?thesis using h1 st by (simp add: present_at_def)
      next
        case False
        then have "map_option dpObservedAt (List.find (\<lambda>s. insideDepot depot (dpPoint s)) ?win) = Some a"
          using h1 by simp
        then obtain q where q: "List.find (\<lambda>s. insideDepot depot (dpPoint s)) ?win = Some q" "dpObservedAt q = a"
          by blast
        then show ?thesis using find_SomeD [OF q(1)] by (auto simp: present_at_def)
      qed
      then show ?thesis unfolding h5 using h2 h3 h4 by (simp add: confirmed_by_def)
    qed
    have "\<exists>s. confirmed_by di depot (departedInWindow depot ?arr ?win) s"
      if c: "evStatus (ddEvidence (departedInWindow depot ?arr ?win)) = DEPOT_CONFIRMED"
      by (rule departedInWindow_cases [OF c]) (rule exI, rule backed)
    then show ?thesis unfolding w using iff d by blast
  qed
qed

definition sample_depot :: depot_input where
  "sample_depot =
     \<lparr>diDepot = Some (0, 0), diEndAt = None,
      diSamples = [\<lparr>dpId = ''near'', dpPoint = (0, 0), dpObservedAt = 10\<rparr>, \<lparr>dpId = ''far'', dpPoint = (0, 180), dpObservedAt = 20\<rparr>],
      diStartedAt = Some 5, diStartedPosition = None\<rparr>"

lemma sample_depot_inside: "insideDepot (0, 0) (0, 0)" "\<not> insideDepot (0, 0) (0, 180)"
  using pi_ge_two
  by (simp_all add: insideDepot_def depotHaversine_def haversineChord_def js_atan2_def DEPOT_RETURN_THRESHOLD_METERS_def)

theorem depot_departure_backed_witness:
  "ddDepartedAt (resolveDepotDeparture sample_depot) = Some 20
   \<and> evStatus (ddEvidence (resolveDepotDeparture sample_depot)) = DEPOT_CONFIRMED
   \<and> (\<exists>depot s. diDepot sample_depot = Some depot \<and> confirmed_by sample_depot depot (resolveDepotDeparture sample_depot) s)"
proof -
  have "ddDepartedAt (resolveDepotDeparture sample_depot) = Some 20"
    using sample_depot_inside
    by (simp add: resolveDepotDeparture_def sample_depot_def departedBeforeStart_def departedInWindow_def)
  moreover have "sorted (map dpObservedAt (diSamples sample_depot))" by (simp add: sample_depot_def)
  ultimately show ?thesis using depot_departure_backed [of sample_depot] by simp
qed

end
