(* ===== verification/RouteBasics.thy ===== *)
theory RouteBasics
  imports JsText ShopScope
begin

text \<open>
  What the operations on a running route ask of it: the delivery options in its constraints
  (route-plans/delivery-options.ts), whether its delivery work is complete and the return grace expired
  (route-plans/kfood-delivery-completion.ts, route-plans/route-plan-lifecycle.ts), whether it belongs to the private
  demonstration (driver/private-driver-demo.ts) and whether a stop can be routed to
  (route-plans/route-stop-location-diagnostic.ts). The process environment is an argument.
\<close>

section \<open>Sequencing of results\<close>

text \<open>A step that may raise, followed by the rest of the function.\<close>

definition attempt :: "'e + 'a \<Rightarrow> ('a \<Rightarrow> 'e + 'b) \<Rightarrow> 'e + 'b" where
  "attempt r k = (case r of Inl e \<Rightarrow> Inl e | Inr x \<Rightarrow> k x)"

text \<open>\<^verbatim>\<open>if (condition) throw error\<close>, followed by the rest of the function.\<close>

definition refuse :: "bool \<Rightarrow> 'e \<Rightarrow> 'e + 'b \<Rightarrow> 'e + 'b" where
  "refuse c e k = (if c then Inl e else k)"

lemma attempt_simps [simp]: "attempt (Inl e) k = Inl e" "attempt (Inr x) k = k x"
  by (simp_all add: attempt_def)

lemma refuse_simps [simp]: "refuse True e k = Inl e" "refuse False e k = k"
  by (simp_all add: refuse_def)

lemma attempt_Inr [simp]: "attempt r k = Inr y \<longleftrightarrow> (\<exists>x. r = Inr x \<and> k x = Inr y)"
  by (cases r) auto

lemma refuse_Inr [simp]: "refuse c e k = Inr y \<longleftrightarrow> \<not> c \<and> k = Inr y"
  by (cases c) auto

text \<open>Elimination of a successful run, one step at a time.\<close>

lemma attemptE: "attempt r k = Inr y \<Longrightarrow> (\<And>x. r = Inr x \<Longrightarrow> k x = Inr y \<Longrightarrow> P) \<Longrightarrow> P"
  by (cases r) auto

lemma attempt2E:
  "attempt r (case_prod k) = Inr y \<Longrightarrow> (\<And>a b. r = Inr (a, b) \<Longrightarrow> k a b = Inr y \<Longrightarrow> P) \<Longrightarrow> P"
  by (cases r) auto

lemma attempt3E:
  "attempt r (case_prod (\<lambda>a. case_prod (k a))) = Inr y
   \<Longrightarrow> (\<And>a b c. r = Inr (a, b, c) \<Longrightarrow> k a b c = Inr y \<Longrightarrow> P) \<Longrightarrow> P"
  by (cases r) auto

lemma refuseE: "refuse c e k = Inr y \<Longrightarrow> (\<not> c \<Longrightarrow> k = Inr y \<Longrightarrow> P) \<Longrightarrow> P"
  by (cases c) auto

lemmas run_elims = attempt3E attempt2E attemptE refuseE

lemma attempt_cong [fundef_cong]:
  "r = r' \<Longrightarrow> (\<And>x. r' = Inr x \<Longrightarrow> k x = k' x) \<Longrightarrow> attempt r k = attempt r' k'"
  by (cases r') auto

section \<open>delivery-options.ts\<close>

record proof_policy =
  photoRequired :: bool
  signatureRequired :: bool

datatype toll_policy = ALLOW_TOLLS | AVOID_TOLLS

definition readDeliveryProof :: "json \<Rightarrow> proof_policy" where
  "readDeliveryProof v =
     (let policy = jget v ''deliveryProof''
      in \<lparr>photoRequired = (jget policy ''photoRequired'' = JBool True),
          signatureRequired = (jget policy ''signatureRequired'' = JBool True)\<rparr>)"

definition readTollPolicy :: "json \<Rightarrow> toll_policy" where
  "readTollPolicy v = (if jget v ''tollPolicy'' = JStr ''AVOID_TOLLS'' then AVOID_TOLLS else ALLOW_TOLLS)"

definition parseDeliveryProof :: "json \<Rightarrow> proof_policy option" where
  "parseDeliveryProof v =
     (if \<not> is_record v \<or> \<not> list_all (\<lambda>k. k \<in> set [''photoRequired'', ''signatureRequired'']) (jkeys v) then None
      else case (jget v ''photoRequired'', jget v ''signatureRequired'') of
             (JBool p, JBool q) \<Rightarrow> Some \<lparr>photoRequired = p, signatureRequired = q\<rparr>
           | _ \<Rightarrow> None)"

definition proofRequired :: "proof_policy \<Rightarrow> bool" where
  "proofRequired p = (photoRequired p \<or> signatureRequired p)"

definition proofPolicyJson :: "proof_policy \<Rightarrow> json" where
  "proofPolicyJson p =
     JObj [(''photoRequired'', JBool (photoRequired p)), (''signatureRequired'', JBool (signatureRequired p))]"

fun tollPolicyText :: "toll_policy \<Rightarrow> string" where
  "tollPolicyText ALLOW_TOLLS = ''ALLOW_TOLLS''"
| "tollPolicyText AVOID_TOLLS = ''AVOID_TOLLS''"

definition mergeDeliveryOptions :: "json \<Rightarrow> proof_policy option \<Rightarrow> toll_policy option \<Rightarrow> json" where
  "mergeDeliveryOptions constraints pr toll =
     (let base = (case constraints of JObj kvs \<Rightarrow> kvs | _ \<Rightarrow> []);
          withProof = (case pr of None \<Rightarrow> base | Some p \<Rightarrow> jset ''deliveryProof'' (proofPolicyJson p) base)
      in JObj (case toll of None \<Rightarrow> withProof | Some t \<Rightarrow> jset ''tollPolicy'' (JStr (tollPolicyText t)) withProof))"

text \<open>What was merged into the constraints is what is read from them; the other option is kept.\<close>

lemma readDeliveryProof_merge:
  "readDeliveryProof (mergeDeliveryOptions c pr toll) = (case pr of None \<Rightarrow> readDeliveryProof c | Some p \<Rightarrow> p)"
  by (cases c; cases pr; cases toll)
    (simp_all add: readDeliveryProof_def mergeDeliveryOptions_def proofPolicyJson_def map_of_jset Let_def)

lemma readTollPolicy_merge:
  "readTollPolicy (mergeDeliveryOptions c pr toll) = (case toll of None \<Rightarrow> readTollPolicy c | Some t \<Rightarrow> t)"
proof (cases toll)
  case None
  then show ?thesis
    by (cases c; cases pr) (simp_all add: readTollPolicy_def mergeDeliveryOptions_def map_of_jset Let_def)
next
  case (Some t)
  then show ?thesis
    by (cases t; cases c; cases pr) (simp_all add: readTollPolicy_def mergeDeliveryOptions_def map_of_jset Let_def)
qed

lemma parseDeliveryProof_json: "parseDeliveryProof (proofPolicyJson p) = Some p"
  by (simp add: parseDeliveryProof_def proofPolicyJson_def)

section \<open>private-driver-demo.ts\<close>

definition KFOOD_PRIVATE_DEMO_APP_ID :: string where
  "KFOOD_PRIVATE_DEMO_APP_ID = ''clever-route-kfood-private-demo''"

definition KFOOD_PRIVATE_DEMO_SHOP_DOMAIN :: string where
  "KFOOD_PRIVATE_DEMO_SHOP_DOMAIN = ''7hrud1-xq.myshopify.com''"

record demo_env =
  envShopId :: "string option"
  envAccountId :: "string option"

text \<open>\<^verbatim>\<open>UUID_PATTERN\<close>: versions 1 to 5 only.\<close>

definition is_uuid_v1_5 :: "string \<Rightarrow> bool" where
  "is_uuid_v1_5 s =
     (is_hex_uuid s \<and> s ! 14 \<in> set ''12345'' \<and> s ! 19 \<in> set ''89abAB'')"

definition getPrivateDriverDemoConfig :: "demo_env \<Rightarrow> (string \<times> string) option" where
  "getPrivateDriverDemoConfig env =
     (case (envShopId env, envAccountId env) of
        (Some s, Some a) \<Rightarrow>
          (if is_uuid_v1_5 s \<and> is_uuid_v1_5 a then Some (toLowerCase s, toLowerCase a) else None)
      | _ \<Rightarrow> None)"

definition isPrivateDriverDemoAppId :: "string option \<Rightarrow> bool" where
  "isPrivateDriverDemoAppId appId = (appId = Some KFOOD_PRIVATE_DEMO_APP_ID)"

record demo_scope =
  scopeShopId :: "string option"
  scopeAppId :: "string option"
  scopeShopDomain :: "string option"
  scopeAccountId :: "string option"

definition isPrivateDriverDemoScope :: "demo_env \<Rightarrow> demo_scope \<Rightarrow> bool" where
  "isPrivateDriverDemoScope env sc =
     (case getPrivateDriverDemoConfig env of
        None \<Rightarrow> False
      | Some (shop, account) \<Rightarrow>
          isPrivateDriverDemoAppId (scopeAppId sc)
          \<and> scopeShopDomain sc = Some KFOOD_PRIVATE_DEMO_SHOP_DOMAIN
          \<and> scopeShopId sc = Some shop \<and> scopeAccountId sc = Some account)"

section \<open>kfood-delivery-completion.ts and route-plan-lifecycle.ts\<close>

definition KFOOD_RETURN_NAVIGATION_GRACE_MS :: int where
  "KFOOD_RETURN_NAVIGATION_GRACE_MS = 2 * 60 * 60000"

record completion_record =
  coAssignmentGeneration :: int
  coCompletedAt :: "int option"
  coCompletedGeneration :: "int option"
  coCompletedVersionId :: "string option"
  coNavigationUntil :: "int option"
  coStatus :: string

definition hasDeliveryWorkCompleted :: "completion_record \<Rightarrow> bool" where
  "hasDeliveryWorkCompleted r =
     (0 < coAssignmentGeneration r
      \<and> coCompletedGeneration r = Some (coAssignmentGeneration r)
      \<and> (case (coCompletedAt r, coNavigationUntil r) of
           (Some c, Some u) \<Rightarrow> u - c = KFOOD_RETURN_NAVIGATION_GRACE_MS | _ \<Rightarrow> False)
      \<and> (case coCompletedVersionId r of Some v \<Rightarrow> v \<noteq> [] | None \<Rightarrow> False))"

definition hasDeliveryNavigationGraceExpired :: "completion_record \<Rightarrow> int \<Rightarrow> bool" where
  "hasDeliveryNavigationGraceExpired r now =
     (hasDeliveryWorkCompleted r
      \<and> (coStatus r = ''READY''
         \<or> coStatus r \<in> set [''IN_PROGRESS'', ''COMPLETED'']
           \<and> (case coNavigationUntil r of Some u \<Rightarrow> u \<le> now | None \<Rightarrow> False)))"

datatype execution_status = EXEC_READY | EXEC_IN_PROGRESS | EXEC_COMPLETED | EXEC_INCOMPLETE | EXEC_CANCELLED

definition toRouteExecutionStatus :: "string option \<Rightarrow> string list \<Rightarrow> execution_status" where
  "toRouteExecutionStatus status events =
     (if status = Some ''IN_PROGRESS'' then EXEC_IN_PROGRESS
      else if status = Some ''COMPLETED'' then EXEC_COMPLETED
      else if status = Some ''INCOMPLETE'' then EXEC_INCOMPLETE
      else if status = Some ''CANCELLED'' then EXEC_CANCELLED
      else if ''ROUTE_COMPLETED'' \<in> set events then EXEC_COMPLETED
      else if ''ROUTE_PAUSED'' \<in> set events then EXEC_READY
      else if ''ROUTE_STARTED'' \<in> set events then EXEC_IN_PROGRESS
      else EXEC_READY)"

definition toRouteDeliveryDisplayStatus :: "completion_record \<Rightarrow> string list \<Rightarrow> execution_status" where
  "toRouteDeliveryDisplayStatus r events =
     (if coStatus r \<in> set [''IN_PROGRESS'', ''READY''] \<and> hasDeliveryWorkCompleted r then EXEC_COMPLETED
      else toRouteExecutionStatus (Some (coStatus r)) events)"

lemma grace_not_expired_before:
  assumes "coStatus r = ''IN_PROGRESS''" and "coCompletedAt r = Some c"
    and "now < c + KFOOD_RETURN_NAVIGATION_GRACE_MS"
  shows "\<not> hasDeliveryNavigationGraceExpired r now"
  using assms
  by (auto simp: hasDeliveryNavigationGraceExpired_def hasDeliveryWorkCompleted_def split: option.splits)

section \<open>route-stop-location-diagnostic.ts\<close>

datatype location_issue =
    COORDINATES_MISSING | COORDINATES_PARTIAL | COORDINATES_ZERO | COORDINATES_OUT_OF_RANGE
  | COUNTRY_CODE_INVALID | COORDINATES_OUTSIDE_COUNTRY | COORDINATES_OUTSIDE_PROVINCE | GEOCODE_STATUS_INCONSISTENT

text \<open>A coordinate as the callers have it: missing, a number, its text, or a decimal that converts itself.\<close>

datatype coordinate_value = NoCoordinate | CoordinateNumber jsnum | CoordinateText string | CoordinateDecimal jsnum

record location_input =
  liCountryCode :: "string option"
  liGeocodeStatus :: "string option"
  liLatitude :: coordinate_value
  liLongitude :: coordinate_value
  liProvince :: "string option"

record bounds =
  maxLatitude :: real
  maxLongitude :: real
  minLatitude :: real
  minLongitude :: real

definition COUNTRY_BOUNDS :: "(string \<times> bounds) list" where
  "COUNTRY_BOUNDS =
     [(''CA'', \<lparr>maxLatitude = 832 / 10, maxLongitude = - 525 / 10, minLatitude = 416 / 10, minLongitude = - 141\<rparr>),
      (''KR'', \<lparr>maxLatitude = 395 / 10, maxLongitude = 132, minLatitude = 33, minLongitude = 124\<rparr>)]"

definition PROVINCE_BOUNDS :: "(string \<times> bounds) list" where
  "PROVINCE_BOUNDS =
     [(''ON'', \<lparr>maxLatitude = 569 / 10, maxLongitude = - 743 / 10, minLatitude = 415 / 10, minLongitude = - 952 / 10\<rparr>)]"

definition finiteNumber :: "jsnum \<Rightarrow> real option" where
  "finiteNumber n = (case n of Num x \<Rightarrow> Some x | _ \<Rightarrow> None)"

fun numberOrNull :: "coordinate_value \<Rightarrow> real option" where
  "numberOrNull NoCoordinate = None"
| "numberOrNull (CoordinateNumber n) = finiteNumber n"
| "numberOrNull (CoordinateText s) = (if js_trim s \<noteq> [] then finiteNumber (js_number_text s) else None)"
| "numberOrNull (CoordinateDecimal n) = finiteNumber n"

definition normalizeCountryCode :: "string option \<Rightarrow> string option" where
  "normalizeCountryCode v =
     (case v of None \<Rightarrow> None | Some s \<Rightarrow> let n = toUpperCase (js_trim s) in if n = [] then None else Some n)"

definition normalizeProvince :: "string option \<Rightarrow> string option" where
  "normalizeProvince v =
     (case v of None \<Rightarrow> None
      | Some s \<Rightarrow>
          let n = filter is_upper (toUpperCase (js_trim s))
          in if n = ''ONTARIO'' then Some ''ON'' else if n = [] then None else Some n)"

definition isInsideBounds :: "real \<Rightarrow> real \<Rightarrow> bounds \<Rightarrow> bool" where
  "isInsideBounds lat lng b =
     (minLatitude b \<le> lat \<and> lat \<le> maxLatitude b \<and> minLongitude b \<le> lng \<and> lng \<le> maxLongitude b)"

definition outsideOf :: "(string \<times> bounds) list \<Rightarrow> string option \<Rightarrow> real \<Rightarrow> real \<Rightarrow> bool" where
  "outsideOf table code lat lng =
     (case Option.bind code (map_of table) of None \<Rightarrow> False | Some b \<Rightarrow> \<not> isInsideBounds lat lng b)"

definition coordinateIssues :: "string option \<Rightarrow> string option \<Rightarrow> real option \<Rightarrow> real option \<Rightarrow> location_issue list" where
  "coordinateIssues country province lat lng =
     (case (lat, lng) of
        (None, None) \<Rightarrow> [COORDINATES_MISSING]
      | (Some x, Some y) \<Rightarrow>
          (if x < -90 \<or> 90 < x \<or> y < -180 \<or> 180 < y then [COORDINATES_OUT_OF_RANGE]
           else if x = 0 \<and> y = 0 then [COORDINATES_ZERO]
           else (if outsideOf COUNTRY_BOUNDS country x y then [COORDINATES_OUTSIDE_COUNTRY] else [])
                @ (if outsideOf PROVINCE_BOUNDS province x y then [COORDINATES_OUTSIDE_PROVINCE] else []))
      | _ \<Rightarrow> [COORDINATES_PARTIAL])"

definition is_country_code :: "string \<Rightarrow> bool" where
  "is_country_code s = (length s = 2 \<and> list_all is_upper s)"

record location_diagnostic =
  issues :: "location_issue list"
  routeable :: bool
  severityCritical :: bool

definition diagnoseRouteStopLocation :: "location_input \<Rightarrow> location_diagnostic" where
  "diagnoseRouteStopLocation li =
     (let countryCode = normalizeCountryCode (liCountryCode li);
          found =
            (case countryCode of Some c \<Rightarrow> if is_country_code c then [] else [COUNTRY_CODE_INVALID] | None \<Rightarrow> [])
            @ coordinateIssues countryCode (normalizeProvince (liProvince li))
                (numberOrNull (liLatitude li)) (numberOrNull (liLongitude li));
          resolved = (map_option (\<lambda>s. toUpperCase (js_trim s)) (liGeocodeStatus li) = Some ''RESOLVED'');
          all = found @ (if resolved \<and> found \<noteq> [] then [GEOCODE_STATUS_INCONSISTENT] else [])
      in \<lparr>issues = all, routeable = (all = []), severityCritical = (all \<noteq> [])\<rparr>)"

text \<open>A stop is routeable exactly when it has a place on the globe, other than the null island, inside the bounds known for it.\<close>

lemma routeable_iff:
  "routeable (diagnoseRouteStopLocation li) \<longleftrightarrow>
     (case normalizeCountryCode (liCountryCode li) of Some c \<Rightarrow> is_country_code c | None \<Rightarrow> True)
     \<and> (\<exists>x y. numberOrNull (liLatitude li) = Some x \<and> numberOrNull (liLongitude li) = Some y
         \<and> \<bar>x\<bar> \<le> 90 \<and> \<bar>y\<bar> \<le> 180 \<and> (x \<noteq> 0 \<or> y \<noteq> 0)
         \<and> \<not> outsideOf COUNTRY_BOUNDS (normalizeCountryCode (liCountryCode li)) x y
         \<and> \<not> outsideOf PROVINCE_BOUNDS (normalizeProvince (liProvince li)) x y)"
  unfolding diagnoseRouteStopLocation_def coordinateIssues_def Let_def
  by (cases "numberOrNull (liLatitude li)"; cases "numberOrNull (liLongitude li)")
    (auto simp: abs_le_iff split: option.splits)

end
