(* ===== verification/LiveRoute.thy ===== *)
theory LiveRoute
  imports RouteBasics Machines
begin

text \<open>
  Changes to a route while its driver is on the road: route-plans/live-route-change.ts and
  route-plans/live-route-location-correction.ts. The office edits a private draft of the future stops and dispatches it
  as the next publication; the driver app reads the latest publication, acknowledges it and reports events against it.

  The tables are lists of rows in the order of insertion; the unique keys are checked where a row is written. A command
  holds the row lock of its route from its first read to its commit and is rolled back when it raises, so it is one step
  of the state. Digests (\<^verbatim>\<open>sha256(JSON.stringify(v))\<close>) are parameters: \<open>H\<close> of the content of a snapshot, \<open>K\<close> of a
  request. A coordinate is a decimal of seven places, the integer number of its units of the last place; the decimal
  and its text determine each other and the snapshot holds the same number. A stored snapshot is the value that was
  written, or JSON that is no snapshot.
\<close>

section \<open>Rows\<close>

datatype live_error =
    NOT_FOUND | VERSION_CONFLICT | ASSIGNMENT_CHANGED | ROUTE_NOT_IN_PROGRESS | ACCESS_REVOKED | INVALID_INPUT
  | REVISION_CONFLICT | IDEMPOTENCY_CONFLICT | STOP_NOT_FUTURE | DRAFT_NOT_FOUND | DRAFT_CONFLICT
  | STOP_LOCATION_NOT_ROUTEABLE | PUBLICATION_NOT_FOUND
  | UNIQUE_VIOLATION | ROW_NOT_FOUND | INVALID_DATE

fun statusCode :: "live_error \<Rightarrow> int" where
  "statusCode NOT_FOUND = 404"
| "statusCode PUBLICATION_NOT_FOUND = 404"
| "statusCode ACCESS_REVOKED = 403"
| "statusCode INVALID_INPUT = 400"
| "statusCode UNIQUE_VIOLATION = 500"
| "statusCode ROW_NOT_FOUND = 500"
| "statusCode INVALID_DATE = 500"
| "statusCode _ = 409"

datatype stop_status = PENDING | ASSIGNED | EN_ROUTE | ARRIVED | DELIVERED | FAILED | SKIPPED | CANCELLED

datatype text_field =
    RecipientName | Phone | Address1 | Address2 | City | Province | PostalCode | CountryCode | Instructions

record stop_text =
  recipientName :: "string option"
  phone :: "string option"
  address1 :: "string option"
  address2 :: "string option"
  city :: "string option"
  province :: "string option"
  postalCode :: "string option"
  countryCode :: "string option"
  instructions :: "string option"

fun text_get :: "text_field \<Rightarrow> stop_text \<Rightarrow> string option" where
  "text_get RecipientName t = recipientName t"
| "text_get Phone t = phone t"
| "text_get Address1 t = address1 t"
| "text_get Address2 t = address2 t"
| "text_get City t = city t"
| "text_get Province t = province t"
| "text_get PostalCode t = postalCode t"
| "text_get CountryCode t = countryCode t"
| "text_get Instructions t = instructions t"

fun text_set :: "text_field \<Rightarrow> string option \<Rightarrow> stop_text \<Rightarrow> stop_text" where
  "text_set RecipientName v t = t\<lparr>recipientName := v\<rparr>"
| "text_set Phone v t = t\<lparr>phone := v\<rparr>"
| "text_set Address1 v t = t\<lparr>address1 := v\<rparr>"
| "text_set Address2 v t = t\<lparr>address2 := v\<rparr>"
| "text_set City v t = t\<lparr>city := v\<rparr>"
| "text_set Province v t = t\<lparr>province := v\<rparr>"
| "text_set PostalCode v t = t\<lparr>postalCode := v\<rparr>"
| "text_set CountryCode v t = t\<lparr>countryCode := v\<rparr>"
| "text_set Instructions v t = t\<lparr>instructions := v\<rparr>"

fun field_name :: "text_field \<Rightarrow> string" where
  "field_name RecipientName = ''recipientName''"
| "field_name Phone = ''phone''"
| "field_name Address1 = ''address1''"
| "field_name Address2 = ''address2''"
| "field_name City = ''city''"
| "field_name Province = ''province''"
| "field_name PostalCode = ''postalCode''"
| "field_name CountryCode = ''countryCode''"
| "field_name Instructions = ''instructions''"

definition TEXT_FIELDS :: "text_field list" where
  "TEXT_FIELDS = [RecipientName, Phone, Address1, Address2, City, Province, PostalCode, CountryCode, Instructions]"

definition ADDRESS_FIELDS :: "text_field list" where
  "ADDRESS_FIELDS = [Address1, Address2, City, Province, PostalCode, CountryCode]"

record live_stop =
  lsRoutePlanStopId :: string
  lsDeliveryStopId :: string
  lsOrderId :: string
  lsSourceOrderId :: "string option"
  lsSequence :: int
  lsText :: stop_text
  lsLatitude :: "int option"
  lsLongitude :: "int option"
  lsServiceMinutes :: int
  lsTimeWindowStart :: "iso option"
  lsTimeWindowEnd :: "iso option"

record live_snapshot =
  snDeliveryProof :: "proof_policy option"
  snTollPolicy :: "toll_policy option"
  snStops :: "live_stop list"
  snInitialRouteVersionId :: "string option"

datatype stored = Stored live_snapshot | Malformed json

record plan_row =
  plId :: string
  plShopId :: string
  plDriverId :: "string option"
  plStatus :: string
  plAssignmentGeneration :: int
  plConstraints :: json
  plDeliveryWorkCompletedAt :: "int option"
  plDeliveryWorkCompletedGeneration :: "int option"
  plDeliveryWorkCompletedVersionId :: "string option"
  plDriverNavigationUntil :: "int option"
  plUpdatedAt :: int

record shop_row =
  shId :: string
  shAppId :: string
  shShopDomain :: string

record driver_row =
  drId :: string
  drShopId :: string
  drStatus :: string
  drAuthSubject :: "string option"
  drAccountId :: "string option"

record child_row =
  chId :: string
  chRoutePlanId :: string
  chDriverId :: "string option"
  chStatus :: string
  chSupersededAt :: "int option"

record live_order =
  orId :: string
  orShopId :: string
  orSourcePlatform :: string
  orSourceSiteUrl :: "string option"
  orSourceOrderId :: "string option"
  orSourceOrderNumber :: "string option"
  orSourceUpdatedAt :: "int option"

record stop_row =
  srId :: string
  srShopId :: string
  srOrderId :: string
  srText :: stop_text
  srLatitude :: "int option"
  srLongitude :: "int option"
  srGeocodeStatus :: string
  srDeliveryDate :: "int option"
  srTimeWindowStart :: "int option"
  srTimeWindowEnd :: "int option"
  srServiceMinutes :: int
  srStatus :: stop_status

record plan_stop =
  psId :: string
  psShopId :: string
  psRoutePlanId :: string
  psDeliveryStopId :: string
  psSequence :: int
  psEstimatedArrivalAt :: "int option"
  psDistanceFromPreviousMeters :: "int option"
  psDurationFromPreviousSeconds :: "int option"
  psEtaCalculatedAt :: "int option"
  psEtaFailureCode :: "string option"
  psEtaFailureMessage :: "string option"
  psEtaInputRouteVersionId :: "string option"
  psEtaSource :: "string option"
  psEtaStatus :: string

record delivery_fact =
  dfShopId :: string
  dfOrderId :: string
  dfSource :: live_order
  dfMappingDiagnostics :: json
  dfDeliveryDate :: "int option"
  dfTimeWindowStart :: "int option"
  dfTimeWindowEnd :: "int option"
  dfGeocodeStatus :: string

record live_state =
  lvRoutePlanId :: string
  lvShopId :: string
  lvAssignmentGeneration :: int
  lvDriverId :: string
  lvBaselineRouteVersionId :: string
  lvRevision :: int
  lvDraftSnapshot :: stored
  lvDraftHash :: string
  lvLatestPublicationId :: string
  lvLatestSequence :: int
  lvAppliedPublicationId :: "string option"
  lvAppliedSequence :: int
  lvAppliedAt :: "int option"

record publication =
  pbId :: string
  pbRoutePlanId :: string
  pbShopId :: string
  pbAssignmentGeneration :: int
  pbDriverId :: string
  pbSequence :: int
  pbContentHash :: string
  pbSnapshot :: stored
  pbPublishedAt :: int
  pbNotificationStatus :: string
  pbNextAttemptAt :: "int option"
  pbErrorCode :: "string option"

record draft_response =
  rdRoutePlanId :: string
  rdRevision :: int
  rdAssignmentGeneration :: string
  rdExpectedRouteVersionId :: string
  rdPublishedVersionId :: "string option"
  rdHasUnpublishedChanges :: bool
  rdEditableFutureStopIds :: "string list"
  rdDraft :: live_snapshot

record publication_response =
  rpRoutePlanId :: string
  rpPublicationVersionId :: string
  rpAssignmentGeneration :: string
  rpSequence :: int
  rpPublishedAt :: string
  rpAppliedVersionId :: "string option"
  rpPending :: bool
  rpSnapshot :: live_snapshot

datatype live_response =
    DraftAnswer draft_response
  | DispatchAnswer publication_response int bool

datatype command_kind = SAVE | DISPATCH | DISCARD

record command_receipt =
  ccShopId :: string
  ccRoutePlanId :: string
  ccAssignmentGeneration :: int
  ccDriverId :: string
  ccKind :: command_kind
  ccCommandId :: string
  ccRequestHash :: string
  ccResponse :: live_response
  ccPublicationId :: "string option"

record live_db =
  dbPlans :: "plan_row list"
  dbShops :: "shop_row list"
  dbDrivers :: "driver_row list"
  dbAccounts :: "(string \<times> string) list"
  dbChildren :: "child_row list"
  dbOrders :: "live_order list"
  dbStops :: "stop_row list"
  dbPlanStops :: "plan_stop list"
  dbFacts :: "delivery_fact list"
  dbGeometry :: "(string \<times> string) list"
  dbStates :: "live_state list"
  dbPublications :: "publication list"
  dbReceipts :: "command_receipt list"

type_synonym 'a result = "live_error + 'a"

section \<open>Loading a route\<close>

record identity =
  idShopId :: string
  idRoutePlanId :: string

record route_driver =
  rvAccountId :: "string option"
  rvShopId :: string
  rvStatus :: string
  rvAuthSubject :: "string option"
  rvAccountStatus :: "string option"

record route_stop =
  rsRow :: plan_stop
  rsStop :: stop_row
  rsSourceOrderId :: "string option"

record live_route =
  rtPlan :: plan_row
  rtAppId :: string
  rtShopDomain :: string
  rtDriver :: "route_driver option"
  rtChildren :: "(string \<times> string option) list"
  rtStops :: "route_stop list"

definition driverOf :: "live_db \<Rightarrow> string option \<Rightarrow> route_driver option" where
  "driverOf db d =
     (case d of None \<Rightarrow> None
      | Some k \<Rightarrow>
          map_option (\<lambda>r. \<lparr>rvAccountId = drAccountId r, rvShopId = drShopId r, rvStatus = drStatus r,
              rvAuthSubject = drAuthSubject r, rvAccountStatus = Option.bind (drAccountId r) (map_of (dbAccounts db))\<rparr>)
            (List.find (\<lambda>r. drId r = k) (dbDrivers db)))"

definition joinStop :: "live_db \<Rightarrow> plan_stop \<Rightarrow> route_stop option" where
  "joinStop db row =
     (case List.find (\<lambda>s. srId s = psDeliveryStopId row \<and> srShopId s = psShopId row) (dbStops db) of
        None \<Rightarrow> None
      | Some stop \<Rightarrow>
          Some \<lparr>rsRow = row, rsStop = stop,
                rsSourceOrderId =
                  (case List.find (\<lambda>r. orId r = srOrderId stop \<and> orShopId r = srShopId stop) (dbOrders db) of
                     None \<Rightarrow> None | Some ord \<Rightarrow> orSourceOrderId ord)\<rparr>)"

text \<open>The rows of a route with their stops, \<^verbatim>\<open>orderBy: { sequence: 'asc' }\<close>.\<close>

definition routeStops :: "live_db \<Rightarrow> plan_row \<Rightarrow> route_stop list" where
  "routeStops db plan =
     List.map_filter (joinStop db)
       (sort_by (\<lambda>a b. compare_int (psSequence a) (psSequence b))
          (filter (\<lambda>row. psRoutePlanId row = plId plan \<and> psShopId row = plShopId plan) (dbPlanStops db)))"

definition currentChildren :: "live_db \<Rightarrow> plan_row \<Rightarrow> (string \<times> string option) list" where
  "currentChildren db plan =
     take 2 (map (\<lambda>c. (chId c, chDriverId c))
       (filter (\<lambda>c. chRoutePlanId c = plId plan \<and> chStatus c = ''CURRENT'' \<and> chSupersededAt c = None) (dbChildren db)))"

definition selectRoute :: "live_db \<Rightarrow> plan_row \<Rightarrow> live_route" where
  "selectRoute db plan =
     (let shop = List.find (\<lambda>s. shId s = plShopId plan) (dbShops db)
      in \<lparr>rtPlan = plan,
          rtAppId = (case shop of None \<Rightarrow> [] | Some s \<Rightarrow> shAppId s),
          rtShopDomain = (case shop of None \<Rightarrow> [] | Some s \<Rightarrow> shShopDomain s),
          rtDriver = driverOf db (plDriverId plan),
          rtChildren = currentChildren db plan,
          rtStops = routeStops db plan\<rparr>)"

definition findPlan :: "live_db \<Rightarrow> identity \<Rightarrow> plan_row option" where
  "findPlan db idn = List.find (\<lambda>p. plId p = idRoutePlanId idn \<and> plShopId p = idShopId idn) (dbPlans db)"

definition loadRoute :: "demo_env \<Rightarrow> live_db \<Rightarrow> identity \<Rightarrow> live_route result" where
  "loadRoute env db idn =
     (case findPlan db idn of
        None \<Rightarrow> Inl NOT_FOUND
      | Some plan \<Rightarrow>
          (let route = selectRoute db plan
           in refuse (isPrivateDriverDemoAppId (Some (rtAppId route))
                \<and> \<not> isPrivateDriverDemoScope env
                     \<lparr>scopeShopId = Some (plShopId plan), scopeAppId = Some (rtAppId route),
                      scopeShopDomain = Some (rtShopDomain route),
                      scopeAccountId = Option.bind (rtDriver route) rvAccountId\<rparr>)
              NOT_FOUND (Inr route)))"

definition underlyingVersion :: "live_route \<Rightarrow> string result" where
  "underlyingVersion route =
     (case rtChildren route of
        [] \<Rightarrow> Inr (plId (rtPlan route))
      | [(v, d)] \<Rightarrow> if d \<noteq> plDriverId (rtPlan route) then Inl ASSIGNMENT_CHANGED else Inr v
      | _ \<Rightarrow> Inl VERSION_CONFLICT)"

definition completionRecord :: "plan_row \<Rightarrow> completion_record" where
  "completionRecord p =
     \<lparr>coAssignmentGeneration = plAssignmentGeneration p, coCompletedAt = plDeliveryWorkCompletedAt p,
      coCompletedGeneration = plDeliveryWorkCompletedGeneration p,
      coCompletedVersionId = plDeliveryWorkCompletedVersionId p,
      coNavigationUntil = plDriverNavigationUntil p, coStatus = plStatus p\<rparr>"

definition requireWritableRoute :: "live_route \<Rightarrow> unit result" where
  "requireWritableRoute route =
     (let p = rtPlan route
      in refuse (plStatus p \<noteq> ''IN_PROGRESS'' \<or> hasDeliveryWorkCompleted (completionRecord p)) ROUTE_NOT_IN_PROGRESS
           (refuse (plDriverId p = None) ASSIGNMENT_CHANGED (Inr ())))"

record driver_identity =
  diIdentity :: identity
  diDriverId :: string
  diAccountId :: "string option"
  diAssignmentGeneration :: "string option"

text \<open>\<^verbatim>\<open>bigint.toString()\<close>\<close>

definition bigIntText :: "int \<Rightarrow> string" where
  "bigIntText n = (if n < 0 then CHR ''-'' # js_nat (nat (- n)) else js_nat (nat n))"

definition requireDriver :: "live_route \<Rightarrow> driver_identity \<Rightarrow> int \<Rightarrow> unit result" where
  "requireDriver route di now =
     (let p = rtPlan route
      in refuse (plDriverId p \<noteq> Some (diDriverId di)
             \<or> (case diAssignmentGeneration di of None \<Rightarrow> False | Some g \<Rightarrow> bigIntText (plAssignmentGeneration p) \<noteq> g))
           ASSIGNMENT_CHANGED
           (refuse (case rtDriver route of
                      None \<Rightarrow> True
                    | Some d \<Rightarrow>
                        rvShopId d \<noteq> idShopId (diIdentity di) \<or> rvStatus d \<noteq> ''ACTIVE'' \<or> rvAuthSubject d = None
                        \<or> rvAccountStatus d \<noteq> Some ''ACTIVE''
                        \<or> (case diAccountId di of None \<Rightarrow> False | Some a \<Rightarrow> rvAccountId d \<noteq> Some a))
              ACCESS_REVOKED
              (refuse (plStatus p \<noteq> ''IN_PROGRESS'' \<or> hasDeliveryNavigationGraceExpired (completionRecord p) now)
                 ROUTE_NOT_IN_PROGRESS (Inr ()))))"

section \<open>Snapshots\<close>

definition captureStop :: "route_stop \<Rightarrow> live_stop" where
  "captureStop r =
     (let row = rsRow r; stop = rsStop r
      in \<lparr>lsRoutePlanStopId = psId row, lsDeliveryStopId = psDeliveryStopId row, lsOrderId = srOrderId stop,
          lsSourceOrderId = rsSourceOrderId r, lsSequence = psSequence row, lsText = srText stop,
          lsLatitude = srLatitude stop, lsLongitude = srLongitude stop, lsServiceMinutes = srServiceMinutes stop,
          lsTimeWindowStart = map_option Iso (srTimeWindowStart stop),
          lsTimeWindowEnd = map_option Iso (srTimeWindowEnd stop)\<rparr>)"

definition captureSnapshot :: "live_route \<Rightarrow> live_snapshot" where
  "captureSnapshot route =
     \<lparr>snDeliveryProof = Some (readDeliveryProof (plConstraints (rtPlan route))),
      snTollPolicy = Some (readTollPolicy (plConstraints (rtPlan route))),
      snStops = map captureStop (rtStops route), snInitialRouteVersionId = None\<rparr>"

fun snapshotFromJson :: "stored \<Rightarrow> live_snapshot result" where
  "snapshotFromJson (Stored s) = Inr s"
| "snapshotFromJson (Malformed v) = Inl VERSION_CONFLICT"

text \<open>
  The fields of a stop in the order they are hashed in. \<^verbatim>\<open>operationalFingerprint\<close> is the JSON text of this tuple, so two
  fingerprints agree exactly when the tuples do.
\<close>

type_synonym fingerprint =
  "string \<times> string \<times> string \<times> string option \<times> int \<times> string option list \<times> int option \<times> int option \<times> int
   \<times> iso option \<times> iso option"

definition operationalFingerprint :: "live_stop \<Rightarrow> fingerprint" where
  "operationalFingerprint stop =
     (lsRoutePlanStopId stop, lsDeliveryStopId stop, lsOrderId stop, lsSourceOrderId stop, lsSequence stop,
      map (\<lambda>f. text_get f (lsText stop)) TEXT_FIELDS, lsLatitude stop, lsLongitude stop, lsServiceMinutes stop,
      lsTimeWindowStart stop, lsTimeWindowEnd stop)"

text \<open>The hashed content: the stops alone unless the route asks for proof or avoids tolls.\<close>

datatype live_content = StopsOnly "fingerprint list" | WithPolicy "fingerprint list" proof_policy toll_policy

definition contentOf :: "live_snapshot \<Rightarrow> live_content" where
  "contentOf sn =
     (let stops = map operationalFingerprint (snStops sn);
          required = (case snDeliveryProof sn of None \<Rightarrow> False | Some p \<Rightarrow> photoRequired p \<or> signatureRequired p)
      in if required \<or> snTollPolicy sn = Some AVOID_TOLLS
         then WithPolicy stops
                (coalesce_def_value (snDeliveryProof sn) \<lparr>photoRequired = False, signatureRequired = False\<rparr>)
                (coalesce_def_value (snTollPolicy sn) ALLOW_TOLLS)
         else StopsOnly stops)"

definition contentHash :: "(live_content \<Rightarrow> string) \<Rightarrow> live_snapshot \<Rightarrow> string" where
  "contentHash H sn = H (contentOf sn)"

text \<open>\<^verbatim>\<open>membership\<close> is the text of the sorted list of the four identifiers of every stop: it identifies their multiset.\<close>

type_synonym member_key = "string \<times> string \<times> string \<times> string option"

definition memberKey :: "live_stop \<Rightarrow> member_key" where
  "memberKey stop = (lsRoutePlanStopId stop, lsDeliveryStopId stop, lsOrderId stop, lsSourceOrderId stop)"

definition membership :: "live_snapshot \<Rightarrow> member_key multiset" where
  "membership sn = mset (map memberKey (snStops sn))"

definition TERMINAL_STOPS :: "stop_status list" where
  "TERMINAL_STOPS = [DELIVERED, FAILED, SKIPPED, CANCELLED]"

definition FUTURE_STATUSES :: "stop_status list" where
  "FUTURE_STATUSES = [PENDING, ASSIGNED]"

text \<open>The last index from \<open>i\<close> on at which the driver is underway or has arrived, else \<open>p\<close>.\<close>

fun lastActive :: "nat \<Rightarrow> nat \<Rightarrow> stop_status list \<Rightarrow> nat" where
  "lastActive p i [] = p"
| "lastActive p i (s # ss) = lastActive (if s = ARRIVED \<or> s = EN_ROUTE then i else p) (Suc i) ss"

definition protectedIndex :: "stop_status list \<Rightarrow> nat option" where
  "protectedIndex ss =
     (let p = length (takeWhile (\<lambda>s. s \<in> set TERMINAL_STOPS) ss)
      in if p = length ss then None else Some (lastActive p (Suc p) (drop (Suc p) ss)))"

definition editableFutureStopIds :: "live_route \<Rightarrow> string list" where
  "editableFutureStopIds route =
     (case protectedIndex (map (\<lambda>r. srStatus (rsStop r)) (rtStops route)) of
        None \<Rightarrow> []
      | Some p \<Rightarrow>
          map (\<lambda>r. psDeliveryStopId (rsRow r))
            (filter (\<lambda>r. srStatus (rsStop r) \<in> set FUTURE_STATUSES) (drop (Suc p) (rtStops route))))"

section \<open>State of the live changes\<close>

definition hasAssignmentChanged :: "live_route \<Rightarrow> live_state \<Rightarrow> bool" where
  "hasAssignmentChanged route st =
     (Some (lvDriverId st) \<noteq> plDriverId (rtPlan route)
      \<or> lvAssignmentGeneration st \<noteq> plAssignmentGeneration (rtPlan route))"

definition belongsToPreviousAssignment :: "live_route \<Rightarrow> live_state \<Rightarrow> bool" where
  "belongsToPreviousAssignment route st = (lvAssignmentGeneration st < plAssignmentGeneration (rtPlan route))"

definition assertStateIdentity :: "live_route \<Rightarrow> live_state \<Rightarrow> unit result" where
  "assertStateIdentity route st =
     refuse (hasAssignmentChanged route st) ASSIGNMENT_CHANGED
       (attempt (underlyingVersion route) (\<lambda>v.
          refuse (lvBaselineRouteVersionId st \<noteq> v) VERSION_CONFLICT (Inr ())))"

definition samePublications :: "live_state \<Rightarrow> publication \<Rightarrow> bool" where
  "samePublications st p =
     (pbRoutePlanId p = lvRoutePlanId st \<and> pbShopId p = lvShopId st \<and> pbDriverId p = lvDriverId st
      \<and> pbAssignmentGeneration p = lvAssignmentGeneration st)"

definition loadCurrentPublication :: "live_db \<Rightarrow> live_state \<Rightarrow> publication result" where
  "loadCurrentPublication db st =
     (case List.find (\<lambda>p. pbId p = lvLatestPublicationId st \<and> samePublications st p \<and> pbSequence p = lvLatestSequence st)
             (dbPublications db) of
        None \<Rightarrow> Inl VERSION_CONFLICT | Some p \<Rightarrow> Inr p)"

definition loadState :: "live_db \<Rightarrow> identity \<Rightarrow> live_state option" where
  "loadState db idn =
     List.find (\<lambda>s. lvRoutePlanId s = idRoutePlanId idn \<and> lvShopId s = idShopId idn) (dbStates db)"

definition assertNoLiveDrift :: "(live_content \<Rightarrow> string) \<Rightarrow> live_route \<Rightarrow> publication \<Rightarrow> unit result" where
  "assertNoLiveDrift H route p =
     refuse (contentHash H (captureSnapshot route) \<noteq> pbContentHash p) VERSION_CONFLICT (Inr ())"

definition draftResponse :: "live_route \<Rightarrow> live_state option \<Rightarrow> publication option \<Rightarrow> draft_response result" where
  "draftResponse route st p =
     attempt (underlyingVersion route) (\<lambda>v.
       attempt (case st of None \<Rightarrow> Inr (captureSnapshot route) | Some s \<Rightarrow> snapshotFromJson (lvDraftSnapshot s)) (\<lambda>draft.
         Inr \<lparr>rdRoutePlanId = plId (rtPlan route),
              rdRevision = (case st of None \<Rightarrow> 0 | Some s \<Rightarrow> lvRevision s),
              rdAssignmentGeneration = bigIntText (plAssignmentGeneration (rtPlan route)),
              rdExpectedRouteVersionId = v, rdPublishedVersionId = map_option pbId p,
              rdHasUnpublishedChanges =
                (case st of None \<Rightarrow> False | Some s \<Rightarrow> Some (lvDraftHash s) \<noteq> map_option pbContentHash p),
              rdEditableFutureStopIds = editableFutureStopIds route, rdDraft = draft\<rparr>))"

definition publicationResponse :: "live_state \<Rightarrow> publication \<Rightarrow> publication_response result" where
  "publicationResponse st p =
     attempt (snapshotFromJson (pbSnapshot p)) (\<lambda>snapshot.
       Inr \<lparr>rpRoutePlanId = lvRoutePlanId st, rpPublicationVersionId = pbId p,
            rpAssignmentGeneration = bigIntText (lvAssignmentGeneration st), rpSequence = pbSequence p,
            rpPublishedAt = toISOString (pbPublishedAt p), rpAppliedVersionId = lvAppliedPublicationId st,
            rpPending = (lvAppliedSequence st < lvLatestSequence st), rpSnapshot = snapshot\<rparr>)"

definition getAdminLiveRouteChange ::
  "(live_content \<Rightarrow> string) \<Rightarrow> demo_env \<Rightarrow> live_db \<Rightarrow> identity \<Rightarrow> draft_response result" where
  "getAdminLiveRouteChange H env db idn =
     attempt (loadRoute env db idn) (\<lambda>route.
       attempt (requireWritableRoute route) (\<lambda>_.
         (case loadState db idn of
            None \<Rightarrow> draftResponse route None None
          | Some st \<Rightarrow>
              if belongsToPreviousAssignment route st then draftResponse route None None
              else attempt (assertStateIdentity route st) (\<lambda>_.
                     attempt (loadCurrentPublication db st) (\<lambda>current.
                       attempt (assertNoLiveDrift H route current) (\<lambda>_.
                         draftResponse route (Some st) (Some current)))))))"

section \<open>Writing the tables\<close>

definition createPublication :: "live_db \<Rightarrow> publication \<Rightarrow> live_db result" where
  "createPublication db p =
     refuse (list_ex (\<lambda>q. pbId q = pbId p
         \<or> pbRoutePlanId q = pbRoutePlanId p \<and> pbShopId q = pbShopId p \<and> pbAssignmentGeneration q = pbAssignmentGeneration p
           \<and> pbDriverId q = pbDriverId p \<and> pbSequence q = pbSequence p) (dbPublications db))
       UNIQUE_VIOLATION (Inr (db\<lparr>dbPublications := dbPublications db @ [p]\<rparr>))"

definition createState :: "live_db \<Rightarrow> live_state \<Rightarrow> live_db result" where
  "createState db st =
     refuse (list_ex (\<lambda>s. lvRoutePlanId s = lvRoutePlanId st) (dbStates db))
       UNIQUE_VIOLATION (Inr (db\<lparr>dbStates := dbStates db @ [st]\<rparr>))"

definition updateState :: "live_db \<Rightarrow> string \<Rightarrow> (live_state \<Rightarrow> live_state) \<Rightarrow> (live_db \<times> live_state) result" where
  "updateState db planId f =
     (case List.find (\<lambda>s. lvRoutePlanId s = planId) (dbStates db) of
        None \<Rightarrow> Inl ROW_NOT_FOUND
      | Some st \<Rightarrow>
          Inr (db\<lparr>dbStates := map (\<lambda>s. if lvRoutePlanId s = planId then f s else s) (dbStates db)\<rparr>, f st))"

definition routeDriverId :: "live_route \<Rightarrow> string" where
  "routeDriverId route = coalesce_def_value (plDriverId (rtPlan route)) []"

definition enroll ::
  "(live_content \<Rightarrow> string) \<Rightarrow> live_db \<Rightarrow> live_route \<Rightarrow> identity \<Rightarrow> bool \<Rightarrow> string \<Rightarrow> int \<Rightarrow> (live_db \<times> live_state) result" where
  "enroll H db route idn replacing freshId now =
     attempt (underlyingVersion route) (\<lambda>version.
       (let snapshot = (captureSnapshot route)\<lparr>snInitialRouteVersionId := Some version\<rparr>;
            hash = contentHash H snapshot;
            generation = plAssignmentGeneration (rtPlan route);
            data = \<lparr>lvRoutePlanId = idRoutePlanId idn, lvShopId = idShopId idn, lvAssignmentGeneration = generation,
                    lvDriverId = routeDriverId route, lvBaselineRouteVersionId = version, lvRevision = 0,
                    lvDraftSnapshot = Stored snapshot, lvDraftHash = hash, lvLatestPublicationId = freshId,
                    lvLatestSequence = 0, lvAppliedPublicationId = Some freshId, lvAppliedSequence = 0, lvAppliedAt = None\<rparr>
        in attempt (createPublication db
             \<lparr>pbId = freshId, pbRoutePlanId = idRoutePlanId idn, pbShopId = idShopId idn,
              pbAssignmentGeneration = generation, pbDriverId = routeDriverId route, pbSequence = 0, pbContentHash = hash,
              pbSnapshot = Stored snapshot, pbPublishedAt = now, pbNotificationStatus = ''SKIPPED'',
              pbNextAttemptAt = None, pbErrorCode = None\<rparr>) (\<lambda>db1.
             if replacing then updateState db1 (plId (rtPlan route)) (\<lambda>_. data)
             else attempt (createState db1 data) (\<lambda>db2. Inr (db2, data)))))"

section \<open>Commands\<close>

record admin_command =
  acIdentity :: identity
  acCommandId :: string
  acExpectedAssignmentGeneration :: string
  acExpectedRouteVersionId :: string
  acExpectedRevision :: jsnum

definition requireRevision :: "jsnum \<Rightarrow> unit result" where
  "requireRevision v =
     refuse (\<not> isSafeInteger v \<or> (case v of Num x \<Rightarrow> x < 0 | _ \<Rightarrow> False)) INVALID_INPUT (Inr ())"

fun canonicalCommand :: "json \<Rightarrow> json" where
  "canonicalCommand (JArr vs) = JArr (map canonicalCommand vs)"
| "canonicalCommand (JObj kvs) =
     JObj (sort_by (\<lambda>a b. compare_text (fst a) (fst b))
       (filter (\<lambda>(k, v). v \<noteq> JUndefined) (map (\<lambda>(k, v). (k, canonicalCommand v)) kvs)))"
| "canonicalCommand v = v"

definition commandHash :: "(json \<Rightarrow> string) \<Rightarrow> json \<Rightarrow> string" where
  "commandHash K v = K (canonicalCommand v)"

definition requireCommandId :: "string \<Rightarrow> unit result" where
  "requireCommandId v = refuse (\<not> is_hex_uuid v) INVALID_INPUT (Inr ())"

text \<open>\<^verbatim>\<open>/^[1-9]\d{0,18}$/u\<close>\<close>

definition is_generation :: "string \<Rightarrow> bool" where
  "is_generation s = (s \<noteq> [] \<and> length s \<le> 19 \<and> list_all is_digit s \<and> hd s \<noteq> CHR ''0'')"

definition requireAdminCommandIdentity :: "live_route \<Rightarrow> admin_command \<Rightarrow> bool \<Rightarrow> unit result" where
  "requireAdminCommandIdentity route cmd checkVersion =
     refuse (\<not> is_generation (acExpectedAssignmentGeneration cmd)) INVALID_INPUT
       (refuse (bigIntText (plAssignmentGeneration (rtPlan route)) \<noteq> acExpectedAssignmentGeneration cmd) ASSIGNMENT_CHANGED
          (refuse (\<not> is_hex_uuid (acExpectedRouteVersionId cmd)) INVALID_INPUT
             (attempt (underlyingVersion route) (\<lambda>version.
                refuse (checkVersion \<and> version \<noteq> acExpectedRouteVersionId cmd) VERSION_CONFLICT
                  (refuse (plDriverId (rtPlan route) = None \<or> plStatus (rtPlan route) \<noteq> ''IN_PROGRESS'')
                     ROUTE_NOT_IN_PROGRESS (Inr ()))))))"

definition replayCommand ::
  "live_db \<Rightarrow> live_route \<Rightarrow> admin_command \<Rightarrow> command_kind \<Rightarrow> string \<Rightarrow> live_response option result" where
  "replayCommand db route cmd kind requestHash =
     (case List.find (\<lambda>r. ccShopId r = idShopId (acIdentity cmd) \<and> ccRoutePlanId r = idRoutePlanId (acIdentity cmd)
             \<and> ccKind r = kind \<and> ccCommandId r = acCommandId cmd) (dbReceipts db) of
        None \<Rightarrow> Inr None
      | Some receipt \<Rightarrow>
          refuse (Some (ccDriverId receipt) \<noteq> plDriverId (rtPlan route)
              \<or> ccAssignmentGeneration receipt \<noteq> plAssignmentGeneration (rtPlan route)) ASSIGNMENT_CHANGED
            (refuse (ccRequestHash receipt \<noteq> requestHash) IDEMPOTENCY_CONFLICT (Inr (Some (ccResponse receipt)))))"

definition recordCommand ::
  "live_db \<Rightarrow> live_route \<Rightarrow> admin_command \<Rightarrow> command_kind \<Rightarrow> string \<Rightarrow> live_response \<Rightarrow> string option \<Rightarrow> live_db result" where
  "recordCommand db route cmd kind requestHash response publicationId =
     (let receipt =
            \<lparr>ccShopId = idShopId (acIdentity cmd), ccRoutePlanId = idRoutePlanId (acIdentity cmd),
             ccAssignmentGeneration = plAssignmentGeneration (rtPlan route), ccDriverId = routeDriverId route,
             ccKind = kind, ccCommandId = acCommandId cmd, ccRequestHash = requestHash, ccResponse = response,
             ccPublicationId = publicationId\<rparr>
      in refuse (list_ex (\<lambda>r. ccShopId r = ccShopId receipt \<and> ccRoutePlanId r = ccRoutePlanId receipt
             \<and> ccAssignmentGeneration r = ccAssignmentGeneration receipt \<and> ccDriverId r = ccDriverId receipt
             \<and> ccKind r = ccKind receipt \<and> ccCommandId r = ccCommandId receipt) (dbReceipts db))
           UNIQUE_VIOLATION (Inr (db\<lparr>dbReceipts := dbReceipts db @ [receipt]\<rparr>)))"

subsection \<open>Saving a draft\<close>

fun patchField :: "json \<Rightarrow> text_field \<Rightarrow> stop_text result \<Rightarrow> stop_text result" where
  "patchField ov f (Inl e) = Inl e"
| "patchField ov f (Inr t) =
     (case jget ov (field_name f) of
        JUndefined \<Rightarrow> Inr t
      | JNull \<Rightarrow> Inr (text_set f None t)
      | JStr v \<Rightarrow> if 10000 < js_length v then Inl INVALID_INPUT else Inr (text_set f (Some v) t)
      | _ \<Rightarrow> Inl INVALID_INPUT)"

definition jsonNumber :: "json \<Rightarrow> jsnum" where
  "jsonNumber v = (case v of JNum n \<Rightarrow> n | JStr s \<Rightarrow> js_number_text s | _ \<Rightarrow> NaN)"

text \<open>A coordinate of an override: \<^verbatim>\<open>null\<close> stays, anything else has to be a number within the limit.\<close>

definition overrideCoordinate :: "real \<Rightarrow> json \<Rightarrow> real option result" where
  "overrideCoordinate limit v =
     (if v = JNull then Inr None
      else case jsonNumber v of
             Num x \<Rightarrow> if x < - limit \<or> limit < x then Inl INVALID_INPUT else Inr (Some x)
           | _ \<Rightarrow> Inl INVALID_INPUT)"

text \<open>\<^verbatim>\<open>new Prisma.Decimal(x).toDecimalPlaces(7)\<close>: half a unit is rounded away from zero.\<close>

definition toDecimalPlaces7 :: "real \<Rightarrow> int" where
  "toDecimalPlaces7 x =
     (if 0 \<le> x then \<lfloor>x * 10000000 + 1 / 2\<rfloor> else - \<lfloor>- x * 10000000 + 1 / 2\<rfloor>)"

definition addressDiffers :: "stop_text \<Rightarrow> stop_text \<Rightarrow> bool" where
  "addressDiffers a b = list_ex (\<lambda>f. text_get f a \<noteq> text_get f b) ADDRESS_FIELDS"

definition patchStop :: "live_stop \<Rightarrow> json \<Rightarrow> live_stop result" where
  "patchStop stop ov =
     refuse (\<not> list_all (\<lambda>k. k \<in> set (''deliveryStopId'' # map field_name ADDRESS_FIELDS @ [''latitude'', ''longitude'']))
             (jkeys ov)) INVALID_INPUT
       (attempt (fold (patchField ov) ADDRESS_FIELDS (Inr (lsText stop))) (\<lambda>t.
          (let lat = jget ov ''latitude''; lng = jget ov ''longitude'';
               hasLatitude = (lat \<noteq> JUndefined); hasLongitude = (lng \<noteq> JUndefined);
               next_stop = stop\<lparr>lsText := t\<rparr>
           in refuse (hasLatitude \<noteq> hasLongitude \<or> (lat = JNull) \<noteq> (lng = JNull)) INVALID_INPUT
                (if hasLatitude
                 then attempt (overrideCoordinate 90 lat) (\<lambda>x.
                        attempt (overrideCoordinate 180 lng) (\<lambda>y.
                          Inr (next_stop\<lparr>lsLatitude := map_option toDecimalPlaces7 x,
                                         lsLongitude := map_option toDecimalPlaces7 y\<rparr>)))
                 else if addressDiffers t (lsText stop)
                 then Inr (next_stop\<lparr>lsLatitude := None, lsLongitude := None\<rparr>)
                 else Inr next_stop))))"

definition findIndex :: "('a \<Rightarrow> bool) \<Rightarrow> 'a list \<Rightarrow> nat option" where
  "findIndex P xs = (let i = length (takeWhile (\<lambda>x. \<not> P x) xs) in if i = length xs then None else Some i)"

fun applyOverrides :: "string list \<Rightarrow> json list \<Rightarrow> json list \<Rightarrow> live_stop list \<Rightarrow> live_stop list result" where
  "applyOverrides editable overridden [] stops = Inr stops"
| "applyOverrides editable overridden (ov # ovs) stops =
     (let target = jget ov ''deliveryStopId''
      in refuse (target \<in> set overridden) INVALID_INPUT
           (refuse (target \<notin> JStr ` set editable) STOP_NOT_FUTURE
              (case findIndex (\<lambda>s. JStr (lsDeliveryStopId s) = target) stops of
                 None \<Rightarrow> Inl VERSION_CONFLICT
               | Some i \<Rightarrow>
                   attempt (patchStop (stops ! i) ov) (\<lambda>s.
                     applyOverrides editable (target # overridden) ovs (stops[i := s])))))"

definition stopsById :: "live_stop list \<Rightarrow> string \<Rightarrow> live_stop option" where
  "stopsById stops = map_of (rev (map (\<lambda>s. (lsDeliveryStopId s, s)) stops))"

text \<open>
  \<^verbatim>\<open>{ ...undefined, sequence }\<close>: the spread of a stop that is not in the draft, with empty identifiers for the
  missing properties. (The stops of a dispatched route keep their membership, so this value is never reached.)
\<close>

definition absentStop :: live_stop where
  "absentStop =
     \<lparr>lsRoutePlanStopId = [], lsDeliveryStopId = [], lsOrderId = [], lsSourceOrderId = None, lsSequence = 0,
      lsText = \<lparr>recipientName = None, phone = None, address1 = None, address2 = None, city = None, province = None,
                postalCode = None, countryCode = None, instructions = None\<rparr>,
      lsLatitude = None, lsLongitude = None, lsServiceMinutes = 0, lsTimeWindowStart = None, lsTimeWindowEnd = None\<rparr>"

fun reorderStops ::
  "string list \<Rightarrow> (string \<Rightarrow> live_stop option) \<Rightarrow> string list \<Rightarrow> live_stop list \<Rightarrow> live_stop list" where
  "reorderStops editable byId order [] = []"
| "reorderStops editable byId order (s # ss) =
     (if lsDeliveryStopId s \<in> set editable
      then (coalesce_def_value (case order of [] \<Rightarrow> None | k # ks \<Rightarrow> byId k) absentStop)\<lparr>lsSequence := lsSequence s\<rparr>
             # reorderStops editable byId (tl order) ss
      else s # reorderStops editable byId order ss)"

definition applyOrder :: "string list \<Rightarrow> string list option \<Rightarrow> live_stop list \<Rightarrow> live_stop list result" where
  "applyOrder editable futureStopOrder stops =
     (case futureStopOrder of
        None \<Rightarrow> Inr stops
      | Some order \<Rightarrow>
          refuse (length order \<noteq> length (set_order editable) \<or> \<not> distinct order
              \<or> \<not> list_all (\<lambda>k. k \<in> set editable) order) INVALID_INPUT
            (Inr (reorderStops editable (stopsById stops) order stops)))"

definition requestJson :: "admin_command \<Rightarrow> (string \<times> json) list \<Rightarrow> json" where
  "requestJson cmd extra =
     JObj ([(''expectedRevision'', JNum (acExpectedRevision cmd)),
            (''expectedAssignmentGeneration'', JStr (acExpectedAssignmentGeneration cmd)),
            (''expectedRouteVersionId'', JStr (acExpectedRouteVersionId cmd))] @ extra)"

definition saveRequestJson :: "admin_command \<Rightarrow> json list \<Rightarrow> string list option \<Rightarrow> json" where
  "saveRequestJson cmd overrides order =
     requestJson cmd [(''stopOverrides'', JArr overrides),
       (''futureStopOrder'', case order of None \<Rightarrow> JUndefined | Some ks \<Rightarrow> JArr (map JStr ks))]"

definition revisionIs :: "live_state \<Rightarrow> admin_command \<Rightarrow> bool" where
  "revisionIs st cmd = (acExpectedRevision cmd = Num (real_of_int (lvRevision st)))"

definition editDraft ::
  "(live_content \<Rightarrow> string) \<Rightarrow> live_db \<Rightarrow> live_route \<Rightarrow> live_state \<Rightarrow> json list \<Rightarrow> string list option
   \<Rightarrow> (live_db \<times> live_state) result" where
  "editDraft H db route st overrides order =
     (let editable = editableFutureStopIds route
      in attempt (snapshotFromJson (lvDraftSnapshot st)) (\<lambda>draft.
           attempt (applyOverrides editable [] overrides (snStops draft)) (\<lambda>patched.
             attempt (applyOrder editable order patched) (\<lambda>stops.
               (let snapshot = draft\<lparr>snStops := stops\<rparr>; hash = contentHash H snapshot
                in if hash \<noteq> lvDraftHash st
                   then updateState db (plId (rtPlan route))
                          (\<lambda>s. s\<lparr>lvDraftSnapshot := Stored snapshot, lvDraftHash := hash, lvRevision := lvRevision s + 1\<rparr>)
                   else Inr (db, st))))))"

definition ensureState ::
  "(live_content \<Rightarrow> string) \<Rightarrow> live_db \<Rightarrow> live_route \<Rightarrow> live_state option \<Rightarrow> admin_command \<Rightarrow> string \<Rightarrow> int
   \<Rightarrow> (live_db \<times> live_state) result" where
  "ensureState H db route found cmd freshId now =
     (let fresh = (\<lambda>replacing.
            refuse (acExpectedRevision cmd \<noteq> Num 0) REVISION_CONFLICT
              (enroll H db route (acIdentity cmd) replacing freshId now))
      in case found of
           None \<Rightarrow> fresh False
         | Some st \<Rightarrow> if belongsToPreviousAssignment route st then fresh True else Inr (db, st))"

definition saveLiveRouteChange ::
  "(live_content \<Rightarrow> string) \<Rightarrow> (json \<Rightarrow> string) \<Rightarrow> demo_env \<Rightarrow> live_db \<Rightarrow> admin_command \<Rightarrow> json list
   \<Rightarrow> string list option \<Rightarrow> string \<Rightarrow> int \<Rightarrow> (live_db \<times> live_response) result" where
  "saveLiveRouteChange H K env db cmd overrides order freshId now =
     attempt (requireRevision (acExpectedRevision cmd)) (\<lambda>_.
     attempt (requireCommandId (acCommandId cmd)) (\<lambda>_.
     (let requestHash = commandHash K (saveRequestJson cmd overrides order)
      in attempt (loadRoute env db (acIdentity cmd)) (\<lambda>route.
         attempt (requireAdminCommandIdentity route cmd False) (\<lambda>_.
         (let found = loadState db (acIdentity cmd)
          in attempt (case found of None \<Rightarrow> Inr ()
                      | Some st \<Rightarrow> if belongsToPreviousAssignment route st then Inr () else assertStateIdentity route st) (\<lambda>_.
             attempt (replayCommand db route cmd SAVE requestHash) (\<lambda>replay.
             (case replay of
                Some r \<Rightarrow> Inr (db, r)
              | None \<Rightarrow>
                  attempt (requireAdminCommandIdentity route cmd True) (\<lambda>_.
                  attempt (requireWritableRoute route) (\<lambda>_.
                  attempt (ensureState H db route found cmd freshId now) (\<lambda>(db1, st).
                  attempt (assertStateIdentity route st) (\<lambda>_.
                  attempt (loadCurrentPublication db1 st) (\<lambda>current.
                  attempt (assertNoLiveDrift H route current) (\<lambda>_.
                  refuse (\<not> revisionIs st cmd) REVISION_CONFLICT
                    (attempt (editDraft H db1 route st overrides order) (\<lambda>(db2, st2).
                     attempt (draftResponse route (Some st2) (Some current)) (\<lambda>answer.
                     attempt (recordCommand db2 route cmd SAVE requestHash (DraftAnswer answer) None) (\<lambda>db3.
                     Inr (db3, DraftAnswer answer))))))))))))))))))))"

subsection \<open>Discarding a draft\<close>

definition discardLiveRouteChange ::
  "(live_content \<Rightarrow> string) \<Rightarrow> (json \<Rightarrow> string) \<Rightarrow> demo_env \<Rightarrow> live_db \<Rightarrow> admin_command
   \<Rightarrow> (live_db \<times> live_response) result" where
  "discardLiveRouteChange H K env db cmd =
     attempt (requireRevision (acExpectedRevision cmd)) (\<lambda>_.
     attempt (requireCommandId (acCommandId cmd)) (\<lambda>_.
     (let requestHash = commandHash K (requestJson cmd [])
      in attempt (loadRoute env db (acIdentity cmd)) (\<lambda>route.
         attempt (requireAdminCommandIdentity route cmd False) (\<lambda>_.
         (case loadState db (acIdentity cmd) of
            None \<Rightarrow> Inl DRAFT_NOT_FOUND
          | Some st \<Rightarrow>
             attempt (assertStateIdentity route st) (\<lambda>_.
             attempt (replayCommand db route cmd DISCARD requestHash) (\<lambda>replay.
             (case replay of
                Some r \<Rightarrow> Inr (db, r)
              | None \<Rightarrow>
                  attempt (requireAdminCommandIdentity route cmd True) (\<lambda>_.
                  attempt (requireWritableRoute route) (\<lambda>_.
                  refuse (\<not> revisionIs st cmd) REVISION_CONFLICT
                    (attempt (loadCurrentPublication db st) (\<lambda>current.
                     attempt (assertNoLiveDrift H route current) (\<lambda>_.
                     attempt (if lvDraftHash st \<noteq> pbContentHash current
                              then updateState db (plId (rtPlan route))
                                     (\<lambda>s. s\<lparr>lvDraftSnapshot := pbSnapshot current, lvDraftHash := pbContentHash current,
                                            lvRevision := lvRevision s + 1\<rparr>)
                              else Inr (db, st)) (\<lambda>(db1, st1).
                     attempt (draftResponse route (Some st1) (Some current)) (\<lambda>answer.
                     attempt (recordCommand db1 route cmd DISCARD requestHash (DraftAnswer answer) (Some (pbId current))) (\<lambda>db2.
                     Inr (db2, DraftAnswer answer))))))))))))))))))"

subsection \<open>Replacing the child version of a route\<close>

record replacement_context =
  rcIdentity :: identity
  rcState :: live_state
  rcCurrent :: publication

definition prepareLiveRouteChildReplacement ::
  "(live_content \<Rightarrow> string) \<Rightarrow> demo_env \<Rightarrow> live_db \<Rightarrow> identity \<Rightarrow> string \<Rightarrow> replacement_context option result" where
  "prepareLiveRouteChildReplacement H env db idn currentChildVersionId =
     (case loadState db idn of
        None \<Rightarrow> Inr None
      | Some st \<Rightarrow>
          attempt (loadRoute env db idn) (\<lambda>route.
          attempt (if hasDeliveryWorkCompleted (completionRecord (rtPlan route)) then requireWritableRoute route else Inr ()) (\<lambda>_.
          if belongsToPreviousAssignment route st then Inr None
          else attempt (assertStateIdentity route st) (\<lambda>_.
               attempt (requireWritableRoute route) (\<lambda>_.
               attempt (underlyingVersion route) (\<lambda>version.
               refuse (version \<noteq> currentChildVersionId) VERSION_CONFLICT
                 (attempt (loadCurrentPublication db st) (\<lambda>current.
                  attempt (assertNoLiveDrift H route current) (\<lambda>_.
                  refuse (lvDraftHash st \<noteq> pbContentHash current) DRAFT_CONFLICT
                    (Inr (Some \<lparr>rcIdentity = idn, rcState = st, rcCurrent = current\<rparr>)))))))))))"

definition sameButSequence :: "live_stop list \<Rightarrow> live_stop \<Rightarrow> bool" where
  "sameButSequence previous stop =
     (case stopsById previous (lsDeliveryStopId stop) of
        None \<Rightarrow> False
      | Some old \<Rightarrow>
          operationalFingerprint (stop\<lparr>lsSequence := lsSequence old\<rparr>) = operationalFingerprint old)"

definition completeLiveRouteChildReplacement ::
  "(live_content \<Rightarrow> string) \<Rightarrow> demo_env \<Rightarrow> live_db \<Rightarrow> replacement_context \<Rightarrow> string \<Rightarrow> int \<Rightarrow> live_db result" where
  "completeLiveRouteChildReplacement H env db context nextChildVersionId now =
     (let st = rcState context; idn = rcIdentity context
      in attempt (loadRoute env db idn) (\<lambda>route.
         if belongsToPreviousAssignment route st then Inr db
         else refuse (hasAssignmentChanged route st) ASSIGNMENT_CHANGED
           (attempt (underlyingVersion route) (\<lambda>version.
            refuse (version \<noteq> nextChildVersionId) VERSION_CONFLICT
              (attempt (snapshotFromJson (pbSnapshot (rcCurrent context))) (\<lambda>previous.
               (let snapshot = (captureSnapshot route)\<lparr>snInitialRouteVersionId :=
                      Some (coalesce_def_value (snInitialRouteVersionId previous) (lvBaselineRouteVersionId st))\<rparr>;
                    hash = contentHash H snapshot
                in refuse (membership previous \<noteq> membership snapshot) VERSION_CONFLICT
                     (refuse (\<not> list_all (sameButSequence (snStops previous)) (snStops snapshot)) VERSION_CONFLICT
                        (attempt (createPublication db
                           \<lparr>pbId = nextChildVersionId, pbRoutePlanId = idRoutePlanId idn, pbShopId = idShopId idn,
                            pbAssignmentGeneration = lvAssignmentGeneration st, pbDriverId = lvDriverId st,
                            pbSequence = lvLatestSequence st + 1, pbContentHash = hash, pbSnapshot = Stored snapshot,
                            pbPublishedAt = now, pbNotificationStatus = ''SKIPPED'', pbNextAttemptAt = None,
                            pbErrorCode = Some ''LEGACY_CHILD_REPLACEMENT''\<rparr>) (\<lambda>db1.
                         attempt (updateState db1 (plId (rtPlan route))
                           (\<lambda>s. s\<lparr>lvBaselineRouteVersionId := nextChildVersionId, lvLatestPublicationId := nextChildVersionId,
                                  lvLatestSequence := lvLatestSequence st + 1, lvDraftSnapshot := Stored snapshot,
                                  lvDraftHash := hash, lvRevision := lvRevision s + 1\<rparr>)) (\<lambda>(db2, _).
                         Inr db2)))))))))))"

subsection \<open>Dispatching a draft\<close>

text \<open>
  The draft has the membership of the route where its stops are looked up, so the lookup by identifier always
  succeeds; the case of a missing stop is counted as a change.
\<close>

definition changedStops :: "live_snapshot \<Rightarrow> live_snapshot \<Rightarrow> live_stop list result" where
  "changedStops current draft =
     refuse (membership current \<noteq> membership draft) VERSION_CONFLICT
       (Inr (filter (\<lambda>stop.
          (case stopsById (snStops current) (lsDeliveryStopId stop) of
             None \<Rightarrow> True
           | Some previous \<Rightarrow> lsSequence stop \<noteq> lsSequence previous
               \<or> operationalFingerprint stop \<noteq> operationalFingerprint previous)) (snStops draft)))"

definition locationChanged :: "live_stop \<Rightarrow> live_stop \<Rightarrow> bool" where
  "locationChanged previous stop =
     (addressDiffers (lsText previous) (lsText stop)
      \<or> lsLatitude previous \<noteq> lsLatitude stop \<or> lsLongitude previous \<noteq> lsLongitude stop)"

definition decimalCoordinate :: "int option \<Rightarrow> coordinate_value" where
  "decimalCoordinate v =
     (case v of None \<Rightarrow> NoCoordinate | Some n \<Rightarrow> CoordinateDecimal (Num (real_of_int n / 10000000)))"

definition stopRouteable :: "live_stop \<Rightarrow> bool" where
  "stopRouteable stop =
     routeable (diagnoseRouteStopLocation
       \<lparr>liCountryCode = countryCode (lsText stop), liGeocodeStatus = Some ''RESOLVED'',
        liLatitude = decimalCoordinate (lsLatitude stop), liLongitude = decimalCoordinate (lsLongitude stop),
        liProvince = province (lsText stop)\<rparr>)"

datatype stop_write =
    SetText text_field "string option" | SetLatitude "int option" | SetLongitude "int option" | SetService int
  | SetWindowStart "int option" | SetWindowEnd "int option" | SetGeocode string

fun applyWrite :: "stop_write \<Rightarrow> stop_row \<Rightarrow> stop_row" where
  "applyWrite (SetText f v) r = r\<lparr>srText := text_set f v (srText r)\<rparr>"
| "applyWrite (SetLatitude v) r = r\<lparr>srLatitude := v\<rparr>"
| "applyWrite (SetLongitude v) r = r\<lparr>srLongitude := v\<rparr>"
| "applyWrite (SetService n) r = r\<lparr>srServiceMinutes := n\<rparr>"
| "applyWrite (SetWindowStart v) r = r\<lparr>srTimeWindowStart := v\<rparr>"
| "applyWrite (SetWindowEnd v) r = r\<lparr>srTimeWindowEnd := v\<rparr>"
| "applyWrite (SetGeocode g) r = r\<lparr>srGeocodeStatus := g\<rparr>"

text \<open>\<^verbatim>\<open>new Date(text)\<close> handed to the database, which refuses an invalid date.\<close>

fun dateValue :: "iso option \<Rightarrow> int option result" where
  "dateValue None = Inr None"
| "dateValue (Some t) = (case date_parse t of None \<Rightarrow> Inl INVALID_DATE | Some ms \<Rightarrow> Inr (Some ms))"

definition windowWrite :: "(int option \<Rightarrow> stop_write) \<Rightarrow> iso option \<Rightarrow> iso option \<Rightarrow> stop_write list result" where
  "windowWrite w previous new =
     (if previous = new then Inr [] else attempt (dateValue new) (\<lambda>v. Inr [w v]))"

definition stopData :: "live_stop \<Rightarrow> live_stop \<Rightarrow> stop_write list result" where
  "stopData previous stop =
     attempt (windowWrite SetWindowStart (lsTimeWindowStart previous) (lsTimeWindowStart stop)) (\<lambda>startWrites.
     attempt (windowWrite SetWindowEnd (lsTimeWindowEnd previous) (lsTimeWindowEnd stop)) (\<lambda>endWrites.
     Inr (map (\<lambda>f. SetText f (text_get f (lsText stop)))
            (filter (\<lambda>f. text_get f (lsText previous) \<noteq> text_get f (lsText stop)) TEXT_FIELDS)
          @ (if lsLatitude previous \<noteq> lsLatitude stop then [SetLatitude (lsLatitude stop)] else [])
          @ (if lsLongitude previous \<noteq> lsLongitude stop then [SetLongitude (lsLongitude stop)] else [])
          @ (if lsServiceMinutes previous \<noteq> lsServiceMinutes stop then [SetService (lsServiceMinutes stop)] else [])
          @ startWrites @ endWrites
          @ (if locationChanged previous stop
             then [SetGeocode (if lsLatitude stop = None \<or> lsLongitude stop = None then ''PENDING'' else ''RESOLVED'')]
             else []))))"

definition writableStop :: "string \<Rightarrow> string \<Rightarrow> stop_row \<Rightarrow> bool" where
  "writableStop stopId shopId r = (srId r = stopId \<and> srShopId r = shopId \<and> srStatus r \<in> set FUTURE_STATUSES)"

fun writeStops ::
  "string \<Rightarrow> (string \<Rightarrow> live_stop option) \<Rightarrow> live_stop list \<Rightarrow> stop_row list \<Rightarrow> stop_row list result" where
  "writeStops shopId byId [] rows = Inr rows"
| "writeStops shopId byId (stop # stops) rows =
     attempt (stopData (coalesce_def_value (byId (lsDeliveryStopId stop)) absentStop) stop) (\<lambda>data.
       if data = [] then writeStops shopId byId stops rows
       else refuse (length (filter (writableStop (lsDeliveryStopId stop) shopId) rows) \<noteq> 1) STOP_NOT_FUTURE
              (writeStops shopId byId stops
                 (map (\<lambda>r. if writableStop (lsDeliveryStopId stop) shopId r then fold applyWrite data r else r) rows)))"

text \<open>\<^verbatim>\<open>routePlanStop.update\<close> of a sequence, under the unique key of route and sequence.\<close>

definition setSequence :: "string \<Rightarrow> int \<Rightarrow> plan_stop list \<Rightarrow> plan_stop list result" where
  "setSequence rowId n rows =
     (case List.find (\<lambda>r. psId r = rowId) rows of
        None \<Rightarrow> Inl ROW_NOT_FOUND
      | Some row \<Rightarrow>
          refuse (list_ex (\<lambda>r. psId r \<noteq> rowId \<and> psRoutePlanId r = psRoutePlanId row \<and> psSequence r = n) rows)
            UNIQUE_VIOLATION (Inr (map (\<lambda>r. if psId r = rowId then r\<lparr>psSequence := n\<rparr> else r) rows)))"

fun setSequences :: "(string \<times> int) list \<Rightarrow> plan_stop list \<Rightarrow> plan_stop list result" where
  "setSequences [] rows = Inr rows"
| "setSequences ((k, n) # moves) rows = attempt (setSequence k n rows) (setSequences moves)"

definition temporaryBase :: "live_stop list \<Rightarrow> live_stop list \<Rightarrow> int" where
  "temporaryBase live draft = fold max (map lsSequence live @ map lsSequence draft) 0 + 1"

definition moveStops :: "live_stop list \<Rightarrow> live_stop list \<Rightarrow> live_stop list \<Rightarrow> plan_stop list \<Rightarrow> plan_stop list result" where
  "moveStops live draft reordered rows =
     (let base = temporaryBase live draft
      in attempt (setSequences (map (\<lambda>(i, s). (lsRoutePlanStopId s, base + int i)) (enumerate 0 reordered)) rows)
           (setSequences (map (\<lambda>s. (lsRoutePlanStopId s, lsSequence s)) reordered)))"

definition staleEta :: "string option \<Rightarrow> plan_stop \<Rightarrow> plan_stop" where
  "staleEta version r =
     r\<lparr>psEstimatedArrivalAt := None, psDistanceFromPreviousMeters := None, psDurationFromPreviousSeconds := None,
       psEtaCalculatedAt := None, psEtaFailureCode := None, psEtaFailureMessage := None,
       psEtaInputRouteVersionId := version, psEtaSource := Some ''LIVE_ROUTE_CHANGE'', psEtaStatus := ''STALE''\<rparr>"

definition invalidateEtas :: "live_db \<Rightarrow> live_route \<Rightarrow> string \<Rightarrow> string list \<Rightarrow> plan_stop list" where
  "invalidateEtas db route shopId editable =
     map (\<lambda>r. if psRoutePlanId r = plId (rtPlan route) \<and> psShopId r = shopId \<and> psDeliveryStopId r \<in> set editable
               \<and> list_ex (\<lambda>s. srId s = psDeliveryStopId r \<and> srShopId s = psShopId r
                    \<and> srStatus s \<in> set FUTURE_STATUSES) (dbStops db)
              then staleEta (case rtChildren route of [] \<Rightarrow> None | (v, _) # _ \<Rightarrow> Some v) r else r) (dbPlanStops db)"

definition LOCATION_FIELDS :: "string list" where
  "LOCATION_FIELDS =
     [''address1'', ''address2'', ''city'', ''province'', ''postalCode'', ''countryCode'', ''latitude'', ''longitude'', ''geocodeStatus'']"

definition entriesOf :: "json \<Rightarrow> (string \<times> json) list" where
  "entriesOf v = (case v of JObj kvs \<Rightarrow> kvs | _ \<Rightarrow> [])"

definition locationDiagnostics :: "string \<Rightarrow> string \<Rightarrow> int \<Rightarrow> json \<Rightarrow> json" where
  "locationDiagnostics planId publicationId publishedAt mapping =
     (let diagnostics = entriesOf mapping;
          corrections = entriesOf (jget (JObj diagnostics) ''routeOpsCorrections'');
          correctedAt = JStr (toISOString publishedAt);
          mark = JObj [(''actor'', JStr ''live_route_dispatch''), (''source'', JStr ''live_route_dispatch''),
                       (''correctedAt'', correctedAt), (''routePlanId'', JStr planId),
                       (''publicationVersionId'', JStr publicationId)];
          fields = fold (\<lambda>f kvs. jset f mark kvs) LOCATION_FIELDS (entriesOf (jget (JObj corrections) ''fields''))
      in JObj (jset ''routeOpsCorrections''
           (JObj (jset ''version'' (JNum (Num 1)) (jset ''lastUpdatedAt'' correctedAt (jset ''fields'' (JObj fields) corrections))))
           diagnostics))"

fun persistLiveRouteLocationCorrections ::
  "string \<Rightarrow> string \<Rightarrow> string \<Rightarrow> int \<Rightarrow> stop_row list \<Rightarrow> live_db \<Rightarrow> live_db result" where
  "persistLiveRouteLocationCorrections shopId planId publicationId publishedAt [] db = Inr db"
| "persistLiveRouteLocationCorrections shopId planId publicationId publishedAt (stop # stops) db =
     (let hit = (\<lambda>f. dfShopId f = shopId \<and> dfOrderId f = srOrderId stop);
          mark = locationDiagnostics planId publicationId publishedAt
      in attempt
           (if list_ex hit (dbFacts db)
            then Inr (db\<lparr>dbFacts := map (\<lambda>f. if hit f
                   then f\<lparr>dfMappingDiagnostics := mark (dfMappingDiagnostics f), dfGeocodeStatus := ''RESOLVED''\<rparr> else f) (dbFacts db)\<rparr>)
            else case List.find (\<lambda>r. orId r = srOrderId stop \<and> orShopId r = shopId) (dbOrders db) of
                   None \<Rightarrow> Inl ROW_NOT_FOUND
                 | Some ord \<Rightarrow>
                     Inr (db\<lparr>dbFacts := dbFacts db @
                       [\<lparr>dfShopId = shopId, dfOrderId = srOrderId stop, dfSource = ord, dfMappingDiagnostics = mark JUndefined,
                         dfDeliveryDate = srDeliveryDate stop, dfTimeWindowStart = srTimeWindowStart stop,
                         dfTimeWindowEnd = srTimeWindowEnd stop, dfGeocodeStatus = ''RESOLVED''\<rparr>]\<rparr>))
           (persistLiveRouteLocationCorrections shopId planId publicationId publishedAt stops))"

definition requireRouteable :: "(string \<Rightarrow> live_stop option) \<Rightarrow> live_stop list \<Rightarrow> unit result" where
  "requireRouteable byId changes =
     refuse (\<not> list_all (\<lambda>stop. \<not> locationChanged (coalesce_def_value (byId (lsDeliveryStopId stop)) absentStop) stop
               \<or> stopRouteable stop) changes) STOP_LOCATION_NOT_ROUTEABLE (Inr ())"

text \<open>The writes of a dispatch between the checks and the receipt.\<close>

definition publishDraft ::
  "live_db \<Rightarrow> live_route \<Rightarrow> live_state \<Rightarrow> identity \<Rightarrow> live_snapshot \<Rightarrow> live_stop list \<Rightarrow> string \<Rightarrow> int
   \<Rightarrow> (live_db \<times> live_state \<times> publication) result" where
  "publishDraft db route st idn draft changes freshId now =
     (let live = captureSnapshot route;
          byId = stopsById (snStops live);
          previous = (\<lambda>stop. coalesce_def_value (byId (lsDeliveryStopId stop)) absentStop);
          editable = editableFutureStopIds route;
          reordered = filter (\<lambda>stop. lsSequence (previous stop) \<noteq> lsSequence stop) changes;
          changedLocations = map lsDeliveryStopId (filter (\<lambda>stop. locationChanged (previous stop) stop) changes);
          row = \<lparr>pbId = freshId, pbRoutePlanId = idRoutePlanId idn, pbShopId = idShopId idn,
                 pbAssignmentGeneration = lvAssignmentGeneration st, pbDriverId = lvDriverId st,
                 pbSequence = lvLatestSequence st + 1, pbContentHash = lvDraftHash st, pbSnapshot = Stored draft,
                 pbPublishedAt = now, pbNotificationStatus = ''PENDING'', pbNextAttemptAt = Some now, pbErrorCode = None\<rparr>
      in attempt (writeStops (idShopId idn) byId changes (dbStops db)) (\<lambda>stops.
         attempt (moveStops (snStops live) (snStops draft) reordered (dbPlanStops db)) (\<lambda>rows.
         (let db1 = db\<lparr>dbStops := stops, dbPlanStops := rows\<rparr>;
              db2 = db1\<lparr>dbGeometry := filter (\<lambda>(plan, _). plan \<noteq> plId (rtPlan route)) (dbGeometry db1)\<rparr>;
              db3 = db2\<lparr>dbPlanStops := invalidateEtas db2 route (idShopId idn) editable\<rparr>
          in attempt (createPublication db3 row) (\<lambda>db4.
             attempt (persistLiveRouteLocationCorrections (idShopId idn) (idRoutePlanId idn) freshId now
                 (map rsStop (filter (\<lambda>r. psDeliveryStopId (rsRow r) \<in> set changedLocations) (rtStops route))) db4) (\<lambda>db5.
             (let db6 = db5\<lparr>dbPlans := map (\<lambda>p. if plId p = plId (rtPlan route) then p\<lparr>plUpdatedAt := now\<rparr> else p) (dbPlans db5)\<rparr>
              in attempt (updateState db6 (plId (rtPlan route))
                   (\<lambda>s. s\<lparr>lvLatestPublicationId := freshId, lvLatestSequence := lvLatestSequence st + 1\<rparr>)) (\<lambda>(db7, updated).
                 Inr (db7, updated, row)))))))))"

definition dispatchChanges ::
  "(live_content \<Rightarrow> string) \<Rightarrow> demo_env \<Rightarrow> live_db \<Rightarrow> live_state \<Rightarrow> identity \<Rightarrow> publication \<Rightarrow> string \<Rightarrow> int
   \<Rightarrow> (live_db \<times> live_state \<times> publication) result" where
  "dispatchChanges H env db st idn current freshId now =
     attempt (loadRoute env db idn) (\<lambda>route.
     attempt (requireWritableRoute route) (\<lambda>_.
     attempt (assertStateIdentity route st) (\<lambda>_.
     attempt (assertNoLiveDrift H route current) (\<lambda>_.
     attempt (snapshotFromJson (lvDraftSnapshot st)) (\<lambda>draft.
     attempt (changedStops (captureSnapshot route) draft) (\<lambda>changes.
     refuse (\<not> list_all (\<lambda>stop. lsDeliveryStopId stop \<in> set (editableFutureStopIds route)) changes) STOP_NOT_FUTURE
       (attempt (requireRouteable (stopsById (snStops (captureSnapshot route))) changes) (\<lambda>_.
          publishDraft db route st idn draft changes freshId now))))))))"

definition publishLiveRouteChange ::
  "(live_content \<Rightarrow> string) \<Rightarrow> (json \<Rightarrow> string) \<Rightarrow> demo_env \<Rightarrow> live_db \<Rightarrow> admin_command \<Rightarrow> string \<Rightarrow> int
   \<Rightarrow> (live_db \<times> live_response) result" where
  "publishLiveRouteChange H K env db cmd freshId now =
     attempt (requireRevision (acExpectedRevision cmd)) (\<lambda>_.
     attempt (requireCommandId (acCommandId cmd)) (\<lambda>_.
     (let requestHash = commandHash K (requestJson cmd [])
      in attempt (loadRoute env db (acIdentity cmd)) (\<lambda>route.
         attempt (requireAdminCommandIdentity route cmd False) (\<lambda>_.
         (case loadState db (acIdentity cmd) of
            None \<Rightarrow> Inl DRAFT_NOT_FOUND
          | Some st \<Rightarrow>
             attempt (assertStateIdentity route st) (\<lambda>_.
             attempt (replayCommand db route cmd DISPATCH requestHash) (\<lambda>replay.
             (case replay of
                Some r \<Rightarrow> Inr (db, r)
              | None \<Rightarrow>
                  attempt (requireAdminCommandIdentity route cmd True) (\<lambda>_.
                  attempt (requireWritableRoute route) (\<lambda>_.
                  refuse (\<not> revisionIs st cmd) REVISION_CONFLICT
                    (attempt (loadCurrentPublication db st) (\<lambda>current.
                     attempt (assertNoLiveDrift H route current) (\<lambda>_.
                     attempt (if lvDraftHash st = pbContentHash current then Inr (db, st, current)
                              else dispatchChanges H env db st (acIdentity cmd) current freshId now) (\<lambda>(db1, st1, pub).
                     attempt (publicationResponse st1 pub) (\<lambda>answer.
                     (let response = DispatchAnswer answer (lvRevision st) (lvDraftHash st \<noteq> pbContentHash current)
                      in attempt (recordCommand db1 route cmd DISPATCH requestHash response (Some (pbId pub))) (\<lambda>db2.
                         Inr (db2, response)))))))))))))))))))"

section \<open>The driver\<close>

definition getLiveRouteChange ::
  "(live_content \<Rightarrow> string) \<Rightarrow> demo_env \<Rightarrow> live_db \<Rightarrow> driver_identity \<Rightarrow> int \<Rightarrow> publication_response option result" where
  "getLiveRouteChange H env db di now =
     attempt (loadRoute env db (diIdentity di)) (\<lambda>route.
     attempt (requireDriver route di now) (\<lambda>_.
     attempt (underlyingVersion route) (\<lambda>_.
     (case loadState db (diIdentity di) of
        None \<Rightarrow> Inr None
      | Some st \<Rightarrow>
          if belongsToPreviousAssignment route st then Inr None
          else attempt (assertStateIdentity route st) (\<lambda>_.
               attempt (loadCurrentPublication db st) (\<lambda>p.
               attempt (assertNoLiveDrift H route p) (\<lambda>_.
               attempt (publicationResponse st p) (\<lambda>r. Inr (Some r)))))))))"

definition acknowledgeLiveRouteChange ::
  "(live_content \<Rightarrow> string) \<Rightarrow> demo_env \<Rightarrow> live_db \<Rightarrow> driver_identity \<Rightarrow> string \<Rightarrow> int
   \<Rightarrow> (live_db \<times> publication_response) result" where
  "acknowledgeLiveRouteChange H env db di publicationVersionId now =
     attempt (loadRoute env db (diIdentity di)) (\<lambda>route.
     attempt (requireDriver route di now) (\<lambda>_.
     (case loadState db (diIdentity di) of
        None \<Rightarrow> Inl PUBLICATION_NOT_FOUND
      | Some st \<Rightarrow>
         attempt (assertStateIdentity route st) (\<lambda>_.
         (case List.find (\<lambda>p. pbId p = publicationVersionId \<and> pbRoutePlanId p = idRoutePlanId (diIdentity di)
                 \<and> pbShopId p = idShopId (diIdentity di) \<and> pbDriverId p = diDriverId di
                 \<and> pbAssignmentGeneration p = plAssignmentGeneration (rtPlan route)) (dbPublications db) of
            None \<Rightarrow> Inl PUBLICATION_NOT_FOUND
          | Some p \<Rightarrow>
             refuse (lvLatestSequence st < pbSequence p) PUBLICATION_NOT_FOUND
               (attempt (if lvAppliedSequence st < pbSequence p
                         then updateState db (plId (rtPlan route))
                                (\<lambda>s. s\<lparr>lvAppliedPublicationId := Some (pbId p), lvAppliedSequence := pbSequence p,
                                       lvAppliedAt := Some now\<rparr>)
                         else Inr (db, st)) (\<lambda>(db1, st1).
                attempt (loadCurrentPublication db1 st1) (\<lambda>latest.
                attempt (assertNoLiveDrift H route latest) (\<lambda>_.
                attempt (publicationResponse st1 latest) (\<lambda>answer. Inr (db1, answer)))))))))))"

definition STOP_EVENTS :: "string list" where
  "STOP_EVENTS = [''STOP_ARRIVED'', ''STOP_DELIVERED'', ''STOP_FAILED'']"

fun snapshotsFromJson :: "publication list \<Rightarrow> live_snapshot list result" where
  "snapshotsFromJson [] = Inr []"
| "snapshotsFromJson (p # ps) =
     attempt (snapshotFromJson (pbSnapshot p)) (\<lambda>s. attempt (snapshotsFromJson ps) (\<lambda>ss. Inr (s # ss)))"

definition findStopIn :: "string \<Rightarrow> live_snapshot \<Rightarrow> live_stop option" where
  "findStopIn stopId sn = List.find (\<lambda>s. lsDeliveryStopId s = stopId) (snStops sn)"

definition publicationsBetween :: "live_db \<Rightarrow> live_state \<Rightarrow> int \<Rightarrow> int \<Rightarrow> publication list" where
  "publicationsBetween db st lo hi =
     sort_by (\<lambda>a b. compare_int (pbSequence a) (pbSequence b))
       (filter (\<lambda>p. samePublications st p \<and> lo < pbSequence p \<and> pbSequence p \<le> hi) (dbPublications db))"

definition unchangedIn :: "live_snapshot \<Rightarrow> string \<Rightarrow> live_stop \<Rightarrow> live_snapshot \<Rightarrow> bool" where
  "unchangedIn origin stopId target sn =
     (membership sn = membership origin
      \<and> (case findStopIn stopId sn of
           None \<Rightarrow> False | Some s \<Rightarrow> operationalFingerprint s = operationalFingerprint target))"

definition validateStaleEvent ::
  "live_db \<Rightarrow> live_route \<Rightarrow> live_state \<Rightarrow> publication \<Rightarrow> string \<Rightarrow> string \<Rightarrow> string \<Rightarrow> bool result" where
  "validateStaleEvent db route st current initialVersion expectedVersion stopId =
     (case List.find (\<lambda>p. samePublications st p
             \<and> (if expectedVersion = initialVersion then pbSequence p = 0 else pbId p = expectedVersion)) (dbPublications db) of
        None \<Rightarrow> Inl VERSION_CONFLICT
      | Some origin \<Rightarrow>
         refuse (pbSequence current \<le> pbSequence origin) VERSION_CONFLICT
           (attempt (snapshotFromJson (pbSnapshot origin)) (\<lambda>originSnapshot.
            (case findStopIn stopId originSnapshot of
               None \<Rightarrow> Inl VERSION_CONFLICT
             | Some target \<Rightarrow>
                (let publications = publicationsBetween db st (pbSequence origin) (pbSequence current)
                 in refuse (int (length publications) \<noteq> pbSequence current - pbSequence origin) VERSION_CONFLICT
                      (attempt (snapshotsFromJson publications) (\<lambda>snapshots.
                       refuse (\<not> list_all (unchangedIn originSnapshot stopId target) (snapshots @ [captureSnapshot route]))
                         VERSION_CONFLICT (Inr True))))))))"

definition validateLiveRouteEvent ::
  "(live_content \<Rightarrow> string) \<Rightarrow> demo_env \<Rightarrow> live_db \<Rightarrow> driver_identity \<Rightarrow> string \<Rightarrow> string \<Rightarrow> string option \<Rightarrow> int
   \<Rightarrow> bool result" where
  "validateLiveRouteEvent H env db di expectedVersion eventType deliveryStopId now =
     (case loadState db (diIdentity di) of
        None \<Rightarrow> Inr False
      | Some st \<Rightarrow>
         attempt (loadRoute env db (diIdentity di)) (\<lambda>route.
         attempt (requireDriver route di now) (\<lambda>_.
         attempt (underlyingVersion route) (\<lambda>_.
         if belongsToPreviousAssignment route st then Inr False
         else attempt (assertStateIdentity route st) (\<lambda>_.
              attempt (loadCurrentPublication db st) (\<lambda>current.
              attempt (assertNoLiveDrift H route current) (\<lambda>_.
              attempt (snapshotFromJson (pbSnapshot current)) (\<lambda>snapshot.
              (let initialVersion = coalesce_def_value (snInitialRouteVersionId snapshot) (lvBaselineRouteVersionId st)
               in if expectedVersion = pbId current \<or> lvLatestSequence st = 0 \<and> expectedVersion = initialVersion
                  then Inr True
                  else case deliveryStopId of
                         None \<Rightarrow> Inl VERSION_CONFLICT
                       | Some stopId \<Rightarrow>
                           refuse (eventType \<notin> set STOP_EVENTS) VERSION_CONFLICT
                             (validateStaleEvent db route st current initialVersion expectedVersion stopId))))))))))"

definition resolveLiveRoutePublication ::
  "(live_content \<Rightarrow> string) \<Rightarrow> live_db \<Rightarrow> driver_identity \<Rightarrow> int \<Rightarrow> publication_response option result" where
  "resolveLiveRoutePublication H db di generation =
     (let idn = diIdentity di
      in case List.find (\<lambda>s. lvRoutePlanId s = idRoutePlanId idn \<and> lvShopId s = idShopId idn
                \<and> lvDriverId s = diDriverId di \<and> lvAssignmentGeneration s = generation) (dbStates db) of
           None \<Rightarrow> Inr None
         | Some st \<Rightarrow>
            (case List.find (\<lambda>p. plId p = idRoutePlanId idn \<and> plShopId p = idShopId idn
                    \<and> plDriverId p = Some (diDriverId di) \<and> plAssignmentGeneration p = lvAssignmentGeneration st) (dbPlans db) of
               None \<Rightarrow> Inr None
             | Some plan \<Rightarrow>
                (let route = selectRoute db plan
                 in attempt (underlyingVersion route) (\<lambda>version.
                    if lvBaselineRouteVersionId st \<noteq> version then Inr None
                    else case List.find (\<lambda>p. pbId p = lvLatestPublicationId st \<and> pbRoutePlanId p = idRoutePlanId idn
                                \<and> pbShopId p = idShopId idn \<and> pbDriverId p = diDriverId di
                                \<and> pbAssignmentGeneration p = lvAssignmentGeneration st) (dbPublications db) of
                           None \<Rightarrow> Inr None
                         | Some p \<Rightarrow>
                             attempt (assertNoLiveDrift H route p) (\<lambda>_.
                             attempt (publicationResponse st p) (\<lambda>r. Inr (Some r)))))))"

section \<open>Histories\<close>

text \<open>
  A transaction is rolled back when it raises. Everything else that writes the database (driver events, assignments,
  synchronisation with the shop, planning) leaves the three tables of this component alone and may change all others.
  The writer of a successor version runs inside one transaction with the two functions around it.
\<close>

definition commit :: "live_db \<Rightarrow> (live_db \<times> 'a) result \<Rightarrow> live_db" where
  "commit db r = (case r of Inl e \<Rightarrow> db | Inr (db', _) \<Rightarrow> db')"

definition outsideWrites :: "live_db \<Rightarrow> live_db \<Rightarrow> live_db" where
  "outsideWrites db new =
     new\<lparr>dbStates := dbStates db, dbPublications := dbPublications db, dbReceipts := dbReceipts db\<rparr>"

text \<open>The keys of the planning tables and the reference from a plan stop to its stop, which the database enforces.\<close>

definition tables_ok :: "live_db \<Rightarrow> bool" where
  "tables_ok db =
     (distinct (map plId (dbPlans db)) \<and> distinct (map srId (dbStops db)) \<and> distinct (map psId (dbPlanStops db))
      \<and> distinct (map (\<lambda>r. (psRoutePlanId r, psSequence r)) (dbPlanStops db))
      \<and> distinct (map (\<lambda>r. (psRoutePlanId r, psDeliveryStopId r)) (dbPlanStops db))
      \<and> list_all (\<lambda>r. list_ex (\<lambda>s. srId s = psDeliveryStopId r \<and> srShopId s = psShopId r) (dbStops db)) (dbPlanStops db))"

definition replaceChild ::
  "(live_content \<Rightarrow> string) \<Rightarrow> demo_env \<Rightarrow> live_db \<Rightarrow> identity \<Rightarrow> string \<Rightarrow> string \<Rightarrow> live_db \<Rightarrow> int \<Rightarrow> (live_db \<times> unit) result" where
  "replaceChild H env db idn currentChild nextChild written now =
     attempt (prepareLiveRouteChildReplacement H env db idn currentChild) (\<lambda>context.
       (case context of
          None \<Rightarrow> refuse (\<not> tables_ok written) UNIQUE_VIOLATION (Inr (outsideWrites db written, ()))
        | Some c \<Rightarrow>
            refuse (\<not> tables_ok written) UNIQUE_VIOLATION
              (attempt (completeLiveRouteChildReplacement H env (outsideWrites db written) c nextChild now) (\<lambda>db1. Inr (db1, ())))))"

datatype live_event =
    SaveDraft admin_command "json list" "string list option" string int
  | DiscardDraft admin_command
  | DispatchDraft admin_command string int
  | Acknowledge driver_identity string int
  | ReplaceChild identity string string live_db int
  | OtherWrites live_db

fun live_step :: "(live_content \<Rightarrow> string) \<Rightarrow> (json \<Rightarrow> string) \<Rightarrow> demo_env \<Rightarrow> live_db \<Rightarrow> live_event \<Rightarrow> live_db" where
  "live_step H K env db (SaveDraft cmd overrides order freshId now) =
     commit db (saveLiveRouteChange H K env db cmd overrides order freshId now)"
| "live_step H K env db (DiscardDraft cmd) = commit db (discardLiveRouteChange H K env db cmd)"
| "live_step H K env db (DispatchDraft cmd freshId now) = commit db (publishLiveRouteChange H K env db cmd freshId now)"
| "live_step H K env db (Acknowledge di p now) = commit db (acknowledgeLiveRouteChange H env db di p now)"
| "live_step H K env db (ReplaceChild idn currentChild nextChild written now) =
     commit db (replaceChild H env db idn currentChild nextChild written now)"
| "live_step H K env db (OtherWrites written) = (if tables_ok written then outsideWrites db written else db)"

end
