(* ===== verification/LiveRouteSample.thy ===== *)
theory LiveRouteSample
  imports LiveRoute
begin

text \<open>
  A small route on which the theorems on live changes are instantiated: three stops, the driver on the way to the first,
  and a saved draft that swaps the other two.
\<close>

definition sampleId :: string where
  "sampleId = ''0a0b0c0d-0000-4000-8000-0a0b0c0d0e0f''"

definition sampleIdentity :: identity where
  "sampleIdentity = \<lparr>idShopId = ''s'', idRoutePlanId = sampleId\<rparr>"

definition sampleText :: stop_text where
  "sampleText = \<lparr>recipientName = Some ''R'', phone = None, address1 = Some ''A'', address2 = None, city = None,
     province = None, postalCode = None, countryCode = Some ''CA'', instructions = None\<rparr>"

definition samplePlan :: plan_row where
  "samplePlan = \<lparr>plId = sampleId, plShopId = ''s'', plDriverId = Some ''d'', plStatus = ''IN_PROGRESS'',
     plAssignmentGeneration = 1, plConstraints = JNull, plDeliveryWorkCompletedAt = None,
     plDeliveryWorkCompletedGeneration = None, plDeliveryWorkCompletedVersionId = None, plDriverNavigationUntil = None,
     plUpdatedAt = 0\<rparr>"

definition sampleStop :: "string \<Rightarrow> stop_row" where
  "sampleStop k = \<lparr>srId = k, srShopId = ''s'', srOrderId = k, srText = sampleText, srLatitude = Some 430000000,
     srLongitude = Some (- 790000000), srGeocodeStatus = ''RESOLVED'', srDeliveryDate = None, srTimeWindowStart = None,
     srTimeWindowEnd = None, srServiceMinutes = 5, srStatus = ASSIGNED\<rparr>"

definition sampleRow :: "string \<Rightarrow> int \<Rightarrow> plan_stop" where
  "sampleRow k n = \<lparr>psId = k, psShopId = ''s'', psRoutePlanId = sampleId, psDeliveryStopId = k, psSequence = n,
     psEstimatedArrivalAt = None, psDistanceFromPreviousMeters = None, psDurationFromPreviousSeconds = None,
     psEtaCalculatedAt = None, psEtaFailureCode = None, psEtaFailureMessage = None, psEtaInputRouteVersionId = None,
     psEtaSource = None, psEtaStatus = ''FRESH''\<rparr>"

definition sampleLive :: "string \<Rightarrow> int \<Rightarrow> live_stop" where
  "sampleLive k n = captureStop \<lparr>rsRow = sampleRow k n, rsStop = sampleStop k, rsSourceOrderId = None\<rparr>"

definition sampleSnapshot :: "live_stop list \<Rightarrow> live_snapshot" where
  "sampleSnapshot stops = \<lparr>snDeliveryProof = Some \<lparr>photoRequired = False, signatureRequired = False\<rparr>,
     snTollPolicy = Some ALLOW_TOLLS, snStops = stops, snInitialRouteVersionId = Some sampleId\<rparr>"

definition samplePublished :: live_snapshot where
  "samplePublished = sampleSnapshot [sampleLive ''a'' 1, sampleLive ''b'' 2, sampleLive ''c'' 3]"

definition sampleDraft :: live_snapshot where
  "sampleDraft = sampleSnapshot [sampleLive ''a'' 1, sampleLive ''c'' 2, sampleLive ''b'' 3]"

definition sampleDigest :: "live_content \<Rightarrow> string" where
  "sampleDigest c = (if c = contentOf samplePublished then ''p'' else ''q'')"

definition samplePublication :: publication where
  "samplePublication = \<lparr>pbId = ''first'', pbRoutePlanId = sampleId, pbShopId = ''s'', pbAssignmentGeneration = 1,
     pbDriverId = ''d'', pbSequence = 0, pbContentHash = ''p'', pbSnapshot = Stored samplePublished, pbPublishedAt = 0,
     pbNotificationStatus = ''SKIPPED'', pbNextAttemptAt = None, pbErrorCode = None\<rparr>"

definition sampleState :: live_state where
  "sampleState = \<lparr>lvRoutePlanId = sampleId, lvShopId = ''s'', lvAssignmentGeneration = 1, lvDriverId = ''d'',
     lvBaselineRouteVersionId = sampleId, lvRevision = 1, lvDraftSnapshot = Stored sampleDraft, lvDraftHash = ''q'',
     lvLatestPublicationId = ''first'', lvLatestSequence = 0, lvAppliedPublicationId = Some ''first'', lvAppliedSequence = 0,
     lvAppliedAt = None\<rparr>"

definition sampleDb :: live_db where
  "sampleDb = \<lparr>dbPlans = [samplePlan], dbShops = [\<lparr>shId = ''s'', shAppId = ''app'', shShopDomain = ''shop''\<rparr>],
     dbDrivers = [], dbAccounts = [], dbChildren = [], dbOrders = [], dbStops = [sampleStop ''a'', sampleStop ''b'', sampleStop ''c''],
     dbPlanStops = [sampleRow ''a'' 1, sampleRow ''b'' 2, sampleRow ''c'' 3], dbFacts = [], dbGeometry = [],
     dbStates = [sampleState], dbPublications = [samplePublication], dbReceipts = []\<rparr>"

definition sampleEnv :: demo_env where
  "sampleEnv = \<lparr>envShopId = None, envAccountId = None\<rparr>"

definition sampleCommand :: admin_command where
  "sampleCommand = \<lparr>acIdentity = sampleIdentity, acCommandId = sampleId, acExpectedAssignmentGeneration = ''1'',
     acExpectedRouteVersionId = sampleId, acExpectedRevision = Num 1\<rparr>"

definition sampleDispatch :: "(live_db \<times> live_response) result" where
  "sampleDispatch =
     publishLiveRouteChange sampleDigest (\<lambda>_. ''k'') sampleEnv sampleDb sampleCommand ''second'' 5"

lemma sample_dispatch_changes:
  "case sampleDispatch of Inr (db, DispatchAnswer a n b) \<Rightarrow> b | _ \<Rightarrow> False"
  by code_simp

lemma sample_dispatch:
  obtains db a n where "publishLiveRouteChange sampleDigest (\<lambda>_. ''k'') sampleEnv sampleDb sampleCommand ''second'' 5
    = Inr (db, DispatchAnswer a n True)"
  using sample_dispatch_changes
  by (auto simp: sampleDispatch_def split: sum.splits prod.splits live_response.splits)

lemma sample_tables: "tables_ok sampleDb"
  by code_simp

end
