(* ===== verification/LiveRouteHistory.thy ===== *)
theory LiveRouteHistory
  imports LiveRouteSample "HOL-Library.Sublist"
begin

text \<open>
  Histories of live route changes. The three tables of the component are written by a few elementary writes
  (\<open>live_write\<close>); every command is a sequence of them, so what all histories keep is proved once by rule induction:
  the lineage of publications of an assignment is contiguous and never rewritten, the applied cursor follows the latest
  one, and a command identifier has one receipt.
\<close>

section \<open>The tables\<close>

type_synonym live_tables = "live_state list \<times> publication list \<times> command_receipt list"

definition tables :: "live_db \<Rightarrow> live_tables" where
  "tables db = (dbStates db, dbPublications db, dbReceipts db)"

definition receiptKey :: "command_receipt \<Rightarrow> string \<times> string \<times> command_kind \<times> string" where
  "receiptKey r = (ccShopId r, ccRoutePlanId r, ccKind r, ccCommandId r)"

definition ordered :: "live_snapshot \<Rightarrow> bool" where
  "ordered sn = sorted_wrt (<) (map lsSequence (snStops sn))"

definition hashed :: "(live_content \<Rightarrow> string) \<Rightarrow> stored \<Rightarrow> string \<Rightarrow> bool" where
  "hashed H v h = (case v of Stored sn \<Rightarrow> h = contentHash H sn \<and> ordered sn | Malformed _ \<Rightarrow> False)"

text \<open>The delivery options a stored snapshot was taken with.\<close>

definition policy :: "stored \<Rightarrow> (proof_policy option \<times> toll_policy option) option" where
  "policy v = (case v of Stored sn \<Rightarrow> Some (snDeliveryProof sn, snTollPolicy sn) | Malformed _ \<Rightarrow> None)"

definition lineage :: "live_state \<Rightarrow> publication list \<Rightarrow> publication list" where
  "lineage st ps = filter (samePublications st) ps"

definition state_ok :: "(live_content \<Rightarrow> string) \<Rightarrow> publication list \<Rightarrow> live_state \<Rightarrow> bool" where
  "state_ok H ps st =
     (0 \<le> lvRevision st \<and> 0 \<le> lvAppliedSequence st \<and> lvAppliedSequence st \<le> lvLatestSequence st
      \<and> hashed H (lvDraftSnapshot st) (lvDraftHash st)
      \<and> map pbSequence (lineage st ps) = map int [0..<Suc (nat (lvLatestSequence st))]
      \<and> lvLatestPublicationId st = pbId (lineage st ps ! nat (lvLatestSequence st))
      \<and> policy (lvDraftSnapshot st) = policy (pbSnapshot (lineage st ps ! nat (lvLatestSequence st)))
      \<and> lvAppliedPublicationId st = Some (pbId (lineage st ps ! nat (lvAppliedSequence st))))"

definition owned :: "live_state list \<Rightarrow> publication \<Rightarrow> bool" where
  "owned ss p =
     list_ex (\<lambda>s. lvRoutePlanId s = pbRoutePlanId p \<and> lvShopId s = pbShopId p
       \<and> pbAssignmentGeneration p \<le> lvAssignmentGeneration s) ss"

definition live_inv :: "(live_content \<Rightarrow> string) \<Rightarrow> live_tables \<Rightarrow> bool" where
  "live_inv H t =
     (case t of (ss, ps, rs) \<Rightarrow>
        distinct (map lvRoutePlanId ss) \<and> distinct (map pbId ps) \<and> distinct (map receiptKey rs)
        \<and> list_all (\<lambda>p. hashed H (pbSnapshot p) (pbContentHash p)) ps
        \<and> list_all (owned ss) ps \<and> list_all (state_ok H ps) ss)"

section \<open>Elementary writes\<close>

definition replaceRow :: "live_state \<Rightarrow> live_state list \<Rightarrow> live_state list" where
  "replaceRow st ss = map (\<lambda>s. if lvRoutePlanId s = lvRoutePlanId st then st else s) ss"

definition first_of :: "(live_content \<Rightarrow> string) \<Rightarrow> live_state \<Rightarrow> publication \<Rightarrow> bool" where
  "first_of H st p =
     (samePublications st p \<and> pbSequence p = 0 \<and> hashed H (pbSnapshot p) (pbContentHash p)
      \<and> lvDraftSnapshot st = pbSnapshot p \<and> lvDraftHash st = pbContentHash p \<and> lvLatestPublicationId st = pbId p
      \<and> lvAppliedPublicationId st = Some (pbId p) \<and> lvLatestSequence st = 0 \<and> lvAppliedSequence st = 0 \<and> lvRevision st = 0)"

inductive live_write :: "(live_content \<Rightarrow> string) \<Rightarrow> live_tables \<Rightarrow> live_tables \<Rightarrow> bool" for H where
  enrolled:
    "\<not> list_ex (\<lambda>s. lvRoutePlanId s = lvRoutePlanId st) ss \<Longrightarrow> first_of H st p \<Longrightarrow> pbId p \<notin> pbId ` set ps
     \<Longrightarrow> live_write H (ss, ps, rs) (ss @ [st], ps @ [p], rs)"
| reassigned:
    "old \<in> set ss \<Longrightarrow> lvRoutePlanId old = lvRoutePlanId st \<Longrightarrow> lvShopId old = lvShopId st
     \<Longrightarrow> lvAssignmentGeneration old < lvAssignmentGeneration st \<Longrightarrow> first_of H st p \<Longrightarrow> pbId p \<notin> pbId ` set ps
     \<Longrightarrow> live_write H (ss, ps, rs) (replaceRow st ss, ps @ [p], rs)"
| drafted:
    "st \<in> set ss \<Longrightarrow> hashed H d h \<Longrightarrow> policy d = policy (lvDraftSnapshot st)
     \<Longrightarrow> live_write H (ss, ps, rs)
           (replaceRow (st\<lparr>lvDraftSnapshot := d, lvDraftHash := h, lvRevision := lvRevision st + 1\<rparr>) ss, ps, rs)"
| published:
    "st \<in> set ss \<Longrightarrow> samePublications st p \<Longrightarrow> pbSequence p = lvLatestSequence st + 1
     \<Longrightarrow> pbSnapshot p = lvDraftSnapshot st \<Longrightarrow> pbContentHash p = lvDraftHash st \<Longrightarrow> pbId p \<notin> pbId ` set ps
     \<Longrightarrow> live_write H (ss, ps, rs)
           (replaceRow (st\<lparr>lvLatestPublicationId := pbId p, lvLatestSequence := lvLatestSequence st + 1\<rparr>) ss, ps @ [p], rs)"
| succeeded:
    "st \<in> set ss \<Longrightarrow> samePublications st p \<Longrightarrow> pbSequence p = lvLatestSequence st + 1
     \<Longrightarrow> hashed H (pbSnapshot p) (pbContentHash p) \<Longrightarrow> pbId p \<notin> pbId ` set ps
     \<Longrightarrow> live_write H (ss, ps, rs)
           (replaceRow (st\<lparr>lvBaselineRouteVersionId := b, lvLatestPublicationId := pbId p,
              lvLatestSequence := lvLatestSequence st + 1, lvDraftSnapshot := pbSnapshot p,
              lvDraftHash := pbContentHash p, lvRevision := lvRevision st + 1\<rparr>) ss, ps @ [p], rs)"
| acknowledged:
    "st \<in> set ss \<Longrightarrow> p \<in> set ps \<Longrightarrow> samePublications st p \<Longrightarrow> lvAppliedSequence st < pbSequence p
     \<Longrightarrow> pbSequence p \<le> lvLatestSequence st
     \<Longrightarrow> live_write H (ss, ps, rs)
           (replaceRow (st\<lparr>lvAppliedPublicationId := Some (pbId p), lvAppliedSequence := pbSequence p,
                          lvAppliedAt := Some now\<rparr>) ss, ps, rs)"
| receipted:
    "receiptKey r \<notin> receiptKey ` set rs \<Longrightarrow> live_write H (ss, ps, rs) (ss, ps, rs @ [r])"

inductive_cases live_writeE: "live_write H t t'"

section \<open>The invariant\<close>

lemma map_replaceRow [simp]: "map lvRoutePlanId (replaceRow st ss) = map lvRoutePlanId ss"
  by (simp add: replaceRow_def)

lemma set_replaceRow:
  assumes "distinct (map lvRoutePlanId ss)" and "old \<in> set ss" and "lvRoutePlanId st = lvRoutePlanId old"
  shows "set (replaceRow st ss) = insert st (set ss - {old})"
  using assms by (auto simp: replaceRow_def distinct_map inj_on_def split: if_splits)

lemma lineage_append [simp]: "lineage st (ps @ [p]) = lineage st ps @ (if samePublications st p then [p] else [])"
  by (simp add: lineage_def)

lemma samePublications_keys:
  "lvRoutePlanId s = lvRoutePlanId t \<Longrightarrow> lvShopId s = lvShopId t \<Longrightarrow> lvDriverId s = lvDriverId t
   \<Longrightarrow> lvAssignmentGeneration s = lvAssignmentGeneration t \<Longrightarrow> samePublications s = samePublications t"
  by (simp add: samePublications_def fun_eq_iff)

lemma state_ok_length:
  assumes "state_ok H ps st"
  shows "length (lineage st ps) = Suc (nat (lvLatestSequence st))"
  using arg_cong [where f = length, OF conjunct1 [OF conjunct2 [OF conjunct2 [OF conjunct2 [OF conjunct2 [OF
    assms [unfolded state_ok_def]]]]]]] by simp

lemma state_ok_other:
  "state_ok H ps st \<Longrightarrow> \<not> samePublications st p \<Longrightarrow> state_ok H (ps @ [p]) st"
  by (simp add: state_ok_def)

lemma state_ok_first:
  assumes "first_of H st p" and "lineage st ps = []"
  shows "state_ok H (ps @ [p]) st"
  using assms by (simp add: state_ok_def first_of_def)

lemma state_ok_extend:
  assumes ok: "state_ok H ps st" and p: "samePublications st p" and q: "pbSequence p = lvLatestSequence st + 1"
    and new: "lvRoutePlanId st' = lvRoutePlanId st" "lvShopId st' = lvShopId st" "lvDriverId st' = lvDriverId st"
      "lvAssignmentGeneration st' = lvAssignmentGeneration st" "lvLatestPublicationId st' = pbId p"
      "lvLatestSequence st' = lvLatestSequence st + 1" "lvAppliedPublicationId st' = lvAppliedPublicationId st"
      "lvAppliedSequence st' = lvAppliedSequence st" "lvRevision st \<le> lvRevision st'"
    and d: "hashed H (lvDraftSnapshot st') (lvDraftHash st')" "policy (lvDraftSnapshot st') = policy (pbSnapshot p)"
  shows "state_ok H (ps @ [p]) st'"
proof -
  let ?st = st'
  have same: "samePublications ?st = samePublications st" by (rule samePublications_keys) (simp_all add: new)
  have lin: "lineage ?st (ps @ [p]) = lineage st ps @ [p]" using p by (simp add: lineage_def same)
  have pos: "0 \<le> lvLatestSequence st" using ok by (simp add: state_ok_def)
  have len: "length (lineage st ps) = Suc (nat (lvLatestSequence st))" by (rule state_ok_length [OF ok])
  have "map pbSequence (lineage st ps @ [p]) = map int [0..<Suc (nat (lvLatestSequence st + 1))]"
    using ok q pos by (simp add: state_ok_def nat_add_distrib)
  moreover have "(lineage st ps @ [p]) ! nat (lvLatestSequence st + 1) = p"
    using len pos by (simp add: nth_append nat_add_distrib)
  moreover have "(lineage st ps @ [p]) ! nat (lvAppliedSequence st) = lineage st ps ! nat (lvAppliedSequence st)"
  proof -
    have "lvAppliedSequence st \<le> lvLatestSequence st" using ok by (simp add: state_ok_def)
    then have "nat (lvAppliedSequence st) < length (lineage st ps)" using len by simp
    then show ?thesis by (simp add: nth_append)
  qed
  ultimately show ?thesis using ok d new by (simp add: state_ok_def lin del: lineage_append upt_Suc)
qed

lemma lineage_sequence:
  assumes ok: "state_ok H ps st" and p: "p \<in> set ps" "samePublications st p"
  shows "0 \<le> pbSequence p \<and> lineage st ps ! nat (pbSequence p) = p"
proof -
  have "p \<in> set (lineage st ps)" using p by (simp add: lineage_def)
  then obtain i where i: "i < length (lineage st ps)" "lineage st ps ! i = p" by (auto simp: in_set_conv_nth)
  have "map pbSequence (lineage st ps) ! i = int i"
    using ok i state_ok_length [OF ok] by (simp add: state_ok_def del: upt_Suc)
  then have "pbSequence p = int i" using i by simp
  then show ?thesis using i by simp
qed

lemma state_ok_acknowledge:
  assumes ok: "state_ok H ps st" and p: "p \<in> set ps" "samePublications st p" and le: "pbSequence p \<le> lvLatestSequence st"
  shows "state_ok H ps (st\<lparr>lvAppliedPublicationId := Some (pbId p), lvAppliedSequence := pbSequence p, lvAppliedAt := t\<rparr>)"
proof -
  let ?st = "st\<lparr>lvAppliedPublicationId := Some (pbId p), lvAppliedSequence := pbSequence p, lvAppliedAt := t\<rparr>"
  have same: "samePublications ?st = samePublications st" by (rule samePublications_keys) simp_all
  then have "lineage ?st ps = lineage st ps" by (simp add: lineage_def)
  then show ?thesis using ok le lineage_sequence [OF ok p] by (simp add: state_ok_def)
qed

lemma state_ok_draft:
  assumes ok: "state_ok H ps st" and h: "hashed H d h" "policy d = policy (lvDraftSnapshot st)"
  shows "state_ok H ps (st\<lparr>lvDraftSnapshot := d, lvDraftHash := h, lvRevision := lvRevision st + 1\<rparr>)"
proof -
  let ?st = "st\<lparr>lvDraftSnapshot := d, lvDraftHash := h, lvRevision := lvRevision st + 1\<rparr>"
  have "samePublications ?st = samePublications st" by (rule samePublications_keys) simp_all
  then have "lineage ?st ps = lineage st ps" by (simp add: lineage_def)
  then show ?thesis using ok h by (simp add: state_ok_def)
qed


lemma owned_replaceRow:
  assumes "owned ss p" and "old \<in> set ss" and "distinct (map lvRoutePlanId ss)"
    and "lvRoutePlanId st = lvRoutePlanId old" and "lvShopId st = lvShopId old"
    and "lvAssignmentGeneration old \<le> lvAssignmentGeneration st"
  shows "owned (replaceRow st ss) p"
proof -
  from assms(1) obtain s where s: "s \<in> set ss" "lvRoutePlanId s = pbRoutePlanId p" "lvShopId s = pbShopId p"
      "pbAssignmentGeneration p \<le> lvAssignmentGeneration s"
    by (auto simp: owned_def list_ex_iff)
  have set: "set (replaceRow st ss) = insert st (set ss - {old})" using assms by (intro set_replaceRow) simp_all
  show ?thesis
  proof (cases "s = old")
    case True
    then show ?thesis using s assms set by (auto simp: owned_def list_ex_iff)
  next
    case False
    then show ?thesis using s set by (auto simp: owned_def list_ex_iff)
  qed
qed

text \<open>One row replaced by an acceptable one with the same key, the publications possibly extended.\<close>

lemma live_inv_replace:
  assumes inv: "live_inv H (ss, ps, rs)" and old: "old \<in> set ss"
    and key: "lvRoutePlanId st = lvRoutePlanId old" "lvShopId st = lvShopId old"
    and gen: "lvAssignmentGeneration old \<le> lvAssignmentGeneration st"
    and ok: "state_ok H ps' st" and ps': "ps' = ps \<or> (\<exists>p. ps' = ps @ [p] \<and> samePublications st p \<and> pbId p \<notin> pbId ` set ps
      \<and> hashed H (pbSnapshot p) (pbContentHash p))"
  shows "live_inv H (replaceRow st ss, ps', rs)"
proof -
  have dist: "distinct (map lvRoutePlanId ss)" using inv by (simp add: live_inv_def)
  have set: "set (replaceRow st ss) = insert st (set ss - {old})" using dist old key by (intro set_replaceRow) simp_all
  have own: "list_all (owned (replaceRow st ss)) ps"
    using inv owned_replaceRow [OF _ old dist key gen] by (auto simp: live_inv_def list_all_iff)
  have stin: "st \<in> set (replaceRow st ss)" using set by simp
  have others: "state_ok H ps' s" if "s \<in> set ss" "s \<noteq> old" for s
  proof -
    have s: "state_ok H ps s" using inv that by (simp add: live_inv_def list_all_iff)
    have "lvRoutePlanId s \<noteq> lvRoutePlanId st" using that old key dist by (auto simp: distinct_map inj_on_def)
    then show ?thesis using ps' s by (auto intro!: state_ok_other simp: samePublications_def)
  qed
  have states: "list_all (state_ok H ps') (replaceRow st ss)"
    using others ok by (auto simp: list_all_iff set)
  from ps' show ?thesis
  proof
    assume "ps' = ps"
    then show ?thesis using inv own states by (simp add: live_inv_def)
  next
    assume "\<exists>p. ps' = ps @ [p] \<and> samePublications st p \<and> pbId p \<notin> pbId ` set ps \<and> hashed H (pbSnapshot p) (pbContentHash p)"
    then obtain p where p: "ps' = ps @ [p]" "samePublications st p" "pbId p \<notin> pbId ` set ps"
        "hashed H (pbSnapshot p) (pbContentHash p)" by blast
    have "owned (replaceRow st ss) p" using p(2) stin by (auto simp: owned_def list_ex_iff samePublications_def)
    then show ?thesis using inv own states p by (simp add: live_inv_def)
  qed
qed

lemma lineage_newer:
  assumes inv: "live_inv H (ss, ps, rs)" and old: "old \<in> set ss" "lvRoutePlanId old = lvRoutePlanId st"
    and gen: "lvAssignmentGeneration old < lvAssignmentGeneration st"
  shows "lineage st ps = []"
proof -
  have "\<not> samePublications st p" if "p \<in> set ps" for p
  proof
    assume same: "samePublications st p"
    have "owned ss p" using inv that by (simp add: live_inv_def list_all_iff)
    then obtain s where s: "s \<in> set ss" "lvRoutePlanId s = pbRoutePlanId p" "pbAssignmentGeneration p \<le> lvAssignmentGeneration s"
      by (auto simp: owned_def list_ex_iff)
    then have "s = old" using old same inv by (auto simp: samePublications_def live_inv_def distinct_map inj_on_def)
    then show False using s gen same by (simp add: samePublications_def)
  qed
  then show ?thesis by (simp add: lineage_def filter_empty_conv)
qed

lemma live_inv_enrolled:
  assumes inv: "live_inv H (ss, ps, rs)" and new: "\<not> list_ex (\<lambda>s. lvRoutePlanId s = lvRoutePlanId st) ss"
    and p: "first_of H st p" "pbId p \<notin> pbId ` set ps"
  shows "live_inv H (ss @ [st], ps @ [p], rs)"
proof -
  have none: "\<not> samePublications st q" if "q \<in> set ps" for q
  proof
    assume same: "samePublications st q"
    have "owned ss q" using inv that by (simp add: live_inv_def list_all_iff)
    then show False using same new by (auto simp: owned_def list_ex_iff samePublications_def)
  qed
  then have "lineage st ps = []" by (simp add: lineage_def filter_empty_conv)
  then have ok: "state_ok H (ps @ [p]) st" using p by (intro state_ok_first)
  have "state_ok H (ps @ [p]) s" if "s \<in> set ss" for s
  proof (rule state_ok_other)
    show "state_ok H ps s" using inv that by (simp add: live_inv_def list_all_iff)
    show "\<not> samePublications s p" using that new p by (auto simp: first_of_def samePublications_def list_ex_iff)
  qed
  then have "list_all (state_ok H (ps @ [p])) (ss @ [st])" using ok by (simp add: list_all_iff)
  moreover have "list_all (owned (ss @ [st])) ps" using inv by (auto simp: live_inv_def owned_def list_all_iff)
  moreover have "owned (ss @ [st]) p" using p by (simp add: owned_def first_of_def samePublications_def)
  moreover have "hashed H (pbSnapshot p) (pbContentHash p)" using p by (simp add: first_of_def)
  moreover have "lvRoutePlanId st \<notin> set (map lvRoutePlanId ss)" using new by (auto simp: list_ex_iff)
  ultimately show ?thesis using inv p(2) by (simp add: live_inv_def)
qed

lemma live_write_inv:
  assumes "live_write H t t'" and "live_inv H t"
  shows "live_inv H t'"
  using assms
proof cases
  case (enrolled st ss p ps rs)
  then show ?thesis using assms(2) live_inv_enrolled by simp
next
  case (reassigned old ss st p ps rs)
  have "lineage st ps = []" using assms(2) reassigned lineage_newer by blast
  then have "state_ok H (ps @ [p]) st" using reassigned state_ok_first by blast
  then show ?thesis using assms(2) reassigned
    by (auto intro!: live_inv_replace [where old = old] simp: first_of_def)
next
  case (drafted st ss d h ps rs)
  then have "state_ok H ps st" using assms(2) by (simp add: live_inv_def list_all_iff)
  then show ?thesis using assms(2) drafted by (auto intro!: live_inv_replace [where old = st] state_ok_draft)
next
  case (published st ss p ps rs)
  then have ok: "state_ok H ps st" using assms(2) by (simp add: live_inv_def list_all_iff)
  then have h: "hashed H (pbSnapshot p) (pbContentHash p)" using published by (simp add: state_ok_def)
  have "state_ok H (ps @ [p]) (st\<lparr>lvLatestPublicationId := pbId p, lvLatestSequence := lvLatestSequence st + 1\<rparr>)"
    using published h by (intro state_ok_extend [OF ok]) simp_all
  then show ?thesis using assms(2) published h
    by (auto intro!: live_inv_replace [where old = st] simp: samePublications_def)
next
  case (succeeded st ss p ps rs b)
  then have ok: "state_ok H ps st" using assms(2) by (simp add: live_inv_def list_all_iff)
  have "state_ok H (ps @ [p]) (st\<lparr>lvBaselineRouteVersionId := b, lvLatestPublicationId := pbId p,
      lvLatestSequence := lvLatestSequence st + 1, lvDraftSnapshot := pbSnapshot p, lvDraftHash := pbContentHash p,
      lvRevision := lvRevision st + 1\<rparr>)"
    using succeeded by (intro state_ok_extend [OF ok]) simp_all
  then show ?thesis using assms(2) succeeded
    by (auto intro!: live_inv_replace [where old = st] simp: samePublications_def)
next
  case (acknowledged st ss p ps rs now)
  then have "state_ok H ps st" using assms(2) by (simp add: live_inv_def list_all_iff)
  then show ?thesis using assms(2) acknowledged by (auto intro!: live_inv_replace [where old = st] state_ok_acknowledge)
next
  case (receipted r rs ss ps)
  then show ?thesis using assms(2) by (simp add: live_inv_def)
qed

section \<open>Reading and writing the tables\<close>

lemma tables_simps [simp]:
  "fst (tables db) = dbStates db" "fst (snd (tables db)) = dbPublications db" "snd (snd (tables db)) = dbReceipts db"
  by (simp_all add: tables_def)

lemma live_inv_distinct: "live_inv H (tables db) \<Longrightarrow> distinct (map lvRoutePlanId (dbStates db))"
  by (simp add: live_inv_def tables_def)

lemma live_inv_state: "live_inv H (tables db) \<Longrightarrow> st \<in> set (dbStates db) \<Longrightarrow> state_ok H (dbPublications db) st"
  by (simp add: live_inv_def tables_def list_all_iff)

lemma loadRoute_Inr:
  assumes "loadRoute env db idn = Inr route"
  shows "findPlan db idn = Some (rtPlan route)" "route = selectRoute db (rtPlan route)"
    "plId (rtPlan route) = idRoutePlanId idn" "plShopId (rtPlan route) = idShopId idn"
proof -
  obtain plan where plan: "findPlan db idn = Some plan" and route: "route = selectRoute db plan"
    using assms by (auto simp: loadRoute_def Let_def split: option.splits)
  moreover have "rtPlan (selectRoute db plan) = plan" by (simp add: selectRoute_def Let_def)
  ultimately show "findPlan db idn = Some (rtPlan route)" "route = selectRoute db (rtPlan route)" by simp_all
  then show "plId (rtPlan route) = idRoutePlanId idn" "plShopId (rtPlan route) = idShopId idn"
    by (auto simp: findPlan_def dest: find_SomeD)
qed

lemma loadState_Some:
  "loadState db idn = Some st \<Longrightarrow>
     st \<in> set (dbStates db) \<and> lvRoutePlanId st = idRoutePlanId idn \<and> lvShopId st = idShopId idn"
  by (auto simp: loadState_def dest!: find_SomeD)

lemma updateState_row:
  assumes dist: "distinct (map lvRoutePlanId (dbStates db))" and st: "st \<in> set (dbStates db)"
    and upd: "updateState db k f = Inr (db', st')" and k: "k = lvRoutePlanId st"
    and key: "lvRoutePlanId (f st) = lvRoutePlanId st"
  shows "st' = f st \<and> db' = db\<lparr>dbStates := replaceRow (f st) (dbStates db)\<rparr>"
proof -
  have "List.find (\<lambda>s. lvRoutePlanId s = k) (dbStates db) = Some st" using find_key [OF dist st] k by simp
  then have db': "db' = db\<lparr>dbStates := map (\<lambda>s. if lvRoutePlanId s = k then f s else s) (dbStates db)\<rparr>" and "st' = f st"
    using upd by (simp_all add: updateState_def)
  have "map (\<lambda>s. if lvRoutePlanId s = k then f s else s) (dbStates db) = replaceRow (f st) (dbStates db)"
    using dist st k key by (auto simp: replaceRow_def distinct_map inj_on_def)
  then show ?thesis using db' \<open>st' = f st\<close> by simp
qed

lemma replaceRow_in:
  "st \<in> set ss \<Longrightarrow> lvRoutePlanId st' = lvRoutePlanId st \<Longrightarrow> st' \<in> set (replaceRow st' ss)"
  by (force simp: replaceRow_def)

lemma createPublication_Inr:
  assumes "createPublication db p = Inr db'"
  shows "db' = db\<lparr>dbPublications := dbPublications db @ [p]\<rparr>" "pbId p \<notin> pbId ` set (dbPublications db)"
  using assms by (auto simp: createPublication_def list_ex_iff)

lemma hashed_Stored: "ordered sn \<Longrightarrow> hashed H (Stored sn) (contentHash H sn)"
  by (simp add: hashed_def)

lemma live_write_one: "live_write H t t' \<Longrightarrow> (live_write H)\<^sup>*\<^sup>* t t'"
  by (rule r_into_rtranclp)

lemma live_writes_inv: "(live_write H)\<^sup>*\<^sup>* t t' \<Longrightarrow> live_inv H t \<Longrightarrow> live_inv H t'"
  by (induction rule: rtranclp_induct) (auto intro: live_write_inv)

text \<open>The row a command works on: it stays in the tables, under its key.\<close>

definition at_row :: "live_db \<Rightarrow> identity \<Rightarrow> live_state \<Rightarrow> bool" where
  "at_row db idn st = (st \<in> set (dbStates db) \<and> lvRoutePlanId st = idRoutePlanId idn \<and> lvShopId st = idShopId idn)"

lemma at_row_loadState: "loadState db idn = Some st \<Longrightarrow> at_row db idn st"
  by (simp add: at_row_def loadState_Some)

lemma updateState_at_row:
  assumes inv: "live_inv H (tables db)" and at: "at_row db idn st"
    and upd: "updateState db (idRoutePlanId idn) f = Inr (db', st')"
    and key: "lvRoutePlanId (f st) = lvRoutePlanId st" "lvShopId (f st) = lvShopId st"
  shows "st' = f st \<and> db' = db\<lparr>dbStates := replaceRow (f st) (dbStates db)\<rparr> \<and> at_row db' idn st'"
proof -
  have st: "st \<in> set (dbStates db)" "idRoutePlanId idn = lvRoutePlanId st" using at by (simp_all add: at_row_def)
  have *: "st' = f st \<and> db' = db\<lparr>dbStates := replaceRow (f st) (dbStates db)\<rparr>"
    by (rule updateState_row [OF live_inv_distinct [OF inv] st(1) upd st(2) key(1)])
  then show ?thesis using at key replaceRow_in [OF st(1) key(1)] by (simp add: at_row_def)
qed

lemma update_writes:
  assumes inv: "live_inv H (tables db)" and at: "at_row db idn st"
    and upd: "updateState db (idRoutePlanId idn) f = Inr (db', st')"
    and key: "lvRoutePlanId (f st) = lvRoutePlanId st" "lvShopId (f st) = lvShopId st"
    and wr: "live_write H (dbStates db, dbPublications db, dbReceipts db)
      (replaceRow (f st) (dbStates db), dbPublications db, dbReceipts db)"
  shows "(live_write H)\<^sup>*\<^sup>* (tables db) (tables db') \<and> at_row db' idn st' \<and> db' = db\<lparr>dbStates := dbStates db'\<rparr>"
proof -
  from updateState_at_row [OF inv at upd key]
  have db': "db' = db\<lparr>dbStates := replaceRow (f st) (dbStates db)\<rparr>" and row: "at_row db' idn st'" by blast+
  have "live_write H (tables db) (tables db')" using wr by (simp add: db' tables_def)
  then show ?thesis using row by (simp add: live_write_one) (simp add: db')
qed

text \<open>A captured snapshot lists the stops by their sequence, which is unique on a route.\<close>

lemma map_filter_rows:
  "(\<And>r x. f r = Some x \<Longrightarrow> g x = h r) \<Longrightarrow> (\<And>r. r \<in> set rows \<Longrightarrow> f r \<noteq> None) \<Longrightarrow> map g (List.map_filter f rows) = map h rows"
  by (induction rows) (auto simp: List.map_filter_simps split: option.splits)

definition planRows :: "live_db \<Rightarrow> plan_row \<Rightarrow> plan_stop list" where
  "planRows db plan =
     sort_by (\<lambda>a b. compare_int (psSequence a) (psSequence b))
       (filter (\<lambda>row. psRoutePlanId row = plId plan \<and> psShopId row = plShopId plan) (dbPlanStops db))"

lemma set_planRows:
  "set (planRows db plan) = {r \<in> set (dbPlanStops db). psRoutePlanId r = plId plan \<and> psShopId r = plShopId plan}"
  by (auto simp: planRows_def)

lemma sorted_planRows:
  assumes "tables_ok db"
  shows "sorted_wrt (\<lambda>a b. psSequence a < psSequence b) (planRows db plan)"
proof -
  let ?rows = "filter (\<lambda>row. psRoutePlanId row = plId plan \<and> psShopId row = plShopId plan) (dbPlanStops db)"
  have "sorted_wrt (\<lambda>a b. compare_int (psSequence a) (psSequence b) \<le> 0) (planRows db plan)"
    unfolding planRows_def by (rule comparator.sorted_sort_by [OF comparator_of_sign [OF sign_comparator_int]])
  then have le: "sorted (map psSequence (planRows db plan))" by (simp add: sorted_wrt_map compare_int_def)
  have "distinct (map (\<lambda>r. (psRoutePlanId r, psSequence r)) ?rows)"
    using assms by (simp add: tables_ok_def distinct_map_filter)
  then have "inj_on psSequence (set ?rows)" and "distinct ?rows" by (auto simp: distinct_map inj_on_def)
  moreover have "mset (planRows db plan) = mset ?rows" by (simp add: planRows_def)
  ultimately have "distinct (map psSequence (planRows db plan))"
    by (metis distinct_map mset_eq_imp_distinct_iff mset_eq_setD)
  with le have "sorted_wrt (<) (map psSequence (planRows db plan))" by (simp add: strict_sorted_iff)
  then show ?thesis by (simp add: sorted_wrt_map)
qed

lemma joinStop_row: "joinStop db r = Some x \<Longrightarrow> rsRow x = r"
  by (auto simp: joinStop_def split: option.splits)

lemma joinStop_total:
  assumes "tables_ok db" and "r \<in> set (dbPlanStops db)"
  shows "joinStop db r \<noteq> None"
  using assms by (auto simp: tables_ok_def list_all_iff list_ex_iff joinStop_def find_None_iff split: option.splits)

lemma rtStops_rows:
  assumes "tables_ok db"
  shows "map rsRow (rtStops (selectRoute db plan)) = planRows db plan"
proof -
  have "map rsRow (List.map_filter (joinStop db) (planRows db plan)) = map (\<lambda>r. r) (planRows db plan)"
    using assms joinStop_total by (intro map_filter_rows) (auto simp: joinStop_row set_planRows)
  then show ?thesis by (simp add: selectRoute_def Let_def routeStops_def planRows_def)
qed

lemma capture_ordered:
  assumes "tables_ok db"
  shows "ordered (captureSnapshot (selectRoute db plan))"
proof -
  have "map lsSequence (snStops (captureSnapshot (selectRoute db plan))) = map psSequence (planRows db plan)"
    by (simp add: captureSnapshot_def captureStop_def Let_def rtStops_rows [OF assms, symmetric] comp_def)
  then show ?thesis using sorted_planRows [OF assms, of plan] by (simp add: ordered_def sorted_wrt_map)
qed

lemma enroll_writes:
  assumes inv: "live_inv H (tables db)" and tok: "tables_ok db" and route: "loadRoute env db idn = Inr route"
    and old: "replacing \<Longrightarrow> \<exists>old. at_row db idn old \<and> lvAssignmentGeneration old < plAssignmentGeneration (rtPlan route)"
    and run: "enroll H db route idn replacing freshId now = Inr (db1, st)"
  shows "live_write H (tables db) (tables db1) \<and> at_row db1 idn st
    \<and> db1 = db\<lparr>dbStates := dbStates db1, dbPublications := dbPublications db1\<rparr>"
proof -
  obtain version where v: "underlyingVersion route = Inr version" using run by (auto simp: enroll_def)
  define sn where "sn = (captureSnapshot route)\<lparr>snInitialRouteVersionId := Some version\<rparr>"
  define st0 where "st0 = \<lparr>lvRoutePlanId = idRoutePlanId idn, lvShopId = idShopId idn,
      lvAssignmentGeneration = plAssignmentGeneration (rtPlan route),
      lvDriverId = routeDriverId route, lvBaselineRouteVersionId = version, lvRevision = 0,
      lvDraftSnapshot = Stored sn, lvDraftHash = contentHash H sn, lvLatestPublicationId = freshId,
      lvLatestSequence = 0, lvAppliedPublicationId = Some freshId, lvAppliedSequence = 0, lvAppliedAt = None\<rparr>"
  define p where "p = \<lparr>pbId = freshId, pbRoutePlanId = idRoutePlanId idn, pbShopId = idShopId idn,
      pbAssignmentGeneration = plAssignmentGeneration (rtPlan route), pbDriverId = routeDriverId route, pbSequence = 0,
      pbContentHash = contentHash H sn, pbSnapshot = Stored sn, pbPublishedAt = now, pbNotificationStatus = ''SKIPPED'',
      pbNextAttemptAt = None, pbErrorCode = None\<rparr>"
  have "attempt (createPublication db p) (\<lambda>db'. if replacing then updateState db' (plId (rtPlan route)) (\<lambda>_. st0)
             else attempt (createState db' st0) (\<lambda>db2. Inr (db2, st0))) = Inr (db1, st)"
    using run unfolding enroll_def v sn_def st0_def p_def by (simp only: attempt_simps Let_def)
  then obtain db' where db': "createPublication db p = Inr db'"
    and rest: "(if replacing then updateState db' (plId (rtPlan route)) (\<lambda>_. st0)
             else attempt (createState db' st0) (\<lambda>db2. Inr (db2, st0))) = Inr (db1, st)"
    unfolding attempt_Inr by blast
  note pub = createPublication_Inr [OF db']
  have "ordered (captureSnapshot route)" using capture_ordered [OF tok] loadRoute_Inr(2) [OF route] by metis
  then have "ordered sn" by (simp add: sn_def ordered_def)
  then have first: "first_of H st0 p" by (simp add: first_of_def samePublications_def st0_def p_def hashed_Stored)
  have keys: "lvRoutePlanId st0 = idRoutePlanId idn" "lvShopId st0 = idShopId idn"
      "lvAssignmentGeneration st0 = plAssignmentGeneration (rtPlan route)" by (simp_all add: st0_def)
  have plan: "plId (rtPlan route) = idRoutePlanId idn" by (rule loadRoute_Inr [OF route])
  show ?thesis
  proof (cases replacing)
    case True
    then obtain o1 where o1: "at_row db idn o1" "lvAssignmentGeneration o1 < plAssignmentGeneration (rtPlan route)"
      using old by blast
    then have o1': "o1 \<in> set (dbStates db')" using pub by (simp add: at_row_def)
    have "distinct (map lvRoutePlanId (dbStates db'))" using live_inv_distinct [OF inv] pub by simp
    moreover have "updateState db' (idRoutePlanId idn) (\<lambda>_. st0) = Inr (db1, st)" using rest True plan by simp
    moreover have "idRoutePlanId idn = lvRoutePlanId o1" "lvRoutePlanId st0 = lvRoutePlanId o1"
      using o1 keys by (simp_all add: at_row_def)
    ultimately have "st = st0 \<and> db1 = db'\<lparr>dbStates := replaceRow st0 (dbStates db')\<rparr>"
      using updateState_row [where f = "\<lambda>_. st0", OF _ o1'] by blast
    then have db1: "st = st0" "db1 = db\<lparr>dbStates := replaceRow st0 (dbStates db), dbPublications := dbPublications db @ [p]\<rparr>"
      using pub by simp_all
    have "live_write H (tables db) (tables db1)"
      unfolding db1 tables_def using o1 keys first pub by (auto intro!: live_write.reassigned simp: at_row_def)
    moreover have "st0 \<in> set (replaceRow st0 (dbStates db))"
      using o1 keys by (intro replaceRow_in [where st = o1]) (simp_all add: at_row_def)
    ultimately show ?thesis using db1 keys by (simp add: at_row_def)
  next
    case False
    then have st: "st = st0" and new: "\<not> list_ex (\<lambda>s. lvRoutePlanId s = lvRoutePlanId st0) (dbStates db)"
      and db1: "db1 = db\<lparr>dbStates := dbStates db @ [st0], dbPublications := dbPublications db @ [p]\<rparr>"
      using rest pub by (auto simp: createState_def)
    have "live_write H (tables db) (tables db1)"
      unfolding db1 tables_def using new first pub by (auto intro!: live_write.enrolled)
    then show ?thesis using st db1 keys by (simp add: at_row_def)
  qed
qed

lemma ensureState_writes:
  assumes inv: "live_inv H (tables db)" and tok: "tables_ok db" and route: "loadRoute env db (acIdentity cmd) = Inr route"
    and run: "ensureState H db route (loadState db (acIdentity cmd)) cmd freshId now = Inr (db1, st)"
  shows "(live_write H)\<^sup>*\<^sup>* (tables db) (tables db1) \<and> at_row db1 (acIdentity cmd) st
    \<and> db1 = db\<lparr>dbStates := dbStates db1, dbPublications := dbPublications db1\<rparr>"
proof (cases "loadState db (acIdentity cmd)")
  case None
  then have "enroll H db route (acIdentity cmd) False freshId now = Inr (db1, st)"
    using run by (auto simp: ensureState_def Let_def)
  from enroll_writes [OF inv tok route _ this] show ?thesis by (simp add: live_write_one)
next
  case (Some s)
  note at = at_row_loadState [OF Some]
  show ?thesis
  proof (cases "belongsToPreviousAssignment route s")
    case True
    then have "enroll H db route (acIdentity cmd) True freshId now = Inr (db1, st)"
      using run Some by (auto simp: ensureState_def Let_def)
    note run = this
    have "\<exists>old. at_row db (acIdentity cmd) old \<and> lvAssignmentGeneration old < plAssignmentGeneration (rtPlan route)"
      using at True by (auto simp: belongsToPreviousAssignment_def)
    from enroll_writes [OF inv tok route this run] show ?thesis by (simp add: live_write_one)
  next
    case False
    then have "db1 = db" "st = s" using run Some by (simp_all add: ensureState_def Let_def)
    then show ?thesis using at by simp
  qed
qed

text \<open>Editing a draft keeps the sequence numbers in their places.\<close>

lemma patchStop_keys:
  assumes "patchStop stop ov = Inr stop'"
  shows "lsSequence stop' = lsSequence stop \<and> memberKey stop' = memberKey stop"
  using assms [unfolded patchStop_def Let_def]
proof (elim run_elims, goal_cases)
  case (1 t)
  show ?case
  proof (cases "jget ov ''latitude'' \<noteq> JUndefined")
    case True
    from 1(4) [simplified True simp_thms if_True] show ?thesis
      by (elim run_elims) (auto simp: memberKey_def)
  next
    case False
    then have "(if addressDiffers t (lsText stop)
        then Inr (stop\<lparr>lsText := t, lsLatitude := None, lsLongitude := None\<rparr>) else Inr (stop\<lparr>lsText := t\<rparr>)) = (Inr stop' :: live_stop result)"
      using 1(4) by (simp split del: if_split)
    then show ?thesis by (auto simp: memberKey_def split: if_splits)
  qed
qed

lemma findIndex_Some: "findIndex P xs = Some i \<Longrightarrow> i < length xs \<and> P (xs ! i)"
proof -
  assume a: "findIndex P xs = Some i"
  then have i: "i = length (takeWhile (\<lambda>x. \<not> P x) xs)" "i \<noteq> length xs" by (auto simp: findIndex_def Let_def split: if_splits)
  then have "i < length xs" using length_takeWhile_le [of "\<lambda>x. \<not> P x" xs] by linarith
  then show ?thesis using nth_length_takeWhile [of "\<lambda>x. \<not> P x" xs] i by simp
qed

lemma applyOverrides_keys:
  "applyOverrides editable seen ovs stops = Inr stops'
   \<Longrightarrow> map lsSequence stops' = map lsSequence stops \<and> map memberKey stops' = map memberKey stops"
proof (induction ovs arbitrary: seen stops)
  case (Cons ov ovs)
  from Cons.prems obtain i s where i: "findIndex (\<lambda>s. JStr (lsDeliveryStopId s) = jget ov ''deliveryStopId'') stops = Some i"
    and s: "patchStop (stops ! i) ov = Inr s"
    and rest: "applyOverrides editable (jget ov ''deliveryStopId'' # seen) ovs (stops[i := s]) = Inr stops'"
    by (auto simp: Let_def elim!: run_elims split: option.splits)
  from findIndex_Some [OF i] patchStop_keys [OF s]
  have "map lsSequence (stops[i := s]) = map lsSequence stops" "map memberKey (stops[i := s]) = map memberKey stops"
    by (auto simp: map_update intro!: list_update_same_conv [THEN iffD2])
  then show ?case using Cons.IH [OF rest] by simp
qed simp

lemma reorderStops_sequences: "map lsSequence (reorderStops editable byId order stops) = map lsSequence stops"
  by (induction editable byId order stops rule: reorderStops.induct) simp_all

lemma applyOrder_sequences:
  "applyOrder editable order stops = Inr stops' \<Longrightarrow> map lsSequence stops' = map lsSequence stops"
  by (auto simp: applyOrder_def reorderStops_sequences split: option.splits)

lemma editDraft_writes:
  assumes inv: "live_inv H (tables db)" and plan: "plId (rtPlan route) = idRoutePlanId idn" and at: "at_row db idn st"
    and run: "editDraft H db route st overrides order = Inr (db2, st2)"
  shows "(live_write H)\<^sup>*\<^sup>* (tables db) (tables db2) \<and> at_row db2 idn st2 \<and> db2 = db\<lparr>dbStates := dbStates db2\<rparr>"
proof -
  obtain draft patched stops where draft: "snapshotFromJson (lvDraftSnapshot st) = Inr draft"
    and edits: "applyOverrides (editableFutureStopIds route) [] overrides (snStops draft) = Inr patched"
      "applyOrder (editableFutureStopIds route) order patched = Inr stops"
    and e: "(if contentHash H (draft\<lparr>snStops := stops\<rparr>) \<noteq> lvDraftHash st
         then updateState db (plId (rtPlan route))
                (\<lambda>s. s\<lparr>lvDraftSnapshot := Stored (draft\<lparr>snStops := stops\<rparr>), lvDraftHash := contentHash H (draft\<lparr>snStops := stops\<rparr>),
                       lvRevision := lvRevision s + 1\<rparr>)
         else Inr (db, st)) = Inr (db2, st2)" (is "(if ?c then updateState db _ ?f else _) = _")
    using run unfolding editDraft_def Let_def attempt_Inr by blast
  have stored: "lvDraftSnapshot st = Stored draft" using draft by (cases "lvDraftSnapshot st") simp_all
  have "hashed H (lvDraftSnapshot st) (lvDraftHash st)"
    using live_inv_state [OF inv] at by (simp add: at_row_def state_ok_def)
  then have "ordered (draft\<lparr>snStops := stops\<rparr>)"
    using applyOverrides_keys [OF edits(1)] applyOrder_sequences [OF edits(2)]
    by (simp add: stored hashed_def ordered_def)
  then have h: "hashed H (Stored (draft\<lparr>snStops := stops\<rparr>)) (contentHash H (draft\<lparr>snStops := stops\<rparr>))"
    by (rule hashed_Stored)
  have pol: "policy (Stored (draft\<lparr>snStops := stops\<rparr>)) = policy (lvDraftSnapshot st)" by (simp add: stored policy_def)
  show ?thesis
  proof (cases ?c)
    case True
    then have "updateState db (idRoutePlanId idn) ?f = Inr (db2, st2)" using e plan by simp
    then show ?thesis using at h pol
      by (intro update_writes [OF inv at]) (auto intro!: live_write.drafted simp: at_row_def)
  next
    case False
    then show ?thesis using e at by simp
  qed
qed

lemma replay_none_fresh:
  assumes "replayCommand db route cmd kind requestHash = Inr None"
  shows "(idShopId (acIdentity cmd), idRoutePlanId (acIdentity cmd), kind, acCommandId cmd) \<notin> receiptKey ` set (dbReceipts db)"
proof -
  have "List.find (\<lambda>r. ccShopId r = idShopId (acIdentity cmd) \<and> ccRoutePlanId r = idRoutePlanId (acIdentity cmd)
      \<and> ccKind r = kind \<and> ccCommandId r = acCommandId cmd) (dbReceipts db) = None"
    using assms by (auto simp: replayCommand_def split: option.splits)
  then show ?thesis by (auto simp: find_None_iff receiptKey_def)
qed

lemma recordCommand_writes:
  assumes replay: "replayCommand db0 route cmd kind requestHash = Inr None" and same: "dbReceipts db = dbReceipts db0"
    and run: "recordCommand db route cmd kind requestHash response pid = Inr db'"
  shows "live_write H (tables db) (tables db') \<and> db' = db\<lparr>dbReceipts := dbReceipts db'\<rparr>"
proof -
  define r where "r = \<lparr>ccShopId = idShopId (acIdentity cmd), ccRoutePlanId = idRoutePlanId (acIdentity cmd),
             ccAssignmentGeneration = plAssignmentGeneration (rtPlan route), ccDriverId = routeDriverId route,
             ccKind = kind, ccCommandId = acCommandId cmd, ccRequestHash = requestHash, ccResponse = response,
             ccPublicationId = pid\<rparr>"
  have db': "db' = db\<lparr>dbReceipts := dbReceipts db @ [r]\<rparr>" using run by (simp add: recordCommand_def Let_def r_def)
  have "receiptKey r \<notin> receiptKey ` set (dbReceipts db)"
    using replay_none_fresh [OF replay] same by (simp add: r_def receiptKey_def)
  then show ?thesis by (simp add: db' tables_def live_write.receipted)
qed

section \<open>Commands as writes\<close>

lemma save_cases:
  assumes "saveLiveRouteChange H K env db cmd overrides order freshId now = Inr (db', r)"
  obtains (replayed) route where "loadRoute env db (acIdentity cmd) = Inr route"
      "replayCommand db route cmd SAVE (commandHash K (saveRequestJson cmd overrides order)) = Inr (Some r)" "db' = db"
  | (saved) route db1 st current db2 st2 answer where
      "loadRoute env db (acIdentity cmd) = Inr route"
      "replayCommand db route cmd SAVE (commandHash K (saveRequestJson cmd overrides order)) = Inr None"
      "requireAdminCommandIdentity route cmd True = Inr ()" "requireWritableRoute route = Inr ()"
      "ensureState H db route (loadState db (acIdentity cmd)) cmd freshId now = Inr (db1, st)"
      "assertStateIdentity route st = Inr ()" "loadCurrentPublication db1 st = Inr current"
      "assertNoLiveDrift H route current = Inr ()" "revisionIs st cmd"
      "editDraft H db1 route st overrides order = Inr (db2, st2)"
      "draftResponse route (Some st2) (Some current) = Inr answer" "r = DraftAnswer answer"
      "recordCommand db2 route cmd SAVE (commandHash K (saveRequestJson cmd overrides order)) (DraftAnswer answer) None = Inr db'"
  using assms [unfolded saveLiveRouteChange_def Let_def]
proof (elim run_elims, goal_cases)
  case (1 u1 u2 route u3 u4 replay)
  show ?case
  proof (cases replay)
    case None
    from 1(9) [unfolded None option.case] show ?thesis
      by (elim run_elims) (use 1 None in \<open>simp add: saved\<close>)
  qed (use 1 in \<open>simp add: replayed\<close>)
qed

lemma discard_cases:
  assumes "discardLiveRouteChange H K env db cmd = Inr (db', r)"
  obtains (replayed) route where "loadRoute env db (acIdentity cmd) = Inr route"
      "replayCommand db route cmd DISCARD (commandHash K (requestJson cmd [])) = Inr (Some r)" "db' = db"
  | (discarded) route st current db1 st1 answer where
      "loadRoute env db (acIdentity cmd) = Inr route" "loadState db (acIdentity cmd) = Some st"
      "assertStateIdentity route st = Inr ()"
      "replayCommand db route cmd DISCARD (commandHash K (requestJson cmd [])) = Inr None"
      "requireWritableRoute route = Inr ()"
      "revisionIs st cmd" "loadCurrentPublication db st = Inr current" "assertNoLiveDrift H route current = Inr ()"
      "(if lvDraftHash st \<noteq> pbContentHash current
        then updateState db (plId (rtPlan route))
               (\<lambda>s. s\<lparr>lvDraftSnapshot := pbSnapshot current, lvDraftHash := pbContentHash current,
                      lvRevision := lvRevision s + 1\<rparr>)
        else Inr (db, st)) = Inr (db1, st1)"
      "draftResponse route (Some st1) (Some current) = Inr answer" "r = DraftAnswer answer"
      "recordCommand db1 route cmd DISCARD (commandHash K (requestJson cmd [])) (DraftAnswer answer) (Some (pbId current)) = Inr db'"
  using assms [unfolded discardLiveRouteChange_def Let_def]
proof (elim run_elims, goal_cases)
  case (1 u1 u2 route u3)
  then obtain st where st: "loadState db (acIdentity cmd) = Some st" by (cases "loadState db (acIdentity cmd)") simp_all
  from 1(7) [unfolded st option.case] show ?case
  proof (elim run_elims, goal_cases)
    case (1 u4 replay)
    show ?case
    proof (cases replay)
      case None
      from 1(3) [unfolded None option.case] show ?thesis
        by (elim run_elims) (rule discarded; use 1 \<open>loadRoute env db (acIdentity cmd) = Inr route\<close> st None in \<open>auto split del: if_split\<close>)
    qed (use 1 \<open>loadRoute env db (acIdentity cmd) = Inr route\<close> in \<open>simp add: replayed\<close>)
  qed
qed

lemma publish_cases:
  assumes "publishLiveRouteChange H K env db cmd freshId now = Inr (db', r)"
  obtains (replayed) route where "loadRoute env db (acIdentity cmd) = Inr route"
      "replayCommand db route cmd DISPATCH (commandHash K (requestJson cmd [])) = Inr (Some r)" "db' = db"
  | (dispatched) route st current db1 st1 pub answer where
      "loadRoute env db (acIdentity cmd) = Inr route" "loadState db (acIdentity cmd) = Some st"
      "assertStateIdentity route st = Inr ()"
      "replayCommand db route cmd DISPATCH (commandHash K (requestJson cmd [])) = Inr None"
      "requireWritableRoute route = Inr ()"
      "revisionIs st cmd" "loadCurrentPublication db st = Inr current" "assertNoLiveDrift H route current = Inr ()"
      "(if lvDraftHash st = pbContentHash current then Inr (db, st, current)
        else dispatchChanges H env db st (acIdentity cmd) current freshId now) = Inr (db1, st1, pub)"
      "publicationResponse st1 pub = Inr answer"
      "r = DispatchAnswer answer (lvRevision st) (lvDraftHash st \<noteq> pbContentHash current)"
      "recordCommand db1 route cmd DISPATCH (commandHash K (requestJson cmd [])) r (Some (pbId pub)) = Inr db'"
  using assms [unfolded publishLiveRouteChange_def Let_def]
proof (elim run_elims, goal_cases)
  case (1 u1 u2 route u3)
  then obtain st where st: "loadState db (acIdentity cmd) = Some st" by (cases "loadState db (acIdentity cmd)") simp_all
  from 1(7) [unfolded st option.case] show ?case
  proof (elim run_elims, goal_cases)
    case (1 u4 replay)
    show ?case
    proof (cases replay)
      case None
      from 1(3) [unfolded None option.case] show ?thesis
        by (elim run_elims) (rule dispatched; use 1 \<open>loadRoute env db (acIdentity cmd) = Inr route\<close> st None in \<open>auto split del: if_split\<close>)
    qed (use 1 \<open>loadRoute env db (acIdentity cmd) = Inr route\<close> in \<open>simp add: replayed\<close>)
  qed
qed

lemma persist_frame:
  "persistLiveRouteLocationCorrections shopId planId publicationId publishedAt stops db = Inr db'
   \<Longrightarrow> db' = db\<lparr>dbFacts := dbFacts db'\<rparr>"
proof (induction stops arbitrary: db)
  case Nil
  then show ?case by simp
next
  case (Cons stop stops)
  then obtain db1 where step: "persistLiveRouteLocationCorrections shopId planId publicationId publishedAt stops db1 = Inr db'"
    and db1: "db1 = db\<lparr>dbFacts := dbFacts db1\<rparr>"
    by (auto simp: Let_def split: if_splits option.splits)
  have "db' = db1\<lparr>dbFacts := dbFacts db'\<rparr>" by (rule Cons.IH [OF step])
  also have "\<dots> = (db\<lparr>dbFacts := dbFacts db1\<rparr>)\<lparr>dbFacts := dbFacts db'\<rparr>" using db1 by (rule arg_cong)
  finally show ?case by simp
qed

text \<open>What a dispatch writes.\<close>

lemma publishDraft_cases:
  assumes "publishDraft db route st idn draft changes freshId now = Inr (db', st', row)"
  obtains stops rows db5 where
    "writeStops (idShopId idn) (stopsById (snStops (captureSnapshot route))) changes (dbStops db) = Inr stops"
    "moveStops (snStops (captureSnapshot route)) (snStops draft)
       (filter (\<lambda>stop. lsSequence (coalesce_def_value (stopsById (snStops (captureSnapshot route)) (lsDeliveryStopId stop)) absentStop)
          \<noteq> lsSequence stop) changes) (dbPlanStops db) = Inr rows"
    "row = \<lparr>pbId = freshId, pbRoutePlanId = idRoutePlanId idn, pbShopId = idShopId idn,
            pbAssignmentGeneration = lvAssignmentGeneration st, pbDriverId = lvDriverId st,
            pbSequence = lvLatestSequence st + 1, pbContentHash = lvDraftHash st, pbSnapshot = Stored draft,
            pbPublishedAt = now, pbNotificationStatus = ''PENDING'', pbNextAttemptAt = Some now, pbErrorCode = None\<rparr>"
    "freshId \<notin> pbId ` set (dbPublications db)"
    "db5 = db\<lparr>dbStops := stops,
        dbPlanStops := invalidateEtas (db\<lparr>dbStops := stops, dbPlanStops := rows\<rparr>) route (idShopId idn) (editableFutureStopIds route),
        dbGeometry := filter (\<lambda>(plan, _). plan \<noteq> plId (rtPlan route)) (dbGeometry db),
        dbPublications := dbPublications db @ [row], dbFacts := dbFacts db5,
        dbPlans := map (\<lambda>p. if plId p = plId (rtPlan route) then p\<lparr>plUpdatedAt := now\<rparr> else p) (dbPlans db)\<rparr>"
    "updateState db5 (plId (rtPlan route))
       (\<lambda>s. s\<lparr>lvLatestPublicationId := freshId, lvLatestSequence := lvLatestSequence st + 1\<rparr>) = Inr (db', st')"
proof -
  let ?live = "snStops (captureSnapshot route)"
  let ?reordered = "filter (\<lambda>stop. lsSequence (coalesce_def_value (stopsById ?live (lsDeliveryStopId stop)) absentStop)
          \<noteq> lsSequence stop) changes"
  let ?row = "\<lparr>pbId = freshId, pbRoutePlanId = idRoutePlanId idn, pbShopId = idShopId idn,
            pbAssignmentGeneration = lvAssignmentGeneration st, pbDriverId = lvDriverId st,
            pbSequence = lvLatestSequence st + 1, pbContentHash = lvDraftHash st, pbSnapshot = Stored draft,
            pbPublishedAt = now, pbNotificationStatus = ''PENDING'', pbNextAttemptAt = Some now, pbErrorCode = None\<rparr>"
  from assms [unfolded publishDraft_def Let_def] show thesis
  proof (elim run_elims, goal_cases)
    case (1 stops rows db4 dbf a b)
    note w = 1(1) and m = 1(2) and c = 1(3) and f = 1(4) and u = 1(5)
    have res: "a = db'" "b = st'" and row: "row = ?row" using 1(6) by simp_all
    note c' = createPublication_Inr [OF c]
    have eta: "invalidateEtas (db\<lparr>dbStops := stops, dbPlanStops := rows, dbGeometry := g\<rparr>) route sid ed
        = invalidateEtas (db\<lparr>dbStops := stops, dbPlanStops := rows\<rparr>) route sid ed" for g sid ed
      by (simp add: invalidateEtas_def)
    show ?case
    proof (rule that [OF w m row])
      show "freshId \<notin> pbId ` set (dbPublications db)" using c'(2) by simp
      show "updateState (dbf\<lparr>dbPlans := map (\<lambda>p. if plId p = plId (rtPlan route) then p\<lparr>plUpdatedAt := now\<rparr> else p) (dbPlans dbf)\<rparr>)
         (plId (rtPlan route)) (\<lambda>s. s\<lparr>lvLatestPublicationId := freshId, lvLatestSequence := lvLatestSequence st + 1\<rparr>) = Inr (db', st')"
        using u res by simp
      have "dbf = db4\<lparr>dbFacts := dbFacts dbf\<rparr>" by (rule persist_frame [OF f])
      then have dbf: "\<exists>x. dbf = db4\<lparr>dbFacts := x\<rparr>" by blast
      then show "dbf\<lparr>dbPlans := map (\<lambda>p. if plId p = plId (rtPlan route) then p\<lparr>plUpdatedAt := now\<rparr> else p) (dbPlans dbf)\<rparr> =
        db\<lparr>dbStops := stops,
          dbPlanStops := invalidateEtas (db\<lparr>dbStops := stops, dbPlanStops := rows\<rparr>) route (idShopId idn) (editableFutureStopIds route),
          dbGeometry := filter (\<lambda>(plan, _). plan \<noteq> plId (rtPlan route)) (dbGeometry db),
          dbPublications := dbPublications db @ [row],
          dbFacts := dbFacts (dbf\<lparr>dbPlans := map (\<lambda>p. if plId p = plId (rtPlan route) then p\<lparr>plUpdatedAt := now\<rparr> else p) (dbPlans dbf)\<rparr>),
          dbPlans := map (\<lambda>p. if plId p = plId (rtPlan route) then p\<lparr>plUpdatedAt := now\<rparr> else p) (dbPlans db)\<rparr>"
        using c'(1) row by (auto simp: eta)
    qed
  qed
qed


lemma live_inv_hashed:
  "live_inv H (tables db) \<Longrightarrow> p \<in> set (dbPublications db) \<Longrightarrow> hashed H (pbSnapshot p) (pbContentHash p)"
  by (simp add: live_inv_def tables_def list_all_iff)

lemma loadCurrentPublication_Inr:
  assumes "loadCurrentPublication db st = Inr p"
  shows "p \<in> set (dbPublications db)" "pbId p = lvLatestPublicationId st" "samePublications st p"
    "pbSequence p = lvLatestSequence st"
  using assms by (auto simp: loadCurrentPublication_def split: option.splits dest!: find_SomeD)

lemma save_writes:
  assumes inv: "live_inv H (tables db)" and tok: "tables_ok db"
    and run: "saveLiveRouteChange H K env db cmd overrides order freshId now = Inr (db', r)"
  shows "(live_write H)\<^sup>*\<^sup>* (tables db) (tables db')"
  using run
proof (cases rule: save_cases)
  case (saved route db1 st current db2 st2 answer)
  have e: "(live_write H)\<^sup>*\<^sup>* (tables db) (tables db1)" "at_row db1 (acIdentity cmd) st"
      "db1 = db\<lparr>dbStates := dbStates db1, dbPublications := dbPublications db1\<rparr>"
    using ensureState_writes [OF inv tok saved(1,5)] by blast+
  have inv1: "live_inv H (tables db1)" by (rule live_writes_inv [OF e(1) inv])
  have d: "(live_write H)\<^sup>*\<^sup>* (tables db1) (tables db2)" "db2 = db1\<lparr>dbStates := dbStates db2\<rparr>"
    using editDraft_writes [OF inv1 loadRoute_Inr(3) [OF saved(1)] e(2) saved(10)] by blast+
  have "dbReceipts db1 = dbReceipts db" using arg_cong [where f = dbReceipts, OF e(3)] by simp
  moreover have "dbReceipts db2 = dbReceipts db1" using arg_cong [where f = dbReceipts, OF d(2)] by simp
  ultimately have "live_write H (tables db2) (tables db')"
    using recordCommand_writes [OF saved(2) _ saved(13)] by simp
  then show ?thesis using e(1) d(1) by (meson rtranclp.rtrancl_into_rtrancl rtranclp_trans)
qed simp

lemma discard_writes:
  assumes inv: "live_inv H (tables db)" and run: "discardLiveRouteChange H K env db cmd = Inr (db', r)"
  shows "(live_write H)\<^sup>*\<^sup>* (tables db) (tables db')"
  using run
proof (cases rule: discard_cases)
  case (discarded route st current db1 st1 answer)
  note at = at_row_loadState [OF discarded(2)]
  have plan: "plId (rtPlan route) = idRoutePlanId (acIdentity cmd)" by (rule loadRoute_Inr [OF discarded(1)])
  have h: "hashed H (pbSnapshot current) (pbContentHash current)"
    by (rule live_inv_hashed [OF inv loadCurrentPublication_Inr(1) [OF discarded(7)]])
  let ?f = "\<lambda>s. s\<lparr>lvDraftSnapshot := pbSnapshot current, lvDraftHash := pbContentHash current, lvRevision := lvRevision s + 1\<rparr>"
  have ok: "state_ok H (dbPublications db) st" using at live_inv_state [OF inv] by (simp add: at_row_def)
  have "lineage st (dbPublications db) ! nat (lvLatestSequence st) = current"
    using lineage_sequence [OF ok, of current] loadCurrentPublication_Inr [OF discarded(7)] by simp
  then have pol: "policy (pbSnapshot current) = policy (lvDraftSnapshot st)" using ok by (simp add: state_ok_def)
  have d: "(live_write H)\<^sup>*\<^sup>* (tables db) (tables db1) \<and> db1 = db\<lparr>dbStates := dbStates db1\<rparr>"
  proof (cases "lvDraftHash st \<noteq> pbContentHash current")
    case True
    then have "updateState db (idRoutePlanId (acIdentity cmd)) ?f = Inr (db1, st1)" using discarded(9) plan by simp
    then have "(live_write H)\<^sup>*\<^sup>* (tables db) (tables db1) \<and> at_row db1 (acIdentity cmd) st1 \<and> db1 = db\<lparr>dbStates := dbStates db1\<rparr>"
      using at h pol by (intro update_writes [OF inv at]) (auto intro!: live_write.drafted simp: at_row_def)
    then show ?thesis by blast
  next
    case False
    then show ?thesis using discarded(9) by simp
  qed
  have "dbReceipts db1 = dbReceipts db" using arg_cong [where f = dbReceipts, OF conjunct2 [OF d]] by simp
  then have "live_write H (tables db1) (tables db')" using recordCommand_writes [OF discarded(4) _ discarded(12)] by simp
  then show ?thesis using d by (meson rtranclp.rtrancl_into_rtrancl)
qed simp

lemma publishDraft_writes:
  assumes inv: "live_inv H (tables db)" and plan: "plId (rtPlan route) = idRoutePlanId idn" and at: "at_row db idn st"
    and draft: "snapshotFromJson (lvDraftSnapshot st) = Inr draft"
    and run: "publishDraft db route st idn draft changes freshId now = Inr (db', st', row)"
  shows "live_write H (tables db) (tables db') \<and> dbReceipts db' = dbReceipts db
    \<and> st' = st\<lparr>lvLatestPublicationId := freshId, lvLatestSequence := lvLatestSequence st + 1\<rparr>
    \<and> dbStates db' = replaceRow st' (dbStates db) \<and> dbPublications db' = dbPublications db @ [row]"
  using run
proof (cases rule: publishDraft_cases)
  case (1 stops rows db5)
  let ?f = "\<lambda>s. s\<lparr>lvLatestPublicationId := freshId, lvLatestSequence := lvLatestSequence st + 1\<rparr>"
  have s5: "dbStates db5 = dbStates db" "dbPublications db5 = dbPublications db @ [row]" "dbReceipts db5 = dbReceipts db"
    using arg_cong [where f = dbStates, OF 1(5)] arg_cong [where f = dbPublications, OF 1(5)]
      arg_cong [where f = dbReceipts, OF 1(5)] by simp_all
  have st: "st \<in> set (dbStates db)" "lvRoutePlanId st = idRoutePlanId idn" "lvShopId st = idShopId idn"
    using at by (simp_all add: at_row_def)
  have "st' = ?f st \<and> db' = db5\<lparr>dbStates := replaceRow (?f st) (dbStates db5)\<rparr>"
    using live_inv_distinct [OF inv] st 1(6) plan s5 by (intro updateState_row) simp_all
  then have db': "st' = ?f st" "dbStates db' = replaceRow (?f st) (dbStates db)"
      "dbPublications db' = dbPublications db @ [row]" "dbReceipts db' = dbReceipts db" using s5 by simp_all
  have "lvDraftSnapshot st = Stored draft" using draft by (cases "lvDraftSnapshot st") simp_all
  then have "live_write H (dbStates db, dbPublications db, dbReceipts db)
      (replaceRow (st\<lparr>lvLatestPublicationId := pbId row, lvLatestSequence := lvLatestSequence st + 1\<rparr>) (dbStates db),
       dbPublications db @ [row], dbReceipts db)"
    using st 1(3,4) by (intro live_write.published) (simp_all add: samePublications_def)
  then show ?thesis using db' 1(3) by (simp add: tables_def)
qed

lemma dispatchChanges_cases:
  assumes "dispatchChanges H env db st idn current freshId now = Inr (db', st', row)"
  obtains route draft changes where "loadRoute env db idn = Inr route" "requireWritableRoute route = Inr ()"
    "assertStateIdentity route st = Inr ()" "assertNoLiveDrift H route current = Inr ()"
    "snapshotFromJson (lvDraftSnapshot st) = Inr draft" "changedStops (captureSnapshot route) draft = Inr changes"
    "list_all (\<lambda>stop. lsDeliveryStopId stop \<in> set (editableFutureStopIds route)) changes"
    "requireRouteable (stopsById (snStops (captureSnapshot route))) changes = Inr ()"
    "publishDraft db route st idn draft changes freshId now = Inr (db', st', row)"
  using assms [unfolded dispatchChanges_def]
  by (elim run_elims) (rule that; auto)

lemma dispatchChanges_writes:
  assumes inv: "live_inv H (tables db)" and at: "at_row db idn st"
    and run: "dispatchChanges H env db st idn current freshId now = Inr (db', st', row)"
  shows "live_write H (tables db) (tables db')" "dbReceipts db' = dbReceipts db"
  using run publishDraft_writes [OF inv loadRoute_Inr(3) at] by (auto elim!: dispatchChanges_cases)

lemma publish_writes:
  assumes inv: "live_inv H (tables db)" and run: "publishLiveRouteChange H K env db cmd freshId now = Inr (db', r)"
  shows "(live_write H)\<^sup>*\<^sup>* (tables db) (tables db')"
  using run
proof (cases rule: publish_cases)
  case (dispatched route st current db1 st1 pub answer)
  note at = at_row_loadState [OF dispatched(2)]
  have d: "(live_write H)\<^sup>*\<^sup>* (tables db) (tables db1) \<and> dbReceipts db1 = dbReceipts db"
  proof (cases "lvDraftHash st = pbContentHash current")
    case True
    then show ?thesis using dispatched(9) by simp
  next
    case False
    then have "dispatchChanges H env db st (acIdentity cmd) current freshId now = Inr (db1, st1, pub)" using dispatched(9) by simp
    from dispatchChanges_writes [OF inv at this] show ?thesis by (simp add: live_write_one)
  qed
  then have "live_write H (tables db1) (tables db')" using recordCommand_writes [OF dispatched(4) _ dispatched(12)] by simp
  then show ?thesis using d by (meson rtranclp.rtrancl_into_rtrancl)
qed simp

lemma acknowledge_cases:
  assumes "acknowledgeLiveRouteChange H env db di publicationVersionId now = Inr (db', r)"
  obtains route st p latest st1 where
    "loadRoute env db (diIdentity di) = Inr route" "requireDriver route di now = Inr ()"
    "loadState db (diIdentity di) = Some st" "assertStateIdentity route st = Inr ()"
    "p \<in> set (dbPublications db)" "samePublications st p" "pbId p = publicationVersionId"
    "pbSequence p \<le> lvLatestSequence st"
    "(if lvAppliedSequence st < pbSequence p
      then updateState db (plId (rtPlan route))
             (\<lambda>s. s\<lparr>lvAppliedPublicationId := Some (pbId p), lvAppliedSequence := pbSequence p, lvAppliedAt := Some now\<rparr>)
      else Inr (db, st)) = Inr (db', st1)"
    "loadCurrentPublication db' st1 = Inr latest" "assertNoLiveDrift H route latest = Inr ()"
    "publicationResponse st1 latest = Inr r"
  using assms [unfolded acknowledgeLiveRouteChange_def]
proof (elim run_elims, goal_cases)
  case (1 route u)
  then obtain st where st: "loadState db (diIdentity di) = Some st" by (cases "loadState db (diIdentity di)") simp_all
  note key = conjunct2 [OF loadState_Some [OF st]]
  note outer = 1
  from 1(4) [unfolded st option.case] show ?case
  proof (elim run_elims, goal_cases)
    case (1 u2)
    let ?find = "List.find (\<lambda>p. pbId p = publicationVersionId \<and> pbRoutePlanId p = idRoutePlanId (diIdentity di)
                 \<and> pbShopId p = idShopId (diIdentity di) \<and> pbDriverId p = diDriverId di
                 \<and> pbAssignmentGeneration p = plAssignmentGeneration (rtPlan route)) (dbPublications db)"
    from 1(2) obtain p where find: "?find = Some p" by (cases ?find) simp_all
    have same: "\<not> hasAssignmentChanged route st" using 1(1) by (simp add: assertStateIdentity_def)
    have drv: "plDriverId (rtPlan route) = Some (diDriverId di)" using outer(3) by (simp add: requireDriver_def Let_def)
    have p: "p \<in> set (dbPublications db)" "pbId p = publicationVersionId" "samePublications st p"
      using find_SomeD [OF find] same drv key by (auto simp: hasAssignmentChanged_def samePublications_def)
    from 1(2) [unfolded find option.case] show ?case
      by (elim run_elims) (rule outer(1); use outer st 1 p in \<open>auto split del: if_split\<close>)
  qed
qed

lemma acknowledge_writes:
  assumes inv: "live_inv H (tables db)"
    and run: "acknowledgeLiveRouteChange H env db di publicationVersionId now = Inr (db', r)"
  shows "(live_write H)\<^sup>*\<^sup>* (tables db) (tables db')"
  using run
proof (cases rule: acknowledge_cases)
  case (1 route st p latest st1)
  note at = at_row_loadState [OF 1(3)]
  show ?thesis
  proof (cases "lvAppliedSequence st < pbSequence p")
    case True
    then have "updateState db (idRoutePlanId (diIdentity di))
        (\<lambda>s. s\<lparr>lvAppliedPublicationId := Some (pbId p), lvAppliedSequence := pbSequence p, lvAppliedAt := Some now\<rparr>) = Inr (db', st1)"
      using 1(9) loadRoute_Inr(3) [OF 1(1)] by simp
    then have "(live_write H)\<^sup>*\<^sup>* (tables db) (tables db') \<and> at_row db' (diIdentity di) st1 \<and> db' = db\<lparr>dbStates := dbStates db'\<rparr>"
      using at 1(5-8) True by (intro update_writes [OF inv at]) (auto intro!: live_write.acknowledged simp: at_row_def)
    then show ?thesis by blast
  next
    case False
    then show ?thesis using 1(9) by simp
  qed
qed

lemma complete_cases:
  assumes "completeLiveRouteChildReplacement H env db c nextChild now = Inr db'"
  obtains (reassigned) "db' = db"
  | (replaced) route previous sn p st2 db1 where
      "loadRoute env db (rcIdentity c) = Inr route" "\<not> hasAssignmentChanged route (rcState c)"
      "snapshotFromJson (pbSnapshot (rcCurrent c)) = Inr previous"
      "sn = (captureSnapshot route)\<lparr>snInitialRouteVersionId :=
          Some (coalesce_def_value (snInitialRouteVersionId previous) (lvBaselineRouteVersionId (rcState c)))\<rparr>"
      "membership previous = membership sn" "list_all (sameButSequence (snStops previous)) (snStops sn)"
      "p = \<lparr>pbId = nextChild, pbRoutePlanId = idRoutePlanId (rcIdentity c), pbShopId = idShopId (rcIdentity c),
          pbAssignmentGeneration = lvAssignmentGeneration (rcState c), pbDriverId = lvDriverId (rcState c),
          pbSequence = lvLatestSequence (rcState c) + 1, pbContentHash = contentHash H sn, pbSnapshot = Stored sn,
          pbPublishedAt = now, pbNotificationStatus = ''SKIPPED'', pbNextAttemptAt = None,
          pbErrorCode = Some ''LEGACY_CHILD_REPLACEMENT''\<rparr>"
      "createPublication db p = Inr db1"
      "updateState db1 (plId (rtPlan route))
         (\<lambda>s. s\<lparr>lvBaselineRouteVersionId := nextChild, lvLatestPublicationId := nextChild,
                lvLatestSequence := lvLatestSequence (rcState c) + 1, lvDraftSnapshot := Stored sn,
                lvDraftHash := contentHash H sn, lvRevision := lvRevision s + 1\<rparr>) = Inr (db', st2)"
  using assms [unfolded completeLiveRouteChildReplacement_def Let_def]
proof (elim run_elims, goal_cases)
  case (1 route)
  show ?case
  proof (cases "belongsToPreviousAssignment route (rcState c)")
    case True
    then show ?thesis using 1 by simp
  next
    case False
    note outer = 1
    from 1(4) [simplified False if_False] show ?thesis
      by (elim run_elims) (rule replaced [OF outer(3) _ _ refl _ _ refl], assumption, assumption, simp, simp, assumption, simp)
  qed
qed

lemma complete_writes:
  assumes inv: "live_inv H (tables db)" and tok: "tables_ok db" and at: "at_row db (rcIdentity c) (rcState c)"
    and run: "completeLiveRouteChildReplacement H env db c nextChild now = Inr db'"
  shows "(live_write H)\<^sup>*\<^sup>* (tables db) (tables db')"
  using run
proof (cases rule: complete_cases)
  case (replaced route previous sn p st2 db1)
  let ?st = "rcState c"
  let ?f = "\<lambda>s. s\<lparr>lvBaselineRouteVersionId := nextChild, lvLatestPublicationId := nextChild,
                 lvLatestSequence := lvLatestSequence ?st + 1, lvDraftSnapshot := Stored sn,
                 lvDraftHash := contentHash H sn, lvRevision := lvRevision s + 1\<rparr>"
  have st: "?st \<in> set (dbStates db)" "lvRoutePlanId ?st = idRoutePlanId (rcIdentity c)" "lvShopId ?st = idShopId (rcIdentity c)"
    using at by (simp_all add: at_row_def)
  note pub = createPublication_Inr [OF replaced(8)]
  have "ordered (captureSnapshot route)" using capture_ordered [OF tok] loadRoute_Inr(2) [OF replaced(1)] by metis
  then have ord: "ordered sn" using replaced(4) by (simp add: ordered_def)
  have "updateState db1 (lvRoutePlanId ?st) ?f = Inr (db', st2)"
    using replaced(9) loadRoute_Inr(3) [OF replaced(1)] st by simp
  then have "st2 = ?f ?st \<and> db' = db1\<lparr>dbStates := replaceRow (?f ?st) (dbStates db1)\<rparr>"
    using live_inv_distinct [OF inv] st pub(1) by (intro updateState_row) simp_all
  then have t': "tables db' = (replaceRow (?f ?st) (dbStates db), dbPublications db @ [p], dbReceipts db)"
    using pub(1) by (simp add: tables_def)
  have "live_write H (dbStates db, dbPublications db, dbReceipts db)
      (replaceRow (?st\<lparr>lvBaselineRouteVersionId := nextChild, lvLatestPublicationId := pbId p,
         lvLatestSequence := lvLatestSequence ?st + 1, lvDraftSnapshot := pbSnapshot p, lvDraftHash := pbContentHash p,
         lvRevision := lvRevision ?st + 1\<rparr>) (dbStates db), dbPublications db @ [p], dbReceipts db)"
    using st pub(2) replaced(7) hashed_Stored [OF ord] by (intro live_write.succeeded) (simp_all add: samePublications_def)
  then show ?thesis using replaced(7) by (simp add: t' live_write_one) (simp add: tables_def live_write_one)
qed simp

lemma prepare_cases:
  assumes "prepareLiveRouteChildReplacement H env db idn current = Inr (Some c)"
  obtains route where "loadRoute env db idn = Inr route" "loadState db idn = Some (rcState c)" "rcIdentity c = idn"
    "assertStateIdentity route (rcState c) = Inr ()" "loadCurrentPublication db (rcState c) = Inr (rcCurrent c)"
    "assertNoLiveDrift H route (rcCurrent c) = Inr ()" "lvDraftHash (rcState c) = pbContentHash (rcCurrent c)"
proof (cases "loadState db idn")
  case (Some st)
  from assms [unfolded prepareLiveRouteChildReplacement_def Some option.case] show ?thesis
  proof (elim run_elims, goal_cases)
    case (1 route u)
    show ?case
    proof (cases "belongsToPreviousAssignment route st")
      case False
      note outer = 1
      from 1(3) [simplified False if_False] show ?thesis
        by (elim run_elims) (rule that; use outer Some in auto)
    qed (use 1 in simp)
  qed
qed (use assms in \<open>simp add: prepareLiveRouteChildReplacement_def\<close>)

lemma tables_outside [simp]: "tables (outsideWrites db written) = tables db" "tables_ok (outsideWrites db written) = tables_ok written"
  by (simp_all add: tables_def outsideWrites_def tables_ok_def)

lemma replaceChild_writes:
  assumes inv: "live_inv H (tables db)" and run: "replaceChild H env db idn cur nxt written now = Inr (db', u)"
  shows "(live_write H)\<^sup>*\<^sup>* (tables db) (tables db')"
  using run [unfolded replaceChild_def]
proof (elim run_elims, goal_cases)
  case (1 ctx)
  show ?case
  proof (cases ctx)
    case None
    then show ?thesis using 1 by auto
  next
    case (Some c)
    with 1 have prep: "prepareLiveRouteChildReplacement H env db idn cur = Inr (Some c)" and tok: "tables_ok written"
      and comp: "completeLiveRouteChildReplacement H env (outsideWrites db written) c nxt now = Inr db'" by auto
    from prep have "at_row (outsideWrites db written) (rcIdentity c) (rcState c)"
      by (rule prepare_cases) (simp add: at_row_def outsideWrites_def loadState_Some)
    then have "(live_write H)\<^sup>*\<^sup>* (tables (outsideWrites db written)) (tables db')"
      using comp inv tok by (intro complete_writes) simp_all
    then show ?thesis by simp
  qed
qed

theorem live_step_writes:
  assumes inv: "live_inv H (tables db)" and tok: "tables_ok db"
  shows "(live_write H)\<^sup>*\<^sup>* (tables db) (tables (live_step H K env db e))"
proof (cases e)
  case (SaveDraft cmd ovs order freshId now)
  then show ?thesis using save_writes [OF inv tok]
    by (cases "saveLiveRouteChange H K env db cmd ovs order freshId now") (auto simp: commit_def)
next
  case (DiscardDraft cmd)
  then show ?thesis using discard_writes [OF inv]
    by (cases "discardLiveRouteChange H K env db cmd") (auto simp: commit_def)
next
  case (DispatchDraft cmd freshId now)
  then show ?thesis using publish_writes [OF inv]
    by (cases "publishLiveRouteChange H K env db cmd freshId now") (auto simp: commit_def)
next
  case (Acknowledge di p now)
  then show ?thesis using acknowledge_writes [OF inv]
    by (cases "acknowledgeLiveRouteChange H env db di p now") (auto simp: commit_def)
next
  case (ReplaceChild idn cur nxt written now)
  then show ?thesis using replaceChild_writes [OF inv]
    by (cases "replaceChild H env db idn cur nxt written now") (auto simp: commit_def)
qed simp

section \<open>The planning tables\<close>

text \<open>Only a dispatch writes the plans, the stops and their order; the other commands leave them as they are.\<close>

definition planning :: "live_db \<Rightarrow> plan_row list \<times> stop_row list \<times> plan_stop list" where
  "planning db = (dbPlans db, dbStops db, dbPlanStops db)"

lemma tables_ok_planning: "planning db' = planning db \<Longrightarrow> tables_ok db' = tables_ok db"
  by (simp add: planning_def tables_ok_def)

lemma updateState_planning: "updateState db k f = Inr (db', st) \<Longrightarrow> planning db' = planning db"
  by (auto simp: updateState_def planning_def split: option.splits)

lemma createPublication_planning: "createPublication db p = Inr db' \<Longrightarrow> planning db' = planning db"
  by (auto simp: createPublication_def planning_def)

lemma recordCommand_planning: "recordCommand db route cmd kind h r pid = Inr db' \<Longrightarrow> planning db' = planning db"
  by (auto simp: recordCommand_def planning_def Let_def)

lemma ensureState_planning:
  assumes "live_inv H (tables db)" "tables_ok db" "loadRoute env db (acIdentity cmd) = Inr route"
    "ensureState H db route (loadState db (acIdentity cmd)) cmd freshId now = Inr (db1, st)"
  shows "planning db1 = planning db"
  using arg_cong [where f = planning, OF conjunct2 [OF conjunct2 [OF ensureState_writes [OF assms]]]]
  by (simp add: planning_def)

lemma editDraft_planning:
  assumes "editDraft H db route st overrides order = Inr (db2, st2)"
  shows "planning db2 = planning db"
  using assms unfolding editDraft_def Let_def
  by (elim run_elims) (auto dest: updateState_planning split: if_splits)

lemma save_planning:
  assumes inv: "live_inv H (tables db)" and tok: "tables_ok db"
    and run: "saveLiveRouteChange H K env db cmd overrides order freshId now = Inr (db', r)"
  shows "planning db' = planning db"
  using run
proof (cases rule: save_cases)
  case (saved route db1 st current db2 st2 answer)
  then show ?thesis
    using ensureState_planning [OF inv tok saved(1,5)] editDraft_planning [OF saved(10)] recordCommand_planning [OF saved(13)]
    by simp
qed simp

lemma discard_planning:
  assumes run: "discardLiveRouteChange H K env db cmd = Inr (db', r)"
  shows "planning db' = planning db"
  using run
proof (cases rule: discard_cases)
  case (discarded route st current db1 st1 answer)
  have "planning db1 = planning db" using discarded(9) by (auto dest: updateState_planning split: if_splits)
  then show ?thesis using recordCommand_planning [OF discarded(12)] by simp
qed simp

lemma acknowledge_planning:
  assumes run: "acknowledgeLiveRouteChange H env db di publicationVersionId now = Inr (db', r)"
  shows "planning db' = planning db"
  using run
proof (cases rule: acknowledge_cases)
  case (1 route st p latest st1)
  then show ?thesis by (auto dest: updateState_planning split: if_splits)
qed

lemma complete_planning:
  assumes run: "completeLiveRouteChildReplacement H env db c nextChild now = Inr db'"
  shows "planning db' = planning db"
  using run
proof (cases rule: complete_cases)
  case (replaced route previous sn p st2 db1)
  then show ?thesis using createPublication_planning [OF replaced(8)] updateState_planning [OF replaced(9)] by simp
qed simp

subsection \<open>A dispatch keeps the keys\<close>

lemma applyWrite_keys [simp]:
  "srId (applyWrite w r) = srId r" "srShopId (applyWrite w r) = srShopId r" "srStatus (applyWrite w r) = srStatus r"
  "srOrderId (applyWrite w r) = srOrderId r"
  by (cases w; simp)+

lemma fold_applyWrite_keys [simp]:
  "srId (fold applyWrite ws r) = srId r" "srShopId (fold applyWrite ws r) = srShopId r"
  "srStatus (fold applyWrite ws r) = srStatus r" "srOrderId (fold applyWrite ws r) = srOrderId r"
  by (induction ws arbitrary: r) simp_all

lemma writeStops_keys:
  "writeStops shopId byId changes rows = Inr rows' \<Longrightarrow>
     map (\<lambda>r. (srId r, srShopId r, srStatus r)) rows' = map (\<lambda>r. (srId r, srShopId r, srStatus r)) rows"
proof (induction changes arbitrary: rows)
  case (Cons c changes)
  from Cons.prems obtain data rows1 where "writeStops shopId byId changes rows1 = Inr rows'"
    and "rows1 = rows \<or> rows1 = map (\<lambda>r. if writableStop (lsDeliveryStopId c) shopId r then fold applyWrite data r else r) rows"
    by (auto split: if_splits)
  then show ?case using Cons.IH by auto
qed simp

definition stopKeys :: "plan_stop \<Rightarrow> string \<times> string \<times> string \<times> string" where
  "stopKeys r = (psId r, psRoutePlanId r, psShopId r, psDeliveryStopId r)"

lemma setSequence_keys:
  assumes "setSequence k n rows = Inr rows'"
  shows "map stopKeys rows' = map stopKeys rows"
  using assms by (auto simp: setSequence_def stopKeys_def split: option.splits)

lemma setSequence_distinct:
  assumes run: "setSequence k n rows = Inr rows'" and ids: "distinct (map psId rows)"
    and d: "distinct (map (\<lambda>r. (psRoutePlanId r, psSequence r)) rows)"
  shows "distinct (map (\<lambda>r. (psRoutePlanId r, psSequence r)) rows')"
proof -
  obtain row where row: "row \<in> set rows" "psId row = k"
    and free: "\<And>r. r \<in> set rows \<Longrightarrow> psId r \<noteq> k \<Longrightarrow> psRoutePlanId r = psRoutePlanId row \<Longrightarrow> psSequence r \<noteq> n"
    and rows': "rows' = map (\<lambda>r. if psId r = k then r\<lparr>psSequence := n\<rparr> else r) rows"
    using run by (auto simp: setSequence_def list_ex_iff split: option.splits dest!: find_SomeD)
  have "inj_on (\<lambda>r. (psRoutePlanId (if psId r = k then r\<lparr>psSequence := n\<rparr> else r),
      psSequence (if psId r = k then r\<lparr>psSequence := n\<rparr> else r))) (set rows)"
  proof (rule inj_onI)
    fix a b assume ab: "a \<in> set rows" "b \<in> set rows"
      and eq: "(psRoutePlanId (if psId a = k then a\<lparr>psSequence := n\<rparr> else a), psSequence (if psId a = k then a\<lparr>psSequence := n\<rparr> else a))
        = (psRoutePlanId (if psId b = k then b\<lparr>psSequence := n\<rparr> else b), psSequence (if psId b = k then b\<lparr>psSequence := n\<rparr> else b))"
    have same: "psId a = k \<Longrightarrow> a = row" "psId b = k \<Longrightarrow> b = row"
      using ids row ab by (auto simp: distinct_map inj_on_def)
    show "a = b"
    proof (cases "psId a = k"; cases "psId b = k")
      assume "psId a \<noteq> k" "psId b \<noteq> k"
      then show ?thesis using eq ab d by (auto simp: distinct_map inj_on_def)
    qed (use same eq ab free in auto)
  qed
  moreover have "distinct rows" using ids by (simp add: distinct_map)
  ultimately show ?thesis by (simp add: rows' distinct_map comp_def inj_on_def)
qed

lemma keys_ids: "map stopKeys rows' = map stopKeys rows \<Longrightarrow> map psId rows' = map psId rows"
  by (drule arg_cong [where f = "map fst"]) (simp add: stopKeys_def comp_def)

lemma setSequences_ok:
  "setSequences moves rows = Inr rows' \<Longrightarrow> distinct (map psId rows)
   \<Longrightarrow> distinct (map (\<lambda>r. (psRoutePlanId r, psSequence r)) rows)
   \<Longrightarrow> map stopKeys rows' = map stopKeys rows \<and> distinct (map (\<lambda>r. (psRoutePlanId r, psSequence r)) rows')"
proof (induction moves arbitrary: rows rule: list.induct)
  case (Cons m moves)
  obtain k n where m: "m = (k, n)" by (cases m)
  from Cons.prems obtain rows1 where s: "setSequence k n rows = Inr rows1" and rest: "setSequences moves rows1 = Inr rows'"
    by (auto simp: m)
  have "map psId rows1 = map psId rows" by (rule keys_ids [OF setSequence_keys [OF s]])
  then show ?case
    using Cons.IH [OF rest] setSequence_distinct [OF s Cons.prems(2,3)] setSequence_keys [OF s] Cons.prems by simp
qed simp

lemma moveStops_ok:
  assumes "moveStops live draft reordered rows = Inr rows'" "distinct (map psId rows)"
    "distinct (map (\<lambda>r. (psRoutePlanId r, psSequence r)) rows)"
  shows "map stopKeys rows' = map stopKeys rows \<and> distinct (map (\<lambda>r. (psRoutePlanId r, psSequence r)) rows')"
proof -
  obtain rows1 m1 m2 where s: "setSequences m1 rows = Inr rows1" "setSequences m2 rows1 = Inr rows'"
    using assms(1) by (auto simp: moveStops_def Let_def)
  from setSequences_ok [OF s(1) assms(2,3)] have k: "map stopKeys rows1 = map stopKeys rows"
    and d: "distinct (map (\<lambda>r. (psRoutePlanId r, psSequence r)) rows1)" by simp_all
  from keys_ids [OF k] assms(2) have "distinct (map psId rows1)" by simp
  from setSequences_ok [OF s(2) this d] k show ?thesis by simp
qed

lemma staleEta_keys [simp]: "stopKeys (staleEta v r) = stopKeys r" "psSequence (staleEta v r) = psSequence r"
  by (simp_all add: staleEta_def stopKeys_def)

lemma invalidateEtas_keys:
  "map stopKeys (invalidateEtas db route shopId editable) = map stopKeys (dbPlanStops db)"
  "map psSequence (invalidateEtas db route shopId editable) = map psSequence (dbPlanStops db)"
  by (auto simp: invalidateEtas_def)

lemma keys_of_rows:
  assumes "map stopKeys rows' = map stopKeys rows"
  shows "map (\<lambda>r. (psRoutePlanId r, psDeliveryStopId r)) rows' = map (\<lambda>r. (psRoutePlanId r, psDeliveryStopId r)) rows"
    "map (\<lambda>r. (psDeliveryStopId r, psShopId r)) rows' = map (\<lambda>r. (psDeliveryStopId r, psShopId r)) rows"
    "map psRoutePlanId rows' = map psRoutePlanId rows"
  using arg_cong [where f = "map (\<lambda>(i, p, s, d). (p, d))", OF assms] arg_cong [where f = "map (\<lambda>(i, p, s, d). (d, s))", OF assms]
    arg_cong [where f = "map (\<lambda>(i, p, s, d). p)", OF assms]
  by (simp_all add: stopKeys_def comp_def)

lemma zip_keys: "map (\<lambda>r. (f r, g r)) rows = zip (map f rows) (map g rows)"
  by (induction rows) simp_all

lemma references_kept:
  assumes "map (\<lambda>r. (psDeliveryStopId r, psShopId r)) rows' = map (\<lambda>r. (psDeliveryStopId r, psShopId r)) rows"
    and "map (\<lambda>r. (srId r, srShopId r)) stops' = map (\<lambda>r. (srId r, srShopId r)) stops"
    and "list_all (\<lambda>r. list_ex (\<lambda>s. srId s = psDeliveryStopId r \<and> srShopId s = psShopId r) stops) rows"
  shows "list_all (\<lambda>r. list_ex (\<lambda>s. srId s = psDeliveryStopId r \<and> srShopId s = psShopId r) stops') rows'"
proof -
  have ref: "list_ex (\<lambda>s. srId s = psDeliveryStopId r \<and> srShopId s = psShopId r) xs \<longleftrightarrow>
      (psDeliveryStopId r, psShopId r) \<in> set (map (\<lambda>s. (srId s, srShopId s)) xs)" for r xs
    by (force simp: list_ex_iff)
  have keys: "list_all (\<lambda>r. (psDeliveryStopId r, psShopId r) \<in> A) xs \<longleftrightarrow> list_all (\<lambda>k. k \<in> A) (map (\<lambda>r. (psDeliveryStopId r, psShopId r)) xs)"
    for A xs by (simp add: list.pred_map comp_def)
  from assms(3) show ?thesis by (simp only: ref keys assms(1,2))
qed

lemma publishDraft_ok:
  assumes tok: "tables_ok db" and run: "publishDraft db route st idn draft changes freshId now = Inr (db', st', row)"
  shows "tables_ok db'"
  using run
proof (cases rule: publishDraft_cases)
  case (1 stops rows db5)
  let ?rows = "invalidateEtas (db\<lparr>dbStops := stops, dbPlanStops := rows\<rparr>) route (idShopId idn) (editableFutureStopIds route)"
  have p5: "planning db' = (map (\<lambda>p. if plId p = plId (rtPlan route) then p\<lparr>plUpdatedAt := now\<rparr> else p) (dbPlans db), stops, ?rows)"
    using updateState_planning [OF 1(6)] arg_cong [where f = planning, OF 1(5)] by (simp add: planning_def)
  then have db': "dbPlans db' = map (\<lambda>p. if plId p = plId (rtPlan route) then p\<lparr>plUpdatedAt := now\<rparr> else p) (dbPlans db)"
      "dbStops db' = stops" "dbPlanStops db' = ?rows" by (simp_all add: planning_def)
  have mv: "map stopKeys rows = map stopKeys (dbPlanStops db)" "distinct (map (\<lambda>r. (psRoutePlanId r, psSequence r)) rows)"
    using moveStops_ok [OF 1(2)] tok by (simp_all add: tables_ok_def)
  have keys: "map stopKeys ?rows = map stopKeys (dbPlanStops db)" by (simp add: invalidateEtas_keys mv(1))
  have "map (\<lambda>r. (psRoutePlanId r, psSequence r)) ?rows = map (\<lambda>r. (psRoutePlanId r, psSequence r)) rows"
    unfolding zip_keys keys_of_rows(3) [OF invalidateEtas_keys(1)] invalidateEtas_keys(2) by simp
  then have d2: "distinct (map (\<lambda>r. (psRoutePlanId r, psSequence r)) ?rows)" using mv(2) by simp
  have sk: "map (\<lambda>r. (srId r, srShopId r)) stops = map (\<lambda>r. (srId r, srShopId r)) (dbStops db)"
    using arg_cong [where f = "map (\<lambda>(i, s, t). (i, s))", OF writeStops_keys [OF 1(1)]] by (simp add: comp_def)
  have sid: "map srId stops = map srId (dbStops db)"
    using arg_cong [where f = "map fst", OF sk] by (simp add: comp_def)
  have "map plId (dbPlans db') = map plId (dbPlans db)" by (simp add: db'(1))
  then show ?thesis
    using tok d2 sid references_kept [OF keys_of_rows(2) [OF keys] sk] keys_ids [OF keys] keys_of_rows(1) [OF keys]
    by (simp add: tables_ok_def db'(2,3))
qed

lemma publish_ok:
  assumes tok: "tables_ok db" and run: "publishLiveRouteChange H K env db cmd freshId now = Inr (db', r)"
  shows "tables_ok db'"
  using run
proof (cases rule: publish_cases)
  case (dispatched route st current db1 st1 pub answer)
  have "tables_ok db1"
  proof (cases "lvDraftHash st = pbContentHash current")
    case True
    then show ?thesis using dispatched(9) tok by simp
  next
    case False
    then have "dispatchChanges H env db st (acIdentity cmd) current freshId now = Inr (db1, st1, pub)" using dispatched(9) by simp
    then show ?thesis by (rule dispatchChanges_cases) (erule publishDraft_ok [OF tok])
  qed
  then show ?thesis using tables_ok_planning [OF recordCommand_planning [OF dispatched(12)]] by simp
qed (use tok in simp)

text \<open>The invariant of the component: its own tables are consistent and the planning tables obey their keys.\<close>

definition live_ok :: "(live_content \<Rightarrow> string) \<Rightarrow> live_db \<Rightarrow> bool" where
  "live_ok H db = (tables_ok db \<and> live_inv H (tables db))"

lemma live_step_tables_ok:
  assumes inv: "live_inv H (tables db)" and tok: "tables_ok db"
  shows "tables_ok (live_step H K env db e)"
proof (cases e)
  case (SaveDraft cmd ovs order freshId now)
  then show ?thesis using save_planning [OF inv tok, THEN tables_ok_planning] tok
    by (cases "saveLiveRouteChange H K env db cmd ovs order freshId now") (auto simp: commit_def)
next
  case (DiscardDraft cmd)
  then show ?thesis using discard_planning [THEN tables_ok_planning] tok
    by (cases "discardLiveRouteChange H K env db cmd") (auto simp: commit_def)
next
  case (DispatchDraft cmd freshId now)
  then show ?thesis using publish_ok [OF tok] tok
    by (cases "publishLiveRouteChange H K env db cmd freshId now") (auto simp: commit_def)
next
  case (Acknowledge di p now)
  then show ?thesis using acknowledge_planning [THEN tables_ok_planning] tok
    by (cases "acknowledgeLiveRouteChange H env db di p now") (auto simp: commit_def)
next
  case (ReplaceChild idn cur nxt written now)
  have "tables_ok db'" if "replaceChild H env db idn cur nxt written now = Inr (db', u)" for db' u
    using that unfolding replaceChild_def
    by (elim run_elims) (auto elim!: run_elims dest!: complete_planning [THEN tables_ok_planning] split: option.splits)
  then show ?thesis using ReplaceChild tok
    by (cases "replaceChild H env db idn cur nxt written now") (auto simp: commit_def)
qed (use tok in simp)

section \<open>What every history keeps\<close>

interpretation live: invariant_machine "live_step H K env" "live_ok H" for H K env
  by unfold_locales (auto simp: live_ok_def intro: live_step_tables_ok live_writes_inv [OF live_step_writes])

lemma live_run_writes:
  "live_ok H db \<Longrightarrow> (live_write H)\<^sup>*\<^sup>* (tables db) (tables (foldl (live_step H K env) db es))"
proof (induction es arbitrary: db)
  case (Cons e es)
  have "(live_write H)\<^sup>*\<^sup>* (tables db) (tables (live_step H K env db e))" using Cons.prems by (intro live_step_writes) (simp_all add: live_ok_def)
  also have "(live_write H)\<^sup>*\<^sup>* (tables (live_step H K env db e)) (tables (foldl (live_step H K env) (live_step H K env db e) es))"
    by (rule Cons.IH [OF live.step_inv [OF Cons.prems]])
  finally show ?case by simp
qed simp

text \<open>A later state of the same route: a newer assignment, or the same one with no cursor moved back.\<close>

definition later :: "live_state \<Rightarrow> live_state \<Rightarrow> bool" where
  "later st st' =
     (lvRoutePlanId st' = lvRoutePlanId st \<and> lvShopId st' = lvShopId st
      \<and> (lvAssignmentGeneration st < lvAssignmentGeneration st'
         \<or> lvAssignmentGeneration st' = lvAssignmentGeneration st \<and> lvDriverId st' = lvDriverId st
           \<and> lvLatestSequence st \<le> lvLatestSequence st' \<and> lvAppliedSequence st \<le> lvAppliedSequence st'
           \<and> lvRevision st \<le> lvRevision st'))"

lemma later_refl [simp]: "later st st"
  by (simp add: later_def)

lemma later_trans: "later a b \<Longrightarrow> later b c \<Longrightarrow> later a c"
  by (auto simp: later_def)

lemma replaceRow_later:
  assumes "distinct (map lvRoutePlanId ss)" and "old \<in> set ss" and "later old new" and "st \<in> set ss"
  shows "\<exists>st' \<in> set (replaceRow new ss). later st st'"
proof -
  have "set (replaceRow new ss) = insert new (set ss - {old})"
    using assms by (intro set_replaceRow) (simp_all add: later_def)
  then show ?thesis using assms by (cases "st = old") (auto intro: bexI [where x = st])
qed

lemma live_write_later:
  assumes "live_write H t t'" and "live_inv H t" and "st \<in> set (fst t)"
  shows "\<exists>st' \<in> set (fst t'). later st st'"
  using assms(1)
proof cases
  case (enrolled st0 ss p ps rs)
  then show ?thesis using assms(3) by (auto intro!: bexI [where x = st])
next
  case (reassigned old ss st0 p ps rs)
  moreover have "later old st0" using reassigned by (simp add: later_def)
  ultimately show ?thesis using assms by (simp add: live_inv_def replaceRow_later)
next
  case (drafted st0 ss d h ps rs)
  have "later st0 (st0\<lparr>lvDraftSnapshot := d, lvDraftHash := h, lvRevision := lvRevision st0 + 1\<rparr>)" by (simp add: later_def)
  from replaceRow_later [OF _ drafted(3) this] show ?thesis using assms drafted by (simp add: live_inv_def)
next
  case (published st0 ss p ps rs)
  have "later st0 (st0\<lparr>lvLatestPublicationId := pbId p, lvLatestSequence := lvLatestSequence st0 + 1\<rparr>)" by (simp add: later_def)
  from replaceRow_later [OF _ published(3) this] show ?thesis using assms published by (simp add: live_inv_def)
next
  case (succeeded st0 ss p ps rs b)
  have "later st0 (st0\<lparr>lvBaselineRouteVersionId := b, lvLatestPublicationId := pbId p,
      lvLatestSequence := lvLatestSequence st0 + 1, lvDraftSnapshot := pbSnapshot p, lvDraftHash := pbContentHash p,
      lvRevision := lvRevision st0 + 1\<rparr>)" by (simp add: later_def)
  from replaceRow_later [OF _ succeeded(3) this] show ?thesis using assms succeeded by (simp add: live_inv_def)
next
  case (acknowledged st0 ss p ps rs now)
  then have "later st0 (st0\<lparr>lvAppliedPublicationId := Some (pbId p), lvAppliedSequence := pbSequence p, lvAppliedAt := Some now\<rparr>)"
    by (simp add: later_def)
  from replaceRow_later [OF _ acknowledged(3) this] show ?thesis using assms acknowledged by (simp add: live_inv_def)
next
  case (receipted r rs ss ps)
  then show ?thesis using assms(3) by (auto intro!: bexI [where x = st])
qed

lemma live_writes_later:
  "(live_write H)\<^sup>*\<^sup>* t t' \<Longrightarrow> live_inv H t \<Longrightarrow> st \<in> set (fst t) \<Longrightarrow> \<exists>st' \<in> set (fst t'). later st st'"
proof (induction rule: rtranclp_induct)
  case base
  then show ?case by (auto intro: bexI [where x = st])
next
  case (step y z)
  then obtain s where "s \<in> set (fst y)" "later st s" by blast
  moreover have "live_inv H y" using step live_writes_inv by blast
  ultimately show ?case using live_write_later [OF step.hyps(2)] later_trans by blast
qed

lemma live_write_prefix:
  "live_write H t t' \<Longrightarrow> prefix (fst (snd t)) (fst (snd t')) \<and> prefix (snd (snd t)) (snd (snd t'))"
  by (cases rule: live_write.cases) auto

lemma live_writes_prefix:
  "(live_write H)\<^sup>*\<^sup>* t t' \<Longrightarrow> prefix (fst (snd t)) (fst (snd t')) \<and> prefix (snd (snd t)) (snd (snd t'))"
  by (induction rule: rtranclp_induct) (auto dest!: live_write_prefix intro: prefix_order.trans)

section \<open>A command takes effect once\<close>

datatype live_command =
    SaveCommand admin_command "json list" "string list option"
  | DiscardCommand admin_command
  | DispatchCommand admin_command

fun runCommand ::
  "(live_content \<Rightarrow> string) \<Rightarrow> (json \<Rightarrow> string) \<Rightarrow> demo_env \<Rightarrow> live_db \<Rightarrow> live_command \<Rightarrow> string \<Rightarrow> int
   \<Rightarrow> (live_db \<times> live_response) result" where
  "runCommand H K env db (SaveCommand cmd ovs order) freshId now = saveLiveRouteChange H K env db cmd ovs order freshId now"
| "runCommand H K env db (DiscardCommand cmd) freshId now = discardLiveRouteChange H K env db cmd"
| "runCommand H K env db (DispatchCommand cmd) freshId now = publishLiveRouteChange H K env db cmd freshId now"

fun commandOf :: "live_command \<Rightarrow> command_kind \<times> admin_command" where
  "commandOf (SaveCommand cmd ovs order) = (SAVE, cmd)"
| "commandOf (DiscardCommand cmd) = (DISCARD, cmd)"
| "commandOf (DispatchCommand cmd) = (DISPATCH, cmd)"

definition commandKey :: "live_command \<Rightarrow> string \<times> string \<times> command_kind \<times> string" where
  "commandKey c =
     (case commandOf c of (kind, cmd) \<Rightarrow>
        (idShopId (acIdentity cmd), idRoutePlanId (acIdentity cmd), kind, acCommandId cmd))"

lemma runCommand_writes:
  "live_ok H db \<Longrightarrow> runCommand H K env db c freshId now = Inr (db', r)
   \<Longrightarrow> (live_write H)\<^sup>*\<^sup>* (tables db) (tables db')"
  by (cases c) (simp_all add: save_writes discard_writes publish_writes live_ok_def)

lemma runCommand_ok:
  assumes "live_ok H db" and "runCommand H K env db c freshId now = Inr (db', r)"
  shows "live_ok H db'"
proof -
  have "tables_ok db'"
  proof (cases c)
    case (SaveCommand cmd ovs order)
    then have "planning db' = planning db" using assms by (intro save_planning) (simp_all add: live_ok_def)
    from tables_ok_planning [OF this] show ?thesis using assms(1) by (simp add: live_ok_def)
  next
    case (DiscardCommand cmd)
    then have "planning db' = planning db" using assms by (intro discard_planning) simp
    from tables_ok_planning [OF this] show ?thesis using assms(1) by (simp add: live_ok_def)
  next
    case (DispatchCommand cmd)
    then show ?thesis using assms publish_ok [of db H K env cmd freshId now db' r] by (simp add: live_ok_def)
  qed
  moreover have "live_inv H (tables db')" using live_writes_inv [OF runCommand_writes [OF assms]] assms(1) by (simp add: live_ok_def)
  ultimately show ?thesis by (simp add: live_ok_def)
qed

lemma replay_some_receipt:
  assumes "replayCommand db route cmd kind h = Inr (Some r)"
  shows "\<exists>q \<in> set (dbReceipts db). receiptKey q = (idShopId (acIdentity cmd), idRoutePlanId (acIdentity cmd), kind, acCommandId cmd)
    \<and> ccResponse q = r"
  using assms by (auto simp: replayCommand_def receiptKey_def split: option.splits dest!: find_SomeD)

lemma recordCommand_receipt:
  assumes "recordCommand db route cmd kind h response pid = Inr db'"
  shows "\<exists>q \<in> set (dbReceipts db'). receiptKey q = (idShopId (acIdentity cmd), idRoutePlanId (acIdentity cmd), kind, acCommandId cmd)
    \<and> ccResponse q = response"
  using assms by (auto simp: recordCommand_def Let_def receiptKey_def)

text \<open>A command that succeeded has a receipt with its answer; a command that has a receipt executes nothing.\<close>

lemma runCommand_receipt:
  assumes "runCommand H K env db c freshId now = Inr (db', r)"
  shows "\<exists>q \<in> set (dbReceipts db'). receiptKey q = commandKey c \<and> ccResponse q = r"
proof (cases c)
  case (SaveCommand cmd ovs order)
  with assms have "saveLiveRouteChange H K env db cmd ovs order freshId now = Inr (db', r)" by simp
  then show ?thesis
    by (cases rule: save_cases)
      (use SaveCommand in \<open>auto simp: commandKey_def dest: replay_some_receipt recordCommand_receipt\<close>)
next
  case (DiscardCommand cmd)
  with assms have "discardLiveRouteChange H K env db cmd = Inr (db', r)" by simp
  then show ?thesis
    by (cases rule: discard_cases)
      (use DiscardCommand in \<open>auto simp: commandKey_def dest: replay_some_receipt recordCommand_receipt split del: if_split\<close>)
next
  case (DispatchCommand cmd)
  with assms have "publishLiveRouteChange H K env db cmd freshId now = Inr (db', r)" by simp
  then show ?thesis
    by (cases rule: publish_cases)
      (use DispatchCommand in \<open>auto simp: commandKey_def dest: replay_some_receipt recordCommand_receipt split del: if_split\<close>)
qed

lemma runCommand_replays:
  assumes q: "q \<in> set (dbReceipts db)" "receiptKey q = commandKey c"
    and run: "runCommand H K env db c freshId now = Inr (db', r)"
  shows "db' = db"
proof (cases c)
  case (SaveCommand cmd ovs order)
  with run have "saveLiveRouteChange H K env db cmd ovs order freshId now = Inr (db', r)" by simp
  then show ?thesis
    by (cases rule: save_cases) (use q SaveCommand in \<open>force simp: commandKey_def dest!: replay_none_fresh\<close>)+
next
  case (DiscardCommand cmd)
  with run have "discardLiveRouteChange H K env db cmd = Inr (db', r)" by simp
  then show ?thesis
    by (cases rule: discard_cases) (use q DiscardCommand in \<open>force simp: commandKey_def dest!: replay_none_fresh\<close>)+
next
  case (DispatchCommand cmd)
  with run have "publishLiveRouteChange H K env db cmd freshId now = Inr (db', r)" by simp
  then show ?thesis
    by (cases rule: publish_cases) (use q DispatchCommand in \<open>force simp: commandKey_def dest!: replay_none_fresh\<close>)+
qed

lemma route_sample_ok: "live_ok sampleDigest sampleDb"
  by code_simp

section \<open>Properties\<close>

text \<open>
  Claim C3: however saves, discards, dispatches, acknowledgements, successor versions and the writes of the rest of the
  program interleave, the three tables stay consistent: one state per route, publications with different identifiers and
  with the digest of their snapshot, one receipt per command identifier and kind; the publications of the assignment of a
  state are numbered \<open>0, 1, \<dots>\<close> without a gap up to its latest sequence, the latest and the applied publication are the
  ones with these numbers, and the applied one is never ahead of the latest. The stops of every stored snapshot are in the
  order of their sequence numbers, and the keys of the planning tables hold.
\<close>

theorem live_tables_consistent:
  assumes "tables_ok db"
  shows "live_ok H (foldl (live_step H K env) (db\<lparr>dbStates := [], dbPublications := [], dbReceipts := []\<rparr>) es)"
proof (rule live.run_inv)
  show "live_ok H (db\<lparr>dbStates := [], dbPublications := [], dbReceipts := []\<rparr>)"
    using assms by (simp add: live_ok_def live_inv_def tables_def tables_ok_def)
qed

theorem live_tables_consistent_witness:
  "tables_ok sampleDb
   \<and> live_ok sampleDigest (foldl (live_step sampleDigest (\<lambda>_. ''k'') sampleEnv)
       (sampleDb\<lparr>dbStates := [], dbPublications := [], dbReceipts := []\<rparr>) [DiscardDraft sampleCommand, DispatchDraft sampleCommand ''second'' 5])"
  using live_tables_consistent [OF sample_tables] sample_tables by blast

text \<open>
  Publications and receipts are only ever appended, and the state of a route only moves forward: to a newer
  assignment, or within the same assignment and driver to publication, acknowledgement and draft revision numbers that
  are at least the earlier ones.
\<close>

theorem live_history_only_grows:
  assumes "live_ok H db" and "st \<in> set (dbStates db)"
  shows "prefix (dbPublications db) (dbPublications (foldl (live_step H K env) db es))
    \<and> prefix (dbReceipts db) (dbReceipts (foldl (live_step H K env) db es))
    \<and> (\<exists>st' \<in> set (dbStates (foldl (live_step H K env) db es)). later st st')"
  using live_writes_prefix [OF live_run_writes [OF assms(1)]] live_writes_later [OF live_run_writes [OF assms(1)]]
    assms by (simp add: live_ok_def)

theorem live_history_only_grows_witness:
  "live_ok sampleDigest sampleDb \<and> sampleState \<in> set (dbStates sampleDb)
   \<and> (\<exists>st \<in> set (dbStates (foldl (live_step sampleDigest (\<lambda>_. ''k'') sampleEnv) sampleDb [DispatchDraft sampleCommand ''second'' 5])).
        later sampleState st)"
proof -
  have st: "sampleState \<in> set (dbStates sampleDb)" by (simp add: sampleDb_def)
  show ?thesis using live_history_only_grows [OF route_sample_ok st] route_sample_ok st by blast
qed

text \<open>
  Claim C2: a save, discard or dispatch takes effect at most once. Once it succeeded, every later request of the same kind
  for the same route under its command identifier is refused or answered with the recorded response, and in either case
  writes nothing, whatever happened in between and whatever the repeated request asks for.
\<close>

theorem command_takes_effect_once:
  assumes ok: "live_ok H db" and run: "runCommand H K env db c freshId now = Inr (db1, r)"
    and same: "commandKey c' = commandKey c"
  shows "case runCommand H K env (foldl (live_step H K env) db1 es) c' freshId' now' of
      Inl e \<Rightarrow> True
    | Inr (db2, r') \<Rightarrow> db2 = foldl (live_step H K env) db1 es \<and> r' = r"
proof (cases "runCommand H K env (foldl (live_step H K env) db1 es) c' freshId' now'")
  case (Inr res)
  then obtain db2 r' where again: "runCommand H K env (foldl (live_step H K env) db1 es) c' freshId' now' = Inr (db2, r')"
    by (cases res) simp
  let ?db = "foldl (live_step H K env) db1 es"
  have ok1: "live_ok H db1" by (rule runCommand_ok [OF ok run])
  obtain q where q: "q \<in> set (dbReceipts db1)" "receiptKey q = commandKey c" "ccResponse q = r"
    using runCommand_receipt [OF run] by blast
  have "prefix (dbReceipts db1) (dbReceipts ?db)" using live_writes_prefix [OF live_run_writes [OF ok1]] by simp
  then have q': "q \<in> set (dbReceipts ?db)" using q set_mono_prefix by blast
  have db2: "db2 = ?db" using runCommand_replays [OF q' _ again] q same by simp
  obtain q2 where q2: "q2 \<in> set (dbReceipts ?db)" "receiptKey q2 = commandKey c" "ccResponse q2 = r'"
    using runCommand_receipt [OF again] db2 same by auto
  have "distinct (map receiptKey (dbReceipts ?db))"
    using live.run_inv [OF ok1] by (simp add: live_ok_def live_inv_def tables_def)
  then have "q2 = q" using q q' q2 by (auto simp: distinct_map inj_on_def)
  then show ?thesis using again db2 q q2 by simp
qed simp

theorem command_takes_effect_once_witness:
  "live_ok sampleDigest sampleDb
   \<and> (\<exists>db r. runCommand sampleDigest (\<lambda>_. ''k'') sampleEnv sampleDb (DispatchCommand sampleCommand) ''second'' 5 = Inr (db, r)
        \<and> (case runCommand sampleDigest (\<lambda>_. ''k'') sampleEnv db (DispatchCommand sampleCommand) ''third'' 9 of
             Inl e \<Rightarrow> True | Inr (db2, r') \<Rightarrow> db2 = db \<and> r' = r))"
proof (rule sample_dispatch)
  fix db a n
  assume "publishLiveRouteChange sampleDigest (\<lambda>_. ''k'') sampleEnv sampleDb sampleCommand ''second'' 5 = Inr (db, DispatchAnswer a n True)"
  then have run: "runCommand sampleDigest (\<lambda>_. ''k'') sampleEnv sampleDb (DispatchCommand sampleCommand) ''second'' 5 = Inr (db, DispatchAnswer a n True)"
    by simp
  show ?thesis
    using run route_sample_ok command_takes_effect_once [OF route_sample_ok run refl, of "[]", unfolded foldl_Nil] by blast
qed

end
