(* ===== verification/LiveRouteDispatch.thy ===== *)
theory LiveRouteDispatch
  imports LiveRouteHistory
begin

text \<open>
  What a dispatch does to the route: the rows it writes, the two-phase move of the sequence numbers, and that the live
  data afterwards is exactly the dispatched draft, so that the driver reads what the office published.
\<close>

section \<open>The rows a dispatch writes\<close>

definition previousIn :: "(string \<Rightarrow> live_stop option) \<Rightarrow> live_stop \<Rightarrow> live_stop" where
  "previousIn byId stop = coalesce_def_value (byId (lsDeliveryStopId stop)) absentStop"

definition dataOf :: "live_stop \<Rightarrow> live_stop \<Rightarrow> stop_write list" where
  "dataOf previous stop = (case stopData previous stop of Inl e \<Rightarrow> [] | Inr ws \<Rightarrow> ws)"

definition writeRow :: "string \<Rightarrow> (string \<Rightarrow> live_stop option) \<Rightarrow> live_stop list \<Rightarrow> stop_row \<Rightarrow> stop_row" where
  "writeRow shopId byId changes r =
     (case List.find (\<lambda>c. writableStop (lsDeliveryStopId c) shopId r) changes of
        None \<Rightarrow> r | Some c \<Rightarrow> fold applyWrite (dataOf (previousIn byId c) c) r)"

lemma writableStop_keys [simp]: "writableStop k sh (fold applyWrite ws r) = writableStop k sh r"
  by (simp add: writableStop_def)

lemma writeStops_form:
  "writeStops shopId byId changes rows = Inr rows' \<Longrightarrow> distinct (map lsDeliveryStopId changes)
   \<Longrightarrow> rows' = map (writeRow shopId byId changes) rows"
proof (induction changes arbitrary: rows)
  case Nil
  then show ?case by (simp add: writeRow_def)
next
  case (Cons c cs)
  let ?k = "lsDeliveryStopId c" and ?data = "dataOf (previousIn byId c) c"
  let ?upd = "\<lambda>r. if writableStop ?k shopId r then fold applyWrite ?data r else r"
  obtain data where data: "stopData (previousIn byId c) c = Inr data"
    and rest: "writeStops shopId byId cs (if data = [] then rows else map (\<lambda>r. if writableStop ?k shopId r then fold applyWrite data r else r) rows)
      = Inr rows'"
    using Cons.prems(1) by (auto simp: previousIn_def split: if_splits)
  have d: "?data = data" using data by (simp add: dataOf_def)
  have "(if data = [] then rows else map (\<lambda>r. if writableStop ?k shopId r then fold applyWrite data r else r) rows) = map ?upd rows"
    by (auto simp: d intro: map_idI [symmetric])
  with rest have "writeStops shopId byId cs (map ?upd rows) = Inr rows'" by simp
  from Cons.IH [OF this] Cons.prems(2) have rows': "rows' = map (writeRow shopId byId cs) (map ?upd rows)" by simp
  have other: "List.find (\<lambda>c'. writableStop (lsDeliveryStopId c') shopId r) cs = None" if "writableStop ?k shopId r" for r
    using that Cons.prems(2) by (auto simp: find_None_iff writableStop_def)
  have "writeRow shopId byId cs (?upd r) = writeRow shopId byId (c # cs) r" for r
    using other [of r] by (simp add: writeRow_def)
  then show ?case by (simp add: rows')
qed

lemma writeStops_data:
  "writeStops shopId byId changes rows = Inr rows' \<Longrightarrow> c \<in> set changes
   \<Longrightarrow> stopData (previousIn byId c) c = Inr (dataOf (previousIn byId c) c)"
proof (induction changes arbitrary: rows)
  case (Cons x xs)
  from Cons.prems(1) obtain data rows1 where "stopData (previousIn byId x) x = Inr data" "writeStops shopId byId xs rows1 = Inr rows'"
    by (auto simp: previousIn_def split: if_splits)
  then show ?case using Cons by (auto simp: dataOf_def)
qed simp

text \<open>A written row holds the values of the new stop.\<close>

lemma text_get_set [simp]: "text_get f (text_set g v t) = (if f = g then v else text_get f t)"
  by (cases f; cases g) simp_all

lemma text_eqI: "(\<And>f. text_get f s = text_get f t) \<Longrightarrow> s = t"
proof -
  assume all: "\<And>f. text_get f s = text_get f t"
  have "recipientName s = recipientName t" "phone s = phone t" "address1 s = address1 t" "address2 s = address2 t"
    "city s = city t" "province s = province t" "postalCode s = postalCode t" "countryCode s = countryCode t"
    "instructions s = instructions t"
    using all [of RecipientName] all [of Phone] all [of Address1] all [of Address2] all [of City] all [of Province]
      all [of PostalCode] all [of CountryCode] all [of Instructions] by simp_all
  then show "s = t" by simp
qed

lemma set_TEXT_FIELDS: "f \<in> set TEXT_FIELDS"
  by (cases f) (simp_all add: TEXT_FIELDS_def)

lemma text_writes:
  "text_get f (srText (fold applyWrite (map (\<lambda>f. SetText f (text_get f t)) fs) r))
     = (if f \<in> set fs then text_get f t else text_get f (srText r))"
  by (induction fs arbitrary: r) auto

definition no_text :: "stop_write \<Rightarrow> bool" where
  "no_text w = (case w of SetText f v \<Rightarrow> False | _ \<Rightarrow> True)"

lemma fold_no_text: "list_all no_text ws \<Longrightarrow> srText (fold applyWrite ws r) = srText r"
proof (induction ws arbitrary: r)
  case (Cons w ws)
  then show ?case by (cases w) (simp_all add: no_text_def)
qed simp

definition text_only :: "stop_write \<Rightarrow> bool" where
  "text_only w = (case w of SetText f v \<Rightarrow> True | _ \<Rightarrow> False)"

lemma fold_text_only:
  "list_all text_only ws \<Longrightarrow>
     srLatitude (fold applyWrite ws r) = srLatitude r \<and> srLongitude (fold applyWrite ws r) = srLongitude r
     \<and> srServiceMinutes (fold applyWrite ws r) = srServiceMinutes r \<and> srTimeWindowStart (fold applyWrite ws r) = srTimeWindowStart r
     \<and> srTimeWindowEnd (fold applyWrite ws r) = srTimeWindowEnd r \<and> srGeocodeStatus (fold applyWrite ws r) = srGeocodeStatus r"
proof (induction ws arbitrary: r)
  case (Cons w ws)
  then show ?case by (cases w) (simp_all add: text_only_def)
qed simp

lemma windowWrite_cases:
  assumes "windowWrite w previous new = Inr ws"
  obtains "previous = new" "ws = []" | v where "previous \<noteq> new" "ws = [w v]" "map_option Iso v = new"
proof (cases "previous = new")
  case True
  then show ?thesis using assms that by (simp add: windowWrite_def)
next
  case False
  then obtain v where v: "dateValue new = Inr v" "ws = [w v]" using assms by (auto simp: windowWrite_def)
  have "map_option Iso v = new"
  proof (cases new)
    case (Some t)
    then show ?thesis using v(1) by (cases t) simp_all
  qed (use v in simp)
  then show ?thesis using that v False by blast
qed

text \<open>What the row of a stop holds of a snapshot.\<close>

definition holds :: "stop_row \<Rightarrow> live_stop \<Rightarrow> bool" where
  "holds r stop =
     (srText r = lsText stop \<and> srLatitude r = lsLatitude stop \<and> srLongitude r = lsLongitude stop
      \<and> srServiceMinutes r = lsServiceMinutes stop \<and> map_option Iso (srTimeWindowStart r) = lsTimeWindowStart stop
      \<and> map_option Iso (srTimeWindowEnd r) = lsTimeWindowEnd stop)"

lemma stopData_effect:
  assumes data: "stopData previous stop = Inr ws" and old: "holds r previous"
  shows "holds (fold applyWrite ws r) stop"
proof -
  obtain ss es where s: "windowWrite SetWindowStart (lsTimeWindowStart previous) (lsTimeWindowStart stop) = Inr ss"
    and e: "windowWrite SetWindowEnd (lsTimeWindowEnd previous) (lsTimeWindowEnd stop) = Inr es"
    and ws: "ws = map (\<lambda>f. SetText f (text_get f (lsText stop)))
            (filter (\<lambda>f. text_get f (lsText previous) \<noteq> text_get f (lsText stop)) TEXT_FIELDS)
          @ (if lsLatitude previous \<noteq> lsLatitude stop then [SetLatitude (lsLatitude stop)] else [])
          @ (if lsLongitude previous \<noteq> lsLongitude stop then [SetLongitude (lsLongitude stop)] else [])
          @ (if lsServiceMinutes previous \<noteq> lsServiceMinutes stop then [SetService (lsServiceMinutes stop)] else [])
          @ ss @ es
          @ (if locationChanged previous stop
             then [SetGeocode (if lsLatitude stop = None \<or> lsLongitude stop = None then ''PENDING'' else ''RESOLVED'')]
             else [])" (is "_ = ?t @ ?la @ ?lo @ ?se @ ss @ es @ ?ge")
    using data unfolding stopData_def by (elim run_elims) simp
  have nt: "list_all no_text (?la @ ?lo @ ?se @ ss @ es @ ?ge)"
    using s e by (auto simp: no_text_def elim!: windowWrite_cases)
  have t: "list_all text_only ?t" by (simp add: list_all_iff text_only_def)
  define r1 where "r1 = fold applyWrite ?t r"
  have split: "fold applyWrite ws r = fold applyWrite (?la @ ?lo @ ?se @ ss @ es @ ?ge) r1" by (simp add: ws r1_def)
  have "srText r1 = lsText stop"
    using old by (intro text_eqI) (auto simp: r1_def text_writes set_TEXT_FIELDS holds_def)
  then have wtext: "srText (fold applyWrite ws r) = lsText stop" by (simp only: split fold_no_text [OF nt])
  have "srLatitude r1 = lsLatitude previous" "srLongitude r1 = lsLongitude previous" "srServiceMinutes r1 = lsServiceMinutes previous"
    "map_option Iso (srTimeWindowStart r1) = lsTimeWindowStart previous" "map_option Iso (srTimeWindowEnd r1) = lsTimeWindowEnd previous"
    using fold_text_only [OF t, of r] old by (simp_all add: r1_def holds_def)
  then have "srLatitude (fold applyWrite ws r) = lsLatitude stop \<and> srLongitude (fold applyWrite ws r) = lsLongitude stop
      \<and> srServiceMinutes (fold applyWrite ws r) = lsServiceMinutes stop
      \<and> map_option Iso (srTimeWindowStart (fold applyWrite ws r)) = lsTimeWindowStart stop
      \<and> map_option Iso (srTimeWindowEnd (fold applyWrite ws r)) = lsTimeWindowEnd stop"
    unfolding split using s e by (auto elim!: windowWrite_cases)
  then show ?thesis using wtext by (simp add: holds_def)
qed

section \<open>The two-phase move\<close>

definition moveRow :: "(string \<times> int) list \<Rightarrow> plan_stop \<Rightarrow> plan_stop" where
  "moveRow moves r = (case map_of moves (psId r) of None \<Rightarrow> r | Some n \<Rightarrow> r\<lparr>psSequence := n\<rparr>)"

lemma setSequences_form:
  "setSequences moves rows = Inr rows' \<Longrightarrow> distinct (map fst moves) \<Longrightarrow> rows' = map (moveRow moves) rows"
proof (induction moves arbitrary: rows rule: list.induct)
  case Nil
  then show ?case by (simp add: moveRow_def)
next
  case (Cons m moves)
  obtain k n where m: "m = (k, n)" by (cases m)
  from Cons.prems obtain rows1 where s: "setSequence k n rows = Inr rows1" and rest: "setSequences moves rows1 = Inr rows'"
    by (auto simp: m)
  have rows1: "rows1 = map (\<lambda>r. if psId r = k then r\<lparr>psSequence := n\<rparr> else r) rows"
    using s by (auto simp: setSequence_def split: option.splits)
  have "map_of moves k = None" using Cons.prems(2) by (simp add: m map_of_eq_None_iff)
  then have "moveRow moves (if psId r = k then r\<lparr>psSequence := n\<rparr> else r) = moveRow (m # moves) r" for r
    by (simp add: moveRow_def m)
  then show ?case using Cons.IH [OF rest] Cons.prems(2) by (simp add: rows1)
qed

lemma moveStops_form:
  assumes run: "moveStops live draft reordered rows = Inr rows'" and d: "distinct (map lsRoutePlanStopId reordered)"
  shows "rows' = map (moveRow (map (\<lambda>s. (lsRoutePlanStopId s, lsSequence s)) reordered)) rows"
proof -
  let ?m1 = "map (\<lambda>(i, s). (lsRoutePlanStopId s, temporaryBase live draft + int i)) (enumerate 0 reordered)"
  let ?m2 = "map (\<lambda>s. (lsRoutePlanStopId s, lsSequence s)) reordered"
  obtain rows1 where s: "setSequences ?m1 rows = Inr rows1" "setSequences ?m2 rows1 = Inr rows'"
    using run by (auto simp: moveStops_def Let_def)
  have f1: "map fst ?m1 = map lsRoutePlanStopId reordered"
  proof -
    have "map fst ?m1 = map lsRoutePlanStopId (map snd (enumerate 0 reordered))"
      by (simp only: map_map comp_def case_prod_unfold fst_conv)
    then show ?thesis by (simp only: map_snd_enumerate)
  qed
  have f2: "map fst ?m2 = map lsRoutePlanStopId reordered" by (simp add: comp_def)
  have r1: "rows1 = map (moveRow ?m1) rows" by (rule setSequences_form [OF s(1)]) (simp only: f1 d)
  have r2: "rows' = map (moveRow ?m2) rows1" by (rule setSequences_form [OF s(2)]) (simp only: f2 d)
  have "moveRow ?m2 (moveRow ?m1 r) = moveRow ?m2 r" for r
  proof (cases "map_of ?m2 (psId r)")
    case None
    then have "psId r \<notin> set (map fst ?m2)" by (simp only: map_of_eq_None_iff set_map not_False_eq_True)
    then have "psId r \<notin> set (map fst ?m1)" by (simp only: f1 f2 not_False_eq_True)
    then have "map_of ?m1 (psId r) = None" by (simp only: map_of_eq_None_iff set_map not_False_eq_True)
    then show ?thesis by (simp add: moveRow_def)
  next
    case (Some n)
    have "psId (moveRow ?m1 r) = psId r" by (simp add: moveRow_def split: option.split)
    then show ?thesis using Some by (simp add: moveRow_def [of ?m2]) (simp add: moveRow_def split: option.split)
  qed
  then show ?thesis by (simp add: r1 r2)
qed

section \<open>The database after a dispatch\<close>

definition etaRow :: "live_db \<Rightarrow> live_route \<Rightarrow> string \<Rightarrow> string list \<Rightarrow> plan_stop \<Rightarrow> plan_stop" where
  "etaRow db route shopId editable r =
     (if psRoutePlanId r = plId (rtPlan route) \<and> psShopId r = shopId \<and> psDeliveryStopId r \<in> set editable
         \<and> list_ex (\<lambda>s. srId s = psDeliveryStopId r \<and> srShopId s = psShopId r \<and> srStatus s \<in> set FUTURE_STATUSES) (dbStops db)
      then staleEta (case rtChildren route of [] \<Rightarrow> None | (v, _) # _ \<Rightarrow> Some v) r else r)"

lemma invalidateEtas_row: "invalidateEtas db route shopId editable = map (etaRow db route shopId editable) (dbPlanStops db)"
  by (simp add: invalidateEtas_def etaRow_def)

definition movesOf :: "(string \<Rightarrow> live_stop option) \<Rightarrow> live_stop list \<Rightarrow> (string \<times> int) list" where
  "movesOf byId changes =
     map (\<lambda>s. (lsRoutePlanStopId s, lsSequence s)) (filter (\<lambda>s. lsSequence (previousIn byId s) \<noteq> lsSequence s) changes)"

text \<open>The row of the plan after a dispatch: moved, and its estimate dropped when it lies ahead.\<close>

definition rowAfter ::
  "live_db \<Rightarrow> live_route \<Rightarrow> string \<Rightarrow> live_stop list \<Rightarrow> plan_stop \<Rightarrow> plan_stop" where
  "rowAfter db route shopId changes r =
     etaRow db route shopId (editableFutureStopIds route)
       (moveRow (movesOf (stopsById (snStops (captureSnapshot route))) changes) r)"

lemma updateState_frame: "updateState db k f = Inr (db', st) \<Longrightarrow> db' = db\<lparr>dbStates := dbStates db'\<rparr>"
  by (auto simp: updateState_def split: option.splits)

lemma publishDraft_effect:
  assumes run: "publishDraft db route st idn draft changes freshId now = Inr (db', st', row)"
    and ids: "distinct (map lsDeliveryStopId changes)" "distinct (map lsRoutePlanStopId changes)"
  defines "byId \<equiv> stopsById (snStops (captureSnapshot route))"
  shows "dbStops db' = map (writeRow (idShopId idn) byId changes) (dbStops db)
    \<and> dbPlanStops db' = map (rowAfter (db\<lparr>dbStops := dbStops db'\<rparr>) route (idShopId idn) changes) (dbPlanStops db)
    \<and> dbPlans db' = map (\<lambda>p. if plId p = plId (rtPlan route) then p\<lparr>plUpdatedAt := now\<rparr> else p) (dbPlans db)
    \<and> dbOrders db' = dbOrders db \<and> dbShops db' = dbShops db \<and> dbDrivers db' = dbDrivers db
    \<and> dbAccounts db' = dbAccounts db \<and> dbChildren db' = dbChildren db
    \<and> (\<forall>c \<in> set changes. stopData (previousIn byId c) c = Inr (dataOf (previousIn byId c) c))"
  using run
proof (cases rule: publishDraft_cases)
  case (1 stops rows db5)
  let ?db1 = "db\<lparr>dbStops := stops, dbPlanStops := rows\<rparr>"
  let ?re = "filter (\<lambda>stop. lsSequence (coalesce_def_value (byId (lsDeliveryStopId stop)) absentStop) \<noteq> lsSequence stop) changes"
  have stops: "stops = map (writeRow (idShopId idn) byId changes) (dbStops db)"
    using writeStops_form [OF 1(1) ids(1)] by (simp add: byId_def)
  have "distinct (map lsRoutePlanStopId ?re)" using ids(2) by (rule distinct_map_filter)
  from moveStops_form [OF 1(2) [folded byId_def] this]
  have rows: "rows = map (moveRow (movesOf byId changes)) (dbPlanStops db)" by (simp add: movesOf_def previousIn_def)
  have eta: "etaRow (db\<lparr>dbStops := stops, dbPlanStops := x\<rparr>) route (idShopId idn) e
      = etaRow (db\<lparr>dbStops := stops\<rparr>) route (idShopId idn) e" for e x
    by (simp add: etaRow_def fun_eq_iff)
  have inv: "invalidateEtas ?db1 route (idShopId idn) (editableFutureStopIds route)
      = map (rowAfter (db\<lparr>dbStops := stops\<rparr>) route (idShopId idn) changes) (dbPlanStops db)"
    by (simp add: invalidateEtas_row rows eta rowAfter_def byId_def)
  have fields: "dbStops db5 = stops"
      "dbPlanStops db5 = map (rowAfter (db\<lparr>dbStops := stops\<rparr>) route (idShopId idn) changes) (dbPlanStops db)"
      "dbPlans db5 = map (\<lambda>p. if plId p = plId (rtPlan route) then p\<lparr>plUpdatedAt := now\<rparr> else p) (dbPlans db)"
      "dbOrders db5 = dbOrders db" "dbShops db5 = dbShops db" "dbDrivers db5 = dbDrivers db"
      "dbAccounts db5 = dbAccounts db" "dbChildren db5 = dbChildren db"
    by (subst 1(5), simp add: inv)+
  have same: "dbStops db' = dbStops db5" "dbPlanStops db' = dbPlanStops db5" "dbPlans db' = dbPlans db5"
      "dbOrders db' = dbOrders db5" "dbShops db' = dbShops db5" "dbDrivers db' = dbDrivers db5"
      "dbAccounts db' = dbAccounts db5" "dbChildren db' = dbChildren db5"
    by (subst updateState_frame [OF 1(6)], simp)+
  have "\<forall>c \<in> set changes. stopData (previousIn byId c) c = Inr (dataOf (previousIn byId c) c)"
    using writeStops_data [OF 1(1)] by (simp add: byId_def)
  then show ?thesis using fields same stops by simp
qed

section \<open>The stops of a route and its draft\<close>

lemma fingerprint_eq: "operationalFingerprint a = operationalFingerprint b \<longleftrightarrow> a = b"
proof
  assume eq: "operationalFingerprint a = operationalFingerprint b"
  then have "map (\<lambda>f. text_get f (lsText a)) TEXT_FIELDS = map (\<lambda>f. text_get f (lsText b)) TEXT_FIELDS"
    by (simp add: operationalFingerprint_def)
  then have "text_get f (lsText a) = text_get f (lsText b)" for f using set_TEXT_FIELDS [of f] by (metis map_eq_conv)
  then have "lsText a = lsText b" by (rule text_eqI)
  then show "a = b" using eq by (simp add: operationalFingerprint_def)
qed simp

lemma captureStop_row:
  assumes "joinStop db r = Some y"
  shows "lsRoutePlanStopId (captureStop y) = psId r" "lsDeliveryStopId (captureStop y) = psDeliveryStopId r"
    "lsSequence (captureStop y) = psSequence r" "srId (rsStop y) = psDeliveryStopId r" "srShopId (rsStop y) = psShopId r"
    "rsStop y \<in> set (dbStops db)" "lsOrderId (captureStop y) = srOrderId (rsStop y)" "holds (rsStop y) (captureStop y)"
  using assms by (auto simp: joinStop_def captureStop_def holds_def Let_def split: option.splits dest!: find_SomeD)

lemma live_stop_of_row:
  assumes "tables_ok db" and "x \<in> set (snStops (captureSnapshot (selectRoute db plan)))"
  obtains r y where "r \<in> set (planRows db plan)" "joinStop db r = Some y" "x = captureStop y"
proof -
  obtain y where y: "y \<in> set (rtStops (selectRoute db plan))" "x = captureStop y"
    using assms(2) by (auto simp: captureSnapshot_def)
  then have "y \<in> set (List.map_filter (joinStop db) (planRows db plan))"
    by (simp add: selectRoute_def Let_def routeStops_def planRows_def)
  then obtain r where "r \<in> set (planRows db plan)" "joinStop db r = Some y" by (auto simp: List.map_filter_def split: option.splits)
  then show ?thesis using that y by blast
qed

lemma row_in_live:
  assumes "r \<in> set (planRows db plan)" "joinStop db r = Some y"
  shows "y \<in> set (rtStops (selectRoute db plan))" "captureStop y \<in> set (snStops (captureSnapshot (selectRoute db plan)))"
proof -
  have "y \<in> set (List.map_filter (joinStop db) (planRows db plan))" using assms by (force simp: List.map_filter_def)
  then show "y \<in> set (rtStops (selectRoute db plan))" by (simp add: selectRoute_def Let_def routeStops_def planRows_def)
  then show "captureStop y \<in> set (snStops (captureSnapshot (selectRoute db plan)))" by (simp add: captureSnapshot_def)
qed

text \<open>The stops of a route have different delivery stops and different rows.\<close>

lemma live_distinct:
  assumes tok: "tables_ok db"
  shows "distinct (map lsDeliveryStopId (snStops (captureSnapshot (selectRoute db plan))))"
    "distinct (map lsRoutePlanStopId (snStops (captureSnapshot (selectRoute db plan))))"
proof -
  let ?live = "snStops (captureSnapshot (selectRoute db plan))"
  let ?rows = "filter (\<lambda>row. psRoutePlanId row = plId plan \<and> psShopId row = plShopId plan) (dbPlanStops db)"
  have m: "mset (planRows db plan) = mset ?rows" by (simp add: planRows_def)
  have "inj_on psDeliveryStopId (set ?rows)"
  proof (rule inj_onI)
    fix a b assume ab: "a \<in> set ?rows" "b \<in> set ?rows" "psDeliveryStopId a = psDeliveryStopId b"
    have "inj_on (\<lambda>r. (psRoutePlanId r, psDeliveryStopId r)) (set (dbPlanStops db))" using tok by (simp add: tables_ok_def distinct_map)
    then show "a = b" using ab by (auto simp: inj_on_def)
  qed
  moreover have "inj_on psId (set ?rows)" using tok by (auto simp: tables_ok_def distinct_map inj_on_def)
  moreover have "distinct (planRows db plan)"
    using tok mset_eq_imp_distinct_iff [OF m] by (auto simp: tables_ok_def distinct_map)
  ultimately have d: "distinct (map psDeliveryStopId (planRows db plan))" "distinct (map psId (planRows db plan))"
    using mset_eq_setD [OF m] by (simp_all add: distinct_map)
  have "map lsDeliveryStopId ?live = map psDeliveryStopId (map rsRow (rtStops (selectRoute db plan)))"
    "map lsRoutePlanStopId ?live = map psId (map rsRow (rtStops (selectRoute db plan)))"
    by (simp_all add: captureSnapshot_def captureStop_def Let_def comp_def)
  then show "distinct (map lsDeliveryStopId ?live)" "distinct (map lsRoutePlanStopId ?live)"
    using d rtStops_rows [OF tok] by simp_all
qed

lemma stopsById_in:
  assumes "distinct (map lsDeliveryStopId stops)" and "x \<in> set stops"
  shows "stopsById stops (lsDeliveryStopId x) = Some x"
proof -
  have "distinct (map fst (rev (map (\<lambda>s. (lsDeliveryStopId s, s)) stops)))"
    using assms(1) by (simp add: rev_map [symmetric] comp_def)
  then show ?thesis using assms(2) unfolding stopsById_def by (intro map_of_is_SomeI) auto
qed

lemma membership_ids:
  assumes "membership a = membership b"
  shows "mset (map lsDeliveryStopId (snStops a)) = mset (map lsDeliveryStopId (snStops b))"
    "mset (map lsRoutePlanStopId (snStops a)) = mset (map lsRoutePlanStopId (snStops b))"
    "memberKey ` set (snStops a) = memberKey ` set (snStops b)"
proof -
  have k: "mset (map memberKey (snStops a)) = mset (map memberKey (snStops b))" using assms by (simp add: membership_def)
  then have "image_mset (\<lambda>(r, d, _). d) (mset (map memberKey (snStops a))) = image_mset (\<lambda>(r, d, _). d) (mset (map memberKey (snStops b)))"
    "image_mset (\<lambda>(r, d, _). r) (mset (map memberKey (snStops a))) = image_mset (\<lambda>(r, d, _). r) (mset (map memberKey (snStops b)))"
    by (simp_all only:)
  then show "mset (map lsDeliveryStopId (snStops a)) = mset (map lsDeliveryStopId (snStops b))"
    "mset (map lsRoutePlanStopId (snStops a)) = mset (map lsRoutePlanStopId (snStops b))"
    by (simp_all add: memberKey_def multiset.map_comp comp_def)
  show "memberKey ` set (snStops a) = memberKey ` set (snStops b)" using mset_eq_setD [OF k] by simp
qed

lemma editable_future:
  assumes "k \<in> set (editableFutureStopIds route)"
  shows "\<exists>y \<in> set (rtStops route). psDeliveryStopId (rsRow y) = k \<and> srStatus (rsStop y) \<in> set FUTURE_STATUSES"
proof -
  have drops: "y \<in> set (drop n xs) \<Longrightarrow> y \<in> set xs" for y :: route_stop and n xs by (rule in_set_dropD)
  show ?thesis using assms by (auto simp: editableFutureStopIds_def split: option.splits dest: drops)
qed

lemma changedStops_Inr:
  assumes "changedStops live draft = Inr changes"
  shows "membership live = membership draft" "set changes \<subseteq> set (snStops draft)"
    "distinct (map f (snStops draft)) \<Longrightarrow> distinct (map f changes)"
    "d \<in> set (snStops draft) \<Longrightarrow> stopsById (snStops live) (lsDeliveryStopId d) = Some x \<Longrightarrow> d \<in> set changes \<longleftrightarrow> d \<noteq> x"
  using assms by (auto simp: changedStops_def fingerprint_eq distinct_map_filter)

lemma distinct_map_inj: "distinct (map f xs) \<Longrightarrow> f x = f y \<Longrightarrow> x \<in> set xs \<Longrightarrow> y \<in> set xs \<Longrightarrow> x = y"
  by (auto simp: distinct_map inj_on_def)

text \<open>The state of a dispatch once its checks have passed.\<close>

definition dispatching ::
  "live_db \<Rightarrow> identity \<Rightarrow> live_route \<Rightarrow> live_snapshot \<Rightarrow> live_stop list \<Rightarrow> bool" where
  "dispatching db idn route draft changes =
     (tables_ok db \<and> findPlan db idn = Some (rtPlan route) \<and> selectRoute db (rtPlan route) = route
      \<and> changedStops (captureSnapshot route) draft = Inr changes
      \<and> list_all (\<lambda>stop. lsDeliveryStopId stop \<in> set (editableFutureStopIds route)) changes)"

lemma dispatching_distinct:
  assumes "dispatching db idn route draft changes"
  shows "distinct (map lsDeliveryStopId (snStops draft))" "distinct (map lsRoutePlanStopId (snStops draft))"
    "distinct (map lsDeliveryStopId changes)" "distinct (map lsRoutePlanStopId changes)"
    "distinct (map lsDeliveryStopId (snStops (captureSnapshot route)))" "distinct (map lsRoutePlanStopId (snStops (captureSnapshot route)))"
proof -
  have tok: "tables_ok db" and route: "selectRoute db (rtPlan route) = route"
    and ch: "changedStops (captureSnapshot route) draft = Inr changes" using assms by (simp_all add: dispatching_def)
  show l: "distinct (map lsDeliveryStopId (snStops (captureSnapshot route)))" "distinct (map lsRoutePlanStopId (snStops (captureSnapshot route)))"
    using live_distinct [OF tok, of "rtPlan route"] route by simp_all
  note m = membership_ids [OF changedStops_Inr(1) [OF ch]]
  show d: "distinct (map lsDeliveryStopId (snStops draft))" "distinct (map lsRoutePlanStopId (snStops draft))"
    using l mset_eq_imp_distinct_iff [OF m(1)] mset_eq_imp_distinct_iff [OF m(2)] by simp_all
  show "distinct (map lsDeliveryStopId changes)" "distinct (map lsRoutePlanStopId changes)"
    using changedStops_Inr(3) [OF ch] d by blast+
qed

lemma dispatching_plan:
  assumes "dispatching db idn route draft changes"
  shows "plId (rtPlan route) = idRoutePlanId idn" "plShopId (rtPlan route) = idShopId idn"
  using assms by (auto simp: dispatching_def findPlan_def dest!: find_SomeD)

text \<open>The stop of the draft with the identifiers of a row of the route.\<close>

lemma draft_of_row:
  assumes dis: "dispatching db idn route draft changes"
    and r: "r \<in> set (planRows db (rtPlan route))" "joinStop db r = Some y"
    and d: "d \<in> set (snStops draft)" "memberKey d = memberKey (captureStop y)"
  shows "stopsById (snStops (captureSnapshot route)) (lsDeliveryStopId d) = Some (captureStop y)"
    "d \<in> set changes \<longleftrightarrow> d \<noteq> captureStop y"
    "\<And>c. c \<in> set changes \<Longrightarrow> lsDeliveryStopId c = psDeliveryStopId r \<Longrightarrow> c = d"
    "\<And>c. c \<in> set changes \<Longrightarrow> lsRoutePlanStopId c = psId r \<Longrightarrow> c = d"
    "d \<in> set changes \<Longrightarrow> writableStop (lsDeliveryStopId d) (idShopId idn) (rsStop y)"
proof -
  have tok: "tables_ok db" and route: "selectRoute db (rtPlan route) = route"
    and ch: "changedStops (captureSnapshot route) draft = Inr changes" using dis by (simp_all add: dispatching_def)
  have live: "y \<in> set (rtStops route)" "captureStop y \<in> set (snStops (captureSnapshot route))"
    using row_in_live [OF r] route by simp_all
  have ids: "lsDeliveryStopId d = psDeliveryStopId r" "lsRoutePlanStopId d = psId r"
    using d(2) captureStop_row [OF r(2)] by (simp_all add: memberKey_def)
  show found: "stopsById (snStops (captureSnapshot route)) (lsDeliveryStopId d) = Some (captureStop y)"
    using stopsById_in [OF dispatching_distinct(5) [OF dis] live(2)] ids captureStop_row(2) [OF r(2)] by simp
  show "d \<in> set changes \<longleftrightarrow> d \<noteq> captureStop y" by (rule changedStops_Inr(4) [OF ch d(1) found])
  have sub: "set changes \<subseteq> set (snStops draft)" by (rule changedStops_Inr(2) [OF ch])
  show "c = d" if "c \<in> set changes" "lsDeliveryStopId c = psDeliveryStopId r" for c
    by (rule distinct_map_inj [OF dispatching_distinct(1) [OF dis]]) (use that ids d(1) sub in auto)
  show "c = d" if "c \<in> set changes" "lsRoutePlanStopId c = psId r" for c
    by (rule distinct_map_inj [OF dispatching_distinct(2) [OF dis]]) (use that ids d(1) sub in auto)
  assume "d \<in> set changes"
  then have "lsDeliveryStopId d \<in> set (editableFutureStopIds route)" using dis by (auto simp: dispatching_def list_all_iff)
  then obtain y2 where y2: "y2 \<in> set (rtStops route)" "psDeliveryStopId (rsRow y2) = lsDeliveryStopId d"
      "srStatus (rsStop y2) \<in> set FUTURE_STATUSES" using editable_future by blast
  have "distinct (map (\<lambda>y. lsDeliveryStopId (captureStop y)) (rtStops route))"
    using dispatching_distinct(5) [OF dis] by (simp add: captureSnapshot_def comp_def)
  moreover have "lsDeliveryStopId (captureStop y2) = lsDeliveryStopId (captureStop y)"
    using y2 ids captureStop_row(2) [OF r(2)] by (simp add: captureStop_def Let_def)
  ultimately have "y2 = y" by (rule distinct_map_inj) (use y2 live in simp_all)
  then show "writableStop (lsDeliveryStopId d) (idShopId idn) (rsStop y)"
    using y2 ids captureStop_row(4,5) [OF r(2)] r(1) dispatching_plan(2) [OF dis] by (simp add: writableStop_def set_planRows)
qed

lemma writeRow_hit:
  assumes "\<And>c. c \<in> set changes \<Longrightarrow> lsDeliveryStopId c = srId r \<Longrightarrow> c = d"
  shows "writeRow sh byId changes r =
    (if d \<in> set changes \<and> writableStop (lsDeliveryStopId d) sh r then fold applyWrite (dataOf (previousIn byId d) d) r else r)"
proof (cases "List.find (\<lambda>c. writableStop (lsDeliveryStopId c) sh r) changes")
  case None
  then have "writeRow sh byId changes r = r" by (simp add: writeRow_def)
  moreover have neg: "\<not> (d \<in> set changes \<and> writableStop (lsDeliveryStopId d) sh r)" using None by (auto simp: find_None_iff)
  ultimately show ?thesis unfolding if_not_P [OF neg] by simp
next
  case (Some c)
  have "c \<in> set changes" "writableStop (lsDeliveryStopId c) sh r" using find_SomeD [OF Some] by simp_all
  moreover have "c = d" using assms calculation by (simp add: writableStop_def)
  ultimately show ?thesis using Some by (simp add: writeRow_def)
qed

lemma moveRow_hit:
  assumes "\<And>c. c \<in> set changes \<Longrightarrow> lsRoutePlanStopId c = psId r \<Longrightarrow> c = d"
  shows "moveRow (movesOf byId changes) r =
    (if d \<in> set changes \<and> lsRoutePlanStopId d = psId r \<and> lsSequence (previousIn byId d) \<noteq> lsSequence d
     then r\<lparr>psSequence := lsSequence d\<rparr> else r)"
proof (cases "map_of (movesOf byId changes) (psId r)")
  case None
  then have "moveRow (movesOf byId changes) r = r" by (simp add: moveRow_def)
  moreover have neg: "\<not> (d \<in> set changes \<and> lsRoutePlanStopId d = psId r \<and> lsSequence (previousIn byId d) \<noteq> lsSequence d)"
    using None by (auto simp: movesOf_def map_of_eq_None_iff image_iff)
  ultimately show ?thesis unfolding if_not_P [OF neg] by simp
next
  case (Some n)
  then have "(psId r, n) \<in> set (movesOf byId changes)" by (rule map_of_SomeD)
  then obtain c where "c \<in> set changes" "lsRoutePlanStopId c = psId r" "lsSequence (previousIn byId c) \<noteq> lsSequence c" "n = lsSequence c"
    by (auto simp: movesOf_def)
  moreover have "c = d" using assms calculation by blast
  ultimately show ?thesis using Some by (simp add: moveRow_def)
qed

lemma rowAfter_keys [simp]:
  "psId (rowAfter db route sh changes r) = psId r" "psRoutePlanId (rowAfter db route sh changes r) = psRoutePlanId r"
  "psShopId (rowAfter db route sh changes r) = psShopId r" "psDeliveryStopId (rowAfter db route sh changes r) = psDeliveryStopId r"
  "psSequence (rowAfter db route sh changes r) = psSequence (moveRow (movesOf (stopsById (snStops (captureSnapshot route))) changes) r)"
  by (auto simp: rowAfter_def etaRow_def staleEta_def moveRow_def split: option.split)

lemma find_map_keys:
  assumes "\<And>s. srId (f s) = srId s" "\<And>s. srShopId (f s) = srShopId s"
  shows "List.find (\<lambda>s. srId s = a \<and> srShopId s = b) (map f xs) = map_option f (List.find (\<lambda>s. srId s = a \<and> srShopId s = b) xs)"
  using assms by (induction xs) auto

lemma writeRow_keys [simp]:
  "srId (writeRow sh byId changes r) = srId r" "srShopId (writeRow sh byId changes r) = srShopId r"
  "srOrderId (writeRow sh byId changes r) = srOrderId r" "srStatus (writeRow sh byId changes r) = srStatus r"
  by (simp_all add: writeRow_def split: option.split)

text \<open>A row of the route is captured after the dispatch as the stop of the draft with its identifiers.\<close>

lemma captured_after:
  assumes dis: "dispatching db idn route draft changes"
    and run: "publishDraft db route st idn draft changes freshId now = Inr (db', st', row)"
    and r: "r \<in> set (planRows db (rtPlan route))" "joinStop db r = Some y"
    and d: "d \<in> set (snStops draft)" "memberKey d = memberKey (captureStop y)"
  shows "\<exists>y'. joinStop db' (rowAfter (db\<lparr>dbStops := dbStops db'\<rparr>) route (idShopId idn) changes r) = Some y' \<and> captureStop y' = d"
proof -
  let ?byId = "stopsById (snStops (captureSnapshot route))"
  let ?r' = "rowAfter (db\<lparr>dbStops := dbStops db'\<rparr>) route (idShopId idn) changes r"
  let ?s = "rsStop y"
  let ?s' = "writeRow (idShopId idn) ?byId changes ?s"
  have eff: "dbStops db' = map (writeRow (idShopId idn) ?byId changes) (dbStops db)" "dbOrders db' = dbOrders db"
    "\<forall>c \<in> set changes. stopData (previousIn ?byId c) c = Inr (dataOf (previousIn ?byId c) c)"
    using publishDraft_effect [OF run dispatching_distinct(3) [OF dis] dispatching_distinct(4) [OF dis]] by simp_all
  note dr = draft_of_row [OF dis r d]
  note cr = captureStop_row [OF r(2)]
  have ids: "lsDeliveryStopId d = psDeliveryStopId r" "lsRoutePlanStopId d = psId r" "lsOrderId d = srOrderId ?s"
      "lsSourceOrderId d = rsSourceOrderId y"
    using d(2) cr by (simp_all add: memberKey_def captureStop_def Let_def)
  have prev: "previousIn ?byId d = captureStop y" using dr(1) by (simp add: previousIn_def)
  have find: "List.find (\<lambda>s. srId s = psDeliveryStopId r \<and> srShopId s = psShopId r) (dbStops db) = Some ?s"
    using r(2) by (auto simp: joinStop_def split: option.splits)
  have src: "rsSourceOrderId y = (case List.find (\<lambda>x. orId x = srOrderId ?s \<and> orShopId x = srShopId ?s) (dbOrders db) of
      None \<Rightarrow> None | Some ord \<Rightarrow> orSourceOrderId ord)" using r(2) by (auto simp: joinStop_def split: option.splits)
  have s': "?s' = (if d \<in> set changes then fold applyWrite (dataOf (captureStop y) d) ?s else ?s)"
  proof -
    have "\<And>c. c \<in> set changes \<Longrightarrow> lsDeliveryStopId c = srId ?s \<Longrightarrow> c = d" unfolding cr(4) by (rule dr(3))
    from writeRow_hit [of changes ?s d "idShopId idn" ?byId, OF this] show ?thesis using dr(5) by (simp add: prev)
  qed
  have holds: "holds ?s' d"
  proof (cases "d \<in> set changes")
    case True
    then have "stopData (captureStop y) d = Inr (dataOf (captureStop y) d)" using eff(3) prev by metis
    from stopData_effect [OF this cr(8)] show ?thesis using True s' by simp
  next
    case False
    then show ?thesis using s' cr(8) dr(2) by simp
  qed
  have mv: "moveRow (movesOf ?byId changes) r =
      (if d \<in> set changes \<and> psSequence r \<noteq> lsSequence d then r\<lparr>psSequence := lsSequence d\<rparr> else r)"
    using moveRow_hit [of changes r d ?byId, OF dr(4)] by (simp only: ids prev cr(3) simp_thms)
  have seq: "psSequence ?r' = lsSequence d"
  proof (cases "d \<in> set changes")
    case False
    then have "lsSequence d = psSequence r" using dr(2) cr(3) by blast
    then show ?thesis using mv False by simp
  qed (simp add: mv)
  define y' where "y' = \<lparr>rsRow = ?r', rsStop = ?s', rsSourceOrderId = rsSourceOrderId y\<rparr>"
  have "joinStop db' ?r' = Some y'"
    by (simp add: joinStop_def eff(1,2) find_map_keys find y'_def src)
  moreover have "captureStop y' = d"
    using holds seq ids cr by (simp add: captureStop_def Let_def y'_def holds_def)
  ultimately show ?thesis by blast
qed

lemma strictly_sorted_unique:
  fixes f :: "'a \<Rightarrow> int"
  assumes "sorted_wrt (<) (map f xs)" "sorted_wrt (<) (map f ys)" "set xs = set ys"
  shows "xs = ys"
proof -
  have "map f xs = map f ys" by (rule strict_sorted_equal) (use assms in simp_all)
  moreover have "inj_on f (set xs \<union> set ys)" using assms by (auto simp: strict_sorted_iff distinct_map)
  ultimately show ?thesis by (rule inj_on_map_eq_map [THEN iffD1, rotated])
qed

section \<open>The route after a dispatch\<close>

definition stamped :: "int \<Rightarrow> plan_row \<Rightarrow> plan_row" where
  "stamped now p = p\<lparr>plUpdatedAt := now\<rparr>"

lemma stamped_simps [simp]:
  "plId (stamped now p) = plId p" "plShopId (stamped now p) = plShopId p" "plDriverId (stamped now p) = plDriverId p"
  "plStatus (stamped now p) = plStatus p" "plAssignmentGeneration (stamped now p) = plAssignmentGeneration p"
  "plConstraints (stamped now p) = plConstraints p" "completionRecord (stamped now p) = completionRecord p"
  by (simp_all add: stamped_def completionRecord_def)

text \<open>Two databases that agree on what a route is loaded with besides its stops.\<close>

lemma route_after:
  assumes dis: "dispatching db idn route draft changes"
    and run: "publishDraft db route st idn draft changes freshId now = Inr (db', st', row)"
  defines "route' \<equiv> selectRoute db' (stamped now (rtPlan route))"
  shows "findPlan db' idn = Some (stamped now (rtPlan route))" "rtPlan route' = stamped now (rtPlan route)"
    "rtAppId route' = rtAppId route" "rtShopDomain route' = rtShopDomain route" "rtDriver route' = rtDriver route"
    "rtChildren route' = rtChildren route" "underlyingVersion route' = underlyingVersion route"
    "loadRoute env db idn = Inr route \<Longrightarrow> loadRoute env db' idn = Inr route'"
proof -
  note eff = publishDraft_effect [OF run dispatching_distinct(3) [OF dis] dispatching_distinct(4) [OF dis]]
  have same: "dbShops db' = dbShops db" "dbDrivers db' = dbDrivers db" "dbAccounts db' = dbAccounts db" "dbChildren db' = dbChildren db"
    "dbPlans db' = map (\<lambda>p. if plId p = plId (rtPlan route) then stamped now p else p) (dbPlans db)"
    using eff by (simp_all add: stamped_def)
  have sel: "selectRoute db (rtPlan route) = route" using dis by (simp add: dispatching_def)
  have "List.find (\<lambda>p. plId p = idRoutePlanId idn \<and> plShopId p = idShopId idn)
      (map (\<lambda>p. if plId p = plId (rtPlan route) then stamped now p else p) ps)
      = map_option (\<lambda>p. if plId p = plId (rtPlan route) then stamped now p else p)
          (List.find (\<lambda>p. plId p = idRoutePlanId idn \<and> plShopId p = idShopId idn) ps)" for ps
    by (induction ps) auto
  then show find: "findPlan db' idn = Some (stamped now (rtPlan route))"
    using dis dispatching_plan(1) [OF dis] by (simp add: findPlan_def same dispatching_def)
  show plan: "rtPlan route' = stamped now (rtPlan route)" by (simp add: route'_def selectRoute_def Let_def)
  have drv0: "driverOf db' d = driverOf db d" and chi0: "currentChildren db' (stamped now i) = currentChildren db i" for d i
    unfolding driverOf_def currentChildren_def same stamped_simps by (rule refl)+
  have parts: "rtAppId (selectRoute db' (stamped now p)) = rtAppId (selectRoute db p)"
    "rtShopDomain (selectRoute db' (stamped now p)) = rtShopDomain (selectRoute db p)"
    "rtDriver (selectRoute db' (stamped now p)) = rtDriver (selectRoute db p)"
    "rtChildren (selectRoute db' (stamped now p)) = rtChildren (selectRoute db p)" for p
    by (simp_all add: selectRoute_def Let_def same drv0 chi0)
  show app: "rtAppId route' = rtAppId route" and dom: "rtShopDomain route' = rtShopDomain route"
    and drv: "rtDriver route' = rtDriver route" and chi: "rtChildren route' = rtChildren route"
    using parts [of "rtPlan route"] sel by (simp_all add: route'_def)
  show "underlyingVersion route' = underlyingVersion route" unfolding underlyingVersion_def chi plan stamped_simps by (rule refl)
  assume load: "loadRoute env db idn = Inr route"
  have "loadRoute env db' idn = refuse (isPrivateDriverDemoAppId (Some (rtAppId route'))
                \<and> \<not> isPrivateDriverDemoScope env
                     \<lparr>scopeShopId = Some (plShopId (rtPlan route)), scopeAppId = Some (rtAppId route'),
                      scopeShopDomain = Some (rtShopDomain route'),
                      scopeAccountId = Option.bind (rtDriver route') rvAccountId\<rparr>)
              NOT_FOUND (Inr route')"
    by (simp add: loadRoute_def find route'_def [symmetric] Let_def)
  moreover have "loadRoute env db idn = refuse (isPrivateDriverDemoAppId (Some (rtAppId route))
                \<and> \<not> isPrivateDriverDemoScope env
                     \<lparr>scopeShopId = Some (plShopId (rtPlan route)), scopeAppId = Some (rtAppId route),
                      scopeShopDomain = Some (rtShopDomain route),
                      scopeAccountId = Option.bind (rtDriver route) rvAccountId\<rparr>)
              NOT_FOUND (Inr route)"
    using dis by (simp add: loadRoute_def dispatching_def Let_def)
  ultimately show "loadRoute env db' idn = Inr route'" using load by (auto simp: app dom drv refuse_def split: if_splits)
qed

lemma planRows_after:
  assumes dis: "dispatching db idn route draft changes"
    and run: "publishDraft db route st idn draft changes freshId now = Inr (db', st', row)"
  shows "set (planRows db' (stamped now (rtPlan route)))
    = rowAfter (db\<lparr>dbStops := dbStops db'\<rparr>) route (idShopId idn) changes ` set (planRows db (rtPlan route))"
proof -
  have "dbPlanStops db' = map (rowAfter (db\<lparr>dbStops := dbStops db'\<rparr>) route (idShopId idn) changes) (dbPlanStops db)"
    using publishDraft_effect [OF run dispatching_distinct(3) [OF dis] dispatching_distinct(4) [OF dis]] by simp
  then show ?thesis by (auto simp: set_planRows)
qed

lemma capture_after:
  assumes dis: "dispatching db idn route draft changes" and ord: "ordered draft"
    and run: "publishDraft db route st idn draft changes freshId now = Inr (db', st', row)"
  shows "snStops (captureSnapshot (selectRoute db' (stamped now (rtPlan route)))) = snStops draft"
proof -
  let ?f = "rowAfter (db\<lparr>dbStops := dbStops db'\<rparr>) route (idShopId idn) changes"
  let ?live' = "snStops (captureSnapshot (selectRoute db' (stamped now (rtPlan route))))"
  have tok: "tables_ok db" and sel: "selectRoute db (rtPlan route) = route"
    and mem: "membership (captureSnapshot route) = membership draft"
    using dis changedStops_Inr(1) by (auto simp: dispatching_def)
  have tok': "tables_ok db'" by (rule publishDraft_ok [OF tok run])
  note keys = membership_ids(3) [OF mem]
  have "set ?live' = set (snStops draft)"
  proof (intro equalityI subsetI)
    fix x assume "x \<in> set ?live'"
    then obtain r' y' where r': "r' \<in> set (planRows db' (stamped now (rtPlan route)))" "joinStop db' r' = Some y'" "x = captureStop y'"
      by (rule live_stop_of_row [OF tok'])
    then obtain r where r: "r \<in> set (planRows db (rtPlan route))" "r' = ?f r" using planRows_after [OF dis run] by auto
    obtain y where y: "joinStop db r = Some y" using joinStop_total [OF tok] r(1) by (auto simp: set_planRows)
    have "captureStop y \<in> set (snStops (captureSnapshot route))" using row_in_live(2) [OF r(1) y] sel by simp
    then have "memberKey (captureStop y) \<in> memberKey ` set (snStops draft)" using keys by blast
    then obtain d where d: "d \<in> set (snStops draft)" "memberKey d = memberKey (captureStop y)" by auto
    from captured_after [OF dis run r(1) y d] show "x \<in> set (snStops draft)" using r' r(2) d(1) by auto
  next
    fix d assume d: "d \<in> set (snStops draft)"
    then have "memberKey d \<in> memberKey ` set (snStops (captureSnapshot (selectRoute db (rtPlan route))))" using keys sel by simp
    then obtain x where x: "x \<in> set (snStops (captureSnapshot (selectRoute db (rtPlan route))))" "memberKey d = memberKey x" by auto
    from x(1) obtain r y where r: "r \<in> set (planRows db (rtPlan route))" "joinStop db r = Some y" "x = captureStop y"
      by (rule live_stop_of_row [OF tok])
    obtain y' where y': "joinStop db' (?f r) = Some y'" "captureStop y' = d"
      using captured_after [OF dis run r(1,2) d] x(2) r(3) by auto
    have "?f r \<in> set (planRows db' (stamped now (rtPlan route)))" using planRows_after [OF dis run] r(1) by simp
    from row_in_live(2) [OF this y'(1)] show "d \<in> set ?live'" using y'(2) by simp
  qed
  then show ?thesis
    using capture_ordered [OF tok', of "stamped now (rtPlan route)"] ord by (intro strictly_sorted_unique) (simp_all add: ordered_def)
qed

text \<open>The hashed contents agree where the stops and the options do.\<close>

lemma contentOf_options:
  assumes "contentOf live = contentOf cur"
    and "snDeliveryProof draft = snDeliveryProof cur" "snTollPolicy draft = snTollPolicy cur"
    and "snDeliveryProof live' = snDeliveryProof live" "snTollPolicy live' = snTollPolicy live"
    and "snStops live' = snStops draft"
  shows "contentOf live' = contentOf draft"
  using assms by (auto simp: contentOf_def Let_def split: if_splits)

section \<open>The driver after a dispatch\<close>

lemma loadRoute_receipts: "loadRoute env (db\<lparr>dbReceipts := x\<rparr>) idn = loadRoute env db idn"
proof -
  let ?db = "db\<lparr>dbReceipts := x\<rparr>"
  have same: "dbShops ?db = dbShops db" "dbDrivers ?db = dbDrivers db" "dbAccounts ?db = dbAccounts db"
    "dbChildren ?db = dbChildren db" "dbStops ?db = dbStops db" "dbOrders ?db = dbOrders db" "dbPlanStops ?db = dbPlanStops db" "dbPlans ?db = dbPlans db"
    by simp_all
  have sel: "selectRoute ?db plan = selectRoute db plan" for plan
    unfolding selectRoute_def driverOf_def currentChildren_def routeStops_def joinStop_def [abs_def] same by (rule refl)
  show ?thesis unfolding loadRoute_def findPlan_def sel same by (rule refl)
qed

lemma loadState_at_row: "live_inv H (tables db) \<Longrightarrow> at_row db idn st \<Longrightarrow> loadState db idn = Some st"
proof -
  assume inv: "live_inv H (tables db)" and at: "at_row db idn st"
  have "List.find (\<lambda>s. lvRoutePlanId s = idRoutePlanId idn \<and> lvShopId s = idShopId idn) (dbStates db) \<noteq> None"
    using at by (auto simp: at_row_def find_None_iff)
  then obtain s where s: "loadState db idn = Some s" by (auto simp: loadState_def)
  then have "s = st"
    using at loadState_Some [OF s] live_inv_distinct [OF inv] by (auto simp: at_row_def distinct_map inj_on_def)
  then show "loadState db idn = Some st" using s by simp
qed

lemma loadCurrentPublication_in:
  assumes inv: "live_inv H (tables db)" and p: "p \<in> set (dbPublications db)" "pbId p = lvLatestPublicationId st"
    "samePublications st p" "pbSequence p = lvLatestSequence st"
  shows "loadCurrentPublication db st = Inr p"
proof -
  let ?P = "\<lambda>p. pbId p = lvLatestPublicationId st \<and> samePublications st p \<and> pbSequence p = lvLatestSequence st"
  have "List.find ?P (dbPublications db) \<noteq> None" using p by (auto simp: find_None_iff)
  then obtain q where q: "List.find ?P (dbPublications db) = Some q" by auto
  then have "q \<in> set (dbPublications db)" "pbId q = pbId p" using p by (auto dest: find_SomeD)
  moreover have "distinct (map pbId (dbPublications db))" using inv by (simp add: live_inv_def tables_def)
  ultimately have "q = p" using p by (auto simp: distinct_map inj_on_def)
  then show ?thesis using q by (simp add: loadCurrentPublication_def)
qed

text \<open>The draft of a state was taken with the delivery options of its current publication.\<close>

lemma draft_policy:
  assumes "live_inv H (tables db)" "st \<in> set (dbStates db)" "loadCurrentPublication db st = Inr p"
  shows "policy (lvDraftSnapshot st) = policy (pbSnapshot p)"
proof -
  note ok = live_inv_state [OF assms(1,2)]
  have "lineage st (dbPublications db) ! nat (pbSequence p) = p"
    using lineage_sequence [OF ok] loadCurrentPublication_Inr [OF assms(3)] by blast
  then show ?thesis using ok loadCurrentPublication_Inr(4) [OF assms(3)] by (simp add: state_ok_def)
qed

text \<open>
  The digest identifies the published contents: no other content has the digest of a stored publication. This is what
  the program relies on SHA-256 for.
\<close>

definition collision_free :: "(live_content \<Rightarrow> string) \<Rightarrow> live_db \<Rightarrow> bool" where
  "collision_free H db =
     (\<forall>p \<in> set (dbPublications db). case pbSnapshot p of
        Malformed v \<Rightarrow> True | Stored sn \<Rightarrow> (\<forall>x. H x = pbContentHash p \<longrightarrow> x = contentOf sn))"

lemma collision_freeD:
  "collision_free H db \<Longrightarrow> p \<in> set (dbPublications db) \<Longrightarrow> pbSnapshot p = Stored sn \<Longrightarrow> H x = pbContentHash p \<Longrightarrow> x = contentOf sn"
  by (auto simp: collision_free_def split: stored.splits)

text \<open>No drift is seen between the route after a dispatch and its publication.\<close>

lemma no_drift_after:
  assumes inv: "live_ok H db" and free: "collision_free H db" and st: "st \<in> set (dbStates db)"
    and cur: "loadCurrentPublication db st = Inr current" and drift: "assertNoLiveDrift H route current = Inr ()"
    and draft: "lvDraftSnapshot st = Stored draft" and dis: "dispatching db idn route draft changes"
    and run: "publishDraft db route st idn draft changes freshId now = Inr (db', st', row)"
  shows "contentHash H (captureSnapshot (selectRoute db' (stamped now (rtPlan route)))) = lvDraftHash st" "ordered draft"
proof -
  let ?live' = "captureSnapshot (selectRoute db' (stamped now (rtPlan route)))"
  have tab: "live_inv H (tables db)" using inv by (simp add: live_ok_def)
  have hash: "lvDraftHash st = contentHash H draft" and ord: "ordered draft"
    using live_inv_state [OF tab st] draft by (simp_all add: state_ok_def hashed_def)
  show "ordered draft" by (rule ord)
  obtain sn where sn: "pbSnapshot current = Stored sn"
    using live_inv_hashed [OF tab loadCurrentPublication_Inr(1) [OF cur]] by (cases "pbSnapshot current") (simp_all add: hashed_def)
  have "H (contentOf (captureSnapshot route)) = pbContentHash current" using drift by (simp add: assertNoLiveDrift_def contentHash_def)
  then have "contentOf (captureSnapshot route) = contentOf sn"
    by (rule collision_freeD [OF free loadCurrentPublication_Inr(1) [OF cur] sn])
  moreover have "snDeliveryProof draft = snDeliveryProof sn" "snTollPolicy draft = snTollPolicy sn"
    using draft_policy [OF tab st cur] draft sn by (simp_all add: policy_def)
  moreover have "snDeliveryProof ?live' = snDeliveryProof (captureSnapshot route)" "snTollPolicy ?live' = snTollPolicy (captureSnapshot route)"
    using route_after(2) [OF dis run] by (simp_all add: captureSnapshot_def)
  ultimately have "contentOf ?live' = contentOf draft"
    using contentOf_options [of "captureSnapshot route" sn draft ?live'] capture_after [OF dis ord run] by simp
  then show "contentHash H ?live' = lvDraftHash st" by (simp add: hash contentHash_def)
qed

text \<open>A dispatch that is no replay and changes the route, taken apart.\<close>

lemma dispatch_cases:
  assumes ok: "live_ok H db"
    and run: "publishLiveRouteChange H K env db cmd freshId now = Inr (db', DispatchAnswer a n True)"
    and fresh: "(idShopId (acIdentity cmd), idRoutePlanId (acIdentity cmd), DISPATCH, acCommandId cmd) \<notin> receiptKey ` set (dbReceipts db)"
  obtains route st current draft changes db1 st1 pub where
    "loadRoute env db (acIdentity cmd) = Inr route" "loadState db (acIdentity cmd) = Some st"
    "assertStateIdentity route st = Inr ()" "requireWritableRoute route = Inr ()" "revisionIs st cmd"
    "loadCurrentPublication db st = Inr current" "assertNoLiveDrift H route current = Inr ()"
    "lvDraftSnapshot st = Stored draft" "dispatching db (acIdentity cmd) route draft changes"
    "requireRouteable (stopsById (snStops (captureSnapshot route))) changes = Inr ()"
    "publishDraft db route st (acIdentity cmd) draft changes freshId now = Inr (db1, st1, pub)"
    "publicationResponse st1 pub = Inr a" "db' = db1\<lparr>dbReceipts := dbReceipts db'\<rparr>" "live_inv H (tables db')"
  using run
proof (cases rule: publish_cases)
  case (replayed route)
  from replay_some_receipt [OF replayed(2)] obtain q where "q \<in> set (dbReceipts db)"
    "receiptKey q = (idShopId (acIdentity cmd), idRoutePlanId (acIdentity cmd), DISPATCH, acCommandId cmd)" by blast
  then have False using fresh imageI [of q "set (dbReceipts db)" receiptKey] by simp
  then show ?thesis ..
next
  case (dispatched route st current db1 st1 pub answer)
  note at = at_row_loadState [OF dispatched(2)]
  have inv: "live_inv H (tables db)" and tok: "tables_ok db" using ok by (simp_all add: live_ok_def)
  have a: "answer = a" and changed: "lvDraftHash st \<noteq> pbContentHash current" using dispatched(11) by simp_all
  have run1: "dispatchChanges H env db st (acIdentity cmd) current freshId now = Inr (db1, st1, pub)"
    using dispatched(9) changed by simp
  note w1 = dispatchChanges_writes [OF inv at run1]
  note rec = recordCommand_writes [OF dispatched(4) w1(2) dispatched(12), of H]
  have inv': "live_inv H (tables db')" using live_write_inv live_write_inv [OF w1(1) inv] rec by blast
  from run1 show ?thesis
  proof (cases rule: dispatchChanges_cases)
    case (1 route2 draft changes)
    have route: "route2 = route" using 1(1) dispatched(1) by simp
    have "lvDraftSnapshot st = Stored draft" using 1(5) by (cases "lvDraftSnapshot st") simp_all
    moreover have "dispatching db (acIdentity cmd) route draft changes"
      using 1(6,7) route tok loadRoute_Inr(1) [OF dispatched(1)] loadRoute_Inr(2) [OF dispatched(1), symmetric]
      by (simp add: dispatching_def)
    ultimately show ?thesis
      using that [OF dispatched(1-3,5-8)] 1(8,9) route dispatched(10) a rec inv' by blast
  qed
qed

lemma assertStateIdentity_Inr:
  "assertStateIdentity route st = Inr () \<longleftrightarrow>
     \<not> hasAssignmentChanged route st \<and> underlyingVersion route = Inr (lvBaselineRouteVersionId st)"
  by (cases "underlyingVersion route") (auto simp: assertStateIdentity_def refuse_def)

text \<open>The state and the publication that are current after a dispatch.\<close>

lemma current_after:
  assumes inv: "live_inv H (tables db)" and at: "at_row db idn st" and draft: "lvDraftSnapshot st = Stored draft"
    and dis: "dispatching db idn route draft changes"
    and pub: "publishDraft db route st idn draft changes freshId now = Inr (db1, st1, pub)"
    and db': "db' = db1\<lparr>dbReceipts := dbReceipts db'\<rparr>" and inv': "live_inv H (tables db')"
  shows "st1 = st\<lparr>lvLatestPublicationId := freshId, lvLatestSequence := lvLatestSequence st + 1\<rparr>"
    "pbSnapshot pub = Stored draft" "pbContentHash pub = lvDraftHash st"
    "loadState db' idn = Some st1" "loadCurrentPublication db' st1 = Inr pub"
proof -
  have wr: "st1 = st\<lparr>lvLatestPublicationId := freshId, lvLatestSequence := lvLatestSequence st + 1\<rparr>"
    "dbStates db1 = replaceRow st1 (dbStates db)" "dbPublications db1 = dbPublications db @ [pub]"
    using publishDraft_writes [OF inv dispatching_plan(1) [OF dis] at _ pub] draft by simp_all
  have p: "pub = \<lparr>pbId = freshId, pbRoutePlanId = idRoutePlanId idn, pbShopId = idShopId idn,
            pbAssignmentGeneration = lvAssignmentGeneration st, pbDriverId = lvDriverId st,
            pbSequence = lvLatestSequence st + 1, pbContentHash = lvDraftHash st, pbSnapshot = Stored draft,
            pbPublishedAt = now, pbNotificationStatus = ''PENDING'', pbNextAttemptAt = Some now, pbErrorCode = None\<rparr>"
    using pub by (elim publishDraft_cases)
  have same: "dbStates db' = dbStates db1" "dbPublications db' = dbPublications db1"
    using arg_cong [where f = dbStates, OF db'] arg_cong [where f = dbPublications, OF db'] by simp_all
  show "st1 = st\<lparr>lvLatestPublicationId := freshId, lvLatestSequence := lvLatestSequence st + 1\<rparr>" by (rule wr(1))
  show "pbSnapshot pub = Stored draft" "pbContentHash pub = lvDraftHash st" by (simp_all add: p)
  have "st \<in> set (dbStates db)" using at by (simp add: at_row_def)
  then show "loadState db' idn = Some st1"
    using at wr same replaceRow_in [of st "dbStates db" st1] by (intro loadState_at_row [OF inv']) (simp add: at_row_def)
  show "loadCurrentPublication db' st1 = Inr pub"
    using at wr same by (intro loadCurrentPublication_in [OF inv']) (simp_all add: p samePublications_def at_row_def)
qed

text \<open>
  Claim C1: after a dispatch that changed the route, the operational rows are exactly the dispatched draft: the route
  loads, its stops captured from the tables are the stops of the draft that was saved, in its order, and a driver who
  passes the checks of the route reads precisely the answer of the dispatch, so no drift is reported against it.
\<close>

theorem dispatch_publishes_the_draft:
  assumes ok: "live_ok H db" and free: "collision_free H db"
    and run: "publishLiveRouteChange H K env db cmd freshId now = Inr (db', DispatchAnswer a n True)"
    and fresh: "(idShopId (acIdentity cmd), idRoutePlanId (acIdentity cmd), DISPATCH, acCommandId cmd) \<notin> receiptKey ` set (dbReceipts db)"
  shows "\<exists>route. loadRoute env db' (acIdentity cmd) = Inr route
    \<and> map_option lvDraftSnapshot (loadState db (acIdentity cmd)) = Some (Stored (rpSnapshot a))
    \<and> snStops (captureSnapshot route) = snStops (rpSnapshot a)
    \<and> getLiveRouteChange H env db' (di\<lparr>diIdentity := acIdentity cmd\<rparr>) now'
        = attempt (requireDriver route (di\<lparr>diIdentity := acIdentity cmd\<rparr>) now') (\<lambda>_. Inr (Some a))"
proof -
  from ok run fresh obtain route st current draft changes db1 st1 pub
    where load: "loadRoute env db (acIdentity cmd) = Inr route"
    and state: "loadState db (acIdentity cmd) = Some st" and ident: "assertStateIdentity route st = Inr ()"
    and "requireWritableRoute route = Inr ()" "revisionIs st cmd"
    and cur: "loadCurrentPublication db st = Inr current" "assertNoLiveDrift H route current = Inr ()"
    and draft: "lvDraftSnapshot st = Stored draft" and dis: "dispatching db (acIdentity cmd) route draft changes"
    and "requireRouteable (stopsById (snStops (captureSnapshot route))) changes = Inr ()"
    and pub: "publishDraft db route st (acIdentity cmd) draft changes freshId now = Inr (db1, st1, pub)"
    and answer: "publicationResponse st1 pub = Inr a" and db': "db' = db1\<lparr>dbReceipts := dbReceipts db'\<rparr>"
    and inv': "live_inv H (tables db')"
    by (rule dispatch_cases)
  have inv: "live_inv H (tables db)" using ok by (simp add: live_ok_def)
  note at = at_row_loadState [OF state]
  then have row: "st \<in> set (dbStates db)" by (simp add: at_row_def)
  let ?route = "selectRoute db1 (stamped now (rtPlan route))"
  note after = route_after [OF dis pub] and drift = no_drift_after [OF ok free row cur draft dis pub]
    and new = current_after [OF inv at draft dis pub db' inv']
  have load': "loadRoute env db' (acIdentity cmd) = Inr ?route"
    using after(8) [OF load] loadRoute_receipts [of env "dbReceipts db'" db1] db' by simp
  have sn: "rpSnapshot a = draft" using answer by (auto simp: publicationResponse_def new(2))
  have ident': "assertStateIdentity ?route st1 = Inr ()" "\<not> belongsToPreviousAssignment ?route st1"
      "underlyingVersion ?route = Inr (lvBaselineRouteVersionId st)"
    using ident after(2,7) new(1)
    by (simp_all add: assertStateIdentity_Inr hasAssignmentChanged_def belongsToPreviousAssignment_def)
  have drift': "assertNoLiveDrift H ?route pub = Inr ()" using drift(1) by (simp add: assertNoLiveDrift_def new(3))
  have "getLiveRouteChange H env db' (di\<lparr>diIdentity := acIdentity cmd\<rparr>) now'
        = attempt (requireDriver ?route (di\<lparr>diIdentity := acIdentity cmd\<rparr>) now') (\<lambda>_. Inr (Some a))"
    by (simp add: getLiveRouteChange_def load' new(4,5) ident' drift' answer)
  then show ?thesis using load' state draft sn capture_after [OF dis drift(2) pub] by auto
qed

lemma sample_collision_free: "collision_free sampleDigest sampleDb"
  by (simp add: collision_free_def sampleDb_def samplePublication_def sampleDigest_def)

theorem dispatch_publishes_the_draft_witness:
  "live_ok sampleDigest sampleDb \<and> collision_free sampleDigest sampleDb
   \<and> (\<exists>db a n route. publishLiveRouteChange sampleDigest (\<lambda>_. ''k'') sampleEnv sampleDb sampleCommand ''second'' 5
          = Inr (db, DispatchAnswer a n True)
        \<and> loadRoute sampleEnv db sampleIdentity = Inr route
        \<and> snStops (captureSnapshot route) = snStops (rpSnapshot a))"
proof (rule sample_dispatch)
  fix db a n
  assume run: "publishLiveRouteChange sampleDigest (\<lambda>_. ''k'') sampleEnv sampleDb sampleCommand ''second'' 5 = Inr (db, DispatchAnswer a n True)"
  have fresh: "(idShopId (acIdentity sampleCommand), idRoutePlanId (acIdentity sampleCommand), DISPATCH, acCommandId sampleCommand)
      \<notin> receiptKey ` set (dbReceipts sampleDb)" by (simp add: sampleDb_def)
  have "acIdentity sampleCommand = sampleIdentity" by (simp add: sampleCommand_def)
  then show ?thesis
    using run route_sample_ok sample_collision_free dispatch_publishes_the_draft [OF route_sample_ok sample_collision_free run fresh] by auto
qed

section \<open>What a dispatch leaves alone\<close>

lemma writeRow_spares:
  assumes "list_all (\<lambda>c. lsDeliveryStopId c \<in> set editable) changes"
  shows "writeRow sh byId changes r = r
    \<or> srId r \<in> set editable \<and> srShopId r = sh \<and> srStatus r \<in> set FUTURE_STATUSES"
proof (cases "List.find (\<lambda>c. writableStop (lsDeliveryStopId c) sh r) changes")
  case (Some c)
  then have "c \<in> set changes" "writableStop (lsDeliveryStopId c) sh r" by (auto dest: find_SomeD)
  then show ?thesis using assms by (auto simp: writableStop_def list_all_iff)
qed (simp add: writeRow_def)

text \<open>The row a change names is the row of the route for its delivery stop.\<close>

lemma change_named:
  assumes dis: "dispatching db idn route draft changes" and c: "c \<in> set changes"
  shows "\<exists>q \<in> set (planRows db (rtPlan route)). psId q = lsRoutePlanStopId c \<and> psDeliveryStopId q = lsDeliveryStopId c"
proof -
  have tok: "tables_ok db" and sel: "selectRoute db (rtPlan route) = route"
    and ch: "changedStops (captureSnapshot route) draft = Inr changes" using dis by (simp_all add: dispatching_def)
  have "memberKey c \<in> memberKey ` set (snStops draft)" using c changedStops_Inr(2) [OF ch] by blast
  then obtain x where x: "x \<in> set (snStops (captureSnapshot (selectRoute db (rtPlan route))))" "memberKey c = memberKey x"
    using membership_ids(3) [OF changedStops_Inr(1) [OF ch]] sel by (auto simp: image_iff)
  from x(1) obtain q y where q: "q \<in> set (planRows db (rtPlan route))" "joinStop db q = Some y" "x = captureStop y"
    by (rule live_stop_of_row [OF tok])
  then show ?thesis using x(2) captureStop_row(1,2) [OF q(2)] by (intro bexI [of _ q]) (simp_all add: memberKey_def)
qed

lemma change_row:
  assumes dis: "dispatching db idn route draft changes" and c: "c \<in> set changes"
    and r: "r \<in> set (dbPlanStops db)" "psId r = lsRoutePlanStopId c"
  shows "psRoutePlanId r = plId (rtPlan route) \<and> psDeliveryStopId r = lsDeliveryStopId c"
proof -
  obtain q where q: "q \<in> set (planRows db (rtPlan route))" "psId q = lsRoutePlanStopId c" "psDeliveryStopId q = lsDeliveryStopId c"
    using change_named [OF dis c] by blast
  moreover have "distinct (map psId (dbPlanStops db))" using dis by (simp add: dispatching_def tables_ok_def)
  ultimately have "q = r" using r by (auto simp: set_planRows distinct_map inj_on_def)
  then show ?thesis using q by (simp add: set_planRows)
qed

lemma rowAfter_spares:
  assumes dis: "dispatching db idn route draft changes" and r: "r \<in> set (dbPlanStops db)"
  shows "rowAfter db2 route sh changes r = r
    \<or> psRoutePlanId r = plId (rtPlan route) \<and> psDeliveryStopId r \<in> set (editableFutureStopIds route)"
proof (cases "map_of (movesOf (stopsById (snStops (captureSnapshot route))) changes) (psId r)")
  case None
  then show ?thesis by (auto simp: rowAfter_def etaRow_def moveRow_def)
next
  case (Some n)
  then obtain c where "c \<in> set changes" "psId r = lsRoutePlanStopId c" by (auto simp: movesOf_def dest!: map_of_SomeD)
  then show ?thesis using change_row [OF dis _ r] dis by (auto simp: dispatching_def list_all_iff)
qed

text \<open>
  A dispatch reaches only what lies ahead of the driver. Whatever it answers, a delivery stop or a row of a plan
  is left exactly as it was unless it is on the dispatched route, behind the stop the driver is working on, and the stop
  is still pending or assigned; no identifier, status or membership changes, and orders, drivers and versions stay.
\<close>

theorem dispatch_spares_the_past:
  assumes ok: "live_ok H db" and run: "publishLiveRouteChange H K env db cmd freshId now = Inr (db', r)"
  shows "\<exists>route. loadRoute env db (acIdentity cmd) = Inr route
    \<and> list_all2 (\<lambda>s s'. s' = s \<or> srId s \<in> set (editableFutureStopIds route) \<and> srStatus s \<in> set FUTURE_STATUSES
        \<and> srShopId s = idShopId (acIdentity cmd) \<and> (srId s', srShopId s', srOrderId s', srStatus s') = (srId s, srShopId s, srOrderId s, srStatus s))
        (dbStops db) (dbStops db')
    \<and> list_all2 (\<lambda>q q'. q' = q \<or> psRoutePlanId q = idRoutePlanId (acIdentity cmd)
        \<and> psDeliveryStopId q \<in> set (editableFutureStopIds route) \<and> stopKeys q' = stopKeys q) (dbPlanStops db) (dbPlanStops db')
    \<and> dbOrders db' = dbOrders db \<and> dbDrivers db' = dbDrivers db \<and> dbChildren db' = dbChildren db"
  using run
proof (cases rule: publish_cases)
  case (replayed route)
  then show ?thesis by (auto intro!: list.rel_refl)
next
  case (dispatched route st current db1 st1 pub answer)
  have frame: "dbStops db' = dbStops db1" "dbPlanStops db' = dbPlanStops db1" "dbOrders db' = dbOrders db1"
      "dbDrivers db' = dbDrivers db1" "dbChildren db' = dbChildren db1"
    using dispatched(12) by (auto simp: recordCommand_def Let_def)
  show ?thesis
  proof (cases "lvDraftHash st = pbContentHash current")
    case True
    then have "db1 = db" using dispatched(9) by simp
    then show ?thesis using dispatched(1) frame by (auto intro!: list.rel_refl)
  next
    case False
    then have "dispatchChanges H env db st (acIdentity cmd) current freshId now = Inr (db1, st1, pub)" using dispatched(9) by simp
    then show ?thesis
    proof (cases rule: dispatchChanges_cases)
      case (1 route2 draft changes)
      have route: "route2 = route" using 1(1) dispatched(1) by simp
      have dis: "dispatching db (acIdentity cmd) route draft changes"
        using 1(6,7) route ok loadRoute_Inr(1) [OF dispatched(1)] loadRoute_Inr(2) [OF dispatched(1), symmetric]
        by (simp add: dispatching_def live_ok_def)
      note eff = publishDraft_effect [OF 1(9) [unfolded route] dispatching_distinct(3,4) [OF dis]]
      have ed: "list_all (\<lambda>c. lsDeliveryStopId c \<in> set (editableFutureStopIds route)) changes" using dis by (simp add: dispatching_def)
      show ?thesis
        using dispatched(1) eff frame writeRow_spares [OF ed] rowAfter_spares [OF dis] dispatching_plan(1) [OF dis]
        by (auto simp: list_all2_map2 list_all2_same stopKeys_def)
    qed
  qed
qed

theorem dispatch_spares_the_past_witness:
  "live_ok sampleDigest sampleDb
   \<and> (\<exists>db r. publishLiveRouteChange sampleDigest (\<lambda>_. ''k'') sampleEnv sampleDb sampleCommand ''second'' 5 = Inr (db, r)
        \<and> dbOrders db = dbOrders sampleDb)"
proof (rule sample_dispatch)
  fix db a n
  assume run: "publishLiveRouteChange sampleDigest (\<lambda>_. ''k'') sampleEnv sampleDb sampleCommand ''second'' 5 = Inr (db, DispatchAnswer a n True)"
  show ?thesis using run route_sample_ok dispatch_spares_the_past [OF route_sample_ok run] by auto
qed

end
