(* ===== verification/LiveRouteMoves.thy ===== *)
theory LiveRouteMoves
  imports LiveRouteDispatch
begin

text \<open>
  A dispatch never fails on a unique key: the two-phase move of the sequence numbers keeps every intermediate table
  within the key of route and sequence, the next publication number is free, and so is the key of the receipt.
\<close>

section \<open>The two-phase move\<close>

lemma fold_max_ge: "x \<in> set xs \<Longrightarrow> x \<le> fold max xs (a :: int)" "a \<le> fold max xs a"
proof -
  show base: "a \<le> fold max xs a" for a :: int and xs by (induction xs arbitrary: a) (auto intro: order_trans [OF max.cobounded2])
  show "x \<in> set xs \<Longrightarrow> x \<le> fold max xs a"
  proof (induction xs arbitrary: a)
    case (Cons y ys)
    then show ?case using base [of "max y a" ys] by (cases "x = y") auto
  qed simp
qed

text \<open>Writing numbers that no row of the route holds succeeds.\<close>

lemma setSequences_fresh:
  assumes "distinct (map fst moves)" "distinct (map snd moves)" "distinct (map psId rows)"
    and "\<And>k n. (k, n) \<in> set moves \<Longrightarrow> \<exists>r \<in> set rows. psId r = k \<and> psRoutePlanId r = plan"
    and "\<And>r. r \<in> set rows \<Longrightarrow> psRoutePlanId r = plan \<Longrightarrow> psSequence r \<notin> snd ` set moves"
  shows "\<exists>rows'. setSequences moves rows = Inr rows'"
  using assms
proof (induction moves arbitrary: rows)
  case (Cons m moves)
  obtain k n where m: "m = (k, n)" by (cases m)
  obtain row where row: "row \<in> set rows" "psId row = k" "psRoutePlanId row = plan" using Cons.prems(4) [of k n] m by auto
  have find: "List.find (\<lambda>r. psId r = k) rows = Some row" using find_key [OF Cons.prems(3) row(1)] row(2) by simp
  have free: "\<not> list_ex (\<lambda>r. psId r \<noteq> k \<and> psRoutePlanId r = psRoutePlanId row \<and> psSequence r = n) rows"
    using Cons.prems(5) row(3) m by (auto simp: list_ex_iff)
  let ?rows = "map (\<lambda>r. if psId r = k then r\<lparr>psSequence := n\<rparr> else r) rows"
  have set: "setSequence k n rows = Inr ?rows" by (simp add: setSequence_def find free)
  have ids: "map psId ?rows = map psId rows" by simp
  have keys: "\<exists>r \<in> set ?rows. psId r = k' \<and> psRoutePlanId r = plan" if later: "(k', n') \<in> set moves" for k' n'
  proof -
    obtain r where "r \<in> set rows" "psId r = k'" "psRoutePlanId r = plan" using Cons.prems(4) [of k' n'] later by auto
    then show ?thesis by (intro bexI [of _ "if psId r = k then r\<lparr>psSequence := n\<rparr> else r"]) auto
  qed
  have dist: "distinct (map psId ?rows)" unfolding ids by (rule Cons.prems(3))
  have free': "psSequence q \<notin> snd ` set moves" if q: "q \<in> set ?rows" "psRoutePlanId q = plan" for q
  proof -
    obtain r where r: "r \<in> set rows" "q = (if psId r = k then r\<lparr>psSequence := n\<rparr> else r)" using q(1) by auto
    then have "psRoutePlanId r = plan" using q(2) by (simp split: if_splits)
    then have "psSequence r \<notin> snd ` set moves" using Cons.prems(5) [OF r(1)] by simp
    moreover have "n \<notin> snd ` set moves" using Cons.prems(2) m by simp
    ultimately show ?thesis using r(2) by simp
  qed
  have "\<exists>rows'. setSequences moves ?rows = Inr rows'"
    using Cons.prems(1,2) m by (intro Cons.IH dist keys free') simp_all
  then show ?case by (simp add: m set)
qed simp

text \<open>Every row of a route has its shop, as the reference from rows to plans demands.\<close>

definition plan_references :: "live_db \<Rightarrow> bool" where
  "plan_references db =
     list_all (\<lambda>r. list_ex (\<lambda>p. plId p = psRoutePlanId r \<and> plShopId p = psShopId r) (dbPlans db)) (dbPlanStops db)"

lemma row_of_route:
  assumes dis: "dispatching db idn route draft changes" and ref: "plan_references db"
    and r: "r \<in> set (dbPlanStops db)" "psRoutePlanId r = plId (rtPlan route)"
  obtains y d where "r \<in> set (planRows db (rtPlan route))" "joinStop db r = Some y" "d \<in> set (snStops draft)"
    "memberKey d = memberKey (captureStop y)" "captureStop y \<in> set (snStops (captureSnapshot route))"
proof -
  have tok: "tables_ok db" and sel: "selectRoute db (rtPlan route) = route" and plan: "findPlan db idn = Some (rtPlan route)"
    and ch: "changedStops (captureSnapshot route) draft = Inr changes" using dis by (simp_all add: dispatching_def)
  obtain p where p: "p \<in> set (dbPlans db)" "plId p = psRoutePlanId r" "plShopId p = psShopId r"
    using ref r(1) by (auto simp: plan_references_def list_all_iff list_ex_iff)
  have "rtPlan route \<in> set (dbPlans db)" using plan by (auto simp: findPlan_def dest: find_SomeD)
  then have "p = rtPlan route" using p r(2) tok by (auto simp: tables_ok_def distinct_map inj_on_def)
  then have row: "r \<in> set (planRows db (rtPlan route))" using r p by (simp add: set_planRows)
  obtain y where y: "joinStop db r = Some y" using joinStop_total [OF tok r(1)] by auto
  have live: "captureStop y \<in> set (snStops (captureSnapshot route))" using row_in_live(2) [OF row y] sel by simp
  then obtain d where "d \<in> set (snStops draft)" "memberKey d = memberKey (captureStop y)"
    using membership_ids(3) [OF changedStops_Inr(1) [OF ch]] by (metis (no_types, lifting) imageE imageI)
  then show ?thesis using that row y live by blast
qed

lemma temporary_moves:
  "map fst (map (\<lambda>(i, s). (f s, b + int i)) (enumerate n xs)) = map f xs"
  "map snd (map (\<lambda>(i, s). (f s, b + int i)) (enumerate n xs)) = map (\<lambda>i. b + int i) [n..<n + length xs]"
proof -
  have "map fst (map (\<lambda>(i, s). (f s, b + int i)) (enumerate n xs)) = map f (map snd (enumerate n xs))"
    by (simp only: map_map comp_def case_prod_unfold fst_conv)
  then show "map fst (map (\<lambda>(i, s). (f s, b + int i)) (enumerate n xs)) = map f xs" by (simp only: map_snd_enumerate)
  have "map snd (map (\<lambda>(i, s). (f s, b + int i)) (enumerate n xs)) = map (\<lambda>i. b + int i) (map fst (enumerate n xs))"
    by (simp only: map_map comp_def case_prod_unfold snd_conv)
  then show "map snd (map (\<lambda>(i, s). (f s, b + int i)) (enumerate n xs)) = map (\<lambda>i. b + int i) [n..<n + length xs]"
    by (simp only: map_fst_enumerate)
qed

lemma moveRow_keys [simp]:
  "psId (moveRow moves r) = psId r" "psRoutePlanId (moveRow moves r) = psRoutePlanId r"
  by (simp_all add: moveRow_def split: option.split)

lemma ordered_distinct: "ordered sn \<Longrightarrow> distinct (map lsSequence (snStops sn))"
  by (simp add: ordered_def strict_sorted_iff)

text \<open>A row that is not moved has the number of its stop in the draft, which no other stop of the draft has.\<close>

lemma kept_number:
  assumes dis: "dispatching db idn route draft changes" and ref: "plan_references db" and ord: "ordered draft"
    and r: "r \<in> set (dbPlanStops db)" "psRoutePlanId r = plId (rtPlan route)"
    and kept: "\<And>s. s \<in> set changes \<Longrightarrow> lsSequence (previousIn (stopsById (snStops (captureSnapshot route))) s) \<noteq> lsSequence s
      \<Longrightarrow> lsRoutePlanStopId s \<noteq> psId r"
    and s: "s \<in> set changes" "lsSequence (previousIn (stopsById (snStops (captureSnapshot route))) s) \<noteq> lsSequence s"
  shows "psSequence r \<noteq> lsSequence s"
proof
  assume eq: "psSequence r = lsSequence s"
  obtain y d where y: "r \<in> set (planRows db (rtPlan route))" "joinStop db r = Some y"
    and d: "d \<in> set (snStops draft)" "memberKey d = memberKey (captureStop y)"
    by (rule row_of_route [OF dis ref r])
  note dr = draft_of_row [OF dis y d]
  have prev: "previousIn (stopsById (snStops (captureSnapshot route))) d = captureStop y"
    using dr(1) by (simp add: previousIn_def coalesce_def_value_def)
  have id: "lsRoutePlanStopId d = psId r" using d(2) captureStop_row(1) [OF y(2)] by (simp add: memberKey_def)
  have "lsSequence d = psSequence r"
  proof (cases "d \<in> set changes")
    case True
    then show ?thesis using kept [of d] id prev captureStop_row(3) [OF y(2)] by (metis (no_types))
  next
    case False
    then show ?thesis using dr(2) captureStop_row(3) [OF y(2)] by simp
  qed
  moreover have "s \<in> set (snStops draft)" using s(1) changedStops_Inr(2) dis by (auto simp: dispatching_def)
  ultimately have "s = d" using eq d(1) ordered_distinct [OF ord] by (auto simp: distinct_map inj_on_def)
  then show False using kept [OF s] id by simp
qed

lemma move_never_collides:
  assumes dis: "dispatching db idn route draft changes" and ref: "plan_references db" and ord: "ordered draft"
  defines "live \<equiv> snStops (captureSnapshot route)"
  defines "reordered \<equiv> filter (\<lambda>s. lsSequence (previousIn (stopsById live) s) \<noteq> lsSequence s) changes"
  shows "\<exists>rows. moveStops live (snStops draft) reordered (dbPlanStops db) = Inr rows"
proof -
  let ?base = "temporaryBase live (snStops draft)" and ?rows = "dbPlanStops db" and ?plan = "plId (rtPlan route)"
  let ?m1 = "map (\<lambda>(i, s). (lsRoutePlanStopId s, ?base + int i)) (enumerate 0 reordered)"
  let ?m2 = "map (\<lambda>s. (lsRoutePlanStopId s, lsSequence s)) reordered"
  have ids: "distinct (map psId ?rows)" and ch: "changedStops (captureSnapshot route) draft = Inr changes"
    using dis by (simp_all add: dispatching_def tables_ok_def)
  have sub: "set reordered \<subseteq> set changes" "set reordered \<subseteq> set (snStops draft)"
    using changedStops_Inr(2) [OF ch] by (auto simp: reordered_def)
  have dr: "distinct (map lsRoutePlanStopId reordered)"
    using dispatching_distinct(4) [OF dis] by (simp add: reordered_def distinct_map_filter)
  have low: "lsSequence s < ?base" if "s \<in> set live \<or> s \<in> set (snStops draft)" for s
    using fold_max_ge(1) [of "lsSequence s" "map lsSequence live @ map lsSequence (snStops draft)" 0] that
    by (auto simp: temporaryBase_def)
  note m1 = temporary_moves [of lsRoutePlanStopId ?base 0 reordered]
  have named: "\<exists>r \<in> set ?rows. psId r = lsRoutePlanStopId s \<and> psRoutePlanId r = ?plan" if "s \<in> set reordered" for s
    using change_named [OF dis] that sub by (force simp: set_planRows)
  have high: "?base \<le> n" if "n \<in> snd ` set ?m1" for n
  proof -
    have "n \<in> set (map snd ?m1)" using that by (simp only: set_map)
    then show ?thesis unfolding m1(2) by auto
  qed
  have live: "psSequence r < ?base" if r: "r \<in> set ?rows" "psRoutePlanId r = ?plan" for r
  proof -
    obtain y d where y: "joinStop db r = Some y" "captureStop y \<in> set (snStops (captureSnapshot route))"
      by (rule row_of_route [OF dis ref r])
    then show ?thesis using low captureStop_row(3) [OF y(1)] by (force simp: live_def)
  qed
  obtain rows1 where rows1: "setSequences ?m1 ?rows = Inr rows1"
  proof (rule exE [OF setSequences_fresh [of ?m1 ?rows ?plan]])
    show "distinct (map fst ?m1)" unfolding m1(1) by (rule dr)
    show "distinct (map snd ?m1)" unfolding m1(2) by (simp add: distinct_map inj_on_def)
    show "\<exists>r \<in> set ?rows. psId r = k \<and> psRoutePlanId r = ?plan" if "(k, n) \<in> set ?m1" for k n
      using that named by (auto simp: in_set_enumerate_eq)
    show "psSequence r \<notin> snd ` set ?m1" if "r \<in> set ?rows" "psRoutePlanId r = ?plan" for r
      using live [OF that] high by force
  qed (rule ids)
  have f1: "rows1 = map (moveRow ?m1) ?rows" using setSequences_form [OF rows1] dr by (simp only: m1(1))
  have "\<exists>rows. setSequences ?m2 rows1 = Inr rows"
  proof (rule setSequences_fresh [of ?m2 rows1 ?plan])
    show "distinct (map fst ?m2)" using dr by (simp add: comp_def)
    show "distinct (map snd ?m2)" using changedStops_Inr(3) [OF ch ordered_distinct [OF ord]] by (simp add: comp_def reordered_def distinct_map_filter)
    show "distinct (map psId rows1)" using ids by (simp add: f1 comp_def)
    show "\<exists>r \<in> set rows1. psId r = k \<and> psRoutePlanId r = ?plan" if "(k, n) \<in> set ?m2" for k n
      using that named by (force simp: f1)
    show "psSequence q \<notin> snd ` set ?m2" if q: "q \<in> set rows1" "psRoutePlanId q = ?plan" for q
    proof -
      obtain r where r: "r \<in> set ?rows" "q = moveRow ?m1 r" "psRoutePlanId r = ?plan" using q by (auto simp: f1)
      show ?thesis
      proof (cases "map_of ?m1 (psId r)")
        case (Some n)
        then have "?base \<le> psSequence q" using high r(2) by (force simp: moveRow_def dest: map_of_SomeD)
        then show ?thesis using low sub(2) by (fastforce simp: image_iff)
      next
        case None
        then have "psId r \<notin> set (map fst ?m1)" by (simp only: map_of_eq_None_iff set_map not_False_eq_True)
        then have kept: "psId r \<notin> lsRoutePlanStopId ` set reordered" by (simp only: m1(1) set_map not_False_eq_True)
        have "psSequence r \<noteq> lsSequence s" if "s \<in> set reordered" for s
          using that kept by (intro kept_number [OF dis ref ord r(1,3)]) (auto simp: reordered_def live_def image_iff)
        moreover have "q = r" using None r(2) by (simp add: moveRow_def)
        ultimately show ?thesis by force
      qed
    qed
  qed
  then show ?thesis using rows1 by (simp add: moveStops_def Let_def)
qed

section \<open>No unique key is violated\<close>

named_theorems no_unique

lemma attempt_no:
  "r \<noteq> Inl e \<Longrightarrow> (\<And>x. r = Inr x \<Longrightarrow> k x \<noteq> Inl e) \<Longrightarrow> attempt r k \<noteq> Inl e"
  by (cases r) auto

lemma refuse_no: "e' \<noteq> e \<Longrightarrow> (\<not> c \<Longrightarrow> k \<noteq> Inl e) \<Longrightarrow> refuse c e' k \<noteq> Inl e"
  by (cases c) auto

lemma attempt3_no:
  "r \<noteq> Inl e \<Longrightarrow> (\<And>a b c. r = Inr (a, b, c) \<Longrightarrow> k a b c \<noteq> Inl e) \<Longrightarrow> attempt r (\<lambda>(a, b, c). k a b c) \<noteq> Inl e"
  by (cases r) auto

lemma option_no:
  "(x = None \<Longrightarrow> a \<noteq> Inl e) \<Longrightarrow> (\<And>y. x = Some y \<Longrightarrow> f y \<noteq> Inl e) \<Longrightarrow> (case x of None \<Rightarrow> a | Some y \<Rightarrow> f y) \<noteq> Inl e"
  by (cases x) auto

lemma if_no: "(b \<Longrightarrow> x \<noteq> Inl e) \<Longrightarrow> (\<not> b \<Longrightarrow> y \<noteq> Inl e) \<Longrightarrow> (if b then x else y) \<noteq> Inl e"
  by simp

lemma checks_no_unique [no_unique]:
  "requireRevision v \<noteq> Inl UNIQUE_VIOLATION" "requireCommandId k \<noteq> Inl UNIQUE_VIOLATION"
  "underlyingVersion route \<noteq> Inl UNIQUE_VIOLATION" "requireWritableRoute route \<noteq> Inl UNIQUE_VIOLATION"
  "loadRoute env db idn \<noteq> Inl UNIQUE_VIOLATION" "snapshotFromJson v' \<noteq> Inl UNIQUE_VIOLATION"
  "loadCurrentPublication db st \<noteq> Inl UNIQUE_VIOLATION" "assertNoLiveDrift H route p \<noteq> Inl UNIQUE_VIOLATION"
  "replayCommand db route cmd kind h \<noteq> Inl UNIQUE_VIOLATION" "changedStops live draft \<noteq> Inl UNIQUE_VIOLATION"
  "requireRouteable byId changes \<noteq> Inl UNIQUE_VIOLATION" "updateState db pid f \<noteq> Inl UNIQUE_VIOLATION"
  by (auto simp: requireRevision_def requireCommandId_def underlyingVersion_def requireWritableRoute_def loadRoute_def
      loadCurrentPublication_def assertNoLiveDrift_def replayCommand_def changedStops_def requireRouteable_def updateState_def
      Let_def refuse_def split: list.splits option.splits elim!: snapshotFromJson.elims)

lemma identity_no_unique [no_unique]:
  "assertStateIdentity route st \<noteq> Inl UNIQUE_VIOLATION"
  "requireAdminCommandIdentity route cmd b \<noteq> Inl UNIQUE_VIOLATION"
  "publicationResponse st p \<noteq> Inl UNIQUE_VIOLATION"
  unfolding assertStateIdentity_def requireAdminCommandIdentity_def publicationResponse_def
  by (intro attempt_no refuse_no no_unique; simp)+

lemma writeStops_no_unique [no_unique]: "writeStops sh byId changes rows \<noteq> Inl UNIQUE_VIOLATION"
proof (induction changes arbitrary: rows)
  case (Cons c cs)
  have date: "dateValue v \<noteq> Inl UNIQUE_VIOLATION" for v by (cases v) (simp_all split: option.split)
  have data: "stopData p c \<noteq> Inl UNIQUE_VIOLATION" for p
    unfolding stopData_def windowWrite_def by (intro attempt_no) (simp_all add: attempt_no date)
  show ?case unfolding writeStops.simps by (intro attempt_no data) (simp add: Cons refuse_no)
qed simp

lemma persist_no_unique [no_unique]:
  "persistLiveRouteLocationCorrections sh pid q now stops db \<noteq> Inl UNIQUE_VIOLATION"
proof (induction stops arbitrary: db)
  case (Cons s ss)
  show ?case unfolding persistLiveRouteLocationCorrections.simps Let_def
    by (intro attempt_no Cons) (simp split: option.split)
qed simp

text \<open>The number after the latest publication is free.\<close>

lemma lineage_bound:
  assumes ok: "state_ok H ps st" and p: "p \<in> set ps" "samePublications st p"
  shows "pbSequence p \<le> lvLatestSequence st"
proof -
  have "pbSequence p \<in> set (map pbSequence (lineage st ps))" using p by (simp add: lineage_def)
  then have "pbSequence p \<in> set (map int [0..<Suc (nat (lvLatestSequence st))])" using ok by (simp only: state_ok_def)
  then show ?thesis using ok by (auto simp: state_ok_def)
qed

lemma next_publication_free:
  assumes ok: "state_ok H (dbPublications db) st" and fresh: "pbId p \<notin> pbId ` set (dbPublications db)"
    and p: "samePublications st p" "pbSequence p = lvLatestSequence st + 1"
  shows "createPublication db p \<noteq> Inl UNIQUE_VIOLATION"
proof -
  have "\<not> list_ex (\<lambda>q. pbId q = pbId p
         \<or> pbRoutePlanId q = pbRoutePlanId p \<and> pbShopId q = pbShopId p \<and> pbAssignmentGeneration q = pbAssignmentGeneration p
           \<and> pbDriverId q = pbDriverId p \<and> pbSequence q = pbSequence p) (dbPublications db)"
  proof
    assume "list_ex (\<lambda>q. pbId q = pbId p
         \<or> pbRoutePlanId q = pbRoutePlanId p \<and> pbShopId q = pbShopId p \<and> pbAssignmentGeneration q = pbAssignmentGeneration p
           \<and> pbDriverId q = pbDriverId p \<and> pbSequence q = pbSequence p) (dbPublications db)"
    then obtain q where q: "q \<in> set (dbPublications db)" "pbId q = pbId p \<or> samePublications st q \<and> pbSequence q = pbSequence p"
      using p by (auto simp: list_ex_iff samePublications_def)
    from q(2) show False
    proof
      assume "pbId q = pbId p"
      then show False using fresh q(1) by (metis imageI)
    next
      assume "samePublications st q \<and> pbSequence q = pbSequence p"
      then show False using lineage_bound [OF ok q(1)] p(2) by simp
    qed
  qed
  then show ?thesis by (simp add: createPublication_def)
qed

lemma publishDraft_no_unique:
  assumes dis: "dispatching db idn route draft changes" and ref: "plan_references db" and ord: "ordered draft"
    and ok: "state_ok H (dbPublications db) st" and at: "at_row db idn st" and fresh: "freshId \<notin> pbId ` set (dbPublications db)"
  shows "publishDraft db route st idn draft changes freshId now \<noteq> Inl UNIQUE_VIOLATION"
proof -
  obtain rows where rows: "moveStops (snStops (captureSnapshot route)) (snStops draft)
       (filter (\<lambda>stop. lsSequence (coalesce_def_value (stopsById (snStops (captureSnapshot route)) (lsDeliveryStopId stop)) absentStop)
          \<noteq> lsSequence stop) changes) (dbPlanStops db) = Inr rows"
    using move_never_collides [OF dis ref ord] by (auto simp: previousIn_def)
  show ?thesis unfolding publishDraft_def Let_def rows
    by (intro attempt_no no_unique next_publication_free [of H _ st])
      (use ok at fresh in \<open>simp_all add: samePublications_def at_row_def case_prod_unfold\<close>)
qed

lemma recordCommand_no_unique:
  assumes "replayCommand db0 route cmd kind h = Inr None" "dbReceipts db = dbReceipts db0"
  shows "recordCommand db route cmd kind h r pid \<noteq> Inl UNIQUE_VIOLATION"
  using replay_none_fresh [OF assms(1)] assms(2) by (auto simp: recordCommand_def Let_def list_ex_iff receiptKey_def refuse_def image_iff)

lemma dispatchChanges_no_unique:
  assumes ok: "live_ok H db" and ref: "plan_references db" and state: "loadState db idn = Some st"
    and fresh: "freshId \<notin> pbId ` set (dbPublications db)"
  shows "dispatchChanges H env db st idn current freshId now \<noteq> Inl UNIQUE_VIOLATION"
  unfolding dispatchChanges_def
proof (intro attempt_no refuse_no no_unique, simp)
  fix route draft changes
  assume load: "loadRoute env db idn = Inr route" and draft: "snapshotFromJson (lvDraftSnapshot st) = Inr draft"
    and ch: "changedStops (captureSnapshot route) draft = Inr changes"
    and ed: "\<not> \<not> list_all (\<lambda>stop. lsDeliveryStopId stop \<in> set (editableFutureStopIds route)) changes"
  have st: "state_ok H (dbPublications db) st"
    using live_inv_state [of H db st] ok loadState_Some [OF state] by (simp add: live_ok_def)
  have "lvDraftSnapshot st = Stored draft" using draft by (cases "lvDraftSnapshot st") simp_all
  then have ord: "ordered draft" using st by (simp add: state_ok_def hashed_def)
  have dis: "dispatching db idn route draft changes"
    using ch ed ok loadRoute_Inr(1) [OF load] loadRoute_Inr(2) [OF load, symmetric] by (simp add: dispatching_def live_ok_def)
  show "publishDraft db route st idn draft changes freshId now \<noteq> Inl UNIQUE_VIOLATION"
    by (rule publishDraft_no_unique [OF dis ref ord st at_row_loadState [OF state] fresh])
qed

text \<open>
  Claim C40: a dispatch never runs into a unique key of the database, at no intermediate write: the temporary positions of
  the two-phase move are free, no two stops meet while they take their final positions, the number of the next publication
  is unused, and the receipt has a new key. (The publication identifier is drawn fresh.)
\<close>

theorem dispatch_never_violates_a_key:
  assumes ok: "live_ok H db" and ref: "plan_references db" and fresh: "freshId \<notin> pbId ` set (dbPublications db)"
  shows "publishLiveRouteChange H K env db cmd freshId now \<noteq> Inl UNIQUE_VIOLATION"
  unfolding publishLiveRouteChange_def Let_def
proof (intro attempt3_no attempt_no refuse_no option_no if_no no_unique, goal_cases)
  case (4 u1 u2 route u3 st u4 u5 u6 u7 current u8)
  then show ?case using dispatchChanges_no_unique [OF ok ref _ fresh] by blast
next
  case (5 u1 u2 route u3 st u4 replay u6 u7 current u8 db1 st1 pub answer)
  have inv: "live_inv H (tables db)" using ok by (simp add: live_ok_def)
  have "dbReceipts db1 = dbReceipts db"
    using 5(14) dispatchChanges_writes(2) [OF inv at_row_loadState [OF 5(5)]] by (auto split: if_splits)
  then show ?case using 5(7,8) recordCommand_no_unique by blast
qed simp_all

theorem dispatch_never_violates_a_key_witness:
  "live_ok sampleDigest sampleDb \<and> plan_references sampleDb \<and> ''second'' \<notin> pbId ` set (dbPublications sampleDb)
   \<and> publishLiveRouteChange sampleDigest (\<lambda>_. ''k'') sampleEnv sampleDb sampleCommand ''second'' 5 \<noteq> Inl UNIQUE_VIOLATION"
proof -
  have ref: "plan_references sampleDb" and fresh: "''second'' \<notin> pbId ` set (dbPublications sampleDb)"
    by (simp_all add: plan_references_def sampleDb_def samplePlan_def sampleRow_def samplePublication_def)
  show ?thesis using route_sample_ok ref fresh dispatch_never_violates_a_key [OF route_sample_ok ref fresh] by blast
qed

end
