(* ===== verification/TimeConstraint.thy ===== *)
theory TimeConstraint
  imports JsText
begin

text \<open>
  Reviewed delivery windows of the dispatch office: dsv/dsv-time-constraint.ts. The note of an order is reviewed by
  people; their decisions are audit events that name the note by its digest (a parameter). From the note and the audits
  follows whether a window is confirmed, cleared or still to be reviewed.
\<close>

section \<open>Times of a day\<close>

datatype time_value = TimeDate int | TimeText iso

fun timeInstant :: "time_value \<Rightarrow> int option" where
  "timeInstant (TimeDate ms) = Some ms"
| "timeInstant (TimeText t) = date_parse t"

definition getUTCHours :: "int \<Rightarrow> int" where
  "getUTCHours ms = ms div 3600000 mod 24"

definition getUTCMinutes :: "int \<Rightarrow> int" where
  "getUTCMinutes ms = ms div 60000 mod 60"

definition twoDigits :: "int \<Rightarrow> string" where
  "twoDigits n = padStart 2 CHR ''0'' (js_nat (nat n))"

definition formatTimeOnly :: "time_value option \<Rightarrow> string option" where
  "formatTimeOnly v =
     Option.bind v (\<lambda>value. map_option (\<lambda>ms. twoDigits (getUTCHours ms) @ '':'' @ twoDigits (getUTCMinutes ms)) (timeInstant value))"

text \<open>\<^verbatim>\<open>/^\d{2}:\d{2}$/u\<close>, split at the colon.\<close>

definition parseTimeOnlyAsUtcDate :: "string \<Rightarrow> int option" where
  "parseTimeOnlyAsUtcDate s =
     (case s of
        [a, b, c, d, e] \<Rightarrow>
          if is_digit a \<and> is_digit b \<and> c = CHR '':'' \<and> is_digit d \<and> is_digit e
          then (let hour = digits_val [a, b]; minute = digits_val [d, e]
                in if 23 < hour \<or> 59 < minute then None else Some (int hour * 3600000 + int minute * 60000))
          else None
      | _ \<Rightarrow> None)"

definition dsvTimeOnlyMinutes :: "string \<Rightarrow> int option" where
  "dsvTimeOnlyMinutes s =
     map_option (\<lambda>ms. getUTCHours ms * 60 + getUTCMinutes ms) (parseTimeOnlyAsUtcDate s)"

section \<open>The state of a review\<close>

datatype review_status = REVIEW_CLEARED | REVIEW_CONFIRMED | REVIEW_UNCONFIRMED | REVIEW_NOT_APPLICABLE

datatype route_constraint_status =
    CONSTRAINT_NOT_APPLICABLE | CONSTRAINT_UNCONFIRMED | CONSTRAINT_PENDING_RECALCULATION | CONSTRAINT_NOT_EVALUATED

record time_constraint =
  tcAuditEventId :: string
  tcConfirmedAt :: string
  tcConfirmedBy :: "string option"
  tcTimeWindowEnd :: string
  tcTimeWindowStart :: string

record time_constraint_state =
  tsRawNote :: "string option"
  tsReviewStatus :: review_status
  tsRouteConstraintStatus :: route_constraint_status
  tsTimeConstraint :: "time_constraint option"

record constraint_audit =
  auActorId :: "string option"
  auEventType :: string
  auId :: string
  auOccurredAt :: int
  auRedactedDiff :: json

record constraint_input =
  ciAudits :: "constraint_audit list"
  ciVersionCreatedAt :: "int option"
  ciVersionId :: "string option"
  ciRawNote :: "string option"
  ciTimeWindowEnd :: "time_value option"
  ciTimeWindowStart :: "time_value option"

definition dsvTimeConstraintAuditEvents :: "string list" where
  "dsvTimeConstraintAuditEvents = [''TIME_CONSTRAINT_CONFIRMED'', ''TIME_CONSTRAINT_CLEARED'']"

definition isTimeConstraintAuditType :: "string \<Rightarrow> bool" where
  "isTimeConstraintAuditType v = (v \<in> set dsvTimeConstraintAuditEvents)"

definition dsvAllowedTimeConstraintRedactedDiffKeys :: "string list" where
  "dsvAllowedTimeConstraintRedactedDiffKeys =
     [''commandId'', ''deliveryStopId'', ''newTimeWindowEnd'', ''newTimeWindowStart'', ''noteHash'', ''priorTimeWindowEnd'',
      ''priorTimeWindowStart'', ''sellerOrderId'', ''sourceNotePresent'']"

definition isValidTimeConstraintRedactedDiff :: "json \<Rightarrow> bool" where
  "isValidTimeConstraintRedactedDiff v =
     (is_record v \<and> list_all (\<lambda>k. k \<in> set dsvAllowedTimeConstraintRedactedDiffKeys) (jkeys v))"

definition normalizeRawNote :: "string option \<Rightarrow> string option" where
  "normalizeRawNote v = (case map_option js_trim v of None \<Rightarrow> None | Some n \<Rightarrow> if n = [] then None else Some n)"

definition dsvCanonicalNoteHash :: "(string \<Rightarrow> string) \<Rightarrow> string \<Rightarrow> string" where
  "dsvCanonicalNoteHash digest rawNote = digest (coalesce_def_value (normalizeRawNote (Some rawNote)) [])"

definition matchesNote :: "string \<Rightarrow> constraint_audit \<Rightarrow> bool" where
  "matchesNote noteHash a =
     (isTimeConstraintAuditType (auEventType a) \<and> isValidTimeConstraintRedactedDiff (auRedactedDiff a)
      \<and> jget (auRedactedDiff a) ''noteHash'' = JStr noteHash)"

definition newestFirst :: "constraint_audit \<Rightarrow> constraint_audit \<Rightarrow> int" where
  "newestFirst left right = compare_int (auOccurredAt right) (auOccurredAt left)"

definition latestValidMatchingAudit :: "constraint_audit list \<Rightarrow> string option \<Rightarrow> constraint_audit option" where
  "latestValidMatchingAudit audits noteHash =
     (case noteHash of None \<Rightarrow> None | Some h \<Rightarrow> List.find (matchesNote h) (sort_by newestFirst audits))"

definition pendingRecalculation :: "constraint_input \<Rightarrow> constraint_audit \<Rightarrow> bool" where
  "pendingRecalculation ci a =
     (ciVersionId ci \<noteq> None \<and> (case ciVersionCreatedAt ci of None \<Rightarrow> False | Some t \<Rightarrow> t < auOccurredAt a))"

definition deriveDsvTimeConstraintState :: "(string \<Rightarrow> string) \<Rightarrow> constraint_input \<Rightarrow> time_constraint_state" where
  "deriveDsvTimeConstraintState digest ci =
     (let rawNote = normalizeRawNote (ciRawNote ci);
          noteHash = map_option (dsvCanonicalNoteHash digest) rawNote
      in case latestValidMatchingAudit (ciAudits ci) noteHash of
           Some a \<Rightarrow>
             if auEventType a = ''TIME_CONSTRAINT_CONFIRMED''
             then \<lparr>tsRawNote = rawNote, tsReviewStatus = REVIEW_CONFIRMED,
                   tsRouteConstraintStatus =
                     (if pendingRecalculation ci a then CONSTRAINT_PENDING_RECALCULATION else CONSTRAINT_NOT_EVALUATED),
                   tsTimeConstraint =
                     (case (formatTimeOnly (ciTimeWindowStart ci), formatTimeOnly (ciTimeWindowEnd ci)) of
                        (Some s, Some e) \<Rightarrow>
                          Some \<lparr>tcAuditEventId = auId a, tcConfirmedAt = toISOString (auOccurredAt a),
                                tcConfirmedBy = auActorId a, tcTimeWindowEnd = e, tcTimeWindowStart = s\<rparr>
                      | _ \<Rightarrow> None)\<rparr>
             else \<lparr>tsRawNote = rawNote, tsReviewStatus = REVIEW_CLEARED,
                   tsRouteConstraintStatus =
                     (if pendingRecalculation ci a then CONSTRAINT_PENDING_RECALCULATION else CONSTRAINT_NOT_APPLICABLE),
                   tsTimeConstraint = None\<rparr>
         | None \<Rightarrow>
             if rawNote \<noteq> None
             then \<lparr>tsRawNote = rawNote, tsReviewStatus = REVIEW_UNCONFIRMED, tsRouteConstraintStatus = CONSTRAINT_UNCONFIRMED,
                   tsTimeConstraint = None\<rparr>
             else \<lparr>tsRawNote = None, tsReviewStatus = REVIEW_NOT_APPLICABLE, tsRouteConstraintStatus = CONSTRAINT_NOT_APPLICABLE,
                   tsTimeConstraint = None\<rparr>)"

section \<open>Properties\<close>

lemma twoDigits_digits:
  assumes "n < 100"
  shows "twoDigits (int n) = [digit_char (n div 10), digit_char (n mod 10)]"
proof (cases "n < 10")
  case True
  then have "js_nat n = [digit_char n]" by (subst js_nat.simps) simp
  moreover have "digit_char 0 = CHR ''0''" by code_simp
  ultimately show ?thesis using True by (simp add: twoDigits_def padStart_def)
next
  case False
  then have "js_nat (n div 10) = [digit_char (n div 10)]" using assms by (subst js_nat.simps) auto
  then have "js_nat n = [digit_char (n div 10), digit_char (n mod 10)]" using False by (subst js_nat.simps) simp
  then show ?thesis by (simp add: twoDigits_def padStart_def)
qed

lemma parseTimeOnly_format:
  assumes "h < 24" "m < 60"
  shows "parseTimeOnlyAsUtcDate (twoDigits (int h) @ '':'' @ twoDigits (int m)) = Some (int h * 3600000 + int m * 60000)"
proof -
  have "h div 10 < 10" "m div 10 < 10" using assms by auto
  then show ?thesis
    using assms by (simp add: twoDigits_digits parseTimeOnlyAsUtcDate_def digits_val_Cons)
qed

lemma utc_parts: "0 \<le> getUTCHours ms" "getUTCHours ms < 24" "0 \<le> getUTCMinutes ms" "getUTCMinutes ms < 60"
  "getUTCHours ms * 3600000 + getUTCMinutes ms * 60000 = ms mod 86400000 - ms mod 60000"
proof -
  show "0 \<le> getUTCHours ms" "getUTCHours ms < 24" "0 \<le> getUTCMinutes ms" "getUTCMinutes ms < 60"
    by (simp_all add: getUTCHours_def getUTCMinutes_def)
  have m: "ms = ms div 60000 * 60000 + ms mod 60000" by simp
  have "ms div 3600000 = ms div 60000 div 60" "ms div 86400000 = ms div 60000 div 60 div 24" by (simp_all flip: zdiv_zmult2_eq)
  then show "getUTCHours ms * 3600000 + getUTCMinutes ms * 60000 = ms mod 86400000 - ms mod 60000"
    unfolding getUTCHours_def getUTCMinutes_def by presburger
qed

lemma two_digit_text:
  assumes "is_digit a" "is_digit b"
  shows "twoDigits (int (digits_val [a, b])) = [a, b]" "digits_val [a, b] < 100"
proof -
  have v: "digits_val [a, b] = digit_val a * 10 + digit_val b" by (simp add: digits_val_Cons)
  show lt: "digits_val [a, b] < 100" using v digit_val_lt [OF assms(1)] digit_val_lt [OF assms(2)] by simp
  show "twoDigits (int (digits_val [a, b])) = [a, b]"
    using twoDigits_digits [OF lt] v digit_val_lt [OF assms(2)] digit_char_val [OF assms(1)] digit_char_val [OF assms(2)] by simp
qed

lemma getUTC_of_time:
  assumes "h < 24" "m < 60"
  shows "getUTCHours (int h * 3600000 + int m * 60000) = int h" "getUTCMinutes (int h * 3600000 + int m * 60000) = int m"
proof -
  have t: "int h * 3600000 + int m * 60000 = (int h * 60 + int m) * 60000" by simp
  have "(int h * 60 + int m) * 60000 div 3600000 = (int h * 60 + int m) div 60"
    using div_mult_mult2 [of 60000 "int h * 60 + int m" 60] by simp
  then show "getUTCHours (int h * 3600000 + int m * 60000) = int h" unfolding getUTCHours_def t using assms by simp
  show "getUTCMinutes (int h * 3600000 + int m * 60000) = int m" unfolding getUTCMinutes_def t using assms by simp
qed

text \<open>
  Times of a day and instants convert into each other. A text that is accepted as a time of day is printed back
  exactly, lies within the first day and counts hours times sixty plus minutes; and printing any instant and reading the
  text again gives its time of day, cut to the minute.
\<close>

theorem time_of_day_round_trip:
  "(case parseTimeOnlyAsUtcDate s of
      None \<Rightarrow> dsvTimeOnlyMinutes s = None
    | Some ms \<Rightarrow> formatTimeOnly (Some (TimeDate ms)) = Some s \<and> 0 \<le> ms \<and> ms < 86400000
        \<and> dsvTimeOnlyMinutes s = Some (ms div 60000))
   \<and> Option.bind (formatTimeOnly (Some (TimeDate t))) parseTimeOnlyAsUtcDate = Some (t mod 86400000 - t mod 60000)"
proof
  show "case parseTimeOnlyAsUtcDate s of
      None \<Rightarrow> dsvTimeOnlyMinutes s = None
    | Some ms \<Rightarrow> formatTimeOnly (Some (TimeDate ms)) = Some s \<and> 0 \<le> ms \<and> ms < 86400000
        \<and> dsvTimeOnlyMinutes s = Some (ms div 60000)"
  proof (cases "parseTimeOnlyAsUtcDate s")
    case (Some ms)
    then obtain a b d e where s: "s = [a, b, CHR '':'', d, e]" and dig: "is_digit a" "is_digit b" "is_digit d" "is_digit e"
      and h: "digits_val [a, b] < 24" and m: "digits_val [d, e] < 60"
      and ms: "ms = int (digits_val [a, b]) * 3600000 + int (digits_val [d, e]) * 60000"
      unfolding parseTimeOnlyAsUtcDate_def by (auto simp: Let_def not_less split: list.splits if_splits)
    note g = getUTC_of_time [OF h m, folded ms]
    have "formatTimeOnly (Some (TimeDate ms)) = Some s"
      using two_digit_text(1) [OF dig(1,2)] two_digit_text(1) [OF dig(3,4)] by (simp add: formatTimeOnly_def g s)
    moreover have "dsvTimeOnlyMinutes s = Some (ms div 60000)" using Some g ms by (simp add: dsvTimeOnlyMinutes_def)
    ultimately show ?thesis using Some ms h m by simp
  qed (simp add: dsvTimeOnlyMinutes_def)
  have "formatTimeOnly (Some (TimeDate t)) = Some (twoDigits (int (nat (getUTCHours t))) @ '':'' @ twoDigits (int (nat (getUTCMinutes t))))"
    using utc_parts [of t] by (simp add: formatTimeOnly_def)
  moreover have "nat (getUTCHours t) < 24" "nat (getUTCMinutes t) < 60" using utc_parts [of t] by simp_all
  ultimately show "Option.bind (formatTimeOnly (Some (TimeDate t))) parseTimeOnlyAsUtcDate = Some (t mod 86400000 - t mod 60000)"
    using parseTimeOnly_format [of "nat (getUTCHours t)" "nat (getUTCMinutes t)"] utc_parts [of t] by simp
qed

interpretation newest: comparator newestFirst
  by unfold_locales (auto simp: newestFirst_def compare_int_def)

lemma find_sorted:
  "sorted_wrt R xs \<Longrightarrow> List.find P xs = Some a \<Longrightarrow> b \<in> set xs \<Longrightarrow> P b \<Longrightarrow> b = a \<or> R a b"
  by (induction xs) (auto split: if_splits)

lemma latest_decision:
  "case latestValidMatchingAudit audits (Some h) of
     None \<Rightarrow> filter (matchesNote h) audits = []
   | Some a \<Rightarrow> a \<in> set (filter (matchesNote h) audits)
       \<and> list_all (\<lambda>b. auOccurredAt b \<le> auOccurredAt a) (filter (matchesNote h) audits)"
proof (cases "List.find (matchesNote h) (sort_by newestFirst audits)")
  case None
  then have "\<not> (\<exists>b. b \<in> set (sort_by newestFirst audits) \<and> matchesNote h b)" by (simp only: find_None_iff not_False_eq_True)
  then show ?thesis using None by (simp add: latestValidMatchingAudit_def filter_empty_conv)
next
  case (Some a)
  have "auOccurredAt b \<le> auOccurredAt a" if "b \<in> set audits" "matchesNote h b" for b
    using find_sorted [OF newest.sorted_sort_by Some, of b] that by (auto simp: newestFirst_def compare_int_def)
  moreover have "a \<in> set audits" "matchesNote h a"
    using Some by (auto simp: find_Some_iff) (metis nth_mem set_sort_by length_sort_by)
  ultimately show ?thesis using Some by (simp add: latestValidMatchingAudit_def list_all_iff)
qed


end
