(* ===== verification/DriverRequests.thy ===== *)
theory DriverRequests
  imports LiveRoute CashReceipts RouteEta TimeConstraint
begin

text \<open>
  What a driver reports and what it is checked against: the first half of driver/driver-event.repository.ts with the checks
  it calls from driver/driver-delivery-proof.ts, driver/driver-route-completion-invariant.ts,
  route-plans/route-execution-ownership.ts and route-tracking/route-tracking.event-window.ts.

  The tables are lists of rows in the order of insertion. Digests, the text of a result and the time zone data are
  parameters (\<open>runtime\<close>); identifiers and clocks are arguments.
\<close>

section \<open>Rows\<close>

datatype proof_code = DELIVERY_PROOF_REQUIRED | DELIVERY_PROOF_INVALID | DELIVERY_PROOF_APP_UPDATE_REQUIRED

datatype invariant_mode = OBSERVE | GUARDED | FULL

datatype invariant_decision = PERMITTED | REJECTED

record completion_evidence =
  ceDecision :: invariant_decision
  ceDriverContractVersion :: "int option"
  ceMode :: invariant_mode
  ceReceiptAware :: bool
  ceRouteVersionId :: string
  ceTotalStopCount :: nat
  ceUnresolvedStopCount :: nat
  ceWouldReject :: bool

datatype event_error =
    EventContext | EventScope | EventRouteNotInProgress
  | EventExecutionConflict string string
  | EventEtaStaleConflict | EventStopTransitionConflict | EventSellerOrderAssignmentChanged
  | EventRouteVersionMismatch | EventAssignmentChanged | EventAdmissionUnavailable
  | DestinationCompletionCollision
  | DeliveryProofRefused proof_code
  | CashCompletion cash_error
  | RouteCompletionIncomplete completion_evidence
  | UniqueConstraint
  | OtherError

type_synonym 'a outcome = "event_error + 'a"

record event_plan = plan_row +
  epName :: string
  epPlanDate :: int

record version_row = child_row +
  vrShopId :: string
  vrGroupingId :: string
  vrSnapshot :: json
  vrPublishedAt :: "int option"
  vrCreatedAt :: int

record event_order = live_order +
  eoName :: string
  eoDestinationId :: "string option"
  eoCurrentRouteVersionId :: "string option"
  eoAudits :: "(string \<times> constraint_audit) list"
  eoPayment :: order_row

record event_stop = stop_row +
  esCandidateId :: "string option"

record driver_event =
  evId :: string
  evShopId :: string
  evDriverId :: string
  evRoutePlanId :: "string option"
  evRouteVersionId :: "string option"
  evDeliveryStopId :: "string option"
  evClientEventId :: "string option"
  evCompletionOwnerAccountId :: "string option"
  evExpectedRouteVersionId :: "string option"
  evAssignmentGeneration :: "int option"
  evDriverContractVersion :: "int option"
  evEventType :: string
  evOccurredAt :: int
  evLatitude :: "string option"
  evLongitude :: "string option"
  evPayload :: json
  evCreatedAt :: int

record change_request =
  rqId :: string
  rqShopId :: string
  rqSellerOrderId :: string
  rqDeliveryStopId :: string
  rqRoutePlanId :: string
  rqRouteVersionId :: string
  rqDriverId :: "string option"
  rqType :: string
  rqStatus :: string
  rqTimeWindowStart :: "int option"
  rqTimeWindowEnd :: "int option"
  rqAppliedDriverEventId :: "string option"
  rqAppliedAt :: "int option"

record proof_media =
  pmId :: string
  pmKind :: string
  pmShopId :: string
  pmRoutePlanId :: string
  pmDeliveryStopId :: string
  pmDriverId :: string
  pmUploadStatus :: string
  pmDeletedAt :: "int option"
  pmSource :: string
  pmContentType :: string

record completion_review =
  rwAttemptId :: "string option"
  rwDriverEventId :: "string option"
  rwEvidence :: completion_evidence
  rwRetainedUntil :: int
  rwRoutePlanId :: string
  rwShopId :: string

record event_attempt =
  atId :: string
  atShopId :: string
  atDriverId :: string
  atClientEventId :: "string option"
  atAttemptNumber :: int
  atEventType :: "string option"
  atExpectedRouteVersionId :: "string option"
  atAssignmentGeneration :: "int option"
  atDriverContractVersion :: int
  atAppVersion :: "string option"
  atVersionCode :: "jsnum option"
  atOccurredAt :: "int option"
  atRoutePlanId :: "string option"
  atTransportRequestId :: "string option"
  atRetainedUntil :: int
  atStatus :: string
  atFailureStage :: "string option"
  atErrorCode :: "string option"
  atRetryable :: "bool option"
  atCommittedEventId :: "string option"
  atReconciledAt :: "int option"
  atReconciliationCode :: "string option"

record route_notification =
  rnRoutePlanId :: string
  rnShopId :: string
  rnGroupingId :: "string option"
  rnStatus :: string

record geometry_cache =
  gcRoutePlanId :: string
  gcGeneratedAt :: int
  gcStopPoints :: json

record event_db =
  edPlans :: "event_plan list"
  edShops :: "shop_row list"
  edDrivers :: "driver_row list"
  edAccounts :: "(string \<times> string) list"
  edVersions :: "version_row list"
  edOrders :: "event_order list"
  edStops :: "event_stop list"
  edPlanStops :: "plan_stop list"
  edStates :: "live_state list"
  edPublications :: "publication list"
  edEvents :: "driver_event list"
  edReceipts :: "completion_receipt list"
  edAttempts :: "event_attempt list"
  edReviews :: "completion_review list"
  edRequests :: "change_request list"
  edMedia :: "proof_media list"
  edNotifications :: "route_notification list"
  edCaches :: "geometry_cache list"

text \<open>The columns that live-route-change.ts reads.\<close>

definition liveView :: "event_db \<Rightarrow> live_db" where
  "liveView db =
     \<lparr>dbPlans = map plan_row.truncate (edPlans db), dbShops = edShops db, dbDrivers = edDrivers db,
      dbAccounts = edAccounts db, dbChildren = map child_row.truncate (edVersions db),
      dbOrders = map live_order.truncate (edOrders db), dbStops = map stop_row.truncate (edStops db),
      dbPlanStops = edPlanStops db, dbFacts = [], dbGeometry = [], dbStates = edStates db,
      dbPublications = edPublications db, dbReceipts = []\<rparr>"

fun stopStatusText :: "stop_status \<Rightarrow> string" where
  "stopStatusText PENDING = ''PENDING''"
| "stopStatusText ASSIGNED = ''ASSIGNED''"
| "stopStatusText EN_ROUTE = ''EN_ROUTE''"
| "stopStatusText ARRIVED = ''ARRIVED''"
| "stopStatusText DELIVERED = ''DELIVERED''"
| "stopStatusText FAILED = ''FAILED''"
| "stopStatusText SKIPPED = ''SKIPPED''"
| "stopStatusText CANCELLED = ''CANCELLED''"

text \<open>The columns that driver-completion.ts reads.\<close>

definition stopRoutes :: "event_db \<Rightarrow> event_stop \<Rightarrow> (string \<times> string option) list" where
  "stopRoutes db stop =
     List.map_filter (\<lambda>row.
         if psDeliveryStopId row = srId stop \<and> psShopId row = srShopId stop
         then map_option (\<lambda>p. (plId p, plDriverId p))
                (List.find (\<lambda>p. plId p = psRoutePlanId row \<and> plShopId p = psShopId row) (edPlans db))
         else None) (edPlanStops db)"

definition cashView :: "event_db \<Rightarrow> cash_db" where
  "cashView db =
     \<lparr>cdShops = [], cdRoutes = [],
      cdStops = map (\<lambda>s. \<lparr>dsId = srId s, dsShopId = srShopId s, dsOrderId = srOrderId s,
                          dsStatus = stopStatusText (srStatus s), dsRoutes = stopRoutes db s\<rparr>) (edStops db),
      cdOrders = map (\<lambda>r. (orId r, eoPayment r)) (edOrders db), cdReceipts = edReceipts db, cdSettlements = []\<rparr>"

section \<open>Requests\<close>

text \<open>\<^verbatim>\<open>attemptId\<close>: undefined, null or the identifier of an attempt that is admitted already.\<close>

datatype attempt_choice = AdmitAttempt | NoAttempt | GivenAttempt string

record driver_input = event_input +
  inCompletionOwnerAccountId :: "string option"
  inChangeRequestId :: "string option"
  inVersionCode :: "jsnum option"
  inAppVersion :: "string option"
  inRequestId :: "string option"
  inAttempt :: attempt_choice

record stop_deviation =
  sdExpectedDeliveryStopId :: string
  sdExpectedSequence :: int
  sdSelectedDeliveryStopId :: string
  sdSelectedSequence :: int

record record_result =
  rrDuplicate :: bool
  rrEtaSnapshot :: "eta_snapshot option"
  rrEtaUpdate :: "eta_update option"
  rrEventId :: string
  rrTrackingPositionAccepted :: bool
  rrSequenceDeviation :: "stop_deviation option"

text \<open>
  Four calls of a recorded event write tables of their own, which nothing here reads: the stored geometry of a position, the
  execution and the notifications of the dispatch office, and the emails to customers. What they answer is part of the runtime:
  they may refuse, and then the whole event is rolled back.
\<close>

datatype other_write = TrackingGeometry | DispatchExecution | StopNotifications | CustomerEmails

record runtime =
  rtContentDigest :: "live_content \<Rightarrow> string"
  rtRequestDigest :: "json \<Rightarrow> string"
  rtNoteDigest :: "string \<Rightarrow> string"
  rtResultText :: "record_result \<Rightarrow> (string \<times> json) list"
  rtKnownZone :: "string \<Rightarrow> bool"
  rtWallClock :: "string \<Rightarrow> int \<Rightarrow> int"
  rtEnv :: demo_env
  rtCompletionMode :: invariant_mode
  rtRouteVersionColumn :: bool
  rtEtaOwnershipColumns :: bool
  rtAttemptRetentionDays :: int
  rtReviewRetentionDays :: int
  rtOther :: "other_write \<Rightarrow> event_db \<Rightarrow> driver_input \<Rightarrow> string \<Rightarrow> unit outcome"

record moment =
  moNow :: int
  moCreatedAt :: int
  moEventId :: string
  moReceiptId :: string

definition isVersionedOrderedEvent :: "driver_input \<Rightarrow> bool" where
  "isVersionedOrderedEvent inp =
     ((case eiDriverContractVersion inp of None \<Rightarrow> False | Some v \<Rightarrow> 2 \<le> v) \<and> eiEventType inp \<noteq> ''LOCATION_UPDATED'')"

definition requireClientEventId :: "driver_input \<Rightarrow> string outcome" where
  "requireClientEventId inp = (case eiClientEventId inp of None \<Rightarrow> Inl EventContext | Some v \<Rightarrow> Inr v)"

definition requireExpectedRouteVersionId :: "driver_input \<Rightarrow> string outcome" where
  "requireExpectedRouteVersionId inp = (case eiExpectedRouteVersionId inp of None \<Rightarrow> Inl EventContext | Some v \<Rightarrow> Inr v)"

text \<open>\<^verbatim>\<open>/^[1-9]\d*$/u\<close>, at most the largest 64-bit integer.\<close>

definition requireAssignmentGeneration :: "driver_input \<Rightarrow> string outcome" where
  "requireAssignmentGeneration inp =
     (case eiAssignmentGeneration inp of
        None \<Rightarrow> Inl EventContext
      | Some v \<Rightarrow>
          refuse (v = [] \<or> \<not> list_all is_digit v \<or> hd v = CHR ''0'') EventContext
            (refuse (9223372036854775807 < digits_val v) EventContext (Inr v)))"

definition requireText :: "string option \<Rightarrow> string outcome" where
  "requireText v = (case v of None \<Rightarrow> Inl EventContext | Some s \<Rightarrow> refuse (js_trim s = []) EventContext (Inr s))"

definition requireRoutePlanId :: "driver_input \<Rightarrow> string outcome" where
  "requireRoutePlanId inp = requireText (eiRoutePlanId inp)"

definition requireDeliveryStopId :: "driver_input \<Rightarrow> string outcome" where
  "requireDeliveryStopId inp = requireText (eiDeliveryStopId inp)"

definition requireChangeRequestId :: "driver_input \<Rightarrow> string outcome" where
  "requireChangeRequestId inp =
     (case map_option js_trim (inChangeRequestId inp) of
        None \<Rightarrow> Inl EventContext | Some s \<Rightarrow> refuse (s = []) EventContext (Inr s))"

section \<open>Events that are recorded already\<close>

text \<open>\<^verbatim>\<open>===\<close> on untyped values: two objects are never the same object here.\<close>

definition strictEq :: "json \<Rightarrow> json \<Rightarrow> bool" where
  "strictEq a b = (case a of JObj _ \<Rightarrow> False | JArr _ \<Rightarrow> False | JNum NaN \<Rightarrow> False | _ \<Rightarrow> a = b)"

definition stringArraysEqual :: "json \<Rightarrow> json \<Rightarrow> bool" where
  "stringArraysEqual left right =
     (case (left, right) of
        (JArr ls, JArr rs) \<Rightarrow>
          length ls = length rs \<and> list_all (\<lambda>(l, r). (case l of JStr _ \<Rightarrow> True | _ \<Rightarrow> False) \<and> l = r) (zip ls rs)
      | _ \<Rightarrow> False)"

definition isReturnNavigationCompletionAck :: "driver_event \<Rightarrow> driver_input \<Rightarrow> bool" where
  "isReturnNavigationCompletionAck ev inp =
     (eiShopDomain inp = KFOOD_DELIVERY_SHOP_DOMAIN \<and> eiEventType inp = ''ROUTE_COMPLETED''
      \<and> evEventType ev = ''NOTE_ADDED'' \<and> is_record (evPayload ev)
      \<and> jget (evPayload ev) ''schema'' = JStr ''kfood_return_navigation_completion_ack_v1''
      \<and> jget (evPayload ev) ''requestedEventType'' = JStr ''ROUTE_COMPLETED'')"

definition driverEventPayloadChangeRequestId :: "json \<Rightarrow> string option" where
  "driverEventPayloadChangeRequestId payload = (case jget payload ''changeRequestId'' of JStr s \<Rightarrow> Some s | _ \<Rightarrow> None)"

definition destinationCompletionDuplicateMatches :: "driver_event \<Rightarrow> driver_input \<Rightarrow> bool" where
  "destinationCompletionDuplicateMatches ev inp =
     (let stored = evPayload ev; expected = eiPayload inp
      in evCompletionOwnerAccountId ev = inCompletionOwnerAccountId inp
         \<and> evOccurredAt ev = eiOccurredAt inp
         \<and> is_record stored \<and> is_record expected
         \<and> jget expected ''routePlanId'' = jOpt JStr (eiRoutePlanId inp)
         \<and> jget expected ''occurredAt'' = JStr (toISOString (eiOccurredAt inp))
         \<and> (case (jget expected ''clientEventId'', eiDeliveryStopId inp, jget expected ''deliveryStopIds'') of
              (JStr c, Some stop, JArr ids) \<Rightarrow>
                eiClientEventId inp = Some (c @ '':'' @ stop) \<and> JStr stop \<in> set ids
            | _ \<Rightarrow> False)
         \<and> strictEq (jget stored ''clientEventId'') (jget expected ''clientEventId'')
         \<and> strictEq (jget stored ''destinationId'') (jget expected ''destinationId'')
         \<and> strictEq (jget stored ''occurredAt'') (jget expected ''occurredAt'')
         \<and> strictEq (jget stored ''routePlanId'') (jget expected ''routePlanId'')
         \<and> stringArraysEqual (jget stored ''deliveryStopIds'') (jget expected ''deliveryStopIds''))"

definition driverEventContextMatchesInput :: "driver_event \<Rightarrow> driver_input \<Rightarrow> bool" where
  "driverEventContextMatchesInput ev inp =
     ((evEventType ev = eiEventType inp \<or> isReturnNavigationCompletionAck ev inp)
      \<and> evRoutePlanId ev = eiRoutePlanId inp \<and> evDeliveryStopId ev = eiDeliveryStopId inp
      \<and> (if inCompletionOwnerAccountId inp \<noteq> None then destinationCompletionDuplicateMatches ev inp
         else eiEventType inp \<noteq> ''DISPATCH_CHANGE_ACKNOWLEDGED''
              \<or> driverEventPayloadChangeRequestId (evPayload ev) = inChangeRequestId inp))"

definition duplicateDriverEventMismatchError :: "driver_input \<Rightarrow> event_error" where
  "duplicateDriverEventMismatchError inp =
     (if inCompletionOwnerAccountId inp \<noteq> None then DestinationCompletionCollision else EventContext)"

definition eventOfClient :: "event_db \<Rightarrow> string \<Rightarrow> string \<Rightarrow> driver_event option" where
  "eventOfClient db driver cid =
     List.find (\<lambda>e. evDriverId e = driver \<and> evClientEventId e = Some cid) (edEvents db)"

text \<open>\<^verbatim>\<open>orderBy: { column: 'asc' }\<close> with \<^verbatim>\<open>findFirst\<close>\<close>

definition earliest :: "('a \<Rightarrow> int) \<Rightarrow> 'a list \<Rightarrow> 'a option" where
  "earliest key xs =
     (case sort_by (\<lambda>a b. compare_int (key a) (key b)) xs of [] \<Rightarrow> None | x # _ \<Rightarrow> Some x)"

definition firstPickup :: "event_db \<Rightarrow> driver_input \<Rightarrow> driver_event option outcome" where
  "firstPickup db inp =
     attempt (requireRoutePlanId inp) (\<lambda>plan.
       Inr (earliest evCreatedAt
         (filter (\<lambda>e. evDriverId e = eiDriverId inp \<and> evEventType e = ''PICKUP_COMPLETED'' \<and> evRoutePlanId e = Some plan)
            (edEvents db))))"

definition matchingClientEvent :: "event_db \<Rightarrow> driver_input \<Rightarrow> driver_event option outcome" where
  "matchingClientEvent db inp =
     (case Option.bind (eiClientEventId inp) (eventOfClient db (eiDriverId inp)) of
        None \<Rightarrow> Inr None
      | Some ev \<Rightarrow>
          refuse (\<not> driverEventContextMatchesInput ev inp) (duplicateDriverEventMismatchError inp) (Inr (Some ev)))"

definition findMatchingDriverEvent :: "event_db \<Rightarrow> driver_input \<Rightarrow> driver_event option outcome" where
  "findMatchingDriverEvent db inp =
     (if eiEventType inp = ''PICKUP_COMPLETED''
      then attempt (matchingClientEvent db inp) (\<lambda>known. if known \<noteq> None then Inr known else firstPickup db inp)
      else if eiEventType inp = ''STOP_ARRIVED''
      then attempt (requireDeliveryStopId inp) (\<lambda>stop.
           attempt (requireRoutePlanId inp) (\<lambda>plan.
             Inr (List.find (\<lambda>e. evDeliveryStopId e = Some stop \<and> evDriverId e = eiDriverId inp
                    \<and> evEventType e = ''STOP_ARRIVED'' \<and> evRoutePlanId e = Some plan) (edEvents db))))
      else if eiEventType inp \<in> set [''TIME_CONSTRAINT_ACKNOWLEDGED'', ''DISPATCH_CHANGE_ACKNOWLEDGED'', ''ROUTE_COMPLETED'',
             ''ROUTE_PAUSED'', ''STOP_DELIVERED'', ''STOP_FAILED'']
      then matchingClientEvent db inp
      else Inr None)"

definition findDuplicateDriverEventAfterUniqueConstraint :: "event_db \<Rightarrow> driver_input \<Rightarrow> driver_event option outcome" where
  "findDuplicateDriverEventAfterUniqueConstraint db inp =
     (if eiClientEventId inp = None then Inr None
      else attempt (matchingClientEvent db inp) (\<lambda>known.
             if known \<noteq> None then Inr known
             else if eiEventType inp \<noteq> ''PICKUP_COMPLETED'' then Inr None
             else firstPickup db inp))"

section \<open>The route and the version a request names\<close>

definition lockedEventTypes :: "string list" where
  "lockedEventTypes =
     [''ROUTE_STARTED'', ''PICKUP_COMPLETED'', ''STOP_ARRIVED'', ''STOP_DELIVERED'', ''STOP_FAILED'', ''LOCATION_UPDATED'',
      ''ROUTE_COMPLETED'', ''ROUTE_PAUSED'']"

definition planOf :: "event_db \<Rightarrow> string \<Rightarrow> string \<Rightarrow> event_plan option" where
  "planOf db plan shop = List.find (\<lambda>p. plId p = plan \<and> plShopId p = shop) (edPlans db)"

definition lockRoutePlanForSerializedEvent :: "event_db \<Rightarrow> driver_input \<Rightarrow> unit outcome" where
  "lockRoutePlanForSerializedEvent db inp =
     (if eiEventType inp \<notin> set lockedEventTypes then Inr ()
      else attempt (requireRoutePlanId inp) (\<lambda>plan.
             refuse (planOf db plan (eiShopId inp) = None) EventAssignmentChanged (Inr ())))"

definition currentVersions :: "event_db \<Rightarrow> string \<Rightarrow> string \<Rightarrow> version_row list" where
  "currentVersions db plan shop =
     filter (\<lambda>v. chRoutePlanId v = plan \<and> vrShopId v = shop \<and> chStatus v = ''CURRENT'' \<and> chSupersededAt v = None) (edVersions db)"

definition loadCurrentRouteVersionId :: "event_db \<Rightarrow> string \<Rightarrow> string \<Rightarrow> string option outcome" where
  "loadCurrentRouteVersionId db plan shop =
     (case currentVersions db plan shop of
        [] \<Rightarrow> Inr None
      | [v] \<Rightarrow> Inr (Some (chId v))
      | _ \<Rightarrow> Inl EventRouteVersionMismatch)"

definition loadCurrentRouteVersionIdForDriverEvent :: "runtime \<Rightarrow> event_db \<Rightarrow> string \<Rightarrow> string \<Rightarrow> string option outcome" where
  "loadCurrentRouteVersionIdForDriverEvent rt db plan shop =
     (if rtRouteVersionColumn rt then loadCurrentRouteVersionId db plan shop else Inr None)"

definition loadCurrentRouteVersionIdForEta :: "runtime \<Rightarrow> event_db \<Rightarrow> string \<Rightarrow> string \<Rightarrow> string option outcome" where
  "loadCurrentRouteVersionIdForEta rt db plan shop =
     (if rtEtaOwnershipColumns rt then loadCurrentRouteVersionId db plan shop else Inr None)"

definition isOrderOnlyReorderSnapshot :: "json \<Rightarrow> string \<Rightarrow> bool" where
  "isOrderOnlyReorderSnapshot snapshot generation =
     (let marker = jget snapshot ''reorderCompatibility''
      in is_record snapshot \<and> is_record marker \<and> jget marker ''assignmentGeneration'' = JStr generation)"

text \<open>
  The text of the sorted list of the three identifiers of every stop is compared for equality only: it identifies their
  multiset.
\<close>

fun reorderTuples :: "json list \<Rightarrow> (string \<times> string \<times> string) list option" where
  "reorderTuples [] = Some []"
| "reorderTuples (stop # stops) =
     (case (jget stop ''deliveryStopId'', jget stop ''orderId'', jget stop ''sourceOrderId'') of
        (JStr d, JStr q, JStr s) \<Rightarrow> map_option ((#) (d, q, s)) (reorderTuples stops)
      | _ \<Rightarrow> None)"

definition reorderSnapshotMembership :: "json \<Rightarrow> (string \<times> string \<times> string) multiset option" where
  "reorderSnapshotMembership snapshot =
     (case jget snapshot ''stops'' of
        JArr stops \<Rightarrow>
          (case reorderTuples stops of
             None \<Rightarrow> None
           | Some tuples \<Rightarrow>
               if distinct (map fst tuples) \<and> distinct (map (fst \<circ> snd) tuples) \<and> tuples \<noteq> [] then Some (mset tuples) else None)
      | _ \<Rightarrow> None)"

text \<open>
  The walk from the current version to the versions it was reordered from. None is the early \<^verbatim>\<open>return []\<close>. Every round adds
  an identifier of \<open>byId\<close> to \<open>seen\<close>.
\<close>

function reorderWalk ::
  "(string \<times> json) list \<Rightarrow> (string \<times> string \<times> string) multiset \<Rightarrow> string \<Rightarrow> string list \<Rightarrow> json \<Rightarrow> string list option" where
  "reorderWalk byId members generation seen cursor =
     (if \<not> isOrderOnlyReorderSnapshot cursor generation then Some []
      else case jget cursor ''predecessorChildVersionId'' of
             JStr predecessorId \<Rightarrow>
               (if predecessorId \<in> set seen \<or> \<not> is_hex_uuid predecessorId then None
                else case map_of byId predecessorId of
                       None \<Rightarrow> None
                     | Some predecessor \<Rightarrow>
                         (if reorderSnapshotMembership predecessor \<noteq> Some members then None
                          else map_option ((#) predecessorId)
                                 (reorderWalk byId members generation (predecessorId # seen) predecessor)))
           | _ \<Rightarrow> None)"
  by pat_completeness auto

lemma unseen_decreases:
  assumes "map_of byId p = Some x" "p \<notin> set seen"
  shows "card (set (map fst byId) - insert p (set seen)) < card (set (map fst byId) - set seen)"
proof (rule psubset_card_mono)
  have "p \<in> set (map fst byId)" using assms(1) by (metis domI dom_map_of_conv_image_fst set_map)
  then show "set (map fst byId) - insert p (set seen) \<subset> set (map fst byId) - set seen" using assms(2) by auto
qed simp

termination reorderWalk
  by (relation "measure (\<lambda>(byId, _, _, seen, _). card (set (map fst byId) - set seen))")
     (simp_all add: unseen_decreases del: set_map)

definition newestVersions :: "version_row \<Rightarrow> version_row \<Rightarrow> int" where
  "newestVersions a b = or_else (compare_int (vrCreatedAt b) (vrCreatedAt a)) (compare_text (chId b) (chId a))"

definition reorderPredecessors :: "event_db \<Rightarrow> string \<Rightarrow> string \<Rightarrow> string \<Rightarrow> string \<Rightarrow> version_row list" where
  "reorderPredecessors db driver plan shop grouping =
     take 128 (sort_by newestVersions
       (filter (\<lambda>v. chDriverId v = Some driver \<and> chRoutePlanId v = plan \<and> vrShopId v = shop \<and> vrGroupingId v = grouping
          \<and> chStatus v = ''ARCHIVED'' \<and> chSupersededAt v \<noteq> None) (edVersions db)))"

definition loadCompatibleReorderVersions ::
  "event_db \<Rightarrow> string \<Rightarrow> string \<Rightarrow> string \<Rightarrow> string option \<Rightarrow> string list" where
  "loadCompatibleReorderVersions db driver plan shop current =
     (case current of
        None \<Rightarrow> []
      | Some cur \<Rightarrow>
          (case List.find (\<lambda>v. chId v = cur \<and> chDriverId v = Some driver) (currentVersions db plan shop) of
             None \<Rightarrow> []
           | Some version \<Rightarrow>
               (case planOf db plan shop of
                  None \<Rightarrow> []
                | Some route \<Rightarrow>
                    if plDriverId route \<noteq> Some driver \<or> plStatus route \<noteq> ''IN_PROGRESS'' then []
                    else let snapshot = vrSnapshot version; generation = bigIntText (plAssignmentGeneration route)
                         in if \<not> isOrderOnlyReorderSnapshot snapshot generation then []
                            else case reorderSnapshotMembership snapshot of
                                   None \<Rightarrow> []
                                 | Some members \<Rightarrow>
                                     coalesce_def_value
                                       (reorderWalk (map (\<lambda>v. (chId v, vrSnapshot v))
                                            (reorderPredecessors db driver plan shop (vrGroupingId version)))
                                          members generation [cur] snapshot) [])))"

definition reorderableEventTypes :: "string list" where
  "reorderableEventTypes =
     [''PICKUP_COMPLETED'', ''STOP_ARRIVED'', ''STOP_DELIVERED'', ''STOP_FAILED'', ''ROUTE_PAUSED'', ''ROUTE_COMPLETED'']"

fun liveRefusal :: "live_error \<Rightarrow> event_error" where
  "liveRefusal ASSIGNMENT_CHANGED = EventAssignmentChanged"
| "liveRefusal NOT_FOUND = EventAssignmentChanged"
| "liveRefusal UNIQUE_VIOLATION = OtherError"
| "liveRefusal ROW_NOT_FOUND = OtherError"
| "liveRefusal INVALID_DATE = OtherError"
| "liveRefusal _ = EventRouteVersionMismatch"

definition orElse :: "('e \<Rightarrow> 'f) \<Rightarrow> 'e + 'a \<Rightarrow> 'f + 'a" where
  "orElse f r = (case r of Inl e \<Rightarrow> Inl (f e) | Inr x \<Rightarrow> Inr x)"

definition validateVersionedOrderedContract :: "runtime \<Rightarrow> event_db \<Rightarrow> driver_input \<Rightarrow> int \<Rightarrow> unit outcome" where
  "validateVersionedOrderedContract rt db inp now =
     (if \<not> isVersionedOrderedEvent inp then Inr ()
      else attempt (requireRoutePlanId inp) (\<lambda>plan.
        case planOf db plan (eiShopId inp) of
          None \<Rightarrow> Inl EventAssignmentChanged
        | Some route \<Rightarrow>
            refuse (plDriverId route \<noteq> Some (eiDriverId inp)) EventAssignmentChanged
              (attempt (requireAssignmentGeneration inp) (\<lambda>generation.
               refuse (bigIntText (plAssignmentGeneration route) \<noteq> generation) EventAssignmentChanged
                 (attempt (requireExpectedRouteVersionId inp) (\<lambda>expected.
                  attempt (orElse liveRefusal
                    (validateLiveRouteEvent (rtContentDigest rt) (rtEnv rt) (liveView db)
                       \<lparr>diIdentity = \<lparr>idShopId = eiShopId inp, idRoutePlanId = plan\<rparr>, diDriverId = eiDriverId inp,
                        diAccountId = None, diAssignmentGeneration = Some generation\<rparr>
                       expected (eiEventType inp) (eiDeliveryStopId inp) now)) (\<lambda>live.
                  if live then Inr ()
                  else attempt (loadCurrentRouteVersionId db plan (eiShopId inp)) (\<lambda>current.
                    refuse (current \<noteq> Some expected
                        \<and> (eiEventType inp \<notin> set reorderableEventTypes \<or> current = None
                           \<or> expected \<notin> set (loadCompatibleReorderVersions db (eiDriverId inp) plan (eiShopId inp) current)))
                      EventRouteVersionMismatch (Inr ())))))))))"

section \<open>Ownership of the route\<close>

definition completedRoute :: "event_db \<Rightarrow> event_plan \<Rightarrow> bool" where
  "completedRoute db route =
     list_ex (\<lambda>e. evRoutePlanId e = Some (plId route) \<and> evShopId e = plShopId route \<and> evEventType e = ''ROUTE_COMPLETED'')
       (edEvents db)"

definition ROUTE_READY_COMPATIBILITY_STATUSES :: "string list" where
  "ROUTE_READY_COMPATIBILITY_STATUSES = [''READY'', ''DRAFT'', ''PUBLISHED'', ''OPTIMIZED'', ''ASSIGNED'']"

definition ROUTE_ACTIVE_COMPATIBILITY_STATUSES :: "string list" where
  "ROUTE_ACTIVE_COMPATIBILITY_STATUSES = [''IN_PROGRESS'', ''READY'', ''DRAFT'', ''PUBLISHED'', ''OPTIMIZED'', ''ASSIGNED'']"

definition ownedActiveRoute :: "event_db \<Rightarrow> string \<Rightarrow> string \<Rightarrow> string \<Rightarrow> event_plan option" where
  "ownedActiveRoute db driver plan shop =
     List.find (\<lambda>p. plDriverId p = Some driver \<and> \<not> completedRoute db p \<and> plId p = plan \<and> plShopId p = shop
       \<and> plStatus p \<in> set ROUTE_ACTIVE_COMPATIBILITY_STATUSES) (edPlans db)"

text \<open>The completion columns are selected for the one shop that uses them.\<close>

definition workCompleted :: "driver_input \<Rightarrow> event_plan \<Rightarrow> bool" where
  "workCompleted inp route =
     (eiShopDomain inp = KFOOD_DELIVERY_SHOP_DOMAIN \<and> hasDeliveryWorkCompleted (completionRecord (plan_row.truncate route)))"

definition graceExpired :: "driver_input \<Rightarrow> event_plan \<Rightarrow> int \<Rightarrow> bool" where
  "graceExpired inp route now =
     (eiShopDomain inp = KFOOD_DELIVERY_SHOP_DOMAIN
      \<and> hasDeliveryNavigationGraceExpired (completionRecord (plan_row.truncate route)) now)"

definition eventOfRoute :: "event_db \<Rightarrow> event_plan \<Rightarrow> string \<Rightarrow> bool" where
  "eventOfRoute db route type =
     list_ex (\<lambda>e. evRoutePlanId e = Some (plId route) \<and> evShopId e = plShopId route \<and> evEventType e = type) (edEvents db)"

text \<open>A route that has its stops reserved for execution.\<close>

definition holdsDispatch :: "event_db \<Rightarrow> event_plan \<Rightarrow> bool" where
  "holdsDispatch db r =
     (plStatus r \<notin> set [''COMPLETED'', ''INCOMPLETE'', ''CANCELLED''] \<and> \<not> completedRoute db r
      \<and> (plStatus r = ''IN_PROGRESS''
         \<or> jget (plConstraints r) ''cleverDispatchReservedAt'' \<notin> {JUndefined, JNull}
         \<or> eventOfRoute db r ''ROUTE_STARTED'' \<and> \<not> eventOfRoute db r ''ROUTE_PAUSED''
         \<or> list_ex (\<lambda>v. vrPublishedAt v \<noteq> None) (currentVersions db (plId r) (plShopId r))
         \<or> list_ex (\<lambda>n. rnRoutePlanId n = plId r \<and> rnShopId n = plShopId r \<and> rnGroupingId n = None
              \<and> rnStatus n \<in> set [''PENDING'', ''SENT'', ''FAILED'']) (edNotifications db)))"

record dispatch_conflict =
  dcDeliveryStopId :: string
  dcOrderId :: string
  dcOrderName :: string
  dcRoutePlanId :: string
  dcRouteName :: string

definition conflictOf :: "event_db \<Rightarrow> string list \<Rightarrow> string \<Rightarrow> string \<Rightarrow> plan_stop \<Rightarrow> dispatch_conflict option" where
  "conflictOf db stopIds plan shop row =
     (case (planOf db (psRoutePlanId row) (psShopId row),
            List.find (\<lambda>s. srId s = psDeliveryStopId row \<and> srShopId s = psShopId row) (edStops db)) of
        (Some r, Some d) \<Rightarrow>
          (case List.find (\<lambda>q. orId q = srOrderId d \<and> orShopId q = srShopId d) (edOrders db) of
             None \<Rightarrow> None
           | Some q \<Rightarrow>
               if plShopId r = shop \<and> plId r \<noteq> plan \<and> psDeliveryStopId row \<in> set stopIds \<and> holdsDispatch db r
               then Some \<lparr>dcDeliveryStopId = psDeliveryStopId row, dcOrderId = orId q, dcOrderName = eoName q,
                          dcRoutePlanId = plId r, dcRouteName = epName r\<rparr>
               else None)
      | _ \<Rightarrow> None)"

definition conflictOrder :: "dispatch_conflict \<Rightarrow> dispatch_conflict \<Rightarrow> int" where
  "conflictOrder a b =
     or_else (compare_text (dcOrderName a) (dcOrderName b))
       (or_else (compare_text (dcRouteName a) (dcRouteName b)) (compare_text (dcRoutePlanId a) (dcRoutePlanId b)))"

definition assertRouteDispatchOwnership :: "event_db \<Rightarrow> string list \<Rightarrow> string \<Rightarrow> string \<Rightarrow> unit outcome" where
  "assertRouteDispatchOwnership db deliveryStopIds plan shop =
     (case sort_by conflictOrder (set_order (List.map_filter (conflictOf db deliveryStopIds plan shop) (edPlanStops db))) of
        [] \<Rightarrow> Inr ()
      | c # _ \<Rightarrow> Inl (EventExecutionConflict (dcRoutePlanId c) (dcDeliveryStopId c)))"

definition requireStartableOwnedRoutePlan :: "event_db \<Rightarrow> driver_input \<Rightarrow> string \<Rightarrow> unit outcome" where
  "requireStartableOwnedRoutePlan db inp plan =
     (case ownedActiveRoute db (eiDriverId inp) plan (eiShopId inp) of
        None \<Rightarrow> Inl EventScope
      | Some route \<Rightarrow>
          refuse (workCompleted inp route) EventScope
            (assertRouteDispatchOwnership db
               (map psDeliveryStopId (filter (\<lambda>s. psRoutePlanId s = plan) (edPlanStops db))) plan (eiShopId inp)))"

definition requireOwnedRoutePlan :: "event_db \<Rightarrow> driver_input \<Rightarrow> string \<Rightarrow> event_plan outcome" where
  "requireOwnedRoutePlan db inp plan =
     (case ownedActiveRoute db (eiDriverId inp) plan (eiShopId inp) of None \<Rightarrow> Inl EventScope | Some route \<Rightarrow> Inr route)"

definition ownedPlanStop :: "event_db \<Rightarrow> driver_input \<Rightarrow> string \<Rightarrow> string \<Rightarrow> plan_stop option" where
  "ownedPlanStop db inp plan stop =
     List.find (\<lambda>s. psDeliveryStopId s = stop \<and> psRoutePlanId s = plan
       \<and> (case planOf db plan (psShopId s) of
            None \<Rightarrow> False | Some r \<Rightarrow> plDriverId r = Some (eiDriverId inp) \<and> plShopId r = eiShopId inp)) (edPlanStops db)"

definition requireOwnedRoutePlanStop :: "event_db \<Rightarrow> driver_input \<Rightarrow> string \<Rightarrow> string \<Rightarrow> unit outcome" where
  "requireOwnedRoutePlanStop db inp plan stop =
     refuse (ownedPlanStop db inp plan stop = None) EventScope (Inr ())"

section \<open>Acknowledgements\<close>

definition stopOf :: "event_db \<Rightarrow> string \<Rightarrow> string \<Rightarrow> event_stop option" where
  "stopOf db stop shop = List.find (\<lambda>s. srId s = stop \<and> srShopId s = shop) (edStops db)"

definition orderOf :: "event_db \<Rightarrow> string \<Rightarrow> string \<Rightarrow> event_order option" where
  "orderOf db order shop = List.find (\<lambda>q. orId q = order \<and> orShopId q = shop) (edOrders db)"

definition versionOf :: "event_db \<Rightarrow> string \<Rightarrow> version_row option" where
  "versionOf db k = List.find (\<lambda>v. chId v = k) (edVersions db)"

definition newestAudits :: "constraint_audit \<Rightarrow> constraint_audit \<Rightarrow> int" where
  "newestAudits a b = or_else (compare_int (auOccurredAt b) (auOccurredAt a)) (compare_text (auId b) (auId a))"

definition constraintInput :: "event_db \<Rightarrow> event_stop \<Rightarrow> event_order \<Rightarrow> string \<Rightarrow> constraint_input" where
  "constraintInput db stop order shop =
     \<lparr>ciAudits = sort_by newestAudits (map snd (filter (\<lambda>(sh, a). sh = shop \<and> auEventType a \<in> set dsvTimeConstraintAuditEvents)
          (eoAudits order))),
      ciVersionCreatedAt = map_option vrCreatedAt (Option.bind (eoCurrentRouteVersionId order) (versionOf db)),
      ciVersionId = eoCurrentRouteVersionId order, ciRawNote = instructions (srText stop),
      ciTimeWindowEnd = map_option TimeDate (srTimeWindowEnd stop),
      ciTimeWindowStart = map_option TimeDate (srTimeWindowStart stop)\<rparr>"

definition requireOwnedConfirmedTimeConstraintStop ::
  "runtime \<Rightarrow> event_db \<Rightarrow> driver_input \<Rightarrow> string \<Rightarrow> string \<Rightarrow> unit outcome" where
  "requireOwnedConfirmedTimeConstraintStop rt db inp plan stopId =
     refuse (ownedPlanStop db inp plan stopId = None) EventScope
       (if list_ex (\<lambda>q. rqDeliveryStopId q = stopId \<and> rqRoutePlanId q = plan \<and> rqShopId q = eiShopId inp
             \<and> rqStatus q = ''PENDING_ACK'' \<and> rqType q = ''TIME_CONSTRAINT_CHANGE'') (edRequests db)
        then Inr ()
        else case stopOf db stopId (eiShopId inp) of
               None \<Rightarrow> Inl OtherError
             | Some stop \<Rightarrow>
                 (case orderOf db (srOrderId stop) (eiShopId inp) of
                    None \<Rightarrow> Inl OtherError
                  | Some order \<Rightarrow>
                      (let state = deriveDsvTimeConstraintState (rtNoteDigest rt) (constraintInput db stop order (eiShopId inp))
                       in refuse (tsReviewStatus state \<noteq> REVIEW_CONFIRMED \<or> tsTimeConstraint state = None) EventContext
                            (Inr ()))))"

definition requireOwnedDispatchChangeRequest :: "event_db \<Rightarrow> driver_input \<Rightarrow> string \<Rightarrow> string \<Rightarrow> unit outcome" where
  "requireOwnedDispatchChangeRequest db inp plan request =
     refuse (\<not> list_ex (\<lambda>q. rqId q = request \<and> rqRoutePlanId q = plan \<and> rqShopId q = eiShopId inp \<and> rqStatus q = ''PENDING_ACK''
           \<and> (rqDriverId q = Some (eiDriverId inp) \<or> rqDriverId q = None)) (edRequests db))
       EventScope (Inr ())"

text \<open>The change that is acknowledged, on the rows of its stop.\<close>

definition applyChange :: "event_db \<Rightarrow> string \<Rightarrow> string \<Rightarrow> change_request \<Rightarrow> event_db outcome" where
  "applyChange db shop plan request =
     (if rqType request = ''TIME_CONSTRAINT_CHANGE''
      then refuse (stopOf db (rqDeliveryStopId request) shop = None) EventContext
             (Inr (db\<lparr>edStops := map (\<lambda>s. if srId s = rqDeliveryStopId request \<and> srShopId s = shop
                 then s\<lparr>srTimeWindowEnd := rqTimeWindowEnd request, srTimeWindowStart := rqTimeWindowStart request\<rparr>
                 else s) (edStops db)\<rparr>))
      else if rqType request = ''ACTIVE_ROUTE_ORDER_REMOVAL''
      then Inl (EventExecutionConflict plan (rqDeliveryStopId request))
      else Inr db)"

definition applyDispatchChangeRequestAck :: "event_db \<Rightarrow> driver_input \<Rightarrow> string \<Rightarrow> int \<Rightarrow> event_db outcome" where
  "applyDispatchChangeRequestAck db inp driverEventId appliedAt =
     (if eiEventType inp \<noteq> ''DISPATCH_CHANGE_ACKNOWLEDGED'' then Inr db
      else attempt (requireRoutePlanId inp) (\<lambda>plan.
           attempt (requireChangeRequestId inp) (\<lambda>requestId.
           case List.find (\<lambda>q. rqId q = requestId \<and> rqRoutePlanId q = plan \<and> rqShopId q = eiShopId inp
                  \<and> rqStatus q = ''PENDING_ACK'') (edRequests db) of
             None \<Rightarrow> Inl EventContext
           | Some request \<Rightarrow>
               refuse (Option.bind (orderOf db (rqSellerOrderId request) (eiShopId inp)) eoCurrentRouteVersionId
                   \<noteq> Some (rqRouteVersionId request)) EventSellerOrderAssignmentChanged
                 (attempt (applyChange db (eiShopId inp) plan request) (\<lambda>db1.
                  Inr (db1\<lparr>edRequests := map (\<lambda>q.
                      if rqId q = rqId request \<and> rqShopId q = eiShopId inp \<and> rqStatus q = ''PENDING_ACK''
                      then q\<lparr>rqAppliedAt := Some appliedAt, rqAppliedDriverEventId := Some driverEventId, rqStatus := ''APPLIED''\<rparr>
                      else q) (edRequests db1)\<rparr>))))))"

section \<open>Proof of delivery\<close>

definition belowVersion :: "jsnum option \<Rightarrow> real \<Rightarrow> bool" where
  "belowVersion v n = (case v of None \<Rightarrow> 0 < n | Some (Num x) \<Rightarrow> x < n | Some NegInf \<Rightarrow> True | Some _ \<Rightarrow> False)"

definition requireProofMedia :: "event_db \<Rightarrow> driver_input \<Rightarrow> string \<Rightarrow> string \<Rightarrow> string \<Rightarrow> unit outcome" where
  "requireProofMedia db inp plan field kind =
     (case jget (js_record (jget (js_record (eiPayload inp)) ''proof'')) field of
        JStr mediaId \<Rightarrow>
          refuse (\<not> is_hex_uuid mediaId) (DeliveryProofRefused DELIVERY_PROOF_REQUIRED)
            (refuse (\<not> list_ex (\<lambda>m. pmId m = mediaId \<and> pmKind m = kind \<and> pmShopId m = eiShopId inp \<and> pmRoutePlanId m = plan
                  \<and> Some (pmDeliveryStopId m) = eiDeliveryStopId inp \<and> pmDriverId m = eiDriverId inp
                  \<and> pmUploadStatus m = ''READY'' \<and> pmDeletedAt m = None
                  \<and> (if kind = ''SIGNATURE'' then pmSource m = ''SIGNATURE'' \<and> pmContentType m = ''image/png''
                     else pmSource m \<in> set [''CAMERA'', ''LIBRARY''])) (edMedia db))
               (DeliveryProofRefused DELIVERY_PROOF_INVALID) (Inr ()))
      | _ \<Rightarrow> Inl (DeliveryProofRefused DELIVERY_PROOF_REQUIRED))"

definition validateDriverDeliveryProof :: "event_db \<Rightarrow> driver_input \<Rightarrow> unit outcome" where
  "validateDriverDeliveryProof db inp =
     (case eiRoutePlanId inp of
        None \<Rightarrow> Inr ()
      | Some plan \<Rightarrow>
         if eiEventType inp \<notin> set [''STOP_DELIVERED'', ''ROUTE_STARTED'', ''PICKUP_COMPLETED''] then Inr ()
         else case List.find (\<lambda>p. plId p = plan \<and> plShopId p = eiShopId inp \<and> plDriverId p = Some (eiDriverId inp)) (edPlans db) of
                None \<Rightarrow> Inr ()
              | Some route \<Rightarrow>
                  (let policy = readDeliveryProof (plConstraints route)
                   in if \<not> proofRequired policy then Inr ()
                      else refuse (belowVersion (inVersionCode inp) 43
                               \<or> jget (js_record (eiPayload inp)) ''deliveryProofCapability'' \<noteq> JStr ''delivery-proof-v1'')
                             (DeliveryProofRefused DELIVERY_PROOF_APP_UPDATE_REQUIRED)
                             (if eiEventType inp \<noteq> ''STOP_DELIVERED'' then Inr ()
                              else attempt (if photoRequired policy then requireProofMedia db inp plan ''photoMediaId'' ''PHOTO'' else Inr ())
                                     (\<lambda>_. if signatureRequired policy
                                           then requireProofMedia db inp plan ''signatureMediaId'' ''SIGNATURE'' else Inr ()))))"

section \<open>Completion of a route\<close>

definition completionInvariantDecision :: "int option \<Rightarrow> invariant_mode \<Rightarrow> nat \<Rightarrow> bool \<times> bool" where
  "completionInvariantDecision contract mode unresolved =
     (let wouldReject = 0 < unresolved
      in (wouldReject \<and> mode \<noteq> OBSERVE \<and> (mode = FULL \<or> contract = Some 2), wouldReject))"

definition snapshotStopId :: "json \<Rightarrow> string option" where
  "snapshotStopId entry = (case jget entry ''deliveryStopId'' of JStr d \<Rightarrow> if d = [] then None else Some d | _ \<Rightarrow> None)"

definition readCompletionSnapshotStopIds :: "json \<Rightarrow> string list outcome" where
  "readCompletionSnapshotStopIds snapshot =
     (case jget snapshot ''stops'' of
        JArr stops \<Rightarrow>
          (let ids = map snapshotStopId stops
           in refuse (None \<in> set ids) EventContext (refuse (\<not> distinct ids) EventContext (Inr (map the ids))))
      | _ \<Rightarrow> Inl EventContext)"

definition executionVersion :: "event_db \<Rightarrow> driver_input \<Rightarrow> string \<Rightarrow> string \<Rightarrow> string \<Rightarrow> string" where
  "executionVersion db inp plan generation expected =
     (case List.find (\<lambda>s. lvRoutePlanId s = plan \<and> lvShopId s = eiShopId inp \<and> lvDriverId s = eiDriverId inp
             \<and> lvAssignmentGeneration s = int (digits_val generation) \<and> lvLatestPublicationId s = expected) (edStates db) of
        None \<Rightarrow> expected | Some s \<Rightarrow> lvBaselineRouteVersionId s)"

definition completionVersion :: "event_db \<Rightarrow> driver_input \<Rightarrow> version_row option outcome" where
  "completionVersion db inp =
     attempt (requireRoutePlanId inp) (\<lambda>plan.
     attempt (if eiDriverContractVersion inp = Some 2
              then attempt (requireExpectedRouteVersionId inp) (\<lambda>expected.
                   attempt (requireAssignmentGeneration inp) (\<lambda>generation.
                     Inr (Some (executionVersion db inp plan generation expected))))
              else Inr None) (\<lambda>wanted.
       Inr (List.find (\<lambda>v. (wanted = None \<or> wanted = Some (chId v)) \<and> chRoutePlanId v = plan \<and> vrShopId v = eiShopId inp
              \<and> chStatus v = ''CURRENT'') (edVersions db))))"

definition evaluateCompletionInvariant ::
  "event_db \<Rightarrow> driver_input \<Rightarrow> invariant_mode \<Rightarrow> completion_evidence option outcome" where
  "evaluateCompletionInvariant db inp mode =
     (if eiEventType inp \<noteq> ''ROUTE_COMPLETED'' then Inr None
      else attempt (completionVersion db inp) (\<lambda>found.
        case found of
          None \<Rightarrow> Inl EventContext
        | Some version \<Rightarrow>
            attempt (readCompletionSnapshotStopIds (vrSnapshot version)) (\<lambda>ids.
              (let stops = filter (\<lambda>s. srId s \<in> set ids \<and> srShopId s = eiShopId inp) (edStops db);
                   unresolved = length (filter (\<lambda>s. srStatus s \<notin> set TERMINAL_STOPS) stops);
                   decision = completionInvariantDecision (eiDriverContractVersion inp) mode unresolved
               in refuse (length stops \<noteq> length ids) EventContext
                    (Inr (Some
                       \<lparr>ceDecision = (if fst decision then REJECTED else PERMITTED),
                        ceDriverContractVersion = eiDriverContractVersion inp, ceMode = mode,
                        ceReceiptAware = (eiDriverContractVersion inp = Some 2 \<and> eiClientEventId inp \<noteq> None),
                        ceRouteVersionId = chId version, ceTotalStopCount = length stops,
                        ceUnresolvedStopCount = unresolved, ceWouldReject = snd decision\<rparr>))))))"

fun modeText :: "invariant_mode \<Rightarrow> string" where
  "modeText OBSERVE = ''OBSERVE''"
| "modeText GUARDED = ''GUARDED''"
| "modeText FULL = ''FULL''"

definition loadDriverRouteCompletionInvariantMode :: "string option \<Rightarrow> invariant_mode option" where
  "loadDriverRouteCompletionInvariantMode env =
     (let raw = (case env of None \<Rightarrow> ''OBSERVE'' | Some v \<Rightarrow> toUpperCase (js_trim v))
      in List.find (\<lambda>m. modeText m = raw) [OBSERVE, GUARDED, FULL])"

definition evidenceJson :: "completion_evidence \<Rightarrow> json" where
  "evidenceJson e =
     JObj [(''decision'', JStr (case ceDecision e of REJECTED \<Rightarrow> ''REJECTED'' | PERMITTED \<Rightarrow> ''PERMITTED'')),
       (''driverContractVersion'', jOpt (\<lambda>n. JNum (Num (real_of_int n))) (ceDriverContractVersion e)),
       (''mode'', JStr (modeText (ceMode e))), (''receiptAware'', JBool (ceReceiptAware e)),
       (''routeVersionId'', JStr (ceRouteVersionId e)),
       (''terminalStatuses'', JArr (map JStr [''CANCELLED'', ''DELIVERED'', ''FAILED'', ''SKIPPED''])),
       (''totalStopCount'', JNum (Num (real (ceTotalStopCount e)))),
       (''unresolvedStopCount'', JNum (Num (real (ceUnresolvedStopCount e)))), (''wouldReject'', JBool (ceWouldReject e))]"

definition persistedDriverEventPayload :: "driver_input \<Rightarrow> completion_evidence option \<Rightarrow> json" where
  "persistedDriverEventPayload inp evidence =
     (let payload = jsonClone (eiPayload inp);
          observed = (case evidence of
             None \<Rightarrow> payload
           | Some e \<Rightarrow>
               (let observation = JObj [(''completionInvariant'', jsonClone (evidenceJson e))]
                in case payload of
                     JObj kvs \<Rightarrow> JObj (jset ''serverObservation'' observation kvs)
                   | _ \<Rightarrow> JObj [(''payload'', payload), (''serverObservation'', observation)]))
      in case inChangeRequestId inp of
           None \<Rightarrow> observed
         | Some request \<Rightarrow>
             if eiEventType inp \<noteq> ''DISPATCH_CHANGE_ACKNOWLEDGED'' then observed
             else case observed of
                    JObj kvs \<Rightarrow> JObj (jset ''changeRequestId'' (JStr request) kvs)
                  | _ \<Rightarrow> JObj [(''changeRequestId'', JStr request), (''payload'', observed)])"

section \<open>State of the route a request needs\<close>

definition isIntegerFrom :: "jsnum option \<Rightarrow> real \<Rightarrow> bool" where
  "isIntegerFrom v n = (case v of Some (Num x) \<Rightarrow> isInteger (Num x) \<and> n \<le> x | _ \<Rightarrow> False)"

definition validateDriverEventStateContext :: "runtime \<Rightarrow> event_db \<Rightarrow> driver_input \<Rightarrow> int \<Rightarrow> bool outcome" where
  "validateDriverEventStateContext rt db inp now =
     attempt (requireRoutePlanId inp) (\<lambda>plan.
     if eiEventType inp = ''ROUTE_STARTED''
     then attempt (requireStartableOwnedRoutePlan db inp plan) (\<lambda>_. Inr False)
     else
       attempt (requireOwnedRoutePlan db inp plan) (\<lambda>route.
       refuse (graceExpired inp route now) EventScope
      (refuse (workCompleted inp route \<and> \<not> (eiEventType inp = ''ROUTE_PAUSED'' \<and> plStatus route = ''IN_PROGRESS'')
           \<and> eiEventType inp \<notin> set [''LOCATION_UPDATED'', ''ROUTE_COMPLETED'', ''NOTE_ADDED'']) EventRouteNotInProgress
      (refuse (plStatus route \<noteq> ''IN_PROGRESS''
           \<and> eiEventType inp \<in> set [''PICKUP_COMPLETED'', ''STOP_ARRIVED'', ''STOP_DELIVERED'', ''STOP_FAILED'']) EventRouteNotInProgress
      (attempt (if eiEventType inp \<in> set [''STOP_ARRIVED'', ''STOP_DELIVERED'', ''STOP_FAILED'']
                then attempt (requireDeliveryStopId inp) (requireOwnedRoutePlanStop db inp plan) else Inr ()) (\<lambda>_.
       attempt (if eiEventType inp = ''TIME_CONSTRAINT_ACKNOWLEDGED''
                then attempt (requireDeliveryStopId inp) (requireOwnedConfirmedTimeConstraintStop rt db inp plan) else Inr ()) (\<lambda>_.
       attempt (if eiEventType inp = ''DISPATCH_CHANGE_ACKNOWLEDGED''
                then attempt (requireChangeRequestId inp) (requireOwnedDispatchChangeRequest db inp plan) else Inr ()) (\<lambda>_.
       Inr (eiEventType inp = ''ROUTE_COMPLETED'' \<and> workCompleted inp route
            \<and> \<not> (eiDriverContractVersion inp = Some 2 \<and> isIntegerFrom (inVersionCode inp) 47))))))))))"

section \<open>The day a position belongs to\<close>

text \<open>
  A calendar date is the number of its day; \<open>rtWallClock zone t\<close> is the reading of the clocks of a zone at an instant, as
  the instant at which Greenwich reads the same.
\<close>

definition resolveRouteTimezone :: "runtime \<Rightarrow> json \<Rightarrow> string option" where
  "resolveRouteTimezone rt constraints =
     List.find (\<lambda>z. z \<noteq> [] \<and> rtKnownZone rt z)
       (map (\<lambda>v. case v of JStr s \<Rightarrow> js_trim s | _ \<Rightarrow> [])
          [jget constraints ''timezone'', jget (jget constraints ''routeScope'') ''timezone'',
           jget constraints ''scheduledStartTimeZone''])"

definition localDateTimeInTimeZoneToUtc :: "runtime \<Rightarrow> int \<Rightarrow> string \<Rightarrow> int" where
  "localDateTimeInTimeZoneToUtc rt day zone =
     (let utcGuess = day * 86400000;
          first = utcGuess - (rtWallClock rt zone utcGuess - utcGuess)
      in utcGuess - (rtWallClock rt zone first - first))"

definition resolveRouteTrackingEventWindow :: "runtime \<Rightarrow> json \<Rightarrow> int \<Rightarrow> int option \<Rightarrow> (int \<times> int) option" where
  "resolveRouteTrackingEventWindow rt constraints planDate startOccurredAt =
     map_option (\<lambda>zone.
        let serviceDate = coalesce_def_value (map_option (\<lambda>t. rtWallClock rt zone t div 86400000) startOccurredAt)
                            (planDate div 86400000)
        in (localDateTimeInTimeZoneToUtc rt serviceDate zone, localDateTimeInTimeZoneToUtc rt (serviceDate + 2) zone))
       (resolveRouteTimezone rt constraints)"

definition loadRouteTrackingEventWindow :: "runtime \<Rightarrow> event_db \<Rightarrow> string \<Rightarrow> (int \<times> int) option" where
  "loadRouteTrackingEventWindow rt db plan =
     (case List.find (\<lambda>p. plId p = plan) (edPlans db) of
        None \<Rightarrow> None
      | Some route \<Rightarrow>
          resolveRouteTrackingEventWindow rt (plConstraints route) (epPlanDate route)
            (map_option evOccurredAt (earliest evOccurredAt
               (filter (\<lambda>e. evEventType e = ''ROUTE_STARTED'' \<and> evRoutePlanId e = Some plan \<and> evShopId e = plShopId route)
                  (edEvents db)))))"

definition trackingPositionAccepted :: "runtime \<Rightarrow> event_db \<Rightarrow> driver_input \<Rightarrow> bool" where
  "trackingPositionAccepted rt db inp =
     (eiEventType inp = ''LOCATION_UPDATED'' \<longrightarrow>
        (case Option.bind (eiRoutePlanId inp) (loadRouteTrackingEventWindow rt db) of
           None \<Rightarrow> True
         | Some (start, finish) \<Rightarrow> start \<le> eiOccurredAt inp \<and> eiOccurredAt inp < finish))"

end
