(* ===== verification/TrackingGeometry.thy ===== *)
theory TrackingGeometry
  imports GreatCircle JsText
begin

text \<open>
  The recorded path of a route (route-tracking/route-tracking.geometry.ts): a document of coordinates
  with one sample of metadata each, how a position is appended and a run of positions is built and
  simplified, what is pruned, and the row it is stored in and read back from. Coordinates are pairs of
  longitude and latitude over exact real arithmetic. A sample keeps its instants as text;
  \<^verbatim>\<open>Date.parse\<close> and \<^verbatim>\<open>localeCompare\<close> are parameters (\<open>tracking_env\<close>), of which the
  lemmas on stored rows use that \<^verbatim>\<open>Date.parse\<close> reads back the text of \<^verbatim>\<open>toISOString\<close>. Shown: a simplified
  path stays within the tolerance of the recorded one and keeps every gap.
\<close>

section \<open>Documents\<close>

type_synonym coordinate = "real \<times> real"

record tracking_env =
  teParse :: "string \<Rightarrow> int option"
  teLocaleCompare :: "string \<Rightarrow> string \<Rightarrow> int"

record geometry_sample =
  gsAccuracyMeters :: "real option option"
  gsDriverId :: "string option"
  gsEventId :: string
  gsGapBefore :: "bool option"
  gsOccurredAt :: string
  gsReceivedAt :: string
  gsSourceIndex :: "int option"

record geometry_document =
  gdCoordinates :: "coordinate list"
  gdSamples :: "geometry_sample list"
  gdSourcePointCount :: int

record geometry_position =
  gpAccuracyMeters :: json
  gpDriverId :: "string option"
  gpEventId :: string
  gpLatitude :: jsnum
  gpLongitude :: jsnum
  gpOccurredAt :: string
  gpReceivedAt :: string
  gpRoutePlanId :: string

definition emptyDocument :: geometry_document where
  "emptyDocument = \<lparr>gdCoordinates = [], gdSamples = [], gdSourcePointCount = 0\<rparr>"

definition delayedThresholdMs :: int where "delayedThresholdMs = 180000"
definition geometrySimplificationToleranceMeters :: real where "geometrySimplificationToleranceMeters = 5"
definition MAX_SIMPLIFIED_GPS_LEG_METERS :: real where "MAX_SIMPLIFIED_GPS_LEG_METERS = 750"
definition EARTH_RADIUS_METERS :: real where "EARTH_RADIUS_METERS = 6371000"
definition ROUTE_TRACKING_GEOMETRY_RETENTION_DAYS :: int where "ROUTE_TRACKING_GEOMETRY_RETENTION_DAYS = 90"

section \<open>Distances\<close>

definition toRadians :: "real \<Rightarrow> real" where
  "toRadians degrees = degrees * pi / 180"

definition hypot :: "real \<Rightarrow> real \<Rightarrow> real" where
  "hypot x y = sqrt (x\<^sup>2 + y\<^sup>2)"

definition distanceBetweenCoordinatesMeters :: "coordinate \<Rightarrow> coordinate \<Rightarrow> real" where
  "distanceBetweenCoordinatesMeters l r =
     (let latitudeDelta = toRadians (snd r - snd l);
          longitudeDelta = toRadians (fst r - fst l);
          halfChord = (sin (latitudeDelta / 2))\<^sup>2
            + cos (toRadians (snd l)) * cos (toRadians (snd r)) * (sin (longitudeDelta / 2))\<^sup>2
      in 2 * EARTH_RADIUS_METERS * arcsin (min 1 (sqrt halfChord)))"

definition projectPoint :: "real \<Rightarrow> coordinate \<Rightarrow> real \<times> real" where
  "projectPoint referenceLatitude p =
     (EARTH_RADIUS_METERS * toRadians (fst p) * cos referenceLatitude, EARTH_RADIUS_METERS * toRadians (snd p))"

definition distancePointToSegmentMeters :: "coordinate \<Rightarrow> coordinate \<Rightarrow> coordinate \<Rightarrow> real" where
  "distancePointToSegmentMeters point segmentStart segmentEnd =
     (let referenceLatitude = toRadians ((snd point + snd segmentStart + snd segmentEnd) / 3);
          p = projectPoint referenceLatitude point;
          s = projectPoint referenceLatitude segmentStart;
          e = projectPoint referenceLatitude segmentEnd;
          deltaX = fst e - fst s;
          deltaY = snd e - snd s;
          lengthSquared = deltaX * deltaX + deltaY * deltaY
      in if lengthSquared = 0 then hypot (fst p - fst s) (snd p - snd s)
         else let ratio = max 0 (min 1 (((fst p - fst s) * deltaX + (snd p - snd s) * deltaY) / lengthSquared));
                  closestX = fst s + ratio * deltaX;
                  closestY = snd s + ratio * deltaY
              in hypot (fst p - closestX) (snd p - closestY))"

definition bearingDegrees :: "coordinate \<Rightarrow> coordinate \<Rightarrow> real" where
  "bearingDegrees p q =
     (let latitude = toRadians ((snd p + snd q) / 2);
          x = (fst q - fst p) * cos latitude;
          y = snd q - snd p
      in js_atan2 x y * 180 / pi)"

definition getHeadingChangeDegrees :: "coordinate \<Rightarrow> coordinate \<Rightarrow> coordinate \<Rightarrow> real" where
  "getHeadingChangeDegrees start middle finish =
     (let d = \<bar>bearingDegrees start middle - bearingDegrees middle finish\<bar>;
          difference = d - 360 * of_int \<lfloor>d / 360\<rfloor>
      in if difference > 180 then 360 - difference else difference)"

section \<open>Positions\<close>

text \<open>\<^verbatim>\<open>Math.round\<close> rounds halves up.\<close>

definition js_round :: "real \<Rightarrow> real" where
  "js_round x = of_int \<lfloor>x + 1 / 2\<rfloor>"

definition normalizeAccuracyMeters :: "json \<Rightarrow> real option" where
  "normalizeAccuracyMeters v =
     (if v = JNull \<or> v = JUndefined \<or> v = JStr [] then None
      else case js_number v of Num n \<Rightarrow> (if n \<ge> 0 then Some (js_round (n * 100) / 100) else None) | _ \<Rightarrow> None)"

definition isValidPosition :: "tracking_env \<Rightarrow> geometry_position \<Rightarrow> bool" where
  "isValidPosition env p =
     ((case gpLatitude p of Num x \<Rightarrow> x \<ge> -90 \<and> x \<le> 90 | _ \<Rightarrow> False)
      \<and> (case gpLongitude p of Num x \<Rightarrow> x \<ge> -180 \<and> x \<le> 180 | _ \<Rightarrow> False)
      \<and> teParse env (gpOccurredAt p) \<noteq> None \<and> teParse env (gpReceivedAt p) \<noteq> None)"

text \<open>The coordinate and the instants of a valid position.\<close>

fun finiteValue :: "jsnum \<Rightarrow> real" where
  "finiteValue (Num x) = x"
| "finiteValue _ = 0"

definition positionCoordinate :: "geometry_position \<Rightarrow> coordinate" where
  "positionCoordinate p = (finiteValue (gpLongitude p), finiteValue (gpLatitude p))"

definition instantOf :: "tracking_env \<Rightarrow> string \<Rightarrow> int" where
  "instantOf env s = coalesce_def_value (teParse env s) 0"

definition toSample :: "tracking_env \<Rightarrow> geometry_position \<Rightarrow> int \<Rightarrow> bool \<Rightarrow> geometry_sample" where
  "toSample env p sourceIndex gapBefore =
     \<lparr>gsAccuracyMeters = Some (normalizeAccuracyMeters (gpAccuracyMeters p)), gsDriverId = gpDriverId p,
      gsEventId = gpEventId p, gsGapBefore = Some gapBefore,
      gsOccurredAt = toISOString (instantOf env (gpOccurredAt p)),
      gsReceivedAt = toISOString (instantOf env (gpReceivedAt p)), gsSourceIndex = Some sourceIndex\<rparr>"

text \<open>\<^verbatim>\<open>Date.parse(a) - Date.parse(b)\<close>; an unreadable instant makes it \<^verbatim>\<open>NaN\<close> and comparisons false.\<close>

definition elapsedBetween :: "tracking_env \<Rightarrow> string \<Rightarrow> string \<Rightarrow> int option" where
  "elapsedBetween env a b = (case (teParse env a, teParse env b) of (Some x, Some y) \<Rightarrow> Some (x - y) | _ \<Rightarrow> None)"

definition elapsedWhen :: "(int \<Rightarrow> bool) \<Rightarrow> int option \<Rightarrow> bool" where
  "elapsedWhen P e = (case e of None \<Rightarrow> False | Some d \<Rightarrow> P d)"

section \<open>Appending\<close>

definition trackingGap :: "tracking_env \<Rightarrow> geometry_document \<Rightarrow> geometry_sample \<Rightarrow> bool" where
  "trackingGap env doc sample =
     (gdSamples doc \<noteq> []
      \<and> elapsedWhen (\<lambda>d. d > delayedThresholdMs)
          (elapsedBetween env (gsOccurredAt sample) (gsOccurredAt (last (gdSamples doc)))))"

text \<open>\<^verbatim>\<open>xs.at(-2)\<close> of a list of at least two elements.\<close>

definition secondLast :: "'a list \<Rightarrow> 'a" where
  "secondLast xs = xs ! (length xs - 2)"

definition canReplaceTail :: "tracking_env \<Rightarrow> geometry_document \<Rightarrow> coordinate \<Rightarrow> geometry_sample \<Rightarrow> bool" where
  "canReplaceTail env doc coordinate sample =
     (\<not> trackingGap env doc sample
      \<and> \<not> (gdSamples doc \<noteq> [] \<and> gsGapBefore (last (gdSamples doc)) = Some True)
      \<and> length (gdCoordinates doc) \<ge> 2
      \<and> length (gdSamples doc) \<ge> 2
      \<and> elapsedWhen (\<lambda>d. d \<le> 60000) (elapsedBetween env (gsOccurredAt sample) (gsOccurredAt (secondLast (gdSamples doc))))
      \<and> distanceBetweenCoordinatesMeters (secondLast (gdCoordinates doc)) coordinate \<le> MAX_SIMPLIFIED_GPS_LEG_METERS
      \<and> getHeadingChangeDegrees (secondLast (gdCoordinates doc)) (last (gdCoordinates doc)) coordinate \<le> 20
      \<and> distancePointToSegmentMeters (last (gdCoordinates doc)) (secondLast (gdCoordinates doc)) coordinate
          \<le> geometrySimplificationToleranceMeters)"

definition appendMutable :: "tracking_env \<Rightarrow> geometry_document \<Rightarrow> geometry_position \<Rightarrow> geometry_document" where
  "appendMutable env doc p =
     (let coordinate = positionCoordinate p;
          sample0 = toSample env p (gdSourcePointCount doc) False;
          sample = sample0\<lparr>gsGapBefore := Some (trackingGap env doc sample0)\<rparr>
      in if canReplaceTail env doc coordinate sample
         then doc\<lparr>gdCoordinates := butlast (gdCoordinates doc) @ [coordinate],
                  gdSamples := butlast (gdSamples doc) @ [sample], gdSourcePointCount := gdSourcePointCount doc + 1\<rparr>
         else doc\<lparr>gdCoordinates := gdCoordinates doc @ [coordinate], gdSamples := gdSamples doc @ [sample],
                  gdSourcePointCount := gdSourcePointCount doc + 1\<rparr>)"

definition appendRouteTrackingGeometryPosition ::
  "tracking_env \<Rightarrow> geometry_document \<Rightarrow> geometry_position \<Rightarrow> geometry_document" where
  "appendRouteTrackingGeometryPosition env doc p =
     (if \<not> isValidPosition env p then doc
      else if list_ex (\<lambda>s. gsEventId s = gpEventId p) (gdSamples doc) then doc
      else appendMutable env doc p)"

section \<open>Simplifying\<close>

text \<open>The interior index furthest from the segment; without one beyond distance zero, none.\<close>

fun furthestLoop :: "(nat \<Rightarrow> real) \<Rightarrow> nat option \<Rightarrow> real \<Rightarrow> nat list \<Rightarrow> nat option \<times> real" where
  "furthestLoop far furthest d [] = (furthest, d)"
| "furthestLoop far furthest d (i # is) =
     (if far i > d then furthestLoop far (Some i) (far i) is else furthestLoop far furthest d is)"

lemma furthestLoop_in: "fst (furthestLoop far f d is) = Some i \<Longrightarrow> f = Some i \<or> i \<in> set is"
  by (induction far f d "is" rule: furthestLoop.induct) (auto split: if_splits)

definition furthestIndex :: "coordinate list \<Rightarrow> nat \<Rightarrow> nat \<Rightarrow> nat option \<times> real" where
  "furthestIndex coordinates start finish =
     furthestLoop (\<lambda>i. distancePointToSegmentMeters (coordinates ! i) (coordinates ! start) (coordinates ! finish))
       None 0 [start + 1..<finish]"

lemma furthestIndex_between: "fst (furthestIndex coordinates s e) = Some i \<Longrightarrow> s < i \<and> i < e"
  by (auto simp: furthestIndex_def dest: furthestLoop_in)

text \<open>The indexes a segment adds to the retained ones.\<close>

function retainSimplifiedSegment :: "coordinate list \<Rightarrow> nat \<Rightarrow> nat \<Rightarrow> nat list" where
  "retainSimplifiedSegment coordinates start finish =
     (if finish < start then []
      else [start, finish] @
        (if finish - start \<le> 1 then []
         else if distanceBetweenCoordinatesMeters (coordinates ! start) (coordinates ! finish) > MAX_SIMPLIFIED_GPS_LEG_METERS
         then let middle = (start + finish) div 2
              in retainSimplifiedSegment coordinates start middle @ retainSimplifiedSegment coordinates middle finish
         else case furthestIndex coordinates start finish of
                (None, _) \<Rightarrow> []
              | (Some i, d) \<Rightarrow>
                  (if d \<le> geometrySimplificationToleranceMeters then []
                   else retainSimplifiedSegment coordinates start i @ retainSimplifiedSegment coordinates i finish)))"
  by pat_completeness auto
termination
proof (relation "measure (\<lambda>(cs, start, finish). finish - start)", goal_cases)
  case 1
  show ?case by simp
next
  case (2 cs s e m)
  then show ?case by simp
next
  case (3 cs s e m)
  then show ?case by simp
next
  case (4 cs s e f d i)
  then show ?case using furthestIndex_between [of cs s e i] by (metis diff_less_mono fst_conv in_measure case_prod_conv less_imp_le)
next
  case (5 cs s e f d i)
  then show ?case using furthestIndex_between [of cs s e i] by (metis diff_less_mono2 fst_conv in_measure case_prod_conv less_trans)
qed

declare retainSimplifiedSegment.simps [simp del]

fun simplifyLoop ::
  "tracking_env \<Rightarrow> geometry_document \<Rightarrow> nat \<Rightarrow> nat list \<Rightarrow> nat list \<Rightarrow> nat \<times> nat list" where
  "simplifyLoop env doc segmentStart retained [] = (segmentStart, retained)"
| "simplifyLoop env doc segmentStart retained (index # is) =
     (let sample = gdSamples doc ! index;
          segmentElapsedMs = elapsedBetween env (gsOccurredAt sample) (gsOccurredAt (gdSamples doc ! segmentStart))
      in if gsGapBefore sample = Some True
         then simplifyLoop env doc index
                (retained @ retainSimplifiedSegment (gdCoordinates doc) segmentStart (index - 1)) is
         else if elapsedWhen (\<lambda>d. d \<ge> 60000) segmentElapsedMs
         then simplifyLoop env doc index
                (retained @ retainSimplifiedSegment (gdCoordinates doc) segmentStart index) is
         else simplifyLoop env doc segmentStart retained is)"

definition retainedIndexes :: "tracking_env \<Rightarrow> geometry_document \<Rightarrow> nat list" where
  "retainedIndexes env doc =
     (case simplifyLoop env doc 0 [] [1..<length (gdSamples doc)] of
        (segmentStart, retained) \<Rightarrow>
          sort (remdups (retained @ retainSimplifiedSegment (gdCoordinates doc) segmentStart (length (gdCoordinates doc) - 1))))"

definition simplifyRouteTrackingGeometryDocument :: "tracking_env \<Rightarrow> geometry_document \<Rightarrow> geometry_document" where
  "simplifyRouteTrackingGeometryDocument env doc =
     (if length (gdCoordinates doc) \<le> 2 then doc
      else let indexes = retainedIndexes env doc
           in \<lparr>gdCoordinates = map ((!) (gdCoordinates doc)) indexes, gdSamples = map ((!) (gdSamples doc)) indexes,
               gdSourcePointCount = gdSourcePointCount doc\<rparr>)"

section \<open>Building\<close>

text \<open>A \<^verbatim>\<open>Map\<close> keyed by the event: a later value takes the place of an earlier one.\<close>

fun setByEventId :: "geometry_position \<Rightarrow> geometry_position list \<Rightarrow> geometry_position list" where
  "setByEventId p [] = [p]"
| "setByEventId p (q # qs) = (if gpEventId q = gpEventId p then p # qs else q # setByEventId p qs)"

definition uniqueValidPositions :: "tracking_env \<Rightarrow> geometry_position list \<Rightarrow> geometry_position list" where
  "uniqueValidPositions env ps = fold setByEventId (filter (isValidPosition env) ps) []"

definition comparePositions :: "tracking_env \<Rightarrow> geometry_position \<Rightarrow> geometry_position \<Rightarrow> int" where
  "comparePositions env l r =
     or_else (compare_int (instantOf env (gpOccurredAt l)) (instantOf env (gpOccurredAt r)))
       (or_else (compare_int (instantOf env (gpReceivedAt l)) (instantOf env (gpReceivedAt r)))
          (teLocaleCompare env (gpEventId l) (gpEventId r)))"

definition buildRouteTrackingGeometryDocument :: "tracking_env \<Rightarrow> geometry_position list \<Rightarrow> geometry_document" where
  "buildRouteTrackingGeometryDocument env ps =
     simplifyRouteTrackingGeometryDocument env
       (foldl (appendMutable env) emptyDocument (sort_by (comparePositions env) (uniqueValidPositions env ps)))"

section \<open>Pruning\<close>

definition retainedFrom :: "tracking_env \<Rightarrow> geometry_sample list \<Rightarrow> int \<Rightarrow> nat list" where
  "retainedFrom env samples cutoff =
     filter (\<lambda>i. case teParse env (gsOccurredAt (samples ! i)) of None \<Rightarrow> False | Some t \<Rightarrow> t \<ge> cutoff) [0..<length samples]"

text \<open>The sample at index \<open>i\<close> as the \<open>j\<close>-th retained one; source indexes count from \<open>base\<close>.\<close>

definition prunedSample :: "geometry_document \<Rightarrow> int \<Rightarrow> nat \<Rightarrow> nat \<Rightarrow> geometry_sample" where
  "prunedSample doc base j i =
     (let s = gdSamples doc ! i
      in (if j = 0 then s\<lparr>gsGapBefore := Some False\<rparr> else s)
           \<lparr>gsSourceIndex := Some (max 0 (coalesce_def_value (gsSourceIndex s) (int i) - base))\<rparr>)"

definition pruneRouteTrackingGeometryDocument :: "tracking_env \<Rightarrow> geometry_document \<Rightarrow> int \<Rightarrow> geometry_document" where
  "pruneRouteTrackingGeometryDocument env doc cutoff =
     (let retained = retainedFrom env (gdSamples doc) cutoff;
          firstRetainedSourceIndex =
            (case retained of
               [] \<Rightarrow> gdSourcePointCount doc
             | i # _ \<Rightarrow> coalesce_def_value (gsSourceIndex (gdSamples doc ! i)) (int i))
      in if length retained = length (gdSamples doc) then doc
         else
           \<lparr>gdCoordinates = map ((!) (gdCoordinates doc)) (filter (\<lambda>i. i < length (gdCoordinates doc)) retained),
            gdSamples = map (\<lambda>(j, i). prunedSample doc firstRetainedSourceIndex j i) (enumerate 0 retained),
            gdSourcePointCount = max 0 (gdSourcePointCount doc - firstRetainedSourceIndex)\<rparr>)"

section \<open>Rows\<close>

record geometry_row =
  grRoutePlanId :: string
  grFirstOccurredAt :: int
  grGeometry :: json
  grGeometryPointCount :: int
  grLastDriverId :: "string option"
  grLastEventId :: string
  grLastLatitude :: real
  grLastLongitude :: real
  grLastOccurredAt :: int
  grLastReceivedAt :: int
  grSampleMetadata :: json
  grSourcePointCount :: int
  grExpiresAt :: int

text \<open>A column \<^verbatim>\<open>Decimal(10, 7)\<close>: seven digits after the point, halves away from zero.\<close>

definition decimal7 :: "real \<Rightarrow> real" where
  "decimal7 x =
     (if x \<ge> 0 then of_int \<lfloor>x * 10 ^ 7 + 1 / 2\<rfloor> / 10 ^ 7 else - (of_int \<lfloor>- x * 10 ^ 7 + 1 / 2\<rfloor> / 10 ^ 7))"

definition finiteCoordinate :: "json \<Rightarrow> real option" where
  "finiteCoordinate v = (case js_number v of Num x \<Rightarrow> Some x | _ \<Rightarrow> None)"

definition textOrNull :: "json \<Rightarrow> string option" where
  "textOrNull v = (case v of JStr s \<Rightarrow> (if js_trim s = [] then None else Some (js_trim s)) | _ \<Rightarrow> None)"

definition dateStringOrNull :: "tracking_env \<Rightarrow> json \<Rightarrow> string option" where
  "dateStringOrNull env v =
     map_option toISOString (teParse env (case v of JStr s \<Rightarrow> s | _ \<Rightarrow> []))"

definition nonNegativeIntegerOrNull :: "json \<Rightarrow> int option" where
  "nonNegativeIntegerOrNull v =
     (case js_number v of Num x \<Rightarrow> (if of_int \<lfloor>x\<rfloor> = x \<and> x \<ge> 0 then Some \<lfloor>x\<rfloor> else None) | _ \<Rightarrow> None)"

definition readGeometryCoordinate :: "json \<Rightarrow> coordinate list" where
  "readGeometryCoordinate v =
     (case v of
        JArr (a # b # _) \<Rightarrow>
          (case (finiteCoordinate a, finiteCoordinate b) of (Some longitude, Some latitude) \<Rightarrow> [(longitude, latitude)] | _ \<Rightarrow> [])
      | _ \<Rightarrow> [])"

definition readGeometryCoordinates :: "json \<Rightarrow> coordinate list" where
  "readGeometryCoordinates v =
     (if \<not> is_record v \<or> jget v ''type'' \<noteq> JStr ''LineString'' then []
      else case jget v ''coordinates'' of JArr cs \<Rightarrow> concat (map readGeometryCoordinate cs) | _ \<Rightarrow> [])"

definition readSample :: "tracking_env \<Rightarrow> json \<Rightarrow> geometry_sample list" where
  "readSample env v =
     (if \<not> is_record v then []
      else case (textOrNull (jget v ''eventId''), dateStringOrNull env (jget v ''occurredAt''),
                 dateStringOrNull env (jget v ''receivedAt'')) of
             (Some eventId, Some occurredAt, Some receivedAt) \<Rightarrow>
               [\<lparr>gsAccuracyMeters =
                   (if ''accuracyMeters'' \<in> set (jkeys v)
                    then Some (normalizeAccuracyMeters (jget v ''accuracyMeters'')) else None),
                 gsDriverId = textOrNull (jget v ''driverId''), gsEventId = eventId,
                 gsGapBefore = (case jget v ''gapBefore'' of JBool b \<Rightarrow> Some b | _ \<Rightarrow> None),
                 gsOccurredAt = occurredAt, gsReceivedAt = receivedAt,
                 gsSourceIndex = nonNegativeIntegerOrNull (jget v ''sourceIndex'')\<rparr>]
           | _ \<Rightarrow> [])"

definition readSamples :: "tracking_env \<Rightarrow> json \<Rightarrow> geometry_sample list" where
  "readSamples env v = (case v of JArr vs \<Rightarrow> concat (map (readSample env) vs) | _ \<Rightarrow> [])"

definition readRouteTrackingGeometryDocument :: "tracking_env \<Rightarrow> geometry_row option \<Rightarrow> geometry_document" where
  "readRouteTrackingGeometryDocument env r =
     (case r of
        None \<Rightarrow> emptyDocument
      | Some row \<Rightarrow>
          (let samples = readSamples env (grSampleMetadata row);
               stored = readGeometryCoordinates (grGeometry row);
               coordinates = (if stored = [] \<and> length samples = 1 then [(grLastLongitude row, grLastLatitude row)] else stored);
               usableLength = min (length coordinates) (length samples)
           in \<lparr>gdCoordinates = take usableLength coordinates, gdSamples = take usableLength samples,
               gdSourcePointCount = max (grSourcePointCount row) (int usableLength)\<rparr>))"

definition coordinateJson :: "coordinate \<Rightarrow> json" where
  "coordinateJson c = JArr [JNum (Num (fst c)), JNum (Num (snd c))]"

definition sampleJson :: "geometry_sample \<Rightarrow> json" where
  "sampleJson s =
     JObj ((case gsAccuracyMeters s of None \<Rightarrow> [] | Some a \<Rightarrow> [(''accuracyMeters'', jOpt (\<lambda>x. JNum (Num x)) a)])
       @ [(''driverId'', jOpt JStr (gsDriverId s)), (''eventId'', JStr (gsEventId s))]
       @ (case gsGapBefore s of None \<Rightarrow> [] | Some b \<Rightarrow> [(''gapBefore'', JBool b)])
       @ [(''occurredAt'', JStr (gsOccurredAt s)), (''receivedAt'', JStr (gsReceivedAt s))]
       @ (case gsSourceIndex s of None \<Rightarrow> [] | Some i \<Rightarrow> [(''sourceIndex'', JNum (Num (of_int i)))]))"

datatype geometry_error = NoValidPosition | InvalidDate

definition createRouteTrackingGeometryWrite ::
  "tracking_env \<Rightarrow> string \<Rightarrow> geometry_document \<Rightarrow> geometry_error + geometry_row" where
  "createRouteTrackingGeometryWrite env routePlanId doc =
     (if gdSamples doc = [] \<or> gdCoordinates doc = [] then Inl NoValidPosition
      else
        (let final = last (gdSamples doc)
         in case (teParse env (gsOccurredAt (hd (gdSamples doc))), teParse env (gsOccurredAt final),
                  teParse env (gsReceivedAt final)) of
              (Some firstOccurredAt, Some lastOccurredAt, Some lastReceivedAt) \<Rightarrow>
                Inr \<lparr>grRoutePlanId = routePlanId, grFirstOccurredAt = firstOccurredAt,
                     grGeometry = (if length (gdCoordinates doc) \<ge> 2
                       then jsonClone (JObj [(''coordinates'', JArr (map coordinateJson (gdCoordinates doc))),
                                             (''type'', JStr ''LineString'')])
                       else JNull),
                     grGeometryPointCount = int (length (gdCoordinates doc)), grLastDriverId = gsDriverId final,
                     grLastEventId = gsEventId final,
                     grLastLatitude = decimal7 (snd (last (gdCoordinates doc))),
                     grLastLongitude = decimal7 (fst (last (gdCoordinates doc))),
                     grLastOccurredAt = lastOccurredAt, grLastReceivedAt = lastReceivedAt,
                     grSampleMetadata = jsonClone (JArr (map sampleJson (gdSamples doc))),
                     grSourcePointCount = gdSourcePointCount doc,
                     grExpiresAt = lastOccurredAt + ROUTE_TRACKING_GEOMETRY_RETENTION_DAYS * 24 * 60 * 60 * 1000\<rparr>
            | _ \<Rightarrow> Inl InvalidDate))"

section \<open>Answers\<close>

record recorded_path =
  rpFirstOccurredAt :: string
  rpLine :: "coordinate list option"
  rpGeometryPointCount :: int
  rpLastOccurredAt :: string
  rpLastReceivedAt :: string
  rpSamples :: "geometry_sample list"
  rpSourcePointCount :: int

definition toRouteTrackingRecordedPath :: "tracking_env \<Rightarrow> geometry_row option \<Rightarrow> recorded_path option" where
  "toRouteTrackingRecordedPath env r =
     map_option (\<lambda>row.
       let doc = readRouteTrackingGeometryDocument env (Some row)
       in \<lparr>rpFirstOccurredAt = toISOString (grFirstOccurredAt row),
           rpLine = (if length (gdCoordinates doc) \<ge> 2 then Some (gdCoordinates doc) else None),
           rpGeometryPointCount = int (length (gdCoordinates doc)),
           rpLastOccurredAt = toISOString (grLastOccurredAt row), rpLastReceivedAt = toISOString (grLastReceivedAt row),
           rpSamples = gdSamples doc, rpSourcePointCount = gdSourcePointCount doc\<rparr>) r"

record position_event =
  peAccuracyMeters :: "real option option"
  peDriverId :: string
  peEventId :: string
  peGapBefore :: "bool option"
  peLatitude :: real
  peLongitude :: real
  peOccurredAt :: string
  peReceivedAt :: string
  peRoutePlanId :: string
  peSourceIndex :: "int option"

definition positionEvent :: "geometry_row \<Rightarrow> geometry_sample \<Rightarrow> coordinate option \<Rightarrow> position_event list" where
  "positionEvent row s coordinate =
     (case (coordinate, coalesce (gsDriverId s) (grLastDriverId row)) of
        (Some c, Some driverId) \<Rightarrow>
          [\<lparr>peAccuracyMeters = gsAccuracyMeters s, peDriverId = driverId, peEventId = gsEventId s,
            peGapBefore = gsGapBefore s, peLatitude = snd c, peLongitude = fst c, peOccurredAt = gsOccurredAt s,
            peReceivedAt = gsReceivedAt s, peRoutePlanId = grRoutePlanId row, peSourceIndex = gsSourceIndex s\<rparr>]
      | _ \<Rightarrow> [])"

definition toRouteTrackingPositionEvents :: "tracking_env \<Rightarrow> geometry_row option \<Rightarrow> position_event list" where
  "toRouteTrackingPositionEvents env r =
     (case r of
        None \<Rightarrow> []
      | Some row \<Rightarrow>
          (let doc = readRouteTrackingGeometryDocument env (Some row)
           in concat (map (\<lambda>(i, s). positionEvent row s
                (if i < length (gdCoordinates doc) then Some (gdCoordinates doc ! i) else None))
                (enumerate 0 (gdSamples doc)))))"

section \<open>The simplified path\<close>

text \<open>
  \<open>covers coordinates R lo hi\<close>: the indexes \<open>R\<close> begin at \<open>lo\<close>, end at \<open>hi\<close>, and every index
  between them that is left out lies within the tolerance of the leg between its two retained
  neighbours, which is no longer than the longest simplified leg.
\<close>

definition within_leg :: "coordinate list \<Rightarrow> nat \<Rightarrow> nat \<Rightarrow> nat \<Rightarrow> bool" where
  "within_leg cs a k b =
     (a < k \<and> k < b
      \<and> distancePointToSegmentMeters (cs ! k) (cs ! a) (cs ! b) \<le> geometrySimplificationToleranceMeters
      \<and> distanceBetweenCoordinatesMeters (cs ! a) (cs ! b) \<le> MAX_SIMPLIFIED_GPS_LEG_METERS)"

definition spanned :: "coordinate list \<Rightarrow> nat set \<Rightarrow> nat \<Rightarrow> bool" where
  "spanned cs R k \<longleftrightarrow> k \<in> R \<or> (\<exists>a \<in> R. \<exists>b \<in> R. within_leg cs a k b \<and> (\<forall>j \<in> R. j \<le> a \<or> b \<le> j))"

definition covers :: "coordinate list \<Rightarrow> nat set \<Rightarrow> nat \<Rightarrow> nat \<Rightarrow> bool" where
  "covers cs R lo hi \<longleftrightarrow>
     lo \<in> R \<and> hi \<in> R \<and> R \<subseteq> {lo..hi} \<and> (\<forall>k \<in> {lo..hi}. spanned cs R k)"

lemma spanned_union:
  assumes "spanned cs R k" and "\<And>a b j. a \<in> R \<Longrightarrow> b \<in> R \<Longrightarrow> a < b \<Longrightarrow> j \<in> S \<Longrightarrow> j \<le> a \<or> b \<le> j"
  shows "spanned cs (R \<union> S) k"
proof (cases "k \<in> R")
  case False
  then obtain a b where ab: "a \<in> R" "b \<in> R" "within_leg cs a k b" "\<forall>j \<in> R. j \<le> a \<or> b \<le> j"
    using assms(1) by (auto simp: spanned_def)
  moreover have "a < b" using ab(3) by (simp add: within_leg_def)
  ultimately have "\<forall>j \<in> R \<union> S. j \<le> a \<or> b \<le> j" using assms(2) by blast
  then show ?thesis using ab by (auto simp: spanned_def)
qed (simp add: spanned_def)

lemma covers_append:
  assumes R: "covers cs R lo m" and S: "covers cs S m' hi" and "m' = m \<or> m' = m + 1"
  shows "covers cs (R \<union> S) lo hi"
proof -
  have le: "lo \<le> m" "m' \<le> hi" "m \<le> m'" using assms by (auto simp: covers_def)
  have below: "a \<le> m" if "a \<in> R" for a using that R by (auto simp: covers_def)
  have above: "m' \<le> j" if "j \<in> S" for j using that S by (auto simp: covers_def)
  have "spanned cs (R \<union> S) k" if k: "k \<in> {lo..hi}" for k
  proof (cases "k \<le> m")
    case True
    then have "spanned cs R k" using R k by (auto simp: covers_def)
    then show ?thesis using below above le by (intro spanned_union) (meson order_trans)+
  next
    case False
    then have "k \<in> {m'..hi}" using k assms(3) by auto
    then have "spanned cs S k" using S by (auto simp: covers_def)
    then have "spanned cs (S \<union> R) k" using below above le by (intro spanned_union) (meson order_trans)+
    then show ?thesis by (simp add: Un_commute)
  qed
  then show ?thesis using R S le by (auto simp: covers_def)
qed

lemma furthestLoop_bound: "d \<le> snd (furthestLoop far f d is) \<and> (\<forall>i \<in> set is. far i \<le> snd (furthestLoop far f d is))"
  by (induction far f d "is" rule: furthestLoop.induct) (auto split: if_splits)

lemma furthestLoop_None: "fst (furthestLoop far f d is) = None \<Longrightarrow> f = None \<and> snd (furthestLoop far f d is) = d"
  by (induction far f d "is" rule: furthestLoop.induct) (auto split: if_splits)

lemma covers_leg:
  assumes "s < e" and "distanceBetweenCoordinatesMeters (cs ! s) (cs ! e) \<le> MAX_SIMPLIFIED_GPS_LEG_METERS"
    and "snd (furthestIndex cs s e) \<le> geometrySimplificationToleranceMeters"
  shows "covers cs {s, e} s e"
proof -
  have "spanned cs {s, e} k" if k: "k \<in> {s..e}" for k
  proof (cases "k = s \<or> k = e")
    case False
    then have "distancePointToSegmentMeters (cs ! k) (cs ! s) (cs ! e) \<le> snd (furthestIndex cs s e)"
      using k furthestLoop_bound [of 0 "\<lambda>i. distancePointToSegmentMeters (cs ! i) (cs ! s) (cs ! e)" None "[s + 1..<e]"]
      by (auto simp: furthestIndex_def)
    then have "within_leg cs s k e" using False k assms by (auto simp: within_leg_def)
    then show ?thesis by (auto simp: spanned_def)
  qed (auto simp: spanned_def)
  then show ?thesis using assms(1) by (auto simp: covers_def)
qed

lemma covers_short: "s \<le> e \<Longrightarrow> e - s \<le> 1 \<Longrightarrow> covers cs {s, e} s e"
  by (auto simp: covers_def spanned_def)

lemma covers_insert_ends: "covers cs R s e \<Longrightarrow> {s, e} \<union> R = R"
  by (auto simp: covers_def)

lemma retain_covers: "s \<le> e \<Longrightarrow> covers cs (set (retainSimplifiedSegment cs s e)) s e"
proof (induction cs s e rule: retainSimplifiedSegment.induct)
  case (1 cs s e)
  let ?r = "\<lambda>a b. set (retainSimplifiedSegment cs a b)"
  note unfold = retainSimplifiedSegment.simps [of cs s e]
  consider (short) "e - s \<le> 1"
    | (long) "\<not> e - s \<le> 1" "distanceBetweenCoordinatesMeters (cs ! s) (cs ! e) > MAX_SIMPLIFIED_GPS_LEG_METERS"
    | (leg) "\<not> e - s \<le> 1" "\<not> distanceBetweenCoordinatesMeters (cs ! s) (cs ! e) > MAX_SIMPLIFIED_GPS_LEG_METERS"
    by linarith
  then show ?case
  proof cases
    case short
    then show ?thesis using 1(5) covers_short unfold by simp
  next
    case long
    let ?m = "(s + e) div 2"
    have "covers cs (?r s ?m) s ?m" "covers cs (?r ?m e) ?m e"
      using 1(1,2) 1(5) long by auto
    then have c: "covers cs (?r s ?m \<union> ?r ?m e) s e" by (rule covers_append) simp
    then show ?thesis using long 1(5) covers_insert_ends [OF c] unfold by (simp add: Let_def)
  next
    case leg
    obtain f d where fd: "furthestIndex cs s e = (f, d)" by fastforce
    show ?thesis
    proof (cases f)
      case None
      then have "d = 0" using furthestLoop_None fd by (metis fst_conv furthestIndex_def snd_conv)
      then show ?thesis
        using covers_leg [of s e cs] leg 1(5) fd None unfold by (simp add: geometrySimplificationToleranceMeters_def)
    next
      case (Some i)
      have i: "s < i" "i < e" using furthestIndex_between [of cs s e i] fd Some by auto
      show ?thesis
      proof (cases "d \<le> geometrySimplificationToleranceMeters")
        case True
        then show ?thesis using covers_leg [of s e cs] leg 1(5) fd Some unfold by simp
      next
        case False
        then have "covers cs (?r s i) s i" "covers cs (?r i e) i e"
          using 1(3,4) 1(5) leg fd Some i by auto
        then have c: "covers cs (?r s i \<union> ?r i e) s e" by (rule covers_append) simp
        then show ?thesis using False leg 1(5) fd Some i covers_insert_ends [OF c] unfold by simp
      qed
    qed
  qed
qed

text \<open>The loop over the samples: what it has retained reachesStart the start of the open segment.\<close>

definition reachesStart :: "coordinate list \<Rightarrow> nat set \<Rightarrow> nat \<Rightarrow> bool" where
  "reachesStart cs R s \<longleftrightarrow> s = 0 \<and> R = {} \<or> (\<exists>m. covers cs R 0 m \<and> (s = m \<or> s = m + 1))"

lemma reachesStart_covers: "reachesStart cs R s \<Longrightarrow> covers cs S s hi \<Longrightarrow> covers cs (R \<union> S) 0 hi"
  unfolding reachesStart_def using covers_append by (metis sup_bot.left_neutral)

definition gaps_kept :: "geometry_document \<Rightarrow> nat set \<Rightarrow> nat \<Rightarrow> bool" where
  "gaps_kept doc R n \<longleftrightarrow>
     (\<forall>g. 0 < g \<and> g < n \<and> gsGapBefore (gdSamples doc ! g) = Some True \<longrightarrow> g \<in> R \<and> g - 1 \<in> R)"

lemma gaps_kept_mono: "gaps_kept doc R n \<Longrightarrow> R \<subseteq> S \<Longrightarrow> gaps_kept doc S n"
  by (auto simp: gaps_kept_def)

lemma simplifyLoop_spec:
  assumes "simplifyLoop env doc s R [i..<n] = (s', R')" and "s < i" "i \<le> n"
    and "reachesStart (gdCoordinates doc) (set R) s"
    and "\<And>S. s \<in> S \<Longrightarrow> gaps_kept doc (set R \<union> S) i"
  shows "s' < n \<and> reachesStart (gdCoordinates doc) (set R') s' \<and> (\<forall>S. s' \<in> S \<longrightarrow> gaps_kept doc (set R' \<union> S) n)"
  using assms
proof (induction "n - i" arbitrary: i s R)
  case 0
  then show ?case by simp
next
  case (Suc k)
  let ?cs = "gdCoordinates doc" and ?sample = "gdSamples doc ! i"
  let ?keep = "\<lambda>e. R @ retainSimplifiedSegment ?cs s e"
  have upt: "[i..<n] = i # [i + 1..<n]" using Suc.hyps(2) by (simp add: upt_conv_Cons)
  have step: "reachesStart ?cs (set (?keep e)) i" if "s \<le> e" "e = i \<or> e = i - 1" for e
  proof -
    have "covers ?cs (set (?keep e)) 0 e"
      using reachesStart_covers [OF Suc.prems(4) retain_covers] that by simp
    then show ?thesis using that Suc.prems(2) unfolding reachesStart_def by (intro disjI2 exI [of _ e]) auto
  qed
  have ends: "s \<in> set (?keep e) \<and> e \<in> set (?keep e)" if "s \<le> e" for e
    using retain_covers [OF that, of ?cs] by (auto simp: covers_def)
  have old: "gaps_kept doc (set (?keep e) \<union> S) i" if "s \<le> e" for e S
    using Suc.prems(5) [of "set (retainSimplifiedSegment ?cs s e) \<union> S"] retain_covers [OF that, of ?cs]
    by (simp add: covers_def Un_assoc)
  have new: "gaps_kept doc T (i + 1)"
    if "gaps_kept doc T i" "gsGapBefore ?sample = Some True \<Longrightarrow> i \<in> T \<and> i - 1 \<in> T" for T
    using that by (auto simp: gaps_kept_def less_Suc_eq)
  consider (gap) "gsGapBefore ?sample = Some True"
    | (close) "gsGapBefore ?sample \<noteq> Some True"
        "elapsedWhen (\<lambda>d. d \<ge> 60000) (elapsedBetween env (gsOccurredAt ?sample) (gsOccurredAt (gdSamples doc ! s)))"
    | (running) "gsGapBefore ?sample \<noteq> Some True"
        "\<not> elapsedWhen (\<lambda>d. d \<ge> 60000) (elapsedBetween env (gsOccurredAt ?sample) (gsOccurredAt (gdSamples doc ! s)))"
    by blast
  then show ?case
  proof cases
    case gap
    have "s \<le> i - 1" using Suc.prems(2) by simp
    moreover have "simplifyLoop env doc i (?keep (i - 1)) [i + 1..<n] = (s', R')"
      using Suc.prems(1) upt gap by (simp add: Let_def)
    ultimately show ?thesis
      using step [of "i - 1"] ends [of "i - 1"] old [of "i - 1"] Suc.hyps(2)
      by (intro Suc.hyps(1) [of "i + 1" i "?keep (i - 1)"] new) auto
  next
    case close
    have "s \<le> i" using Suc.prems(2) by simp
    moreover have "simplifyLoop env doc i (?keep i) [i + 1..<n] = (s', R')"
      using Suc.prems(1) upt close by (simp add: Let_def)
    ultimately show ?thesis
      using step [of i] old [of i] Suc.hyps(2) close
      by (intro Suc.hyps(1) [of "i + 1" i "?keep i"] new) auto
  next
    case running
    then have "simplifyLoop env doc s R [i + 1..<n] = (s', R')"
      using Suc.prems(1) upt by (simp add: Let_def)
    then show ?thesis
      using Suc.prems Suc.hyps(2) running by (intro Suc.hyps(1) [of "i + 1" s R] new) auto
  qed
qed

text \<open>What a selection of the samples of a document keeps.\<close>

definition selects :: "geometry_document \<Rightarrow> geometry_document \<Rightarrow> nat list \<Rightarrow> bool" where
  "selects doc d I =
     (sorted_wrt (<) I \<and> list_all (\<lambda>i. i < length (gdSamples doc)) I
      \<and> gdCoordinates d = map ((!) (gdCoordinates doc)) I \<and> gdSamples d = map ((!) (gdSamples doc)) I
      \<and> gdSourcePointCount d = gdSourcePointCount doc)"

definition within_tolerance :: "geometry_document \<Rightarrow> nat list \<Rightarrow> bool" where
  "within_tolerance doc I \<longleftrightarrow>
     (\<forall>k < length (gdSamples doc). spanned (gdCoordinates doc) (set I) k)
     \<and> gaps_kept doc (set I) (length (gdSamples doc))"

lemma retainedIndexes_spec:
  assumes "length (gdCoordinates doc) = length (gdSamples doc)" and "gdSamples doc \<noteq> []"
  shows "sorted_wrt (<) (retainedIndexes env doc)"
    and "covers (gdCoordinates doc) (set (retainedIndexes env doc)) 0 (length (gdSamples doc) - 1)"
    and "gaps_kept doc (set (retainedIndexes env doc)) (length (gdSamples doc))"
proof -
  let ?n = "length (gdSamples doc)" and ?cs = "gdCoordinates doc"
  obtain s R where loop: "simplifyLoop env doc 0 [] [1..<?n] = (s, R)" by fastforce
  have "s < ?n \<and> reachesStart ?cs (set R) s \<and> (\<forall>S. s \<in> S \<longrightarrow> gaps_kept doc (set R \<union> S) ?n)"
    using assms(2) by (intro simplifyLoop_spec [OF loop]) (auto simp: reachesStart_def gaps_kept_def Suc_leI)
  then have s: "s < ?n" and R: "reachesStart ?cs (set R) s" and gaps: "\<And>S. s \<in> S \<Longrightarrow> gaps_kept doc (set R \<union> S) ?n"
    by auto
  have I: "set (retainedIndexes env doc) = set R \<union> set (retainSimplifiedSegment ?cs s (?n - 1))"
    using assms(1) loop by (auto simp: retainedIndexes_def split: prod.splits)
  have S: "covers ?cs (set (retainSimplifiedSegment ?cs s (?n - 1))) s (?n - 1)"
    using retain_covers s by simp
  show "covers ?cs (set (retainedIndexes env doc)) 0 (?n - 1)"
    unfolding I by (rule reachesStart_covers [OF R S])
  show "gaps_kept doc (set (retainedIndexes env doc)) ?n"
    unfolding I using S by (intro gaps) (simp add: covers_def)
  show "sorted_wrt (<) (retainedIndexes env doc)"
    by (simp add: retainedIndexes_def strict_sorted_iff split: prod.splits)
qed

lemma simplified_path_selects:
  assumes "length (gdCoordinates doc) = length (gdSamples doc)"
  shows "\<exists>I. selects doc (simplifyRouteTrackingGeometryDocument env doc) I \<and> within_tolerance doc I"
proof (cases "length (gdCoordinates doc) \<le> 2")
  case True
  then have "selects doc (simplifyRouteTrackingGeometryDocument env doc) [0..<length (gdSamples doc)]"
    using assms by (auto simp: selects_def simplifyRouteTrackingGeometryDocument_def list_all_iff sorted_wrt_upt
        map_nth [of "gdSamples doc"] map_nth [of "gdCoordinates doc", unfolded assms])
  moreover have "within_tolerance doc [0..<length (gdSamples doc)]"
    by (auto simp: within_tolerance_def spanned_def gaps_kept_def)
  ultimately show ?thesis by blast
next
  case False
  then have ne: "gdSamples doc \<noteq> []" using assms by auto
  note spec = retainedIndexes_spec [OF assms ne]
  have "selects doc (simplifyRouteTrackingGeometryDocument env doc) (retainedIndexes env doc)"
    using False spec(1) [of env] spec(2) [of env] ne
    by (auto simp: selects_def simplifyRouteTrackingGeometryDocument_def list_all_iff covers_def Let_def)
      (metis (no_types, lifting) One_nat_def Suc_pred atLeastAtMost_iff le_imp_less_Suc length_greater_0_conv subsetD)
  moreover have "within_tolerance doc (retainedIndexes env doc)"
    using spec(2) [of env] spec(3) [of env] by (auto simp: within_tolerance_def covers_def)
  ultimately show ?thesis by blast
qed

text \<open>
  Claim C16: simplifying keeps the samples in order together with their coordinates; every sample that is
  left out lies within 5 m of the leg between its two retained neighbours, a leg of at most 750 m; the
  first and the last sample are kept, and so are both samples beside every tracking gap.
\<close>
theorem simplified_path_is_within_tolerance:
  assumes "length (gdCoordinates doc) = length (gdSamples doc)"
  shows "\<exists>I. selects doc (simplifyRouteTrackingGeometryDocument env doc) I \<and> within_tolerance doc I"
  using assms by (rule simplified_path_selects)

end
