(* ===== verification/TrackingDocuments.thy ===== *)
theory TrackingDocuments
  imports TrackingGeometry
begin

text \<open>
  The documents of recorded paths: what is well-formed, that appending, building, simplifying and pruning keep it
  so, that a built document does not depend on the order of its positions, and that a stored document is read
  back unchanged.
\<close>

section \<open>Well-formed documents\<close>

text \<open>
  A text \<^verbatim>\<open>toISOString\<close> wrote; an instant whose text is read back; an accuracy in hundredths of a
  metre.
\<close>

definition iso_text :: "tracking_env \<Rightarrow> string \<Rightarrow> bool" where
  "iso_text env s = (case teParse env s of None \<Rightarrow> False | Some t \<Rightarrow> toISOString t = s)"

definition reads_iso :: "tracking_env \<Rightarrow> int \<Rightarrow> bool" where
  "reads_iso env t = (teParse env (toISOString t) = Some t)"

lemma iso_text_toISOString: "reads_iso env t \<Longrightarrow> iso_text env (toISOString t)"
  by (simp add: iso_text_def reads_iso_def)

lemma instantOf_toISOString: "reads_iso env t \<Longrightarrow> instantOf env (toISOString t) = t"
  by (simp add: instantOf_def reads_iso_def)

definition accuracy_rounded :: "real option \<Rightarrow> bool" where
  "accuracy_rounded a = (case a of None \<Rightarrow> True | Some x \<Rightarrow> 0 \<le> x \<and> js_round (x * 100) / 100 = x)"

lemma accuracy_rounded_normalize: "accuracy_rounded (normalizeAccuracyMeters v)"
  by (auto simp: normalizeAccuracyMeters_def accuracy_rounded_def js_round_def split: jsnum.split)

definition readable_position :: "tracking_env \<Rightarrow> geometry_position \<Rightarrow> bool" where
  "readable_position env p =
     (isValidPosition env p \<longrightarrow>
        reads_iso env (instantOf env (gpOccurredAt p)) \<and> reads_iso env (instantOf env (gpReceivedAt p)))"

definition well_formed_sample :: "tracking_env \<Rightarrow> int \<Rightarrow> geometry_sample \<Rightarrow> bool" where
  "well_formed_sample env points s =
     (iso_text env (gsOccurredAt s) \<and> iso_text env (gsReceivedAt s) \<and> gsGapBefore s \<noteq> None
      \<and> (case gsAccuracyMeters s of None \<Rightarrow> False | Some a \<Rightarrow> accuracy_rounded a)
      \<and> (case gsSourceIndex s of None \<Rightarrow> False | Some i \<Rightarrow> 0 \<le> i \<and> i < points))"

definition follows :: "tracking_env \<Rightarrow> geometry_sample \<Rightarrow> geometry_sample \<Rightarrow> bool" where
  "follows env s t =
     (gsEventId s \<noteq> gsEventId t \<and> instantOf env (gsOccurredAt s) \<le> instantOf env (gsOccurredAt t)
      \<and> coalesce_def_value (gsSourceIndex s) 0 < coalesce_def_value (gsSourceIndex t) 0)"

definition well_formed_document :: "tracking_env \<Rightarrow> geometry_document \<Rightarrow> bool" where
  "well_formed_document env doc =
     (length (gdCoordinates doc) = length (gdSamples doc)
      \<and> list_all (well_formed_sample env (gdSourcePointCount doc)) (gdSamples doc)
      \<and> sorted_wrt (follows env) (gdSamples doc) \<and> 0 \<le> gdSourcePointCount doc)"

lemma well_formed_empty: "well_formed_document env emptyDocument"
  by (simp add: well_formed_document_def emptyDocument_def)

lemma well_formed_lengths: "well_formed_document env doc \<Longrightarrow> length (gdCoordinates doc) = length (gdSamples doc)"
  by (simp add: well_formed_document_def)

lemma sorted_wrt_select:
  "sorted_wrt P xs \<Longrightarrow> sorted_wrt (<) I \<Longrightarrow> list_all (\<lambda>i. i < length xs) I \<Longrightarrow> sorted_wrt P (map ((!) xs) I)"
  by (auto simp: sorted_wrt_iff_nth_less list_all_length)

lemma well_formed_selects:
  assumes "well_formed_document env doc" and "selects doc d I"
  shows "well_formed_document env d"
  using assms sorted_wrt_select [of "follows env" "gdSamples doc" I]
  by (auto simp: well_formed_document_def selects_def list_all_iff)

lemma well_formed_simplify:
  assumes "well_formed_document env doc"
  shows "well_formed_document env (simplifyRouteTrackingGeometryDocument env doc)"
  using simplified_path_selects [OF well_formed_lengths [OF assms]] well_formed_selects [OF assms] by blast

subsection \<open>Appending\<close>

definition ends_before :: "tracking_env \<Rightarrow> geometry_document \<Rightarrow> geometry_position \<Rightarrow> bool" where
  "ends_before env doc p =
     list_all (\<lambda>s. gsEventId s \<noteq> gpEventId p \<and> instantOf env (gsOccurredAt s) \<le> instantOf env (gpOccurredAt p))
       (gdSamples doc)"

lemma well_formed_snoc:
  assumes wf: "well_formed_document env doc" and "ends_before env doc p"
    and "isValidPosition env p" and "readable_position env p"
    and "set ss \<subseteq> set (gdSamples doc)" and "sorted_wrt (follows env) ss" and "length cs = length ss"
  shows "well_formed_document env
    (doc\<lparr>gdCoordinates := cs @ [c],
         gdSamples := ss @ [(toSample env p (gdSourcePointCount doc) False)\<lparr>gsGapBefore := Some g\<rparr>],
         gdSourcePointCount := gdSourcePointCount doc + 1\<rparr>)"
proof -
  have old: "well_formed_sample env (gdSourcePointCount doc) s" "gsEventId s \<noteq> gpEventId p"
    "instantOf env (gsOccurredAt s) \<le> instantOf env (gpOccurredAt p)" if "s \<in> set ss" for s
    using that assms(1,2,5) by (auto simp: well_formed_document_def ends_before_def list_all_iff)
  have "well_formed_sample env (gdSourcePointCount doc + 1) s" if "s \<in> set ss" for s
    using old(1) [OF that] by (auto simp: well_formed_sample_def split: option.splits)
  moreover have "follows env s ((toSample env p (gdSourcePointCount doc) False)\<lparr>gsGapBefore := Some g\<rparr>)"
    if "s \<in> set ss" for s
    using old [OF that] assms(3,4)
    by (auto simp: follows_def toSample_def instantOf_toISOString readable_position_def well_formed_sample_def
        split: option.splits)
  moreover have "0 \<le> gdSourcePointCount doc" using wf by (simp add: well_formed_document_def)
  ultimately show ?thesis
    using assms(3,4,6,7)
    by (auto simp: well_formed_document_def list_all_iff sorted_wrt_append well_formed_sample_def toSample_def
        iso_text_toISOString accuracy_rounded_normalize readable_position_def)
qed

lemma sorted_wrt_butlast: "sorted_wrt P xs \<Longrightarrow> sorted_wrt P (butlast xs)"
  by (cases xs rule: rev_cases) (auto simp: sorted_wrt_append)

lemma well_formed_appendMutable:
  assumes "well_formed_document env doc" and "ends_before env doc p"
    and "isValidPosition env p" and "readable_position env p"
  shows "well_formed_document env (appendMutable env doc p)"
proof -
  have "set (butlast (gdSamples doc)) \<subseteq> set (gdSamples doc)" by (auto dest: in_set_butlastD)
  moreover have "sorted_wrt (follows env) (gdSamples doc)"
    using assms(1) by (simp add: well_formed_document_def)
  ultimately show ?thesis
    using well_formed_lengths [OF assms(1)]
    by (auto simp: appendMutable_def Let_def intro!: well_formed_snoc [OF assms] sorted_wrt_butlast)
qed

lemma appendMutable_samples:
  assumes "s \<in> set (gdSamples (appendMutable env doc p))"
  shows "s \<in> set (gdSamples doc) \<or> gsEventId s = gpEventId p \<and> gsOccurredAt s = toISOString (instantOf env (gpOccurredAt p))"
  using assms by (auto simp: appendMutable_def Let_def toSample_def dest: in_set_butlastD split: if_splits)

lemma appendMutable_count: "gdSourcePointCount (appendMutable env doc p) = gdSourcePointCount doc + 1"
  by (simp add: appendMutable_def Let_def)

lemma appendMutable_last:
  "gdSamples (appendMutable env doc p) \<noteq> [] \<and> gsEventId (last (gdSamples (appendMutable env doc p))) = gpEventId p
   \<and> gsOccurredAt (last (gdSamples (appendMutable env doc p))) = toISOString (instantOf env (gpOccurredAt p))
   \<and> gsReceivedAt (last (gdSamples (appendMutable env doc p))) = toISOString (instantOf env (gpReceivedAt p))"
  by (simp add: appendMutable_def Let_def toSample_def)

lemma ends_before_cong:
  "list_all (\<lambda>s. gsEventId s \<noteq> gpEventId p) (gdSamples doc) \<Longrightarrow>
   (gdSamples doc \<noteq> [] \<Longrightarrow> instantOf env (gsOccurredAt (last (gdSamples doc))) \<le> instantOf env (gpOccurredAt p)) \<Longrightarrow>
   well_formed_document env doc \<Longrightarrow> ends_before env doc p"
  by (cases "gdSamples doc" rule: rev_cases)
    (auto simp: ends_before_def well_formed_document_def list_all_iff sorted_wrt_append follows_def intro: order_trans)

lemma append_well_formed:
  assumes "well_formed_document env doc" and "readable_position env p"
    and "isValidPosition env p \<Longrightarrow> gdSamples doc \<noteq> [] \<Longrightarrow>
      instantOf env (gsOccurredAt (last (gdSamples doc))) \<le> instantOf env (gpOccurredAt p)"
  shows "well_formed_document env (appendRouteTrackingGeometryPosition env doc p)"
proof -
  have "ends_before env doc p" if "isValidPosition env p" "\<not> list_ex (\<lambda>s. gsEventId s = gpEventId p) (gdSamples doc)"
    using that assms by (intro ends_before_cong) (auto simp: list_all_iff list_ex_iff)
  then show ?thesis
    using assms by (auto simp: appendRouteTrackingGeometryPosition_def intro: well_formed_appendMutable)
qed


subsection \<open>Building\<close>

lemma foldl_append_well_formed:
  assumes "well_formed_document env doc"
    and "list_all (\<lambda>p. ends_before env doc p \<and> isValidPosition env p \<and> readable_position env p) ps"
    and "sorted_wrt (\<lambda>p q. gpEventId p \<noteq> gpEventId q
      \<and> instantOf env (gpOccurredAt p) \<le> instantOf env (gpOccurredAt q)) ps"
  shows "well_formed_document env (foldl (appendMutable env) doc ps)"
  using assms
proof (induction ps arbitrary: doc)
  case (Cons p ps)
  have "ends_before env (appendMutable env doc p) q" if q: "q \<in> set ps" for q
  proof -
    have "instantOf env (toISOString (instantOf env (gpOccurredAt p))) = instantOf env (gpOccurredAt p)"
      using Cons.prems(2) by (auto simp: readable_position_def instantOf_toISOString)
    then show ?thesis
      using Cons.prems(2,3) q
      by (auto simp: ends_before_def list_all_iff dest!: appendMutable_samples)
  qed
  then show ?case
    using Cons.prems by (auto simp: list_all_iff intro!: Cons.IH well_formed_appendMutable)
qed simp

lemma set_setByEventId: "set (setByEventId p qs) \<subseteq> insert p (set qs)"
  by (induction p qs rule: setByEventId.induct) auto

lemma distinct_setByEventId: "distinct (map gpEventId qs) \<Longrightarrow> distinct (map gpEventId (setByEventId p qs))"
proof (induction p qs rule: setByEventId.induct)
  case (2 p q qs)
  then show ?case using set_setByEventId [of p qs] by (auto simp: image_iff)
qed simp

lemma uniqueValidPositions_spec:
  "set (uniqueValidPositions env ps) \<subseteq> {p \<in> set ps. isValidPosition env p}"
  "distinct (map gpEventId (uniqueValidPositions env ps))"
proof -
  have from_inputs: "set (fold setByEventId ps qs) \<subseteq> set ps \<union> set qs" for ps qs
  proof (induction ps arbitrary: qs)
    case (Cons p ps)
    then show ?case using set_setByEventId [of p qs] Cons [of "setByEventId p qs"] by auto
  qed simp
  show "set (uniqueValidPositions env ps) \<subseteq> {p \<in> set ps. isValidPosition env p}"
    unfolding uniqueValidPositions_def using from_inputs [of "filter (isValidPosition env) ps" "[]"] by simp
  have "distinct (map gpEventId qs) \<Longrightarrow> distinct (map gpEventId (fold setByEventId ps qs))" for ps qs
    by (induction ps arbitrary: qs) (auto intro: distinct_setByEventId)
  then show "distinct (map gpEventId (uniqueValidPositions env ps))"
    by (simp add: uniqueValidPositions_def)
qed

lemma uniqueValidPositions_all:
  assumes "\<And>p q. p \<in> set ps \<Longrightarrow> q \<in> set ps \<Longrightarrow> gpEventId p = gpEventId q \<Longrightarrow> p = q"
  shows "set (uniqueValidPositions env ps) = {p \<in> set ps. isValidPosition env p}"
proof -
  have put: "set (setByEventId p qs) = insert p (set qs)"
    if "\<And>q. q \<in> set qs \<Longrightarrow> gpEventId q = gpEventId p \<Longrightarrow> q = p" for p qs
    using that by (induction p qs rule: setByEventId.induct) auto
  have all: "set (fold setByEventId xs qs) = set xs \<union> set qs" if "set xs \<subseteq> set ps" "set qs \<subseteq> set ps" for xs qs
    using that
  proof (induction xs arbitrary: qs)
    case (Cons x xs)
    have "set (setByEventId x qs) = insert x (set qs)"
      using Cons.prems assms [of _ x] by (intro put) auto
    moreover from this have "set (fold setByEventId xs (setByEventId x qs)) = set xs \<union> set (setByEventId x qs)"
      using Cons.prems by (intro Cons.IH) auto
    ultimately show ?case by simp
  qed simp
  then show ?thesis
    unfolding uniqueValidPositions_def using all [of "filter (isValidPosition env) ps" "[]"] by simp
qed

lemma sign_comparator_positions:
  "sign_comparator (teLocaleCompare env) \<Longrightarrow> sign_comparator (comparePositions env)"
  unfolding comparePositions_def
  by (rule sign_comparator_or_else [OF sign_comparator_int
        sign_comparator_or_else [OF sign_comparator_int sign_comparator_on]])

lemma comparePositions_occurred:
  "comparePositions env p q \<le> 0 \<Longrightarrow> instantOf env (gpOccurredAt p) \<le> instantOf env (gpOccurredAt q)"
  by (simp add: comparePositions_def or_else_def compare_int_def split: if_splits)

lemma sorted_positions:
  assumes "sign_comparator (teLocaleCompare env)" and "distinct (map gpEventId ps)"
  shows "sorted_wrt (\<lambda>p q. gpEventId p \<noteq> gpEventId q
    \<and> instantOf env (gpOccurredAt p) \<le> instantOf env (gpOccurredAt q)) (sort_by (comparePositions env) ps)"
proof -
  note in_order = comparator.sorted_sort_by [OF comparator_of_sign [OF sign_comparator_positions [OF assms(1)]]]
  have "mset (map gpEventId (sort_by (comparePositions env) ps)) = mset (map gpEventId ps)"
    by (simp only: mset_map mset_sort_by)
  then have "distinct (map gpEventId (sort_by (comparePositions env) ps))"
    using assms(2) mset_eq_imp_distinct_iff [of "map gpEventId (sort_by (comparePositions env) ps)" "map gpEventId ps"]
    by simp
  then have "sorted_wrt (\<lambda>p q. gpEventId p \<noteq> gpEventId q) (sort_by (comparePositions env) ps)"
    by (simp add: sorted_wrt_iff_nth_less distinct_conv_nth)
  moreover have "sorted_wrt (\<lambda>p q. instantOf env (gpOccurredAt p) \<le> instantOf env (gpOccurredAt q))
    (sort_by (comparePositions env) ps)"
    using in_order [of ps] by (rule sorted_wrt_mono_rel [rotated]) (auto dest: comparePositions_occurred)
  ultimately show ?thesis by (simp add: sorted_wrt_iff_nth_less)
qed

lemma unsimplified_well_formed:
  assumes "sign_comparator (teLocaleCompare env)" and "list_all (readable_position env) ps"
  shows "well_formed_document env
    (foldl (appendMutable env) emptyDocument (sort_by (comparePositions env) (uniqueValidPositions env ps)))"
proof -
  let ?ps = "sort_by (comparePositions env) (uniqueValidPositions env ps)"
  have "list_all (\<lambda>p. ends_before env emptyDocument p \<and> isValidPosition env p \<and> readable_position env p) ?ps"
    using uniqueValidPositions_spec(1) [of env ps] assms(2)
    by (auto simp: list_all_iff ends_before_def emptyDocument_def)
  then show ?thesis
    using sorted_positions [OF assms(1) uniqueValidPositions_spec(2)]
    by (rule foldl_append_well_formed [OF well_formed_empty])
qed

lemma build_well_formed:
  assumes "sign_comparator (teLocaleCompare env)" and "list_all (readable_position env) ps"
  shows "well_formed_document env (buildRouteTrackingGeometryDocument env ps)"
  unfolding buildRouteTrackingGeometryDocument_def
  using unsimplified_well_formed [OF assms] by (rule well_formed_simplify)

lemma simplify_ends:
  assumes "well_formed_document env doc" and "gdSamples doc \<noteq> []"
  defines "d \<equiv> simplifyRouteTrackingGeometryDocument env doc"
  shows "gdSamples d \<noteq> [] \<and> last (gdSamples d) = last (gdSamples doc) \<and> hd (gdSamples d) = hd (gdSamples doc)
    \<and> gdSourcePointCount d = gdSourcePointCount doc"
proof (cases "length (gdCoordinates doc) \<le> 2")
  case False
  let ?I = "retainedIndexes env doc" and ?n = "length (gdSamples doc)"
  have len: "length (gdCoordinates doc) = ?n" using assms(1) by (rule well_formed_lengths)
  have covers: "covers (gdCoordinates doc) (set ?I) 0 (?n - 1)" and sorted: "sorted_wrt (<) ?I"
    using retainedIndexes_spec [OF len assms(2), of env] by auto
  then have ne: "?I \<noteq> []" by (auto simp: covers_def)
  have mono: "sorted ?I" using sorted by (simp add: strict_sorted_iff)
  have "last ?I = ?n - 1"
  proof (rule antisym)
    show "last ?I \<le> ?n - 1" using covers last_in_set [OF ne] by (auto simp: covers_def)
    show "?n - 1 \<le> last ?I"
      using covers mono ne by (cases ?I rule: rev_cases) (auto simp: covers_def sorted_append)
  qed
  moreover have "hd ?I = 0"
    using covers mono ne by (cases ?I) (auto simp: covers_def)
  ultimately show ?thesis
    using False ne assms(2)
    by (simp add: d_def simplifyRouteTrackingGeometryDocument_def Let_def last_map hd_map last_conv_nth hd_conv_nth)
qed (use assms in \<open>simp add: simplifyRouteTrackingGeometryDocument_def\<close>)

text \<open>
  Claim C23: a document that is built from positions does not depend on their order or their repetition, as long
  as an event has one position and \<^verbatim>\<open>localeCompare\<close> tells different events apart.
\<close>
theorem build_is_order_independent:
  assumes "sign_comparator (teLocaleCompare env)" and "set ps = set qs"
    and "\<And>p q. p \<in> set ps \<Longrightarrow> q \<in> set ps \<Longrightarrow> teLocaleCompare env (gpEventId p) (gpEventId q) = 0 \<Longrightarrow> p = q"
  shows "buildRouteTrackingGeometryDocument env ps = buildRouteTrackingGeometryDocument env qs"
proof -
  note flip = sign_comparator.cmp_flip [OF assms(1)]
    and permutation = comparator.sort_by_permutation [OF comparator_of_sign [OF sign_comparator_positions [OF assms(1)]]]
  have self: "teLocaleCompare env a a = 0" for a
    using flip [of a a] by linarith
  have one: "p = q" if "p \<in> set ps" "q \<in> set ps" "gpEventId p = gpEventId q" for p q
    using assms(3) [OF that(1,2)] that(3) self by simp
  have uni: "set (uniqueValidPositions env xs) = {p \<in> set xs. isValidPosition env p}" if "set xs = set ps" for xs
    using uniqueValidPositions_all [of xs env] one that by auto
  have dist: "distinct (uniqueValidPositions env xs)" for xs
    using uniqueValidPositions_spec(2) [of env xs] by (simp add: distinct_map)
  have "mset (uniqueValidPositions env ps) = mset (uniqueValidPositions env qs)"
    using uni [OF refl] uni [OF assms(2) [symmetric]] assms(2) dist
    by (simp add: set_eq_iff_mset_eq_distinct [symmetric])
  moreover have "p = q" if "p \<in> set ps" "q \<in> set ps" "comparePositions env p q \<le> 0" "comparePositions env q p \<le> 0" for p q
  proof -
    have "teLocaleCompare env (gpEventId p) (gpEventId q) \<le> 0" "teLocaleCompare env (gpEventId q) (gpEventId p) \<le> 0"
      using that(3,4) by (simp_all add: comparePositions_def or_else_def compare_int_def split: if_splits)
    then have "teLocaleCompare env (gpEventId p) (gpEventId q) = 0"
      using flip [of "gpEventId p" "gpEventId q"] flip [of "gpEventId q" "gpEventId p"] by linarith
    then show ?thesis using assms(3) that(1,2) by blast
  qed
  ultimately have "sort_by (comparePositions env) (uniqueValidPositions env ps)
      = sort_by (comparePositions env) (uniqueValidPositions env qs)"
    using uni [of ps] by (intro permutation) auto
  then show ?thesis by (simp add: buildRouteTrackingGeometryDocument_def)
qed

section \<open>Pruning\<close>

lemma retainedFrom_sorted: "sorted_wrt (<) (retainedFrom env samples cutoff)"
  by (simp add: retainedFrom_def sorted_wrt_filter)

lemma pruned_document:
  assumes "well_formed_document env doc"
  fixes cutoff
  defines "d \<equiv> pruneRouteTrackingGeometryDocument env doc cutoff"
  shows "well_formed_document env d
    \<and> map (\<lambda>s. (gsEventId s, gsOccurredAt s)) (gdSamples d)
      = map (\<lambda>s. (gsEventId s, gsOccurredAt s)) (filter (\<lambda>s. instantOf env (gsOccurredAt s) \<ge> cutoff) (gdSamples doc))"
proof -
  let ?ss = "gdSamples doc" and ?I = "retainedFrom env (gdSamples doc) cutoff"
  have wf: "well_formed_sample env (gdSourcePointCount doc) (?ss ! i)" if "i < length ?ss" for i
    using assms(1) that by (auto simp: well_formed_document_def list_all_length)
  have late: "(case teParse env (gsOccurredAt (?ss ! i)) of None \<Rightarrow> False | Some t \<Rightarrow> t \<ge> cutoff)
      \<longleftrightarrow> instantOf env (gsOccurredAt (?ss ! i)) \<ge> cutoff" if "i < length ?ss" for i
    using wf [OF that] by (auto simp: well_formed_sample_def iso_text_def instantOf_def split: option.splits)
  have I: "?I = filter (\<lambda>i. instantOf env (gsOccurredAt (?ss ! i)) \<ge> cutoff) [0..<length ?ss]"
    unfolding retainedFrom_def by (rule filter_cong [OF refl]) (use late in simp)
  have kept: "map ((!) ?ss) ?I = filter (\<lambda>s. instantOf env (gsOccurredAt s) \<ge> cutoff) ?ss"
    unfolding I by (subst (3) map_nth [symmetric]) (simp add: filter_map o_def)
  show ?thesis
  proof (cases "length ?I = length ?ss")
    case True
    then have "filter (\<lambda>s. instantOf env (gsOccurredAt s) \<ge> cutoff) ?ss = ?ss"
      using kept by (metis filter_True length_filter_less length_map less_irrefl)
    then show ?thesis using True assms(1) by (simp add: d_def pruneRouteTrackingGeometryDocument_def Let_def)
  next
    case False
    define base where "base = (case ?I of [] \<Rightarrow> gdSourcePointCount doc | i # _ \<Rightarrow> coalesce_def_value (gsSourceIndex (?ss ! i)) (int i))"
    have in_range: "i < length ?ss" if "i \<in> set ?I" for i using that by (auto simp: I)
    have d: "d = \<lparr>gdCoordinates = map ((!) (gdCoordinates doc)) ?I,
        gdSamples = map (\<lambda>(j, i). prunedSample doc base j i) (enumerate 0 ?I),
        gdSourcePointCount = max 0 (gdSourcePointCount doc - base)\<rparr>"
      using False in_range well_formed_lengths [OF assms(1)]
      by (auto simp: d_def pruneRouteTrackingGeometryDocument_def Let_def base_def prunedSample_def filter_True
          cong: filter_cong)
    have nth: "gdSamples d ! j = prunedSample doc base j (?I ! j)" "?I ! j < length ?ss" if "j < length ?I" for j
      using that in_range by (simp_all add: d nth_enumerate_eq)
    have later: "follows env (?ss ! (?I ! j)) (?ss ! (?I ! k))" if "j < k" "k < length ?I" for j k
      using assms(1) retainedFrom_sorted [of env ?ss cutoff] that nth(2) [of k]
      by (auto simp: well_formed_document_def sorted_wrt_iff_nth_less)
    have cnt: "gdSourcePointCount d = max 0 (gdSourcePointCount doc - base)"
      and len: "length (gdSamples d) = length ?I" "length (gdCoordinates d) = length ?I" by (simp_all add: d)
    define idx where "idx j = the (gsSourceIndex (?ss ! (?I ! j)))" for j
    have idx: "gsSourceIndex (?ss ! (?I ! j)) = Some (idx j)" "idx j < gdSourcePointCount doc" if "j < length ?I" for j
      using wf [OF nth(2) [OF that]] by (auto simp: well_formed_sample_def idx_def split: option.splits)
    have less: "idx j < idx k" if "j < k" "k < length ?I" for j k
      using later [OF that] idx(1) [of j] idx(1) [of k] that by (simp add: follows_def)
    have base: "base \<le> idx j" if "j < length ?I" for j
    proof -
      have "?I \<noteq> []" using that by auto
      then have "base = idx 0" using idx(1) [of 0] by (cases ?I) (simp_all add: base_def)
      then show ?thesis using less [of 0 j] that by (cases j) auto
    qed
    have "well_formed_sample env (gdSourcePointCount d) (gdSamples d ! j)" if j: "j < length ?I" for j
      unfolding nth(1) [OF j] cnt using wf [OF nth(2) [OF j]] idx [OF j] base [OF j]
      by (auto simp: prunedSample_def Let_def well_formed_sample_def)
    moreover have "follows env (gdSamples d ! j) (gdSamples d ! k)" if jk: "j < k" "k < length ?I" for j k
    proof -
      have "j < length ?I" using jk by simp
      then show ?thesis
        unfolding nth(1) [OF \<open>j < length ?I\<close>] nth(1) [OF jk(2)]
        using later [OF jk] less [OF jk] idx(1) [of j] idx(1) [of k] base [of j] jk
        by (auto simp: prunedSample_def Let_def follows_def)
    qed
    ultimately have "well_formed_document env d"
      by (simp add: well_formed_document_def list_all_length sorted_wrt_iff_nth_less len cnt)
    moreover have "map (\<lambda>s. (gsEventId s, gsOccurredAt s)) (gdSamples d)
        = map (\<lambda>s. (gsEventId s, gsOccurredAt s)) (map ((!) ?ss) ?I)"
      by (rule nth_equalityI) (auto simp: len nth prunedSample_def Let_def)
    ultimately show ?thesis using kept by simp
  qed
qed

section \<open>Storing and reading back\<close>

definition trimmed_text :: "string \<Rightarrow> bool" where
  "trimmed_text s = (s \<noteq> [] \<and> js_trim s = s)"

definition named_sample :: "geometry_sample \<Rightarrow> bool" where
  "named_sample s =
     (trimmed_text (gsEventId s) \<and> (case gsDriverId s of None \<Rightarrow> True | Some d \<Rightarrow> trimmed_text d))"

lemma textOrNull_trimmed: "trimmed_text s \<Longrightarrow> textOrNull (JStr s) = Some s"
  by (simp add: textOrNull_def trimmed_text_def)

lemma textOrNull_jOpt: "(case d of None \<Rightarrow> True | Some s \<Rightarrow> trimmed_text s) \<Longrightarrow> textOrNull (jOpt JStr d) = d"
  by (cases d) (simp_all add: jOpt_def textOrNull_trimmed, simp add: textOrNull_def)

lemma dateStringOrNull_iso: "iso_text env s \<Longrightarrow> dateStringOrNull env (JStr s) = Some s"
  by (auto simp: dateStringOrNull_def iso_text_def split: option.splits)

lemma normalizeAccuracy_stored: "accuracy_rounded a \<Longrightarrow> normalizeAccuracyMeters (jOpt (\<lambda>x. JNum (Num x)) a) = a"
  by (cases a) (auto simp: normalizeAccuracyMeters_def jOpt_def accuracy_rounded_def)

lemma nonNegativeInteger_stored: "0 \<le> i \<Longrightarrow> nonNegativeIntegerOrNull (JNum (Num (of_int i))) = Some i"
  by (simp add: nonNegativeIntegerOrNull_def)

lemma readSample_sampleJson:
  assumes "well_formed_sample env points s" and "named_sample s"
  shows "readSample env (jsonClone (sampleJson s)) = [s]"
proof -
  obtain a g i where f: "gsAccuracyMeters s = Some a" "accuracy_rounded a" "gsGapBefore s = Some g"
      "gsSourceIndex s = Some i" "0 \<le> i"
    and iso: "iso_text env (gsOccurredAt s)" "iso_text env (gsReceivedAt s)"
    using assms(1) by (auto simp: well_formed_sample_def split: option.splits)
  have names: "trimmed_text (gsEventId s)" "case gsDriverId s of None \<Rightarrow> True | Some d \<Rightarrow> trimmed_text d"
    using assms(2) by (auto simp: named_sample_def)
  have clone: "jsonClone (jOpt (\<lambda>x. JNum (Num x)) a) = jOpt (\<lambda>x. JNum (Num x)) a"
    "jsonClone (jOpt JStr (gsDriverId s)) = jOpt JStr (gsDriverId s)"
    "jOpt (\<lambda>x. JNum (Num x)) a \<noteq> JUndefined" "jOpt JStr (gsDriverId s) \<noteq> JUndefined"
    by (auto simp: jOpt_def split: option.splits)
  show ?thesis
    using f clone
    by (simp add: sampleJson_def readSample_def textOrNull_trimmed [OF names(1)] textOrNull_jOpt [OF names(2)]
        dateStringOrNull_iso [OF iso(1)] dateStringOrNull_iso [OF iso(2)] normalizeAccuracy_stored
        nonNegativeInteger_stored)
qed

lemma readSamples_stored:
  assumes "list_all (well_formed_sample env points) ss" and "list_all named_sample ss"
  shows "readSamples env (jsonClone (JArr (map sampleJson ss))) = ss"
proof -
  have "jsonClone (sampleJson s) \<noteq> JUndefined" for s by (simp add: sampleJson_def)
  then have "readSamples env (jsonClone (JArr (map sampleJson ss))) =
      concat (map (\<lambda>s. readSample env (jsonClone (sampleJson s))) ss)"
    by (simp add: readSamples_def o_def)
  also have "\<dots> = concat (map (\<lambda>s. [s]) ss)"
    using assms by (intro arg_cong [where f = concat] map_cong) (auto simp: list_all_iff intro: readSample_sampleJson)
  finally show ?thesis by simp
qed

lemma readGeometry_stored:
  "readGeometryCoordinates (jsonClone (JObj [(''coordinates'', JArr (map coordinateJson cs)), (''type'', JStr ''LineString'')])) = cs"
proof -
  have "jsonClone (coordinateJson c) = coordinateJson c" "readGeometryCoordinate (coordinateJson c) = [c]" for c
    by (simp_all add: coordinateJson_def readGeometryCoordinate_def finiteCoordinate_def)
  moreover have "coordinateJson c \<noteq> JUndefined" for c by (simp add: coordinateJson_def)
  ultimately show ?thesis
    by (simp add: readGeometryCoordinates_def o_def)
qed

lemma well_formed_count: "well_formed_document env doc \<Longrightarrow> int (length (gdSamples doc)) \<le> gdSourcePointCount doc"
proof -
  assume wf: "well_formed_document env doc"
  let ?i = "\<lambda>j. coalesce_def_value (gsSourceIndex (gdSamples doc ! j)) 0"
  have range: "0 \<le> ?i j \<and> ?i j < gdSourcePointCount doc" if "j < length (gdSamples doc)" for j
    using wf that by (auto simp: well_formed_document_def list_all_length well_formed_sample_def split: option.splits dest!: spec [of _ j])
  have "int j \<le> ?i j" if "j < length (gdSamples doc)" for j
    using that
  proof (induction j)
    case (Suc j)
    then have "?i j < ?i (Suc j)"
      using wf by (simp add: well_formed_document_def sorted_wrt_iff_nth_less follows_def)
    then show ?case using Suc by linarith
  qed (use range in simp)
  then show ?thesis
    using range [of "length (gdSamples doc) - 1"] wf
    by (cases "gdSamples doc" rule: rev_cases) (force simp: well_formed_document_def)+
qed

lemma stored_read_back:
  assumes "well_formed_document env doc" and "list_all named_sample (gdSamples doc)"
    and "length (gdCoordinates doc) = 1 \<Longrightarrow>
      list_all (\<lambda>c. decimal7 (fst c) = fst c \<and> decimal7 (snd c) = snd c) (gdCoordinates doc)"
    and "createRouteTrackingGeometryWrite env plan doc = Inr row"
  shows "readRouteTrackingGeometryDocument env (Some row) = doc"
proof -
  have wf: "list_all (well_formed_sample env (gdSourcePointCount doc)) (gdSamples doc)"
    and len: "length (gdCoordinates doc) = length (gdSamples doc)"
    using assms(1) by (auto simp: well_formed_document_def)
  have row: "grSampleMetadata row = jsonClone (JArr (map sampleJson (gdSamples doc)))"
    "grGeometry row = (if length (gdCoordinates doc) \<ge> 2
       then jsonClone (JObj [(''coordinates'', JArr (map coordinateJson (gdCoordinates doc))), (''type'', JStr ''LineString'')])
       else JNull)"
    "grSourcePointCount row = gdSourcePointCount doc" "gdCoordinates doc \<noteq> []"
    "grLastLongitude row = decimal7 (fst (last (gdCoordinates doc)))"
    "grLastLatitude row = decimal7 (snd (last (gdCoordinates doc)))"
    using assms(4) by (auto simp: createRouteTrackingGeometryWrite_def Let_def simp del: jsonClone.simps split: if_splits option.splits)
  have samples: "readSamples env (grSampleMetadata row) = gdSamples doc"
    unfolding row(1) by (rule readSamples_stored [OF wf assms(2)])
  show ?thesis
  proof (cases "length (gdCoordinates doc) = 1")
    case True
    then obtain c where "gdCoordinates doc = [c]" by (auto simp: length_Suc_conv)
    then show ?thesis
      using row assms(3) True len samples well_formed_count [OF assms(1)]
      by (simp add: readRouteTrackingGeometryDocument_def readGeometryCoordinates_def Let_def)
  next
    case False
    then have "length (gdCoordinates doc) \<ge> 2" using row(4) by (cases "gdCoordinates doc"; cases "tl (gdCoordinates doc)") auto
    then have "readGeometryCoordinates (grGeometry row) = gdCoordinates doc"
      unfolding row(2) by (simp only: if_True readGeometry_stored)
    then show ?thesis
      using row(3,4) len samples well_formed_count [OF assms(1)]
      by (simp add: readRouteTrackingGeometryDocument_def Let_def)
  qed
qed

text \<open>
  Claim C22: a well-formed document is read back from the row it is stored in, unchanged; a path of one point,
  which is stored in two decimal columns instead of a line, needs coordinates of at most seven decimals.
\<close>
theorem stored_document_is_read_back:
  assumes "well_formed_document env doc" and "list_all named_sample (gdSamples doc)"
    and "length (gdCoordinates doc) = 1 \<Longrightarrow>
      list_all (\<lambda>c. decimal7 (fst c) = fst c \<and> decimal7 (snd c) = snd c) (gdCoordinates doc)"
    and "createRouteTrackingGeometryWrite env plan doc = Inr row"
  shows "readRouteTrackingGeometryDocument env (Some row) = doc"
  using assms by (rule stored_read_back)

end
