(* ===== verification/RoadMatchJobs.thy ===== *)
theory RoadMatchJobs
  imports TrackingGeometry Machines
begin

text \<open>
  The jobs that match a recorded path to the road network: the table of jobs
  (route-tracking/route-tracking-road-match-job.repository.ts), the service that settles one job
  (route-tracking-road-match-job.service.ts), the options of the worker
  (route-tracking-road-match.worker.ts) and the columns a matched path is published in
  (route-tracking.road-match.ts). A route has at most one job; its target is a version of the recorded
  path, the number of its source points and the instant of the last one. Every SQL statement is one
  operation on the tables; what other workers and requests commit between two statements of one caller is
  an argument. The matcher is a parameter. Shown: every statement
  keeps the invariant of the tables.
\<close>

section \<open>Tables\<close>

datatype road_status = ROAD_QUEUED | ROAD_PROCESSING | ROAD_SUCCEEDED | ROAD_DEAD

record road_job =
  rjId :: string
  rjRoutePlanId :: string
  rjStatus :: road_status
  rjTargetSourcePointCount :: int
  rjTargetLastInputOccurredAt :: int
  rjAttemptCount :: int
  rjNextAttemptAt :: "int option"
  rjLeaseToken :: "string option"
  rjLeaseExpiresAt :: "int option"
  rjProcessingStartedAt :: "int option"
  rjCompletedAt :: "int option"
  rjErrorCode :: "string option"
  rjErrorMessage :: "string option"
  rjUpdatedAt :: int

record matched_columns =
  mcCoverage :: string
  mcGeometry :: "(string \<times> json) list option"
  mcLastInputOccurredAt :: int
  mcLastPosition :: "json option"
  mcPointCount :: int
  mcSchemaVersion :: string
  mcSourcePointCount :: int
  mcUncertainGeometry :: "(string \<times> json) list option"
  mcWatermark :: string

record tracked_row = geometry_row +
  trMatched :: "matched_columns option"

text \<open>\<open>rdClock\<close> is the time the database client stamps \<^verbatim>\<open>updatedAt\<close> with.\<close>

record road_db =
  rdJobs :: "road_job list"
  rdRows :: "tracked_row list"
  rdClock :: int

definition updateRoadJobs :: "(road_job \<Rightarrow> bool) \<Rightarrow> (road_job \<Rightarrow> road_job) \<Rightarrow> road_db \<Rightarrow> road_db \<times> nat" where
  "updateRoadJobs whr data db =
     (db\<lparr>rdJobs := map (\<lambda>j. if whr j then (data j)\<lparr>rjUpdatedAt := rdClock db\<rparr> else j) (rdJobs db)\<rparr>,
      length (filter whr (rdJobs db)))"

definition jobOfPlan :: "road_db \<Rightarrow> string \<Rightarrow> road_job option" where
  "jobOfPlan db plan = List.find (\<lambda>j. rjRoutePlanId j = plan) (rdJobs db)"

definition jobById :: "road_db \<Rightarrow> string \<Rightarrow> road_job option" where
  "jobById db i = List.find (\<lambda>j. rjId j = i) (rdJobs db)"

section \<open>Queueing an input\<close>

record road_input =
  riLastInputOccurredAt :: int
  riRoutePlanId :: string
  riSourcePointCount :: int

datatype enqueue_view = NoJob | ProcessingJob string | OtherJob string

definition readEnqueue :: "road_db \<Rightarrow> string \<Rightarrow> enqueue_view" where
  "readEnqueue db plan =
     (case jobOfPlan db plan of
        None \<Rightarrow> NoJob
      | Some j \<Rightarrow> (if rjStatus j = ROAD_PROCESSING then ProcessingJob (rjId j) else OtherJob (rjId j)))"

definition newRoadJob :: "string \<Rightarrow> int \<Rightarrow> int \<Rightarrow> road_input \<Rightarrow> road_job" where
  "newRoadJob freshId now stamp inp =
     \<lparr>rjId = freshId, rjRoutePlanId = riRoutePlanId inp, rjStatus = ROAD_QUEUED,
      rjTargetSourcePointCount = riSourcePointCount inp, rjTargetLastInputOccurredAt = riLastInputOccurredAt inp,
      rjAttemptCount = 0, rjNextAttemptAt = Some now, rjLeaseToken = None, rjLeaseExpiresAt = None,
      rjProcessingStartedAt = None, rjCompletedAt = None, rjErrorCode = None, rjErrorMessage = None,
      rjUpdatedAt = stamp\<rparr>"

definition retarget :: "road_input \<Rightarrow> road_job \<Rightarrow> road_job" where
  "retarget inp j =
     j\<lparr>rjCompletedAt := None, rjErrorCode := None, rjErrorMessage := None,
       rjTargetLastInputOccurredAt := riLastInputOccurredAt inp, rjTargetSourcePointCount := riSourcePointCount inp\<rparr>"

definition requeued :: "int \<Rightarrow> road_job \<Rightarrow> road_job" where
  "requeued now j =
     j\<lparr>rjAttemptCount := 0, rjCompletedAt := None, rjErrorCode := None, rjErrorMessage := None,
       rjLeaseExpiresAt := None, rjLeaseToken := None, rjNextAttemptAt := Some now,
       rjProcessingStartedAt := None, rjStatus := ROAD_QUEUED\<rparr>"

datatype road_error = UniqueViolation | RecordNotFound

text \<open>The statement that follows the read: \<^verbatim>\<open>create\<close> keeps the route unique, \<^verbatim>\<open>update\<close> needs its row.\<close>

definition writeEnqueue :: "string \<Rightarrow> int \<Rightarrow> road_input \<Rightarrow> enqueue_view \<Rightarrow> road_db \<Rightarrow> road_error + road_db" where
  "writeEnqueue freshId now inp view db =
     (case view of
        NoJob \<Rightarrow>
          (if jobOfPlan db (riRoutePlanId inp) \<noteq> None \<or> jobById db freshId \<noteq> None then Inl UniqueViolation
           else Inr (db\<lparr>rdJobs := rdJobs db @ [newRoadJob freshId now (rdClock db) inp]\<rparr>))
      | ProcessingJob i \<Rightarrow>
          (let r = updateRoadJobs (\<lambda>j. rjId j = i) (retarget inp) db in if snd r = 0 then Inl RecordNotFound else Inr (fst r))
      | OtherJob i \<Rightarrow>
          (let r = updateRoadJobs (\<lambda>j. rjId j = i) (\<lambda>j. retarget inp (requeued now j)) db
           in if snd r = 0 then Inl RecordNotFound else Inr (fst r)))"

definition enqueueRouteTrackingRoadMatch ::
  "(road_db \<Rightarrow> road_db) \<Rightarrow> string \<Rightarrow> int \<Rightarrow> road_input \<Rightarrow> road_db \<Rightarrow> road_error + road_db" where
  "enqueueRouteTrackingRoadMatch contend freshId now inp db =
     writeEnqueue freshId now inp (readEnqueue db (riRoutePlanId inp)) (contend db)"

section \<open>Claiming\<close>

definition reachedBy :: "int \<Rightarrow> int option \<Rightarrow> bool" where
  "reachedBy now t = (case t of None \<Rightarrow> False | Some x \<Rightarrow> x \<le> now)"

definition claimableJob :: "int \<Rightarrow> road_job \<Rightarrow> bool" where
  "claimableJob now j =
     (reachedBy now (rjNextAttemptAt j) \<and> rjStatus j = ROAD_QUEUED
      \<or> reachedBy now (rjLeaseExpiresAt j) \<and> rjStatus j = ROAD_PROCESSING)"

definition compareJobs :: "road_job \<Rightarrow> road_job \<Rightarrow> int" where
  "compareJobs a b =
     or_else (compareNullsLast (rjNextAttemptAt a) (rjNextAttemptAt b))
       (or_else (compare_int (rjUpdatedAt a) (rjUpdatedAt b)) (compare_text (rjId a) (rjId b)))"

definition firstClaimableJob :: "int \<Rightarrow> road_db \<Rightarrow> road_job option" where
  "firstClaimableJob now db =
     (case sort_by compareJobs (filter (claimableJob now) (rdJobs db)) of [] \<Rightarrow> None | j # _ \<Rightarrow> Some j)"

record road_claim =
  rcAttemptCount :: int
  rcId :: string
  rcLeaseToken :: string
  rcRoutePlanId :: string
  rcTargetLastInputOccurredAt :: int
  rcTargetSourcePointCount :: int

definition sameTarget :: "road_job \<Rightarrow> road_job \<Rightarrow> bool" where
  "sameTarget a b =
     (rjTargetLastInputOccurredAt a = rjTargetLastInputOccurredAt b
      \<and> rjTargetSourcePointCount a = rjTargetSourcePointCount b)"

definition leasedTo :: "int \<Rightarrow> int \<Rightarrow> string \<Rightarrow> road_job \<Rightarrow> road_job" where
  "leasedTo now leaseMs token j =
     j\<lparr>rjAttemptCount := rjAttemptCount j + 1, rjCompletedAt := None, rjErrorCode := None, rjErrorMessage := None,
       rjLeaseExpiresAt := Some (now + leaseMs), rjLeaseToken := Some token, rjNextAttemptAt := None,
       rjProcessingStartedAt := Some now, rjStatus := ROAD_PROCESSING\<rparr>"

definition claimJob :: "int \<Rightarrow> int \<Rightarrow> string \<Rightarrow> road_job \<Rightarrow> road_db \<Rightarrow> road_db \<times> nat" where
  "claimJob now leaseMs token seen db =
     updateRoadJobs (\<lambda>j. rjId j = rjId seen \<and> sameTarget j seen \<and> claimableJob now j) (leasedTo now leaseMs token) db"

definition claimOf :: "string \<Rightarrow> road_job \<Rightarrow> road_claim" where
  "claimOf token j =
     \<lparr>rcAttemptCount = rjAttemptCount j + 1, rcId = rjId j, rcLeaseToken = token, rcRoutePlanId = rjRoutePlanId j,
      rcTargetLastInputOccurredAt = rjTargetLastInputOccurredAt j, rcTargetSourcePointCount = rjTargetSourcePointCount j\<rparr>"

text \<open>
  \<open>contend k\<close> is what others commit between the query and the update of the \<open>k\<close>-th attempt, \<open>tokens k\<close>
  the random token of it.
\<close>

fun claimAttempts ::
  "(nat \<Rightarrow> road_db \<Rightarrow> road_db) \<Rightarrow> (nat \<Rightarrow> string) \<Rightarrow> int \<Rightarrow> int \<Rightarrow> nat \<Rightarrow> nat \<Rightarrow> road_db \<Rightarrow> road_db \<times> road_claim option" where
  "claimAttempts contend tokens leaseMs now 0 k db = (db, None)"
| "claimAttempts contend tokens leaseMs now (Suc remaining) k db =
     (case firstClaimableJob now db of
        None \<Rightarrow> (db, None)
      | Some j \<Rightarrow>
          (let r = claimJob now leaseMs (tokens k) j (contend k db)
           in if snd r \<noteq> 1 then claimAttempts contend tokens leaseMs now remaining (Suc k) (fst r)
              else (fst r, Some (claimOf (tokens k) j))))"

definition claimNextJob ::
  "(nat \<Rightarrow> road_db \<Rightarrow> road_db) \<Rightarrow> (nat \<Rightarrow> string) \<Rightarrow> int \<Rightarrow> int \<Rightarrow> road_db \<Rightarrow> road_db \<times> road_claim option" where
  "claimNextJob contend tokens leaseMs now db = claimAttempts contend tokens leaseMs now 5 0 db"

section \<open>The input and the output of a job\<close>

definition versionWhere :: "road_claim \<Rightarrow> tracked_row \<Rightarrow> bool" where
  "versionWhere c r =
     (grLastOccurredAt r = rcTargetLastInputOccurredAt c \<and> grRoutePlanId r = rcRoutePlanId c
      \<and> grSourcePointCount r = rcTargetSourcePointCount c)"

definition loadInput :: "tracking_env \<Rightarrow> road_claim \<Rightarrow> road_db \<Rightarrow> geometry_document option" where
  "loadInput env c db =
     (case List.find (versionWhere c) (rdRows db) of
        None \<Rightarrow> None
      | Some r \<Rightarrow> Some (readRouteTrackingGeometryDocument env (Some (geometry_row.truncate r))))"

record matched_path =
  mpCoverage :: string
  mpInferredGeometry :: "json option"
  mpInferredRanges :: "json list option"
  mpInputPointCount :: int
  mpLastInputOccurredAt :: string
  mpLastMatchedPosition :: "json option"
  mpMatchedGeometry :: "(string \<times> json) list option"
  mpMatchedPointCount :: int
  mpUncertainGeometry :: "(string \<times> json) list option"
  mpUnmatchedRanges :: "json list option"
  mpWatermark :: string

definition someRanges :: "json list option \<Rightarrow> json list option" where
  "someRanges r = (if r = Some [] then None else r)"

definition setWhen :: "string \<Rightarrow> json option \<Rightarrow> (string \<times> json) list \<Rightarrow> (string \<times> json) list" where
  "setWhen k v kvs = (case v of None \<Rightarrow> kvs | Some x \<Rightarrow> jset k x kvs)"

definition embedRoadMatchMetadata ::
  "(string \<times> json) list option \<Rightarrow> json list option \<Rightarrow> json option \<Rightarrow> json list option \<Rightarrow> (string \<times> json) list option" where
  "embedRoadMatchMetadata geometry unmatchedRanges inferredGeometry inferredRanges =
     (if geometry = None \<and> someRanges unmatchedRanges = None \<and> inferredGeometry = None \<and> someRanges inferredRanges = None
      then None
      else Some (setWhen ''inferredRanges'' (map_option JArr (someRanges inferredRanges))
             (setWhen ''inferredGeometry'' inferredGeometry
               (setWhen ''unmatchedRanges'' (map_option JArr (someRanges unmatchedRanges))
                 (coalesce_def_value geometry [(''coordinates'', JArr []), (''type'', JStr ''MultiLineString'')])))))"

definition buildRouteTrackingRoadMatchCacheWrite :: "tracking_env \<Rightarrow> matched_path \<Rightarrow> matched_columns" where
  "buildRouteTrackingRoadMatchCacheWrite env p =
     \<lparr>mcCoverage = mpCoverage p,
      mcGeometry = embedRoadMatchMetadata (mpMatchedGeometry p) (mpUnmatchedRanges p) (mpInferredGeometry p) (mpInferredRanges p),
      mcLastInputOccurredAt = instantOf env (mpLastInputOccurredAt p), mcLastPosition = mpLastMatchedPosition p,
      mcPointCount = mpMatchedPointCount p, mcSchemaVersion = ''route_tracking_road_match.v5'',
      mcSourcePointCount = mpInputPointCount p,
      mcUncertainGeometry =
        embedRoadMatchMetadata (mpUncertainGeometry p) (mpUnmatchedRanges p) (mpInferredGeometry p) (mpInferredRanges p),
      mcWatermark = mpWatermark p\<rparr>"

section \<open>Settling\<close>

definition leaseHolder :: "road_claim \<Rightarrow> road_job \<Rightarrow> bool" where
  "leaseHolder c j = (rjId j = rcId c \<and> rjLeaseToken j = Some (rcLeaseToken c) \<and> rjStatus j = ROAD_PROCESSING)"

definition onTarget :: "road_claim \<Rightarrow> road_job \<Rightarrow> bool" where
  "onTarget c j =
     (rjTargetLastInputOccurredAt j = rcTargetLastInputOccurredAt c
      \<and> rjTargetSourcePointCount j = rcTargetSourcePointCount c)"

definition leasedJobWhere :: "road_claim \<Rightarrow> road_job \<Rightarrow> bool" where
  "leasedJobWhere c j = (leaseHolder c j \<and> onTarget c j)"

definition succeeded :: "int \<Rightarrow> road_job \<Rightarrow> road_job" where
  "succeeded now j =
     j\<lparr>rjCompletedAt := Some now, rjErrorCode := None, rjErrorMessage := None, rjLeaseExpiresAt := None,
       rjLeaseToken := None, rjNextAttemptAt := None, rjProcessingStartedAt := None, rjStatus := ROAD_SUCCEEDED\<rparr>"

definition released :: "string \<Rightarrow> string \<Rightarrow> int \<Rightarrow> road_job \<Rightarrow> road_job" where
  "released code message nextAt j =
     j\<lparr>rjErrorCode := Some code, rjErrorMessage := Some message, rjLeaseExpiresAt := None, rjLeaseToken := None,
       rjNextAttemptAt := Some nextAt, rjProcessingStartedAt := None, rjStatus := ROAD_QUEUED\<rparr>"

definition died :: "string \<Rightarrow> string \<Rightarrow> int \<Rightarrow> road_job \<Rightarrow> road_job" where
  "died code message now j =
     j\<lparr>rjCompletedAt := Some now, rjErrorCode := Some code, rjErrorMessage := Some message, rjLeaseExpiresAt := None,
       rjLeaseToken := None, rjNextAttemptAt := None, rjProcessingStartedAt := None, rjStatus := ROAD_DEAD\<rparr>"

definition markSucceededWithoutPath :: "road_claim \<Rightarrow> int \<Rightarrow> road_db \<Rightarrow> road_db \<times> bool" where
  "markSucceededWithoutPath c now db =
     (let r = updateRoadJobs (leasedJobWhere c) (succeeded now) db in (fst r, snd r = 1))"

definition renewLease :: "road_claim \<Rightarrow> int \<Rightarrow> int \<Rightarrow> road_db \<Rightarrow> road_db \<times> bool" where
  "renewLease c leaseMs now db =
     (let r = updateRoadJobs (leaseHolder c) (\<lambda>j. j\<lparr>rjLeaseExpiresAt := Some (now + leaseMs)\<rparr>) db in (fst r, snd r = 1))"

definition requeueIfSuperseded :: "road_claim \<Rightarrow> int \<Rightarrow> road_db \<Rightarrow> road_db \<times> bool" where
  "requeueIfSuperseded c now db =
     (let r = updateRoadJobs (\<lambda>j. leaseHolder c j \<and> \<not> onTarget c j) (requeued now) db in (fst r, snd r = 1))"

definition releaseJobForRetry :: "road_claim \<Rightarrow> string \<Rightarrow> string \<Rightarrow> int \<Rightarrow> road_db \<Rightarrow> road_db \<times> bool" where
  "releaseJobForRetry c code message nextAt db =
     (let r = updateRoadJobs (leasedJobWhere c) (released code message nextAt) db in (fst r, snd r = 1))"

definition markJobDead :: "road_claim \<Rightarrow> string \<Rightarrow> string \<Rightarrow> int \<Rightarrow> road_db \<Rightarrow> road_db \<times> bool" where
  "markJobDead c code message now db =
     (let r = updateRoadJobs (leasedJobWhere c) (died code message now) db in (fst r, snd r = 1))"

definition publishColumns :: "road_claim \<Rightarrow> matched_columns \<Rightarrow> road_db \<Rightarrow> road_db \<times> nat" where
  "publishColumns c columns db =
     (db\<lparr>rdRows := map (\<lambda>r. if versionWhere c r then r\<lparr>trMatched := Some columns\<rparr> else r) (rdRows db)\<rparr>,
      length (filter (versionWhere c) (rdRows db)))"

text \<open>The transaction: \<open>during k\<close> is what others commit before its second and third statement.\<close>

definition publishMatchedPath ::
  "tracking_env \<Rightarrow> (nat \<Rightarrow> road_db \<Rightarrow> road_db) \<Rightarrow> road_claim \<Rightarrow> int \<Rightarrow> matched_path \<Rightarrow> road_db \<Rightarrow> road_db \<times> bool" where
  "publishMatchedPath env during c now path db =
     (if \<not> (case jobById db (rcId c) of None \<Rightarrow> False | Some j \<Rightarrow> leasedJobWhere c j) then (db, False)
      else
        (let g = publishColumns c (buildRouteTrackingRoadMatchCacheWrite env path) (during 0 db)
         in if snd g \<noteq> 1 then (fst g, False)
            else (let r = updateRoadJobs (leaseHolder c) (succeeded now) (during 1 (fst g)) in (fst r, snd r = 1))))"

section \<open>The service\<close>

record road_options =
  roBatchSize :: int
  roConcurrency :: int
  roLeaseMs :: int
  roMaxAttempts :: int
  roPollIntervalMs :: int
  roRetryBaseDelayMs :: int
  roRetryMaxDelayMs :: int

definition roadRetryDelayMs :: "int \<Rightarrow> road_options \<Rightarrow> int" where
  "roadRetryDelayMs n options =
     min (roRetryMaxDelayMs options) (roRetryBaseDelayMs options * 2 ^ nat (max 0 (n - 1)))"

record match_outcome =
  moPath :: "matched_path option"
  moRetryable :: bool

text \<open>A provider that classifies its outcome, or one that only matches; \<^const>\<open>Inl\<close> is an exception.\<close>

datatype road_provider =
    Classifying "geometry_document \<Rightarrow> string + match_outcome"
  | Matching "geometry_document \<Rightarrow> string + matched_path option"

definition matchOutcome :: "road_provider \<Rightarrow> geometry_document \<Rightarrow> match_outcome" where
  "matchOutcome provider input =
     (case (case provider of
              Classifying f \<Rightarrow> f input
            | Matching f \<Rightarrow> (case f input of Inl e \<Rightarrow> Inl e | Inr path \<Rightarrow> Inr \<lparr>moPath = path, moRetryable = False\<rparr>)) of
        Inl _ \<Rightarrow> \<lparr>moPath = None, moRetryable = True\<rparr>
      | Inr outcome \<Rightarrow> outcome)"

definition matchesClaimedInput :: "tracking_env \<Rightarrow> geometry_document \<Rightarrow> road_claim \<Rightarrow> bool" where
  "matchesClaimedInput env input c =
     (gdSourcePointCount input = rcTargetSourcePointCount c
      \<and> teParse env (case gdSamples input of [] \<Rightarrow> [] | _ \<Rightarrow> gsOccurredAt (last (gdSamples input)))
          = Some (rcTargetLastInputOccurredAt c))"

text \<open>
  The surroundings of one settlement: what others commit before its \<open>k\<close>-th statement, the instants at which
  its heartbeat renews the lease, and the instant it settles at.
\<close>

record road_run =
  rrBetween :: "nat \<Rightarrow> road_db \<Rightarrow> road_db"
  rrHeartbeats :: "int list"
  rrNow :: int

definition requeueAfter :: "road_run \<Rightarrow> road_claim \<Rightarrow> nat \<Rightarrow> road_db \<times> bool \<Rightarrow> road_db" where
  "requeueAfter run c k r =
     (if snd r then fst r else fst (requeueIfSuperseded c (rrNow run) (rrBetween run k (fst r))))"

definition retryOrDead :: "road_options \<Rightarrow> road_run \<Rightarrow> road_claim \<Rightarrow> nat \<Rightarrow> string \<Rightarrow> string \<Rightarrow> road_db \<Rightarrow> road_db" where
  "retryOrDead options run c k code message db =
     requeueAfter run c (k + 1)
       (if rcAttemptCount c < roMaxAttempts options
        then releaseJobForRetry c code message (rrNow run + roadRetryDelayMs (rcAttemptCount c) options) (rrBetween run k db)
        else markJobDead c code message (rrNow run) (rrBetween run k db))"

definition withLeaseHeartbeat :: "road_options \<Rightarrow> road_run \<Rightarrow> road_claim \<Rightarrow> road_db \<Rightarrow> road_db" where
  "withLeaseHeartbeat options run c db =
     foldl (\<lambda>s now. fst (renewLease c (roLeaseMs options) now s)) db (rrHeartbeats run)"

definition settleOutcome ::
  "tracking_env \<Rightarrow> road_options \<Rightarrow> road_run \<Rightarrow> road_claim \<Rightarrow> match_outcome \<Rightarrow> road_db \<Rightarrow> road_db" where
  "settleOutcome env options run c outcome db =
     (if moRetryable outcome
      then retryOrDead options run c 2 ''ROUTE_TRACKING_ROAD_MATCH_RETRYABLE'' ''Road matching returned a retryable outcome.'' db
      else case moPath outcome of
             None \<Rightarrow> requeueAfter run c 3 (markSucceededWithoutPath c (rrNow run) (rrBetween run 2 db))
           | Some path \<Rightarrow>
               (if mpInputPointCount path \<noteq> rcTargetSourcePointCount c
                  \<or> teParse env (mpLastInputOccurredAt path) \<noteq> Some (rcTargetLastInputOccurredAt c)
                then retryOrDead options run c 2 ''ROUTE_TRACKING_ROAD_MATCH_OUTPUT_VERSION_MISMATCH''
                       ''Road matching returned a result for a different input version.'' db
                else requeueAfter run c 5
                       (publishMatchedPath env (\<lambda>i. rrBetween run (3 + i)) c (rrNow run) path (rrBetween run 2 db))))"

definition processRoadJob ::
  "tracking_env \<Rightarrow> road_provider \<Rightarrow> road_options \<Rightarrow> road_run \<Rightarrow> road_claim \<Rightarrow> road_db \<Rightarrow> road_db" where
  "processRoadJob env provider options run c db =
     (case loadInput env c (rrBetween run 0 db) of
        Some input \<Rightarrow>
          if matchesClaimedInput env input c
          then settleOutcome env options run c (matchOutcome provider input)
                 (withLeaseHeartbeat options run c (rrBetween run 1 (rrBetween run 0 db)))
          else (let r = requeueIfSuperseded c (rrNow run) (rrBetween run 1 (rrBetween run 0 db))
                in if snd r then fst r
                   else retryOrDead options run c 2 ''ROUTE_TRACKING_ROAD_MATCH_INPUT_UNAVAILABLE''
                          ''The claimed raw route tracking input is unavailable.'' (fst r))
      | None \<Rightarrow>
          (let r = requeueIfSuperseded c (rrNow run) (rrBetween run 1 (rrBetween run 0 db))
           in if snd r then fst r
              else retryOrDead options run c 2 ''ROUTE_TRACKING_ROAD_MATCH_INPUT_UNAVAILABLE''
                     ''The claimed raw route tracking input is unavailable.'' (fst r)))"

section \<open>The options of the worker\<close>

definition positiveInteger :: "jsnum option \<Rightarrow> int \<Rightarrow> int" where
  "positiveInteger v fallback =
     (case v of Some (Num x) \<Rightarrow> (if x > 0 then \<lfloor>x\<rfloor> else fallback) | _ \<Rightarrow> fallback)"

record worker_settings =
  wsBatchSize :: "jsnum option"
  wsConcurrency :: "jsnum option"
  wsLeaseMs :: "jsnum option"
  wsMaxAttempts :: "jsnum option"
  wsPollIntervalMs :: "jsnum option"
  wsRetryBaseDelayMs :: "jsnum option"
  wsRetryMaxDelayMs :: "jsnum option"

definition resolvedOptions :: "worker_settings \<Rightarrow> road_options" where
  "resolvedOptions ws =
     (let batchSize = positiveInteger (wsBatchSize ws) 8;
          concurrency = positiveInteger (wsConcurrency ws) 2;
          retryBaseDelayMs = positiveInteger (wsRetryBaseDelayMs ws) 15000;
          retryMaxDelayMs = positiveInteger (wsRetryMaxDelayMs ws) (15 * 60 * 1000)
      in \<lparr>roBatchSize = batchSize, roConcurrency = min concurrency batchSize,
          roLeaseMs = positiveInteger (wsLeaseMs ws) (10 * 60 * 1000),
          roMaxAttempts = positiveInteger (wsMaxAttempts ws) 6,
          roPollIntervalMs = positiveInteger (wsPollIntervalMs ws) 2000, roRetryBaseDelayMs = retryBaseDelayMs,
          roRetryMaxDelayMs = max retryBaseDelayMs retryMaxDelayMs\<rparr>)"

text \<open>The claims of one batch: at most the batch size, each with the tokens and contention of its own call.\<close>

fun claimBatch ::
  "(nat \<Rightarrow> nat \<Rightarrow> road_db \<Rightarrow> road_db) \<Rightarrow> (nat \<Rightarrow> nat \<Rightarrow> string) \<Rightarrow> int \<Rightarrow> int \<Rightarrow> nat \<Rightarrow> nat \<Rightarrow> road_db \<Rightarrow> road_db \<times> road_claim list" where
  "claimBatch contend tokens leaseMs now 0 k db = (db, [])"
| "claimBatch contend tokens leaseMs now (Suc room) k db =
     (case claimNextJob (contend k) (tokens k) leaseMs now db of
        (db', None) \<Rightarrow> (db', [])
      | (db', Some c) \<Rightarrow>
          (case claimBatch contend tokens leaseMs now room (Suc k) db' of (db'', cs) \<Rightarrow> (db'', c # cs)))"

interpretation job_order: sign_comparator compareJobs
  unfolding compareJobs_def [abs_def]
  by (rule sign_comparator_or_else [OF sign_comparator_nulls
        sign_comparator_or_else [OF sign_comparator_int sign_comparator_text]])

text \<open>A query for a due job finds one whenever there is one, and one that no due job comes before.\<close>

lemma firstClaimableJob_None: "firstClaimableJob now db = None \<longleftrightarrow> list_all (\<lambda>j. \<not> claimableJob now j) (rdJobs db)"
proof -
  have "firstClaimableJob now db = None \<longleftrightarrow> set (sort_by compareJobs (filter (claimableJob now) (rdJobs db))) = {}"
    by (auto simp: firstClaimableJob_def simp del: set_sort_by split: list.splits)
  then show ?thesis by (auto simp: list_all_iff)
qed

lemma firstClaimableJob_first:
  assumes "firstClaimableJob now db = Some j"
  shows "j \<in> set (rdJobs db) \<and> claimableJob now j \<and> (\<forall>k \<in> set (rdJobs db). claimableJob now k \<longrightarrow> compareJobs j k \<le> 0)"
proof -
  let ?due = "filter (claimableJob now) (rdJobs db)"
  obtain js where js: "sort_by compareJobs ?due = j # js"
    using assms by (auto simp: firstClaimableJob_def split: list.splits)
  then have "set (j # js) = set ?due" by (metis set_sort_by)
  moreover have "sorted_wrt (\<lambda>a b. compareJobs a b \<le> 0) (j # js)"
    using job_order.sorted_sort_by [of ?due] js by simp
  moreover have "compareJobs j j \<le> 0" using job_order.cmp_total by blast
  ultimately show ?thesis by auto
qed

section \<open>The invariant of the tables\<close>

definition road_ok :: "road_job \<Rightarrow> bool" where
  "road_ok j =
     ((rjStatus j = ROAD_PROCESSING) = (rjLeaseToken j \<noteq> None)
      \<and> (rjStatus j = ROAD_PROCESSING) = (rjLeaseExpiresAt j \<noteq> None)
      \<and> (rjStatus j = ROAD_PROCESSING) = (rjProcessingStartedAt j \<noteq> None)
      \<and> (rjStatus j = ROAD_QUEUED) = (rjNextAttemptAt j \<noteq> None) \<and> 0 \<le> rjAttemptCount j)"

definition road_inv :: "road_db \<Rightarrow> bool" where
  "road_inv db =
     (distinct (map rjId (rdJobs db)) \<and> distinct (map rjRoutePlanId (rdJobs db))
      \<and> distinct (map grRoutePlanId (rdRows db)) \<and> list_all road_ok (rdJobs db))"

lemmas road_updates = retarget_def requeued_def succeeded_def released_def died_def leasedTo_def

lemma road_ok_stamp [simp]: "road_ok (j\<lparr>rjUpdatedAt := t\<rparr>) = road_ok j"
  by (simp add: road_ok_def)

lemma road_inv_jobs:
  assumes "road_inv db" and "\<And>j. j \<in> set (rdJobs db) \<Longrightarrow> whr j \<Longrightarrow> road_ok j \<Longrightarrow> road_ok (f j)"
    and "\<And>j. rjId (f j) = rjId j" and "\<And>j. rjRoutePlanId (f j) = rjRoutePlanId j"
  shows "road_inv (fst (updateRoadJobs whr f db))"
proof -
  have "map rjId (rdJobs (fst (updateRoadJobs whr f db))) = map rjId (rdJobs db)"
    "map rjRoutePlanId (rdJobs (fst (updateRoadJobs whr f db))) = map rjRoutePlanId (rdJobs db)"
    using assms(3,4) by (auto simp: updateRoadJobs_def)
  moreover have "list_all road_ok (rdJobs (fst (updateRoadJobs whr f db)))"
    using assms(1,2) by (auto simp: updateRoadJobs_def road_inv_def list_all_iff)
  moreover have "rdRows (fst (updateRoadJobs whr f db)) = rdRows db" by (simp add: updateRoadJobs_def)
  ultimately show ?thesis
    using assms(1) by (simp add: road_inv_def)
qed

subsection \<open>One statement of anyone\<close>

datatype road_step =
    StepEnqueue enqueue_view string int road_input
  | StepClaim int int string road_job
  | StepSucceed road_claim int
  | StepPublish road_claim matched_columns
  | StepFinish road_claim int
  | StepRenew road_claim int int
  | StepRequeue road_claim int
  | StepRelease road_claim string string int
  | StepDie road_claim string string int
  | StepClock int

fun roadStep :: "road_db \<Rightarrow> road_step \<Rightarrow> road_db" where
  "roadStep db (StepEnqueue view freshId now inp) =
     (case writeEnqueue freshId now inp view db of Inl _ \<Rightarrow> db | Inr db' \<Rightarrow> db')"
| "roadStep db (StepClaim now ms token seen) = fst (claimJob now ms token seen db)"
| "roadStep db (StepSucceed c now) = fst (markSucceededWithoutPath c now db)"
| "roadStep db (StepPublish c columns) = fst (publishColumns c columns db)"
| "roadStep db (StepFinish c now) = fst (updateRoadJobs (leaseHolder c) (succeeded now) db)"
| "roadStep db (StepRenew c ms now) = fst (renewLease c ms now db)"
| "roadStep db (StepRequeue c now) = fst (requeueIfSuperseded c now db)"
| "roadStep db (StepRelease c code message nextAt) = fst (releaseJobForRetry c code message nextAt db)"
| "roadStep db (StepDie c code message now) = fst (markJobDead c code message now db)"
| "roadStep db (StepClock t) = db\<lparr>rdClock := t\<rparr>"

lemmas road_op_defs =
  claimJob_def markSucceededWithoutPath_def renewLease_def requeueIfSuperseded_def releaseJobForRetry_def markJobDead_def

lemma map_cond_same: "(\<And>x. g (f x) = g x) \<Longrightarrow> map (\<lambda>x. g (if p x then f x else x)) xs = map g xs"
  by simp

lemma writeEnqueue_inv: "road_inv db \<Longrightarrow> writeEnqueue freshId now inp view db = Inr db' \<Longrightarrow> road_inv db'"
proof (cases view)
  case NoJob
  assume "road_inv db" and "writeEnqueue freshId now inp view db = Inr db'"
  then show ?thesis
    using NoJob
    by (auto simp: writeEnqueue_def road_inv_def road_ok_def newRoadJob_def jobOfPlan_def jobById_def find_None_iff image_iff
        split: if_splits) metis+
next
  case (ProcessingJob i)
  assume "road_inv db" and "writeEnqueue freshId now inp view db = Inr db'"
  then show ?thesis
    using ProcessingJob road_inv_jobs [of db "\<lambda>j. rjId j = i" "retarget inp"]
    by (auto simp: writeEnqueue_def Let_def retarget_def road_ok_def split: if_splits)
next
  case (OtherJob i)
  assume "road_inv db" and "writeEnqueue freshId now inp view db = Inr db'"
  then show ?thesis
    using OtherJob road_inv_jobs [of db "\<lambda>j. rjId j = i" "\<lambda>j. retarget inp (requeued now j)"]
    by (auto simp: writeEnqueue_def Let_def retarget_def requeued_def road_ok_def split: if_splits)
qed

lemma roadStep_inv: "road_inv db \<Longrightarrow> road_inv (roadStep db e)"
proof (cases e)
  case (StepPublish c columns)
  assume "road_inv db"
  then show ?thesis using StepPublish
    by (simp add: publishColumns_def road_inv_def o_def if_distrib cong: if_cong)
qed (auto simp: road_op_defs Let_def road_updates intro!: road_inv_jobs split: sum.splits dest: writeEnqueue_inv;
    auto simp: road_ok_def leaseHolder_def leasedJobWhere_def road_inv_def)+

interpretation road: invariant_machine roadStep road_inv
  by unfold_locales (rule roadStep_inv)

text \<open>
  Whatever statements requests and workers commit, in any order, a route has at most one job, and a job has a
  lease exactly while it is being processed and a time of its next attempt exactly while it is queued.
\<close>
theorem road_tables_invariant:
  assumes "road_inv db"
  shows "road_inv (foldl roadStep db es)"
  using assms by (rule road.run_inv)

end
