(* ===== verification/RoadMatchSettlement.thy ===== *)
theory RoadMatchSettlement
  imports RoadMatchJobs
begin

text \<open>
  How the jobs of road matching are settled: what a lease protects, the verdict an undisturbed worker settles a
  job by, what a claim guarantees, what becomes of a queued input, and the bounds of the retries.
\<close>

section \<open>Leases\<close>

text \<open>A claim holds its job while the job is processed under the token of the claim.\<close>

definition held :: "road_claim \<Rightarrow> road_db \<Rightarrow> bool" where
  "held c db =
     list_ex (\<lambda>j. rjId j = rcId c \<and> rjStatus j = ROAD_PROCESSING \<and> rjLeaseToken j = Some (rcLeaseToken c)) (rdJobs db)"

text \<open>What others commit in the gaps \<open>ks\<close> of a run.\<close>

definition interfered :: "road_run \<Rightarrow> nat list \<Rightarrow> road_db \<Rightarrow> road_db" where
  "interfered run ks db = fold (rrBetween run) ks db"

lemma interfered_snoc: "rrBetween run k (interfered run ks db) = interfered run (ks @ [k]) db"
  by (simp add: interfered_def)

lemma updateRoadJobs_none: "list_all (\<lambda>j. \<not> whr j) (rdJobs db) \<Longrightarrow> updateRoadJobs whr f db = (db, 0)"
proof -
  assume none: "list_all (\<lambda>j. \<not> whr j) (rdJobs db)"
  then have "map (\<lambda>j. if whr j then (f j)\<lparr>rjUpdatedAt := rdClock db\<rparr> else j) (rdJobs db) = rdJobs db"
    by (auto simp: list_all_iff intro: map_idI)
  moreover have "filter whr (rdJobs db) = []" using none by (auto simp: list_all_iff filter_empty_conv)
  ultimately show ?thesis by (simp add: updateRoadJobs_def)
qed

lemma not_held:
  assumes "\<not> held c db"
  shows "list_all (\<lambda>j. \<not> leaseHolder c j) (rdJobs db)" "list_all (\<lambda>j. \<not> leasedJobWhere c j) (rdJobs db)"
    "list_all (\<lambda>j. \<not> (leaseHolder c j \<and> \<not> onTarget c j)) (rdJobs db)"
  using assms by (auto simp: held_def list_all_iff list_ex_iff leasedJobWhere_def leaseHolder_def)

lemma stale_statements:
  assumes "\<not> held c db"
  shows "markSucceededWithoutPath c now db = (db, False)" "renewLease c ms now db = (db, False)"
    "requeueIfSuperseded c now db = (db, False)" "releaseJobForRetry c code message nextAt db = (db, False)"
    "markJobDead c code message now db = (db, False)" "publishMatchedPath env during c now path db = (db, False)"
proof -
  have "\<not> (case jobById db (rcId c) of None \<Rightarrow> False | Some j \<Rightarrow> leasedJobWhere c j)"
    using not_held(2) [OF assms] by (auto simp: jobById_def list_all_iff find_Some_iff split: option.splits)
  then show "publishMatchedPath env during c now path db = (db, False)" by (simp add: publishMatchedPath_def)
qed (simp_all add: road_op_defs updateRoadJobs_none [OF not_held(1) [OF assms]] updateRoadJobs_none [OF not_held(2) [OF assms]]
      updateRoadJobs_none [OF not_held(3) [OF assms]])

lemma stale_heartbeat: "\<not> held c db \<Longrightarrow> withLeaseHeartbeat options run c db = db"
proof -
  have "\<not> held c db \<Longrightarrow> foldl (\<lambda>s now. fst (renewLease c (roLeaseMs options) now s)) db ts = db" for ts
    by (induction ts) (simp_all add: stale_statements)
  then show "\<not> held c db \<Longrightarrow> withLeaseHeartbeat options run c db = db"
    by (simp add: withLeaseHeartbeat_def)
qed

text \<open>
  Claim C13: a worker that lost its lease changes nothing: whatever it does with the job, the tables end as the others
  left them, as long as nobody leases the job again under its token.
\<close>
theorem stale_worker_changes_nothing:
  assumes "\<not> held c db" and keep: "\<And>k s. \<not> held c s \<Longrightarrow> \<not> held c (rrBetween run k s)"
  shows "\<exists>ks. processRoadJob env provider options run c db = interfered run ks db"
proof -
  have stale: "\<not> held c (interfered run ks db)" for ks
    by (induction ks rule: rev_induct) (use assms in \<open>simp_all add: interfered_def\<close>)
  note stmt = stale_statements [OF stale] stale_heartbeat [OF stale] interfered_snoc
  have retry: "retryOrDead options run c k code message (interfered run ks db) = interfered run (ks @ [k, k + 1]) db"
    for k code message ks
    by (simp add: retryOrDead_def requeueAfter_def stmt)
  have settle: "\<exists>ls. settleOutcome env options run c outcome (interfered run ks db) = interfered run ls db" for outcome ks
    unfolding settleOutcome_def requeueAfter_def
    by (simp add: retry stmt split: option.split) blast
  have "db = interfered run [] db" by (simp add: interfered_def)
  then have start: "rrBetween run 0 db = interfered run [0] db"
    by (simp add: interfered_def)
  show ?thesis
    unfolding processRoadJob_def start
    using settle by (simp add: retry stmt Let_def split: option.split) blast
qed

section \<open>The verdict on a job\<close>

text \<open>
  The specification of a settlement: a superseded job is queued again for its new input; a job without its input,
  with a retryable outcome or with an output of another version is retried after a growing delay and dead
  after the last attempt; without a path, and with a published one, it has succeeded.
\<close>

definition retried :: "road_options \<Rightarrow> int \<Rightarrow> road_claim \<Rightarrow> string \<Rightarrow> string \<Rightarrow> road_job \<Rightarrow> road_job" where
  "retried options now c code message =
     (if rcAttemptCount c < roMaxAttempts options
      then released code message (now + roadRetryDelayMs (rcAttemptCount c) options) else died code message now)"

definition usableInput :: "tracking_env \<Rightarrow> road_claim \<Rightarrow> road_db \<Rightarrow> geometry_document option" where
  "usableInput env c db =
     (case loadInput env c db of None \<Rightarrow> None | Some input \<Rightarrow> (if matchesClaimedInput env input c then Some input else None))"

definition publishedPath :: "tracking_env \<Rightarrow> road_provider \<Rightarrow> road_claim \<Rightarrow> road_db \<Rightarrow> matched_path option" where
  "publishedPath env provider c db =
     (case usableInput env c db of
        None \<Rightarrow> None
      | Some input \<Rightarrow>
          (let outcome = matchOutcome provider input
           in if moRetryable outcome then None
              else case moPath outcome of
                     None \<Rightarrow> None
                   | Some path \<Rightarrow>
                       (if mpInputPointCount path = rcTargetSourcePointCount c
                          \<and> teParse env (mpLastInputOccurredAt path) = Some (rcTargetLastInputOccurredAt c)
                        then Some path else None)))"

definition roadVerdict ::
  "tracking_env \<Rightarrow> road_provider \<Rightarrow> road_options \<Rightarrow> int \<Rightarrow> road_claim \<Rightarrow> road_db \<Rightarrow> road_job \<Rightarrow> road_job" where
  "roadVerdict env provider options now c db j =
     (if \<not> onTarget c j then requeued now j
      else case usableInput env c db of
             None \<Rightarrow> retried options now c ''ROUTE_TRACKING_ROAD_MATCH_INPUT_UNAVAILABLE''
                      ''The claimed raw route tracking input is unavailable.'' j
           | Some input \<Rightarrow>
               if moRetryable (matchOutcome provider input)
               then retried options now c ''ROUTE_TRACKING_ROAD_MATCH_RETRYABLE''
                      ''Road matching returned a retryable outcome.'' j
               else if moPath (matchOutcome provider input) \<noteq> None \<and> publishedPath env provider c db = None
               then retried options now c ''ROUTE_TRACKING_ROAD_MATCH_OUTPUT_VERSION_MISMATCH''
                      ''Road matching returned a result for a different input version.'' j
               else succeeded now j)"

definition settledRows :: "tracking_env \<Rightarrow> road_provider \<Rightarrow> road_claim \<Rightarrow> road_job \<Rightarrow> road_db \<Rightarrow> tracked_row list" where
  "settledRows env provider c j db =
     (case publishedPath env provider c db of
        Some path \<Rightarrow>
          (if onTarget c j
           then map (\<lambda>r. if versionWhere c r then r\<lparr>trMatched := Some (buildRouteTrackingRoadMatchCacheWrite env path)\<rparr> else r)
                  (rdRows db)
           else rdRows db)
      | None \<Rightarrow> rdRows db)"

definition settledTables ::
  "tracking_env \<Rightarrow> road_provider \<Rightarrow> road_options \<Rightarrow> int \<Rightarrow> road_claim \<Rightarrow> road_job \<Rightarrow> road_db \<Rightarrow> road_db" where
  "settledTables env provider options now c j db =
     db\<lparr>rdJobs := map (\<lambda>k. if rjId k = rcId c then (roadVerdict env provider options now c db k)\<lparr>rjUpdatedAt := rdClock db\<rparr>
                          else k) (rdJobs db),
        rdRows := settledRows env provider c j db\<rparr>"

text \<open>The tables with one job replaced.\<close>

definition withJob :: "string \<Rightarrow> road_job \<Rightarrow> road_db \<Rightarrow> road_db" where
  "withJob i j db = db\<lparr>rdJobs := map (\<lambda>k. if rjId k = i then j else k) (rdJobs db)\<rparr>"

definition theJob :: "road_db \<Rightarrow> string \<Rightarrow> road_job \<Rightarrow> bool" where
  "theJob db i j = (distinct (map rjId (rdJobs db)) \<and> j \<in> set (rdJobs db) \<and> rjId j = i)"

lemma theJob_unique: "theJob db i j \<Longrightarrow> k \<in> set (rdJobs db) \<Longrightarrow> rjId k = i \<Longrightarrow> k = j"
  by (auto simp: theJob_def distinct_map inj_on_def)

lemma jobById_theJob: "theJob db i j \<Longrightarrow> jobById db i = Some j"
proof -
  assume j: "theJob db i j"
  then have "jobById db i \<noteq> None" by (auto simp: jobById_def find_None_iff theJob_def)
  then obtain k where k: "jobById db i = Some k" by auto
  then have "k \<in> set (rdJobs db)" "rjId k = i" by (auto simp: jobById_def find_Some_iff)
  then show ?thesis using k theJob_unique [OF j] by simp
qed

lemma updateRoadJobs_one:
  assumes "theJob db i j" and "\<And>k. whr k \<Longrightarrow> rjId k = i"
  shows "updateRoadJobs whr f db = (if whr j then (withJob i ((f j)\<lparr>rjUpdatedAt := rdClock db\<rparr>) db, 1) else (db, 0))"
proof (cases "whr j")
  case True
  have same: "whr k \<longleftrightarrow> rjId k = i" if "k \<in> set (rdJobs db)" for k
    using assms True theJob_unique [OF assms(1) that] by auto
  have "map (\<lambda>k. if whr k then (f k)\<lparr>rjUpdatedAt := rdClock db\<rparr> else k) (rdJobs db)
      = map (\<lambda>k. if rjId k = i then (f j)\<lparr>rjUpdatedAt := rdClock db\<rparr> else k) (rdJobs db)"
    using same theJob_unique [OF assms(1)] by (intro map_cong refl) auto
  moreover have "length (filter whr (rdJobs db)) = 1"
  proof -
    have d: "distinct (map rjId (rdJobs db))" "j \<in> set (rdJobs db)" using assms(1) by (auto simp: theJob_def)
    then have "distinct (filter whr (rdJobs db))" by (simp add: distinct_map)
    moreover have "set (filter whr (rdJobs db)) = {j}"
    proof
      show "set (filter whr (rdJobs db)) \<subseteq> {j}"
        using assms(2) theJob_unique [OF assms(1)] by (simp add: subset_iff)
    qed (use True d(2) in simp)
    ultimately show ?thesis using distinct_card [of "filter whr (rdJobs db)"] by simp
  qed
  ultimately show ?thesis using True by (simp add: updateRoadJobs_def withJob_def)
next
  case False
  then have "list_all (\<lambda>k. \<not> whr k) (rdJobs db)"
    using assms theJob_unique [OF assms(1)] by (auto simp: list_all_iff)
  then show ?thesis using False by (simp add: updateRoadJobs_none)
qed

lemma withJob_withJob: "rjId j = i \<Longrightarrow> withJob i k (withJob i j db) = withJob i k db"
  by (simp add: withJob_def o_def cong: if_cong)

lemma theJob_withJob: "theJob db i j \<Longrightarrow> rjId k = i \<Longrightarrow> theJob (withJob i k db) i k"
proof -
  assume j: "theJob db i j" and k: "rjId k = i"
  have "map rjId (rdJobs (withJob i k db)) = map rjId (rdJobs db)" using k by (simp add: withJob_def)
  moreover have "k \<in> set (rdJobs (withJob i k db))" using j by (auto simp: theJob_def withJob_def)
  ultimately show ?thesis using j k by (simp add: theJob_def)
qed

lemma withJob_simps [simp]: "rdClock (withJob i j db) = rdClock db" "rdRows (withJob i j db) = rdRows db"
  by (simp_all add: withJob_def)

lemma holder_id: "leaseHolder c k \<Longrightarrow> rjId k = rcId c" "leasedJobWhere c k \<Longrightarrow> rjId k = rcId c"
  by (simp_all add: leaseHolder_def leasedJobWhere_def)

text \<open>The statements of a worker that holds the job.\<close>

lemma held_statements:
  assumes j: "theJob db (rcId c) j" and holder: "leaseHolder c j"
  defines "stamped \<equiv> \<lambda>k. withJob (rcId c) (k\<lparr>rjUpdatedAt := rdClock db\<rparr>) db"
  shows "markSucceededWithoutPath c now db = (if onTarget c j then (stamped (succeeded now j), True) else (db, False))"
    and "requeueIfSuperseded c now db = (if onTarget c j then (db, False) else (stamped (requeued now j), True))"
    and "releaseJobForRetry c code message nextAt db =
      (if onTarget c j then (stamped (released code message nextAt j), True) else (db, False))"
    and "markJobDead c code message now db = (if onTarget c j then (stamped (died code message now j), True) else (db, False))"
    and "renewLease c ms now db = (stamped (j\<lparr>rjLeaseExpiresAt := Some (now + ms)\<rparr>), True)"
proof -
  have superseded: "leaseHolder c k \<and> \<not> onTarget c k \<Longrightarrow> rjId k = rcId c" for k by (simp add: holder_id)
  have "leasedJobWhere c j = onTarget c j" using holder by (simp add: leasedJobWhere_def)
  then show "markSucceededWithoutPath c now db = (if onTarget c j then (stamped (succeeded now j), True) else (db, False))"
    "requeueIfSuperseded c now db = (if onTarget c j then (db, False) else (stamped (requeued now j), True))"
    "releaseJobForRetry c code message nextAt db =
      (if onTarget c j then (stamped (released code message nextAt j), True) else (db, False))"
    "markJobDead c code message now db = (if onTarget c j then (stamped (died code message now j), True) else (db, False))"
    "renewLease c ms now db = (stamped (j\<lparr>rjLeaseExpiresAt := Some (now + ms)\<rparr>), True)"
    using holder
    by (simp_all add: road_op_defs stamped_def updateRoadJobs_one [OF j holder_id(2)] updateRoadJobs_one [OF j holder_id(1)]
        updateRoadJobs_one [OF j superseded] Let_def)
qed

lemma withJob_self: "theJob db i j \<Longrightarrow> withJob i j db = db"
proof -
  assume j: "theJob db i j"
  have "map (\<lambda>k. if rjId k = i then j else k) (rdJobs db) = rdJobs db"
    by (rule map_idI) (use theJob_unique [OF j] in auto)
  then show ?thesis by (simp add: withJob_def)
qed

abbreviation renewed :: "int option \<Rightarrow> int \<Rightarrow> road_job \<Rightarrow> road_job" where
  "renewed e u j \<equiv> j\<lparr>rjLeaseExpiresAt := e, rjUpdatedAt := u\<rparr>"

lemma heartbeat_held:
  assumes j: "theJob db (rcId c) j" and holder: "leaseHolder c j"
  shows "\<exists>e u. withLeaseHeartbeat options run c db = withJob (rcId c) (renewed e u j) db"
proof -
  have id: "rjId j = rcId c" using holder by (rule holder_id)
  have "\<exists>e u. foldl (\<lambda>s now. fst (renewLease c (roLeaseMs options) now s)) (withJob (rcId c) (renewed e0 u0 j) db) ts
      = withJob (rcId c) (renewed e u j) db" for ts :: "int list" and e0 :: "int option" and u0
  proof (induction ts arbitrary: e0 u0)
    case (Cons t ts)
    let ?k = "renewed e0 u0 j"
    have "theJob (withJob (rcId c) ?k db) (rcId c) ?k" by (rule theJob_withJob [OF j]) (simp add: id)
    moreover have "leaseHolder c ?k" using holder by (simp add: leaseHolder_def)
    ultimately have "fst (renewLease c (roLeaseMs options) t (withJob (rcId c) ?k db))
        = withJob (rcId c) (renewed (Some (t + roLeaseMs options)) (rdClock db) j) db"
      by (simp add: held_statements withJob_withJob id)
    then show ?case using Cons.IH by simp
  qed auto
  from this [where ?e0.0 = "rjLeaseExpiresAt j" and ?u0.0 = "rjUpdatedAt j" and ts = "rrHeartbeats run"] show ?thesis
    using withJob_self [OF j] by (simp add: withLeaseHeartbeat_def)
qed

lemma onTarget_renewed: "onTarget c (renewed e u j) = onTarget c j"
  by (simp add: onTarget_def)

lemma roadVerdict_renewed:
  "(roadVerdict env provider options now c db (renewed e u j))\<lparr>rjUpdatedAt := t\<rparr>
   = (roadVerdict env provider options now c db j)\<lparr>rjUpdatedAt := t\<rparr>"
  by (simp add: roadVerdict_def onTarget_renewed retried_def requeued_def succeeded_def released_def died_def split: option.split)

lemma loadInput_withJob: "loadInput env c (withJob i k db) = loadInput env c db"
  by (simp add: loadInput_def)

lemma versionWhere_count:
  assumes "distinct (map grRoutePlanId (rdRows db))" and "loadInput env c db = Some input"
  shows "length (filter (versionWhere c) (rdRows db)) = 1"
proof -
  obtain r where r: "r \<in> set (rdRows db)" "versionWhere c r"
    using assms(2) by (auto simp: loadInput_def find_Some_iff split: option.splits dest: nth_mem)
  have "set (filter (versionWhere c) (rdRows db)) \<subseteq> {r}"
    using assms(1) r by (auto simp: distinct_map inj_on_def versionWhere_def)
  then have "set (filter (versionWhere c) (rdRows db)) = {r}" using r by auto
  moreover have "distinct (filter (versionWhere c) (rdRows db))"
    using assms(1) by (simp add: distinct_map)
  ultimately show ?thesis using distinct_card [of "filter (versionWhere c) (rdRows db)"] by simp
qed

lemma settledTables_withJob:
  assumes "theJob db (rcId c) j"
  shows "settledTables env provider options now c j db =
    withJob (rcId c) ((roadVerdict env provider options now c db j)\<lparr>rjUpdatedAt := rdClock db\<rparr>)
      (db\<lparr>rdRows := settledRows env provider c j db\<rparr>)"
  using theJob_unique [OF assms] by (auto simp: settledTables_def withJob_def)

text \<open>Settling by a worker that holds the job, without interference.\<close>

lemma retryOrDead_held:
  assumes "theJob db (rcId c) j" and "leaseHolder c j" and "rrBetween run = (\<lambda>_ s. s)"
  shows "retryOrDead options run c k code message db =
    withJob (rcId c) ((if onTarget c j then retried options (rrNow run) c code message j else requeued (rrNow run) j)
      \<lparr>rjUpdatedAt := rdClock db\<rparr>) db"
  using assms by (simp add: retryOrDead_def requeueAfter_def held_statements retried_def)

lemma publish_held:
  assumes j: "theJob db (rcId c) j" and holder: "leaseHolder c j"
    and rows: "length (filter (versionWhere c) (rdRows db)) = 1"
  shows "publishMatchedPath env (\<lambda>_ s. s) c now path db =
    (if onTarget c j
     then (withJob (rcId c) ((succeeded now j)\<lparr>rjUpdatedAt := rdClock db\<rparr>)
       (fst (publishColumns c (buildRouteTrackingRoadMatchCacheWrite env path) db)), True)
     else (db, False))"
proof -
  let ?db = "fst (publishColumns c (buildRouteTrackingRoadMatchCacheWrite env path) db)"
  have "rdJobs ?db = rdJobs db" "rdClock ?db = rdClock db" by (simp_all add: publishColumns_def)
  then have "theJob ?db (rcId c) j" using j by (simp add: theJob_def)
  then have "updateRoadJobs (leaseHolder c) (succeeded now) ?db
      = (withJob (rcId c) ((succeeded now j)\<lparr>rjUpdatedAt := rdClock db\<rparr>) ?db, 1)"
    using updateRoadJobs_one [of ?db "rcId c" j "leaseHolder c" "succeeded now"] holder_id(1) holder
      \<open>rdClock ?db = rdClock db\<close> by simp
  moreover have "snd (publishColumns c (buildRouteTrackingRoadMatchCacheWrite env path) db) = 1"
    using rows by (simp add: publishColumns_def)
  ultimately show ?thesis
    using jobById_theJob [OF j] holder by (simp add: publishMatchedPath_def leasedJobWhere_def Let_def)
qed

lemma settleOutcome_held:
  assumes j: "theJob db (rcId c) j" and holder: "leaseHolder c j" and quiet: "rrBetween run = (\<lambda>_ s. s)"
    and rows: "distinct (map grRoutePlanId (rdRows db))" and input: "usableInput env c db = Some input"
  shows "settleOutcome env options run c (matchOutcome provider input) db = settledTables env provider options (rrNow run) c j db"
proof -
  have one: "length (filter (versionWhere c) (rdRows db)) = 1"
    using versionWhere_count [OF rows] input by (auto simp: usableInput_def split: option.splits if_splits)
  have self: "db\<lparr>rdRows := rdRows db\<rparr> = db" by simp
  have retry: "retryOrDead options run c k code message db = withJob (rcId c)
      ((if onTarget c j then retried options (rrNow run) c code message j else requeued (rrNow run) j)\<lparr>rjUpdatedAt := rdClock db\<rparr>) db"
    for k code message by (rule retryOrDead_held [OF j holder quiet])
  have pub: "publishMatchedPath env (\<lambda>_ s. s) c (rrNow run) path db =
    (if onTarget c j
     then (withJob (rcId c) ((succeeded (rrNow run) j)\<lparr>rjUpdatedAt := rdClock db\<rparr>)
       (fst (publishColumns c (buildRouteTrackingRoadMatchCacheWrite env path) db)), True)
     else (db, False))" for path by (rule publish_held [OF j holder one])
  show ?thesis
    unfolding settledTables_withJob [OF j]
    using held_statements(1,2) [OF j holder]
    by (simp add: settleOutcome_def quiet requeueAfter_def retry pub settledRows_def publishedPath_def roadVerdict_def
        input Let_def publishColumns_def withJob_def split: option.split)
qed

lemma undisturbed_settlement:
  assumes j: "theJob db (rcId c) j" and holder: "leaseHolder c j" and quiet: "rrBetween run = (\<lambda>_ s. s)"
    and rows: "distinct (map grRoutePlanId (rdRows db))"
  shows "processRoadJob env provider options run c db = settledTables env provider options (rrNow run) c j db"
proof -
  obtain e u where beat: "withLeaseHeartbeat options run c db = withJob (rcId c) (renewed e u j) db"
    using heartbeat_held [OF j holder] by blast
  let ?k = "renewed e u j" and ?db = "withJob (rcId c) (renewed e u j) db"
  have id: "rjId j = rcId c" using holder by (rule holder_id)
  have k: "theJob ?db (rcId c) ?k" by (rule theJob_withJob [OF j]) (simp add: id)
  have hk: "leaseHolder c ?k" using holder by (simp add: leaseHolder_def)
  have usable: "usableInput env c ?db = usableInput env c db" by (simp add: usableInput_def loadInput_withJob)
  have same: "settledTables env provider options (rrNow run) c ?k ?db = settledTables env provider options (rrNow run) c j db"
  proof -
    have path: "publishedPath env provider c ?db = publishedPath env provider c db"
      by (simp add: publishedPath_def usable)
    have "roadVerdict env provider options (rrNow run) c ?db = roadVerdict env provider options (rrNow run) c db"
      unfolding roadVerdict_def usable path by (rule refl)
    moreover have "settledRows env provider c ?k ?db = settledRows env provider c j db"
      unfolding settledRows_def path onTarget_renewed withJob_simps(2) by (rule refl)
    moreover have "withJob (rcId c) v (?db\<lparr>rdRows := rows'\<rparr>) = withJob (rcId c) v (db\<lparr>rdRows := rows'\<rparr>)" for v rows'
    proof -
      have "?db\<lparr>rdRows := rows'\<rparr> = withJob (rcId c) ?k (db\<lparr>rdRows := rows'\<rparr>)" by (simp add: withJob_def)
      then show ?thesis using withJob_withJob [of ?k "rcId c"] id by simp
    qed
    ultimately show ?thesis
      unfolding settledTables_withJob [OF k] settledTables_withJob [OF j]
      by (simp add: roadVerdict_renewed)
  qed
  have lost: "(let r = requeueIfSuperseded c (rrNow run) db
      in if snd r then fst r else retryOrDead options run c 2 ''ROUTE_TRACKING_ROAD_MATCH_INPUT_UNAVAILABLE''
           ''The claimed raw route tracking input is unavailable.'' (fst r))
    = settledTables env provider options (rrNow run) c j db" if "usableInput env c db = None"
    unfolding settledTables_withJob [OF j]
    using that held_statements(2) [OF j holder]
    by (simp add: retryOrDead_held [OF j holder quiet] settledRows_def publishedPath_def roadVerdict_def withJob_def)
  show ?thesis
  proof (cases "usableInput env c db")
    case None
    then show ?thesis
      using lost by (auto simp: processRoadJob_def quiet usableInput_def split: option.splits if_splits)
  next
    case (Some input)
    then have "usableInput env c ?db = Some input" by (simp add: usable)
    with settleOutcome_held [OF k hk quiet _ this] rows same
    have "settleOutcome env options run c (matchOutcome provider input) ?db = settledTables env provider options (rrNow run) c j db"
      by simp
    then show ?thesis
      using Some beat by (auto simp: processRoadJob_def quiet usableInput_def split: option.splits if_splits)
  qed
qed

text \<open>
  Claim C12: a worker that holds the lease and is not disturbed settles the job as the verdict says: the row of the
  job becomes the row of the verdict, the path of an accepted outcome is published in the row of its version of
  the recorded path, and nothing else changes; the heartbeat leaves no trace.
\<close>
theorem undisturbed_worker_settles_as_verdict:
  assumes j: "theJob db (rcId c) j" and holder: "leaseHolder c j" and quiet: "rrBetween run = (\<lambda>_ s. s)"
    and rows: "distinct (map grRoutePlanId (rdRows db))"
  shows "processRoadJob env provider options run c db = settledTables env provider options (rrNow run) c j db"
  using assms by (rule undisturbed_settlement)

section \<open>Claims\<close>

text \<open>
  A claim that a worker receives is backed by the tables: under any contention, the job is being
  processed under its token until the lease ends, on exactly the input of the claim, and cannot be claimed by
  anyone else before.
\<close>
theorem claimed_road_job_is_leased:
  assumes "claimNextJob contend tokens leaseMs now db = (db', Some c)"
  shows "\<exists>j \<in> set (rdJobs db'). leasedJobWhere c j \<and> rjLeaseExpiresAt j = Some (now + leaseMs)
    \<and> list_all (\<lambda>t. \<not> claimableJob t j) [now..now + leaseMs - 1]"
proof -
  have "claimAttempts contend tokens leaseMs now n k s = (db', Some c) \<Longrightarrow>
    \<exists>j \<in> set (rdJobs db'). leasedJobWhere c j \<and> rjLeaseExpiresAt j = Some (now + leaseMs)" for n k s
  proof (induction n arbitrary: k s)
    case (Suc n)
    obtain seen where seen: "firstClaimableJob now s = Some seen"
      using Suc.prems by (cases "firstClaimableJob now s") auto
    let ?r = "claimJob now leaseMs (tokens k) seen (contend k s)"
    show ?case
    proof (cases "snd ?r = 1")
      case False
      then show ?thesis using Suc.prems Suc.IH seen by (simp add: Let_def)
    next
      case True
      let ?whr = "\<lambda>j. rjId j = rjId seen \<and> sameTarget j seen \<and> claimableJob now j"
      have result: "db' = fst ?r" "c = claimOf (tokens k) seen" using Suc.prems seen True by (auto simp: Let_def)
      have "filter ?whr (rdJobs (contend k s)) \<noteq> []"
        using True by (auto simp: claimJob_def updateRoadJobs_def)
      then obtain j where j: "j \<in> set (rdJobs (contend k s))" "?whr j" by (auto simp: filter_empty_conv)
      let ?j = "(leasedTo now leaseMs (tokens k) j)\<lparr>rjUpdatedAt := rdClock (contend k s)\<rparr>"
      have "?j \<in> set (rdJobs db')" using j by (force simp: result(1) claimJob_def updateRoadJobs_def)
      moreover have "leasedJobWhere c ?j" "rjLeaseExpiresAt ?j = Some (now + leaseMs)"
        using j(2) by (simp_all add: result(2) claimOf_def leasedJobWhere_def leaseHolder_def onTarget_def leasedTo_def sameTarget_def)
      ultimately show ?thesis by blast
    qed
  qed simp
  then obtain j where j: "j \<in> set (rdJobs db')" "leasedJobWhere c j" "rjLeaseExpiresAt j = Some (now + leaseMs)"
    using assms unfolding claimNextJob_def by blast
  then have "list_all (\<lambda>t. \<not> claimableJob t j) [now..now + leaseMs - 1]"
    by (auto simp: list_all_iff claimableJob_def reachedBy_def leasedJobWhere_def leaseHolder_def)
  then show ?thesis using j by blast
qed

section \<open>What becomes of a queued input\<close>

lemma jobOfPlan_SomeD: "jobOfPlan db plan = Some j \<Longrightarrow> j \<in> set (rdJobs db) \<and> rjRoutePlanId j = plan"
  by (auto simp: jobOfPlan_def find_Some_iff)

lemma jobOfPlan_found:
  assumes "road_inv s" and "k \<in> set (rdJobs s)" and "rjRoutePlanId k = plan"
  shows "jobOfPlan s plan = Some k"
proof -
  obtain k' where k': "jobOfPlan s plan = Some k'"
    using assms(2,3) by (cases "jobOfPlan s plan") (auto simp: jobOfPlan_def find_None_iff)
  then show ?thesis using jobOfPlan_SomeD [OF k'] assms by (auto simp: road_inv_def distinct_map inj_on_def)
qed

definition targets :: "road_input \<Rightarrow> road_job \<Rightarrow> bool" where
  "targets inp j =
     (rjRoutePlanId j = riRoutePlanId inp \<and> rjTargetLastInputOccurredAt j = riLastInputOccurredAt inp
      \<and> rjTargetSourcePointCount j = riSourcePointCount inp)"

lemma theJob_of_inv: "road_inv db \<Longrightarrow> j \<in> set (rdJobs db) \<Longrightarrow> theJob db (rjId j) j"
  by (simp add: theJob_def road_inv_def)

text \<open>An undisturbed request leaves the job of its route on its input, queued or in the hands of a worker.\<close>

lemma enqueue_quiet:
  assumes inv: "road_inv db" and "enqueueRouteTrackingRoadMatch (\<lambda>s. s) freshId now inp db = Inr db'"
  shows "\<exists>j. theJob db' (rjId j) j \<and> targets inp j \<and> (rjStatus j = ROAD_PROCESSING \<or> claimableJob now j)"
proof -
  have inv': "road_inv db'"
    using assms writeEnqueue_inv unfolding enqueueRouteTrackingRoadMatch_def by blast
  have "\<exists>j \<in> set (rdJobs db'). targets inp j \<and> (rjStatus j = ROAD_PROCESSING \<or> claimableJob now j)"
  proof (cases "jobOfPlan db (riRoutePlanId inp)")
    case None
    then show ?thesis
      using assms(2)
      by (auto simp: enqueueRouteTrackingRoadMatch_def readEnqueue_def writeEnqueue_def newRoadJob_def targets_def
          claimableJob_def reachedBy_def split: if_splits)
  next
    case (Some j)
    then have j: "theJob db (rjId j) j" "rjRoutePlanId j = riRoutePlanId inp"
      using jobOfPlan_SomeD [OF Some] theJob_of_inv [OF inv] by auto
    have upd: "updateRoadJobs (\<lambda>k. rjId k = rjId j) f db = (withJob (rjId j) ((f j)\<lparr>rjUpdatedAt := rdClock db\<rparr>) db, 1)" for f
      using updateRoadJobs_one [OF j(1), of "\<lambda>k. rjId k = rjId j" f] by simp
    define f where "f = (if rjStatus j = ROAD_PROCESSING then retarget inp j else retarget inp (requeued now j))"
    have "db' = withJob (rjId j) (f\<lparr>rjUpdatedAt := rdClock db\<rparr>) db"
      using assms(2) Some
      by (auto simp: enqueueRouteTrackingRoadMatch_def readEnqueue_def writeEnqueue_def upd f_def split: if_splits)
    moreover have "rjId f = rjId j" by (simp add: f_def retarget_def requeued_def)
    ultimately have "f\<lparr>rjUpdatedAt := rdClock db\<rparr> \<in> set (rdJobs db')"
      using theJob_withJob [OF j(1), of "f\<lparr>rjUpdatedAt := rdClock db\<rparr>"] by (simp add: theJob_def)
    moreover have "targets inp (f\<lparr>rjUpdatedAt := rdClock db\<rparr>)"
      using j(2) by (simp add: f_def targets_def retarget_def requeued_def)
    moreover have "rjStatus (f\<lparr>rjUpdatedAt := rdClock db\<rparr>) = ROAD_PROCESSING \<or> claimableJob now (f\<lparr>rjUpdatedAt := rdClock db\<rparr>)"
      by (auto simp: f_def retarget_def requeued_def claimableJob_def reachedBy_def)
    ultimately show ?thesis by blast
  qed
  then show ?thesis using theJob_of_inv [OF inv'] by blast
qed

text \<open>
  Claim C15: an input that is queued without interference is not lost: afterwards the job of the route is on it and
  can be claimed, or a worker is processing it; and when the worker that holds it claimed another input, its
  undisturbed settlement queues the job again, on the new input.
\<close>
theorem queued_input_is_not_lost:
  assumes "road_inv db" and "enqueueRouteTrackingRoadMatch (\<lambda>s. s) freshId now inp db = Inr db'"
  shows "\<exists>j \<in> set (rdJobs db'). targets inp j
    \<and> (claimableJob now j
       \<or> rjStatus j = ROAD_PROCESSING
         \<and> (\<forall>c run. leaseHolder c j \<and> \<not> onTarget c j \<and> rrBetween run = (\<lambda>_ s. s) \<longrightarrow>
              list_ex (\<lambda>k. targets inp k \<and> claimableJob (rrNow run) k)
                (rdJobs (processRoadJob env provider options run c db'))))"
proof -
  obtain j where j: "theJob db' (rjId j) j" "targets inp j" "rjStatus j = ROAD_PROCESSING \<or> claimableJob now j"
    using enqueue_quiet [OF assms] by blast
  have inv: "road_inv db'"
    using assms writeEnqueue_inv unfolding enqueueRouteTrackingRoadMatch_def by blast
  have "list_ex (\<lambda>k. targets inp k \<and> claimableJob (rrNow run) k) (rdJobs (processRoadJob env provider options run c db'))"
    if h: "leaseHolder c j" "\<not> onTarget c j" "rrBetween run = (\<lambda>_ s. s)" for c run
  proof -
    have id: "rjId j = rcId c" using h(1) by (rule holder_id)
    have "processRoadJob env provider options run c db' = settledTables env provider options (rrNow run) c j db'"
      using j(1) h inv by (intro undisturbed_settlement) (simp_all add: id road_inv_def)
    then have "(requeued (rrNow run) j)\<lparr>rjUpdatedAt := rdClock db'\<rparr>
        \<in> set (rdJobs (processRoadJob env provider options run c db'))"
      using j(1) h(2) id by (force simp: settledTables_def roadVerdict_def theJob_def)
    moreover have "targets inp ((requeued (rrNow run) j)\<lparr>rjUpdatedAt := rdClock db'\<rparr>)"
      "claimableJob (rrNow run) ((requeued (rrNow run) j)\<lparr>rjUpdatedAt := rdClock db'\<rparr>)"
      using j(2) by (simp_all add: targets_def requeued_def claimableJob_def reachedBy_def)
    ultimately show ?thesis unfolding list_ex_iff by blast
  qed
  then show ?thesis using j by (auto simp: theJob_def)
qed

text \<open>
  Claim C14: the interleaving in which an input is lost. A request reads the job of its route while a worker
  processes it; the worker then settles it, without the lock of the route, as done or as dead; the write of
  the request puts the new input on the settled row and leaves its status. No worker can claim the job at any
  time, so the new input is not matched until another position of the route is recorded.
\<close>
theorem settled_between_read_and_write_loses_the_input:
  assumes inv: "road_inv db" and j: "j \<in> set (rdJobs db)" "rjRoutePlanId j = riRoutePlanId inp" and holder: "leasedJobWhere c j"
    and contend: "contend \<in> {\<lambda>s. fst (markSucceededWithoutPath c settled s), \<lambda>s. fst (markJobDead c code message settled s)}"
  shows "\<exists>db' k. enqueueRouteTrackingRoadMatch contend freshId now inp db = Inr db' \<and> jobOfPlan db' (riRoutePlanId inp) = Some k
    \<and> targets inp k \<and> (\<forall>t. \<not> claimableJob t k) \<and> rjCompletedAt k = None"
proof -
  have one: "theJob db (rjId j) j" by (rule theJob_of_inv [OF inv j(1)])
  have id: "rjId j = rcId c" and lh: "leaseHolder c j" "onTarget c j" "rjStatus j = ROAD_PROCESSING"
    using holder by (auto simp: leasedJobWhere_def leaseHolder_def)
  note stmts = held_statements(1,4) [OF one [unfolded id] lh(1)]
  obtain f where f: "contend db = withJob (rjId j) (f\<lparr>rjUpdatedAt := rdClock db\<rparr>) db"
    and st: "f = succeeded settled j \<or> f = died code message settled j"
    using contend stmts lh(2) by (auto simp: id)
  let ?f = "f\<lparr>rjUpdatedAt := rdClock db\<rparr>"
  have fid: "rjId ?f = rjId j" "rjRoutePlanId ?f = rjRoutePlanId j" using st by (auto simp: succeeded_def died_def)
  have two: "theJob (contend db) (rjId j) ?f" unfolding f by (rule theJob_withJob [OF one fid(1)])
  let ?k = "(retarget inp ?f)\<lparr>rjUpdatedAt := rdClock (contend db)\<rparr>"
  have view: "readEnqueue db (riRoutePlanId inp) = ProcessingJob (rjId j)"
    using jobOfPlan_found [OF inv j] lh(3) by (simp add: readEnqueue_def)
  have result: "enqueueRouteTrackingRoadMatch contend freshId now inp db = Inr (withJob (rjId j) ?k (contend db))"
    using updateRoadJobs_one [OF two, of "\<lambda>k. rjId k = rjId j" "retarget inp"] fid(1)
    by (simp add: enqueueRouteTrackingRoadMatch_def view writeEnqueue_def)
  have "road_inv (contend db)"
    using contend roadStep_inv [OF inv, of "StepSucceed c settled"] roadStep_inv [OF inv, of "StepDie c code message settled"]
    by auto
  then have inv': "road_inv (withJob (rjId j) ?k (contend db))"
    using writeEnqueue_inv result unfolding enqueueRouteTrackingRoadMatch_def by blast
  have "theJob (withJob (rjId j) ?k (contend db)) (rjId j) ?k"
    by (rule theJob_withJob [OF two]) (use fid in \<open>simp add: retarget_def\<close>)
  then have "jobOfPlan (withJob (rjId j) ?k (contend db)) (riRoutePlanId inp) = Some ?k"
    using fid j(2) by (intro jobOfPlan_found [OF inv']) (auto simp: theJob_def retarget_def)
  moreover have "targets inp ?k" "\<forall>t. \<not> claimableJob t ?k" "rjCompletedAt ?k = None"
    using st fid j(2) by (auto simp: targets_def retarget_def claimableJob_def succeeded_def died_def)
  ultimately show ?thesis using result by blast
qed

section \<open>Bounds\<close>

lemma positiveInteger_nonneg: "0 \<le> fallback \<Longrightarrow> 0 \<le> positiveInteger v fallback"
  by (auto simp: positiveInteger_def split: option.split jsnum.split)

text \<open>
  The delay before a job is tried again never exceeds its maximum, never shrinks from attempt to attempt, and
  starts at the base delay.
\<close>
theorem road_retry_delay_bounded:
  "roadRetryDelayMs n (resolvedOptions ws) \<le> roRetryMaxDelayMs (resolvedOptions ws)
   \<and> roadRetryDelayMs n (resolvedOptions ws) \<le> roadRetryDelayMs (n + 1) (resolvedOptions ws)
   \<and> roRetryBaseDelayMs (resolvedOptions ws) \<le> roadRetryDelayMs n (resolvedOptions ws)
   \<and> roadRetryDelayMs 1 (resolvedOptions ws) = roRetryBaseDelayMs (resolvedOptions ws)"
proof -
  let ?b = "roRetryBaseDelayMs (resolvedOptions ws)"
  have b: "0 \<le> ?b" by (simp add: resolvedOptions_def Let_def positiveInteger_nonneg)
  have "(2::int) ^ nat (max 0 (n - 1)) \<le> 2 ^ nat (max 0 n)" by (rule power_increasing) auto
  then have "?b * 2 ^ nat (max 0 (n - 1)) \<le> ?b * 2 ^ nat (max 0 n)" using b by (rule mult_left_mono)
  moreover have "?b \<le> ?b * 2 ^ nat (max 0 (n - 1))" using b by (simp add: mult_le_cancel_left1)
  moreover have "?b \<le> roRetryMaxDelayMs (resolvedOptions ws)" by (simp add: resolvedOptions_def Let_def)
  ultimately show ?thesis by (auto simp: roadRetryDelayMs_def min_def)
qed

end
