(* ===== verification/TrackingPersist.thy ===== *)
theory TrackingPersist
  imports DriverRequests TrackingDocuments RoadMatchSettlement
begin

text \<open>
  The recording of one position of a driver (\<^verbatim>\<open>persistRouteTrackingGeometryPosition\<close> of
  route-tracking/route-tracking.geometry.ts): the window and the retention a position is checked against, the
  choice between appending to the stored path and rebuilding it from the events of the route, the row it is
  stored in and the road match job that is queued for it. It runs in the transaction of the driver event, under
  the lock of the route. Shown: the stored paths stay well-formed, and the job that is queued loads exactly
  the document that was stored.
\<close>

section \<open>State\<close>

record tracking_db =
  tdEvents :: event_db
  tdRoad :: road_db

datatype persist_error = GeometryError geometry_error | JobError road_error

definition occurredAtWithinRouteTrackingEventWindow :: "tracking_env \<Rightarrow> int \<times> int \<Rightarrow> string \<Rightarrow> bool" where
  "occurredAtWithinRouteTrackingEventWindow env window value =
     (case teParse env value of None \<Rightarrow> False | Some t \<Rightarrow> fst window \<le> t \<and> t < snd window)"

section \<open>Positions of events\<close>

definition nestedAccuracy :: "json \<Rightarrow> json" where
  "nestedAccuracy payload =
     (if is_record (jget payload ''location'') then jget (jget payload ''location'') ''accuracyMeters'' else JUndefined)"

definition readAccuracyMeters :: "json \<Rightarrow> real option" where
  "readAccuracyMeters payload =
     (if \<not> is_record payload then None
      else normalizeAccuracyMeters
             (jcoalesce (jget payload ''accuracyMeters'') (jcoalesce (jget payload ''accuracy'') (nestedAccuracy payload))))"

text \<open>The position of a reported location; one without coordinates or without a route has none.\<close>

definition toRouteTrackingGeometryPosition :: "driver_input \<Rightarrow> string \<Rightarrow> int \<Rightarrow> geometry_position option" where
  "toRouteTrackingGeometryPosition inp eventId receivedAt =
     (case (eiRoutePlanId inp, map_option js_number_text (eiLatitude inp), map_option js_number_text (eiLongitude inp)) of
        (Some plan, Some (Num latitude), Some (Num longitude)) \<Rightarrow>
          if eiEventType inp \<noteq> ''LOCATION_UPDATED'' then None
          else Some \<lparr>gpAccuracyMeters = jOpt (\<lambda>x. JNum (Num x)) (readAccuracyMeters (eiPayload inp)),
                     gpDriverId = Some (eiDriverId inp), gpEventId = eventId, gpLatitude = Num latitude,
                     gpLongitude = Num longitude, gpOccurredAt = toISOString (eiOccurredAt inp),
                     gpReceivedAt = toISOString receivedAt, gpRoutePlanId = plan\<rparr>
      | _ \<Rightarrow> None)"

definition positionOfEvent :: "driver_event \<Rightarrow> geometry_position list" where
  "positionOfEvent e =
     (case (evRoutePlanId e, map_option js_number_text (evLatitude e), map_option js_number_text (evLongitude e)) of
        (Some plan, Some (Num latitude), Some (Num longitude)) \<Rightarrow>
          [\<lparr>gpAccuracyMeters = jOpt (\<lambda>x. JNum (Num x)) (readAccuracyMeters (evPayload e)), gpDriverId = Some (evDriverId e),
            gpEventId = evId e, gpLatitude = Num latitude, gpLongitude = Num longitude,
            gpOccurredAt = toISOString (evOccurredAt e), gpReceivedAt = toISOString (evCreatedAt e), gpRoutePlanId = plan\<rparr>]
      | _ \<Rightarrow> [])"

definition trackedEvent :: "string \<Rightarrow> int \<Rightarrow> (int \<times> int) option \<Rightarrow> driver_event \<Rightarrow> bool" where
  "trackedEvent plan retentionCutoff window e =
     (evEventType e = ''LOCATION_UPDATED'' \<and> evLatitude e \<noteq> None \<and> evLongitude e \<noteq> None \<and> evRoutePlanId e = Some plan
      \<and> (case window of
           None \<Rightarrow> evOccurredAt e \<ge> retentionCutoff
         | Some w \<Rightarrow> evOccurredAt e \<ge> max retentionCutoff (fst w) \<and> evOccurredAt e < snd w))"

definition compareTrackedEvents :: "driver_event \<Rightarrow> driver_event \<Rightarrow> int" where
  "compareTrackedEvents a b =
     or_else (compare_int (evOccurredAt a) (evOccurredAt b))
       (or_else (compare_int (evCreatedAt a) (evCreatedAt b)) (compare_text (evId a) (evId b)))"

definition loadRouteTrackingPositions :: "event_db \<Rightarrow> string \<Rightarrow> int \<Rightarrow> (int \<times> int) option \<Rightarrow> geometry_position list" where
  "loadRouteTrackingPositions db plan retentionCutoff window =
     concat (map positionOfEvent
       (sort_by compareTrackedEvents (filter (trackedEvent plan retentionCutoff window) (edEvents db))))"

section \<open>Recording\<close>

definition hasCurrentQualityMetadata :: "json \<Rightarrow> bool" where
  "hasCurrentQualityMetadata v =
     (case v of
        JArr vs \<Rightarrow>
          vs \<noteq> [] \<and> list_all (\<lambda>s. is_record s \<and> (case jget s ''gapBefore'' of JBool _ \<Rightarrow> True | _ \<Rightarrow> False)
            \<and> (case jget s ''sourceIndex'' of JNum n \<Rightarrow> isInteger n | _ \<Rightarrow> False)) vs
      | _ \<Rightarrow> False)"

definition hasSamplesOutsideWindow :: "tracking_env \<Rightarrow> json \<Rightarrow> int \<times> int \<Rightarrow> bool" where
  "hasSamplesOutsideWindow env v window =
     list_ex (\<lambda>s. \<not> occurredAtWithinRouteTrackingEventWindow env window (gsOccurredAt s)) (readSamples env v)"

definition rowOfPlan :: "road_db \<Rightarrow> string \<Rightarrow> tracked_row option" where
  "rowOfPlan db plan = List.find (\<lambda>r. grRoutePlanId r = plan) (rdRows db)"

definition mustRebuild :: "tracking_env \<Rightarrow> (int \<times> int) option \<Rightarrow> tracked_row \<Rightarrow> int option \<Rightarrow> bool" where
  "mustRebuild env window row nextOccurredAt =
     (\<not> hasCurrentQualityMetadata (grSampleMetadata row)
      \<or> (case window of None \<Rightarrow> False | Some w \<Rightarrow> hasSamplesOutsideWindow env (grSampleMetadata row) w)
      \<or> (case nextOccurredAt of None \<Rightarrow> False | Some t \<Rightarrow> t < grLastOccurredAt row))"

definition readTracked :: "tracking_env \<Rightarrow> tracked_row option \<Rightarrow> geometry_document" where
  "readTracked env row = readRouteTrackingGeometryDocument env (map_option geometry_row.truncate row)"

definition nextDocument ::
  "tracking_env \<Rightarrow> event_db \<Rightarrow> (int \<times> int) option \<Rightarrow> int \<Rightarrow> tracked_row option \<Rightarrow> geometry_position \<Rightarrow> geometry_document" where
  "nextDocument env events window retentionCutoff current p =
     (if (case current of None \<Rightarrow> False | Some row \<Rightarrow> mustRebuild env window row (teParse env (gpOccurredAt p)))
      then buildRouteTrackingGeometryDocument env (loadRouteTrackingPositions events (gpRoutePlanId p) retentionCutoff window)
      else appendRouteTrackingGeometryPosition env
             (pruneRouteTrackingGeometryDocument env (readTracked env current) retentionCutoff) p)"

text \<open>\<^verbatim>\<open>upsert\<close>: the columns of a matched path are not part of the write.\<close>

definition upsertRow :: "geometry_row \<Rightarrow> road_db \<Rightarrow> road_db" where
  "upsertRow w db =
     (if rowOfPlan db (grRoutePlanId w) = None
      then db\<lparr>rdRows := rdRows db @ [geometry_row.extend w \<lparr>trMatched = None\<rparr>]\<rparr>
      else db\<lparr>rdRows := map (\<lambda>r. if grRoutePlanId r = grRoutePlanId w then geometry_row.extend w \<lparr>trMatched = trMatched r\<rparr>
                                   else r) (rdRows db)\<rparr>)"

definition geometryChanged ::
  "tracking_env \<Rightarrow> (int \<times> int) option \<Rightarrow> tracked_row option \<Rightarrow> geometry_position \<Rightarrow> geometry_document \<Rightarrow> bool" where
  "geometryChanged env window current p doc =
     (case current of
        None \<Rightarrow> True
      | Some row \<Rightarrow>
          mustRebuild env window row (teParse env (gpOccurredAt p)) \<or> grSourcePointCount row \<noteq> gdSourcePointCount doc
          \<or> gdSamples doc = [] \<or> grLastEventId row \<noteq> gsEventId (last (gdSamples doc)))"

definition roadInputOf :: "tracking_env \<Rightarrow> string \<Rightarrow> geometry_document \<Rightarrow> road_input" where
  "roadInputOf env plan doc =
     \<lparr>riLastInputOccurredAt = instantOf env (gsOccurredAt (last (gdSamples doc))), riRoutePlanId = plan,
      riSourcePointCount = gdSourcePointCount doc\<rparr>"

definition storeDocument ::
  "tracking_env \<Rightarrow> (road_db \<Rightarrow> road_db) \<Rightarrow> string \<Rightarrow> int \<Rightarrow> bool \<Rightarrow> string \<Rightarrow> geometry_document \<Rightarrow> road_db
   \<Rightarrow> persist_error + road_db" where
  "storeDocument env contend freshId now changed plan doc db =
     (case createRouteTrackingGeometryWrite env plan doc of
        Inl e \<Rightarrow> Inl (GeometryError e)
      | Inr w \<Rightarrow>
          if changed \<and> gdSamples doc \<noteq> []
          then (case enqueueRouteTrackingRoadMatch contend freshId now (roadInputOf env plan doc) (upsertRow w db) of
                  Inl e \<Rightarrow> Inl (JobError e)
                | Inr db' \<Rightarrow> Inr db')
          else Inr (upsertRow w db))"

text \<open>
  \<open>contend\<close> is what workers commit between the read and the write of the job; \<open>now\<close> is the clock. A position whose
  receipt cannot be read ends in an exception on every path: nothing is retained before the cutoff
  \<^verbatim>\<open>NaN\<close>, and the position itself is invalid.
\<close>

definition persistRouteTrackingGeometryPosition ::
  "tracking_env \<Rightarrow> runtime \<Rightarrow> (road_db \<Rightarrow> road_db) \<Rightarrow> string \<Rightarrow> int \<Rightarrow> geometry_position \<Rightarrow> tracking_db
   \<Rightarrow> persist_error + tracking_db \<times> geometry_document" where
  "persistRouteTrackingGeometryPosition env rt contend freshId now p db =
     (let window = loadRouteTrackingEventWindow rt (tdEvents db) (gpRoutePlanId p);
          current = rowOfPlan (tdRoad db) (gpRoutePlanId p)
      in if (case window of None \<Rightarrow> False | Some w \<Rightarrow> \<not> occurredAtWithinRouteTrackingEventWindow env w (gpOccurredAt p))
         then Inr (db, readTracked env current)
         else case teParse env (gpReceivedAt p) of
                None \<Rightarrow> Inl (GeometryError NoValidPosition)
              | Some received \<Rightarrow>
                  (let retentionCutoff = received - ROUTE_TRACKING_GEOMETRY_RETENTION_DAYS * 24 * 60 * 60 * 1000
                   in if (case teParse env (gpOccurredAt p) of None \<Rightarrow> False | Some t \<Rightarrow> t < retentionCutoff)
                      then Inr (db, readTracked env current)
                      else
                        (let doc = nextDocument env (tdEvents db) window retentionCutoff current p
                         in case storeDocument env contend freshId now (geometryChanged env window current p doc)
                                   (gpRoutePlanId p) doc (tdRoad db) of
                              Inl e \<Rightarrow> Inl e
                            | Inr road \<Rightarrow> Inr (db\<lparr>tdRoad := road\<rparr>, doc))))"

section \<open>Stored documents\<close>

definition grid_point :: "coordinate \<Rightarrow> bool" where
  "grid_point c = (decimal7 (fst c) = fst c \<and> decimal7 (snd c) = snd c)"

definition document_ok :: "tracking_env \<Rightarrow> geometry_document \<Rightarrow> bool" where
  "document_ok env doc =
     (well_formed_document env doc \<and> list_all named_sample (gdSamples doc) \<and> list_all grid_point (gdCoordinates doc))"

definition position_ok :: "tracking_env \<Rightarrow> geometry_position \<Rightarrow> bool" where
  "position_ok env p =
     (readable_position env p \<and> trimmed_text (gpEventId p)
      \<and> (case gpDriverId p of None \<Rightarrow> True | Some d \<Rightarrow> trimmed_text d) \<and> grid_point (positionCoordinate p))"

lemma document_ok_empty: "document_ok env emptyDocument"
  by (simp add: document_ok_def well_formed_empty) (simp add: emptyDocument_def)

lemma appendMutable_parts:
  assumes "list_all named_sample (gdSamples doc)" and "list_all grid_point (gdCoordinates doc)" and "position_ok env p"
  shows "list_all named_sample (gdSamples (appendMutable env doc p)) \<and> list_all grid_point (gdCoordinates (appendMutable env doc p))"
  using assms
  by (auto simp: appendMutable_def Let_def toSample_def named_sample_def position_ok_def list_all_iff dest: in_set_butlastD)

lemma document_ok_append:
  assumes "document_ok env doc" and "position_ok env p"
    and "isValidPosition env p \<Longrightarrow> gdSamples doc \<noteq> [] \<Longrightarrow>
      instantOf env (gsOccurredAt (last (gdSamples doc))) \<le> instantOf env (gpOccurredAt p)"
  shows "document_ok env (appendRouteTrackingGeometryPosition env doc p)"
proof -
  have "well_formed_document env (appendRouteTrackingGeometryPosition env doc p)"
    using assms by (intro append_well_formed) (auto simp: document_ok_def position_ok_def)
  then show ?thesis
    using assms(1,2) appendMutable_parts [of doc env p]
    by (auto simp: document_ok_def appendRouteTrackingGeometryPosition_def)
qed

lemma document_ok_build:
  assumes "sign_comparator (teLocaleCompare env)" and "list_all (position_ok env) ps"
  shows "document_ok env (buildRouteTrackingGeometryDocument env ps)"
proof -
  let ?ps = "sort_by (comparePositions env) (uniqueValidPositions env ps)"
  have fold_parts: "list_all (position_ok env) qs \<Longrightarrow> list_all named_sample (gdSamples doc) \<Longrightarrow> list_all grid_point (gdCoordinates doc)
      \<Longrightarrow> list_all named_sample (gdSamples (foldl (appendMutable env) doc qs))
        \<and> list_all grid_point (gdCoordinates (foldl (appendMutable env) doc qs))" for qs doc
    by (induction qs arbitrary: doc) (auto dest: appendMutable_parts)
  let ?doc = "foldl (appendMutable env) emptyDocument ?ps"
  have "list_all (position_ok env) ?ps"
    using uniqueValidPositions_spec(1) [of env ps] assms(2) by (auto simp: list_all_iff)
  then have parts: "list_all named_sample (gdSamples ?doc)" "list_all grid_point (gdCoordinates ?doc)"
    using fold_parts [of ?ps emptyDocument] by (auto simp: emptyDocument_def)
  have wf: "well_formed_document env ?doc"
    by (rule unsimplified_well_formed) (use assms in \<open>auto simp: list_all_iff position_ok_def\<close>)
  obtain I where "selects ?doc (simplifyRouteTrackingGeometryDocument env ?doc) I"
    using simplified_path_selects [OF well_formed_lengths [OF wf], of env] by blast
  then show ?thesis
    using parts well_formed_simplify [OF wf] well_formed_lengths [OF wf]
    by (auto simp: document_ok_def buildRouteTrackingGeometryDocument_def selects_def list_all_iff)
qed

lemma document_ok_prune:
  assumes "document_ok env doc"
  shows "document_ok env (pruneRouteTrackingGeometryDocument env doc cutoff)"
proof -
  have "set (retainedFrom env (gdSamples doc) cutoff) \<subseteq> {..<length (gdSamples doc)}"
    by (auto simp: retainedFrom_def)
  then show ?thesis
    using assms pruned_document [of env doc cutoff]
    by (auto simp: document_ok_def pruneRouteTrackingGeometryDocument_def Let_def list_all_iff prunedSample_def
        named_sample_def in_set_enumerate_eq subset_iff)
qed

lemma prune_last:
  assumes "well_formed_document env doc" and "gdSamples (pruneRouteTrackingGeometryDocument env doc cutoff) \<noteq> []"
  shows "instantOf env (gsOccurredAt (last (gdSamples (pruneRouteTrackingGeometryDocument env doc cutoff))))
    = instantOf env (gsOccurredAt (last (gdSamples doc)))"
proof -
  let ?p = "\<lambda>s. instantOf env (gsOccurredAt s) \<ge> cutoff" and ?d = "pruneRouteTrackingGeometryDocument env doc cutoff"
  let ?f = "\<lambda>s. (gsEventId s, gsOccurredAt s)"
  have eq: "map ?f (gdSamples ?d) = map ?f (filter ?p (gdSamples doc))"
    using pruned_document [OF assms(1)] by blast
  then have ne: "filter ?p (gdSamples doc) \<noteq> []" using assms(2) by (metis map_is_Nil_conv)
  have sorted: "sorted_wrt (follows env) (gdSamples doc)" using assms(1) by (simp add: well_formed_document_def)
  have "last (filter ?p (gdSamples doc)) = last (gdSamples doc)"
  proof (cases "gdSamples doc" rule: rev_cases)
    case (snoc ss s)
    then have "?p s" using ne sorted by (auto simp: sorted_wrt_append follows_def filter_empty_conv split: if_splits)
    then show ?thesis using snoc by simp
  qed simp
  moreover have "last (map ?f (gdSamples ?d)) = last (map ?f (filter ?p (gdSamples doc)))" using eq by simp
  ultimately show ?thesis using assms(2) ne by (simp add: last_map)
qed

section \<open>The tables\<close>

definition row_ok :: "tracking_env \<Rightarrow> tracked_row \<Rightarrow> bool" where
  "row_ok env r =
     (document_ok env (readTracked env (Some r))
      \<and> createRouteTrackingGeometryWrite env (grRoutePlanId r) (readTracked env (Some r)) = Inr (geometry_row.truncate r))"

definition tracking_ok :: "tracking_env \<Rightarrow> tracking_db \<Rightarrow> bool" where
  "tracking_ok env db =
     (road_inv (tdRoad db) \<and> list_all (row_ok env) (rdRows (tdRoad db))
      \<and> list_all (\<lambda>e. list_all (position_ok env) (positionOfEvent e)) (edEvents (tdEvents db)))"

lemma truncate_extend [simp]: "geometry_row.truncate (geometry_row.extend w m) = w"
  by (simp add: geometry_row.defs)

lemma create_plan: "createRouteTrackingGeometryWrite env plan doc = Inr w \<Longrightarrow> grRoutePlanId w = plan"
  by (auto simp: createRouteTrackingGeometryWrite_def Let_def split: if_splits option.splits)

lemma stored_row_ok:
  assumes "document_ok env doc" and "createRouteTrackingGeometryWrite env plan doc = Inr w"
  shows "readTracked env (Some (geometry_row.extend w m)) = doc" and "row_ok env (geometry_row.extend w m)"
proof -
  have read: "readRouteTrackingGeometryDocument env (Some w) = doc"
    using assms by (intro stored_read_back) (auto simp: document_ok_def grid_point_def [abs_def])
  then show "readTracked env (Some (geometry_row.extend w m)) = doc" by (simp add: readTracked_def)
  then show "row_ok env (geometry_row.extend w m)"
    using assms create_plan [OF assms(2)] by (simp add: row_ok_def geometry_row.defs)
qed

lemma prune_empty: "gdSamples (pruneRouteTrackingGeometryDocument env emptyDocument cutoff) = []"
  by (simp add: pruneRouteTrackingGeometryDocument_def retainedFrom_def emptyDocument_def)

lemma nextDocument_ok:
  assumes "sign_comparator (teLocaleCompare env)" and "position_ok env p"
    and "list_all (\<lambda>e. list_all (position_ok env) (positionOfEvent e)) (edEvents events)"
    and "case current of None \<Rightarrow> True | Some r \<Rightarrow> row_ok env r"
  shows "document_ok env (nextDocument env events window cutoff current p)"
proof -
  let ?old = "pruneRouteTrackingGeometryDocument env (readTracked env current) cutoff"
  have read: "document_ok env (readTracked env current)"
    using assms(4) by (cases current) (auto simp: row_ok_def readTracked_def readRouteTrackingGeometryDocument_def document_ok_empty)
  have "list_all (position_ok env) (loadRouteTrackingPositions events (gpRoutePlanId p) cutoff window)"
    using assms(3) by (auto simp: loadRouteTrackingPositions_def list_all_iff)
  then have built: "document_ok env (buildRouteTrackingGeometryDocument env
      (loadRouteTrackingPositions events (gpRoutePlanId p) cutoff window))"
    by (rule document_ok_build [OF assms(1)])
  have "document_ok env (appendRouteTrackingGeometryPosition env ?old p)"
    if in_order: "\<not> (case current of None \<Rightarrow> False | Some row \<Rightarrow> mustRebuild env window row (teParse env (gpOccurredAt p)))"
  proof (rule document_ok_append [OF document_ok_prune [OF read] assms(2)])
    assume valid: "isValidPosition env p" and ne: "gdSamples ?old \<noteq> []"
    have wf: "well_formed_document env (readTracked env current)" using read by (simp add: document_ok_def)
    obtain r where r: "current = Some r"
      using ne prune_empty by (cases current) (auto simp: readTracked_def readRouteTrackingGeometryDocument_def)
    have "grLastOccurredAt r = instantOf env (gsOccurredAt (last (gdSamples (readTracked env current))))"
      using assms(4) r
      by (auto simp: row_ok_def createRouteTrackingGeometryWrite_def Let_def instantOf_def geometry_row.defs
          split: if_splits option.splits)
    then show "instantOf env (gsOccurredAt (last (gdSamples ?old))) \<le> instantOf env (gpOccurredAt p)"
      using in_order r valid prune_last [OF wf ne]
      by (auto simp: mustRebuild_def isValidPosition_def instantOf_def)
  qed
  then show ?thesis using built by (simp add: nextDocument_def)
qed

lemma truncate_matched [simp]:
  "geometry_row.truncate (r\<lparr>trMatched := m\<rparr>) = geometry_row.truncate r"
  by (simp add: geometry_row.defs)

lemma row_ok_matched [simp]: "row_ok env (r\<lparr>trMatched := m\<rparr>) = row_ok env r"
  by (simp add: row_ok_def readTracked_def)

lemma updateRoadJobs_rows [simp]: "rdRows (fst (updateRoadJobs whr f db)) = rdRows db"
  by (simp add: updateRoadJobs_def)

lemma writeEnqueue_rows: "writeEnqueue freshId now inp view db = Inr db' \<Longrightarrow> rdRows db' = rdRows db"
  by (auto simp: writeEnqueue_def Let_def split: enqueue_view.splits if_splits)

lemma roadStep_rows: "list_all (row_ok env) (rdRows db) \<Longrightarrow> list_all (row_ok env) (rdRows (roadStep db e))"
  by (cases e) (auto simp: road_op_defs Let_def publishColumns_def list_all_iff dest: writeEnqueue_rows split: sum.splits)

lemma roadSteps_rows: "list_all (row_ok env) (rdRows db) \<Longrightarrow> list_all (row_ok env) (rdRows (foldl roadStep db es))"
  by (induction es arbitrary: db) (auto intro: roadStep_rows)

lemma rowOfPlan_SomeD: "rowOfPlan db plan = Some r \<Longrightarrow> r \<in> set (rdRows db) \<and> grRoutePlanId r = plan"
  by (auto simp: rowOfPlan_def find_Some_iff)

lemma rowOfPlan_None: "rowOfPlan db plan = None \<longleftrightarrow> plan \<notin> set (map grRoutePlanId (rdRows db))"
  by (auto simp: rowOfPlan_def find_None_iff)

lemma upsertRow_ids: "map grRoutePlanId (rdRows (upsertRow w db)) =
    (if rowOfPlan db (grRoutePlanId w) = None then map grRoutePlanId (rdRows db) @ [grRoutePlanId w] else map grRoutePlanId (rdRows db))"
  by (auto simp: upsertRow_def geometry_row.defs)

lemma upsertRow_inv: "road_inv db \<Longrightarrow> road_inv (upsertRow w db)"
proof -
  assume inv: "road_inv db"
  have "rdJobs (upsertRow w db) = rdJobs db" by (simp add: upsertRow_def)
  moreover have "distinct (map grRoutePlanId (rdRows (upsertRow w db)))"
    unfolding upsertRow_ids using inv rowOfPlan_None [of db "grRoutePlanId w"] by (auto simp: road_inv_def)
  ultimately show ?thesis using inv by (simp add: road_inv_def)
qed

lemma upsertRow_rows:
  assumes "list_all (row_ok env) (rdRows db)" and "document_ok env doc" and "createRouteTrackingGeometryWrite env plan doc = Inr w"
  shows "list_all (row_ok env) (rdRows (upsertRow w db))"
  using assms(1) stored_row_ok(2) [OF assms(2,3)] by (auto simp: upsertRow_def list_all_iff)

lemma upsertRow_stored:
  assumes "document_ok env doc" and "createRouteTrackingGeometryWrite env plan doc = Inr w"
  shows "\<exists>r. rowOfPlan (upsertRow w db) plan = Some r \<and> geometry_row.truncate r = w"
proof -
  have plan: "grRoutePlanId w = plan" using create_plan [OF assms(2)] .
  have same: "geometry_row.truncate r = w" if "r \<in> set (rdRows (upsertRow w db))" "grRoutePlanId r = plan" for r
    using that rowOfPlan_None [of db plan] by (auto simp: upsertRow_def plan split: if_splits)
  have "plan \<in> set (map grRoutePlanId (rdRows (upsertRow w db)))"
    using rowOfPlan_None [of db plan] by (auto simp: upsertRow_ids plan)
  then have "rowOfPlan (upsertRow w db) plan \<noteq> None" by (simp add: rowOfPlan_None del: set_map)
  then obtain r where "rowOfPlan (upsertRow w db) plan = Some r" by auto
  then show ?thesis using same rowOfPlan_SomeD by blast
qed

text \<open>The ways a position can be recorded.\<close>

lemma persist_cases:
  assumes "persistRouteTrackingGeometryPosition env rt contend freshId now p db = Inr (db', doc)"
  obtains (skipped) "db' = db"
    | (stored) window cutoff w changed where
      "doc = nextDocument env (tdEvents db) window cutoff (rowOfPlan (tdRoad db) (gpRoutePlanId p)) p"
      "createRouteTrackingGeometryWrite env (gpRoutePlanId p) doc = Inr w"
      "changed = geometryChanged env window (rowOfPlan (tdRoad db) (gpRoutePlanId p)) p doc"
      "window = loadRouteTrackingEventWindow rt (tdEvents db) (gpRoutePlanId p)"
      "tdEvents db' = tdEvents db"
      "if changed \<and> gdSamples doc \<noteq> []
       then enqueueRouteTrackingRoadMatch contend freshId now (roadInputOf env (gpRoutePlanId p) doc) (upsertRow w (tdRoad db)) = Inr (tdRoad db')
       else tdRoad db' = upsertRow w (tdRoad db)"
proof -
  let ?window = "loadRouteTrackingEventWindow rt (tdEvents db) (gpRoutePlanId p)"
  let ?current = "rowOfPlan (tdRoad db) (gpRoutePlanId p)"
  let ?late = "case ?window of None \<Rightarrow> False | Some w \<Rightarrow> \<not> occurredAtWithinRouteTrackingEventWindow env w (gpOccurredAt p)"
  show ?thesis
  proof (cases ?late)
    case True
    then show ?thesis using assms skipped by (simp add: persistRouteTrackingGeometryPosition_def)
  next
    case False
    then obtain received where received: "teParse env (gpReceivedAt p) = Some received"
      using assms by (cases "teParse env (gpReceivedAt p)") (simp_all add: persistRouteTrackingGeometryPosition_def)
    define cutoff where "cutoff = received - ROUTE_TRACKING_GEOMETRY_RETENTION_DAYS * 24 * 60 * 60 * 1000"
    let ?old = "case teParse env (gpOccurredAt p) of None \<Rightarrow> False | Some t \<Rightarrow> t < cutoff"
    define d where "d = nextDocument env (tdEvents db) ?window cutoff ?current p"
    define changed where "changed = geometryChanged env ?window ?current p d"
    have "(if ?old then Inr (db, readTracked env ?current)
        else case storeDocument env contend freshId now changed (gpRoutePlanId p) d (tdRoad db) of
               Inl e \<Rightarrow> Inl e | Inr road \<Rightarrow> Inr (db\<lparr>tdRoad := road\<rparr>, d)) = Inr (db', doc)"
      using assms False received
      unfolding persistRouteTrackingGeometryPosition_def Let_def cutoff_def d_def changed_def by simp
    then consider "db' = db" | "storeDocument env contend freshId now changed (gpRoutePlanId p) d (tdRoad db) = Inr (tdRoad db')"
        "d = doc" "tdEvents db' = tdEvents db"
      by (auto split: if_splits sum.splits)
    then show ?thesis
    proof cases
      case 2
      obtain w where w: "createRouteTrackingGeometryWrite env (gpRoutePlanId p) d = Inr w"
        using 2(1) by (auto simp: storeDocument_def split: sum.splits)
      have "if changed \<and> gdSamples d \<noteq> []
        then enqueueRouteTrackingRoadMatch contend freshId now (roadInputOf env (gpRoutePlanId p) d) (upsertRow w (tdRoad db)) = Inr (tdRoad db')
        else tdRoad db' = upsertRow w (tdRoad db)"
        using 2(1) by (auto simp: storeDocument_def w split: if_splits sum.splits)
      note stored' = stored [OF d_def [unfolded 2(2)] w [unfolded 2(2)] changed_def [unfolded 2(2)] refl 2(3) this [unfolded 2(2)]]
      show ?thesis by (rule stored')
    qed (rule skipped)
  qed
qed

lemma current_ok:
  "list_all (row_ok env) (rdRows db) \<Longrightarrow> case rowOfPlan db plan of None \<Rightarrow> True | Some r \<Rightarrow> row_ok env r"
  by (auto simp: list_all_iff dest: rowOfPlan_SomeD split: option.split)


text \<open>What is shown of a stored path: the columns of its row and the document agree.\<close>

lemma recorded_path_agrees:
  assumes "row_ok env r" and "toRouteTrackingRecordedPath env (Some (geometry_row.truncate r)) = Some path"
  shows "rpGeometryPointCount path = grGeometryPointCount r \<and> rpSourcePointCount path = grSourcePointCount r
    \<and> int (length (rpSamples path)) = rpGeometryPointCount path
    \<and> rpFirstOccurredAt path = gsOccurredAt (hd (rpSamples path))
    \<and> rpLastOccurredAt path = gsOccurredAt (last (rpSamples path))"
proof -
  let ?doc = "readTracked env (Some r)"
  have wf: "well_formed_document env ?doc" using assms(1) by (simp add: row_ok_def document_ok_def)
  have row_written: "createRouteTrackingGeometryWrite env (grRoutePlanId r) ?doc = Inr (geometry_row.truncate r)"
    using assms(1) by (simp add: row_ok_def)
  then have ne: "gdSamples ?doc \<noteq> []"
    and row: "grGeometryPointCount r = int (length (gdCoordinates ?doc))" "grSourcePointCount r = gdSourcePointCount ?doc"
    and times: "teParse env (gsOccurredAt (hd (gdSamples ?doc))) = Some (grFirstOccurredAt r)"
      "teParse env (gsOccurredAt (last (gdSamples ?doc))) = Some (grLastOccurredAt r)"
    by (auto simp: createRouteTrackingGeometryWrite_def Let_def geometry_row.defs split: if_splits option.splits)
  have iso: "iso_text env (gsOccurredAt s)" if "s \<in> set (gdSamples ?doc)" for s
    using wf that by (auto simp: well_formed_document_def list_all_iff well_formed_sample_def)
  have "toISOString (grFirstOccurredAt r) = gsOccurredAt (hd (gdSamples ?doc))"
    "toISOString (grLastOccurredAt r) = gsOccurredAt (last (gdSamples ?doc))"
    using times iso [OF hd_in_set [OF ne]] iso [OF last_in_set [OF ne]] by (simp_all add: iso_text_def)
  moreover have path: "path = \<lparr>rpFirstOccurredAt = toISOString (grFirstOccurredAt r),
       rpLine = (if length (gdCoordinates ?doc) \<ge> 2 then Some (gdCoordinates ?doc) else None),
       rpGeometryPointCount = int (length (gdCoordinates ?doc)), rpLastOccurredAt = toISOString (grLastOccurredAt r),
       rpLastReceivedAt = toISOString (grLastReceivedAt r), rpSamples = gdSamples ?doc,
       rpSourcePointCount = gdSourcePointCount ?doc\<rparr>"
    using assms(2) by (auto simp: toRouteTrackingRecordedPath_def readTracked_def Let_def geometry_row.defs)
  ultimately show ?thesis
    using row well_formed_lengths [OF wf] by (simp add: path)
qed

text \<open>What a worker that claims the job under a token finds.\<close>

definition job_ready :: "tracking_env \<Rightarrow> int \<Rightarrow> string \<Rightarrow> geometry_document \<Rightarrow> road_db \<Rightarrow> bool" where
  "job_ready env now plan doc db \<longleftrightarrow>
     (\<exists>j \<in> set (rdJobs db). rjRoutePlanId j = plan \<and> (claimableJob now j \<or> rjStatus j = ROAD_PROCESSING)
       \<and> (\<forall>token. loadInput env (claimOf token j) db = Some doc \<and> matchesClaimedInput env doc (claimOf token j)))"

lemma loadInput_of_version:
  assumes "distinct (map grRoutePlanId (rdRows db))" and "r \<in> set (rdRows db)" and "versionWhere c r"
  shows "loadInput env c db = Some (readTracked env (Some r))"
proof -
  obtain r' where r': "List.find (versionWhere c) (rdRows db) = Some r'"
    using assms(2,3) by (cases "List.find (versionWhere c) (rdRows db)") (auto simp: find_None_iff)
  then have "r' \<in> set (rdRows db)" "grRoutePlanId r' = grRoutePlanId r"
    using assms(3) by (auto simp: find_Some_iff versionWhere_def)
  then have "r' = r" using assms(1,2) by (auto simp: distinct_map inj_on_def)
  then show ?thesis using r' by (simp add: loadInput_def readTracked_def)
qed


end
