(* ===== verification/DriverEvents.thy ===== *)
theory DriverEvents
  imports DriverRequests
begin

text \<open>
  Recording the events a driver reports: the second half of driver/driver-event.repository.ts, with
  route-plans/kfood-delivery-completion.ts. A request is admitted as an attempt, checked, recorded as an event and applied
  to the stops, the route and the arrival estimates; a retry is answered from what is recorded.

  The transaction of a request is one step: it holds the lock of its route or writes rows of its own, and it is rolled back
  when it raises. The queues that only other services read (execution contexts and notifications of the dispatch office,
  customer e-mail facts, tracking geometry) are not part of the state.
\<close>

section \<open>Arrival estimates\<close>

record eta_row =
  erRow :: plan_stop
  erServiceMinutes :: int
  erStatus :: stop_status

record stop_point =
  spDeliveryStopId :: string
  spSequence :: real
  spDistanceFromPreviousMeters :: "real option"
  spDurationFromPreviousSeconds :: "real option"

definition readNullableNumber :: "json \<Rightarrow> real option" where
  "readNullableNumber v = (case v of JNull \<Rightarrow> None | JUndefined \<Rightarrow> None | _ \<Rightarrow> finiteNumber (js_number v))"

definition readRouteStopPoint :: "json \<Rightarrow> stop_point option" where
  "readRouteStopPoint v =
     (case (jget v ''deliveryStopId'', js_number (jget v ''sequence''), jget v ''shopifyOrderGid'') of
        (JStr d, Num x, JStr _) \<Rightarrow>
          if isInteger (Num x)
          then Some \<lparr>spDeliveryStopId = d, spSequence = x,
                     spDistanceFromPreviousMeters = readNullableNumber (jget v ''distanceFromPreviousMeters''),
                     spDurationFromPreviousSeconds = readNullableNumber (jget v ''durationFromPreviousSeconds'')\<rparr>
          else None
      | _ \<Rightarrow> None)"

definition readRouteStopPoints :: "json \<Rightarrow> stop_point list" where
  "readRouteStopPoints v = (case v of JArr vs \<Rightarrow> List.map_filter readRouteStopPoint vs | _ \<Rightarrow> [])"

definition normalizedInteger :: "real option \<Rightarrow> int option" where
  "normalizedInteger v = (case v of None \<Rightarrow> None | Some x \<Rightarrow> if x < 0 then None else Some (jsRound x))"

definition toEtaStop :: "eta_row \<Rightarrow> eta_stop" where
  "toEtaStop r =
     (let row = erRow r
      in \<lparr>etaDeliveryStopId = psDeliveryStopId row,
          distanceFromPreviousMeters = map_option real_of_int (psDistanceFromPreviousMeters row),
          durationFromPreviousSeconds = map_option (\<lambda>n. Num (real_of_int n)) (psDurationFromPreviousSeconds row),
          etaCalculatedAt = psEtaCalculatedAt row, estimatedArrivalAt = psEstimatedArrivalAt row,
          etaSequence = psSequence row, serviceMinutes = Some (Num (real_of_int (erServiceMinutes r))),
          etaStopStatus = Some (stopStatusText (erStatus r))\<rparr>)"

definition joinEtaRow :: "event_db \<Rightarrow> plan_stop \<Rightarrow> eta_row option" where
  "joinEtaRow db row =
     map_option (\<lambda>s. \<lparr>erRow = row, erServiceMinutes = srServiceMinutes s, erStatus = srStatus s\<rparr>)
       (stopOf db (psDeliveryStopId row) (psShopId row))"

definition etaRows :: "event_db \<Rightarrow> string \<Rightarrow> eta_row list" where
  "etaRows db plan =
     List.map_filter (joinEtaRow db)
       (sort_by (\<lambda>a b. compare_int (psSequence a) (psSequence b)) (filter (\<lambda>s. psRoutePlanId s = plan) (edPlanStops db)))"

text \<open>\<^verbatim>\<open>new Map(points.map((point) => [point.deliveryStopId, point]))\<close>: the last point of a stop counts.\<close>

definition pointOf :: "stop_point list \<Rightarrow> string \<Rightarrow> stop_point option" where
  "pointOf points stop = List.find (\<lambda>p. spDeliveryStopId p = stop) (rev points)"

definition latestPoints :: "event_db \<Rightarrow> string \<Rightarrow> stop_point list" where
  "latestPoints db plan =
     (case sort_by (\<lambda>a b. compare_int (gcGeneratedAt b) (gcGeneratedAt a)) (filter (\<lambda>c. gcRoutePlanId c = plan) (edCaches db)) of
        [] \<Rightarrow> [] | c # _ \<Rightarrow> readRouteStopPoints (gcStopPoints c))"

definition hydrateRow :: "stop_point list \<Rightarrow> plan_stop \<Rightarrow> plan_stop" where
  "hydrateRow points row =
     (case pointOf points (psDeliveryStopId row) of
        None \<Rightarrow> row
      | Some p \<Rightarrow> row\<lparr>psDistanceFromPreviousMeters := normalizedInteger (spDistanceFromPreviousMeters p),
                       psDurationFromPreviousSeconds := normalizedInteger (spDurationFromPreviousSeconds p)\<rparr>)"

definition cacheMatchesRoute :: "stop_point list \<Rightarrow> eta_row list \<Rightarrow> bool" where
  "cacheMatchesRoute points rows =
     (rows \<noteq> [] \<and> list_all (\<lambda>r. map_option spSequence (pointOf points (psDeliveryStopId (erRow r)))
        = Some (real_of_int (psSequence (erRow r)))) rows)"

definition loadRouteEtaStops :: "event_db \<Rightarrow> string \<Rightarrow> bool \<Rightarrow> event_db \<times> eta_stop list" where
  "loadRouteEtaStops db plan hydrate =
     (let rows = etaRows db plan; points = latestPoints db plan
      in if list_all (\<lambda>r. psDurationFromPreviousSeconds (erRow r) \<noteq> None) rows \<or> \<not> hydrate \<or> \<not> cacheMatchesRoute points rows
         then (db, map toEtaStop rows)
         else (db\<lparr>edPlanStops := map (\<lambda>s. if psRoutePlanId s = plan then hydrateRow points s else s) (edPlanStops db)\<rparr>,
               map (\<lambda>r. toEtaStop (r\<lparr>erRow := hydrateRow points (erRow r)\<rparr>)) rows))"

definition applyEtaUpdateToStops :: "eta_stop list \<Rightarrow> eta_update \<Rightarrow> eta_stop list" where
  "applyEtaUpdateToStops stops update =
     map (\<lambda>s. case List.find (\<lambda>u. updDeliveryStopId u = etaDeliveryStopId s) (rev (updatedStops update)) of
                None \<Rightarrow> s
              | Some u \<Rightarrow> s\<lparr>etaCalculatedAt := Some (etaUpdateCalculatedAt update), estimatedArrivalAt := updEstimatedArrivalAt u\<rparr>) stops"

fun triggerText :: "eta_trigger \<Rightarrow> string" where
  "triggerText ROUTE_STARTED = ''ROUTE_STARTED''"
| "triggerText STOP_ARRIVED = ''STOP_ARRIVED''"
| "triggerText STOP_DELIVERED = ''STOP_DELIVERED''"
| "triggerText STOP_FAILED = ''STOP_FAILED''"
| "triggerText PICKUP_COMPLETED = ''PICKUP_COMPLETED''"

definition writeEta :: "eta_update \<Rightarrow> eta_stop_update \<Rightarrow> plan_stop \<Rightarrow> plan_stop" where
  "writeEta update u row =
     (let failed = updEstimatedArrivalAt u = None
      in row\<lparr>psEstimatedArrivalAt := updEstimatedArrivalAt u,
             psEtaStatus := (if failed then ''FAILED'' else ''READY''),
             psEtaInputRouteVersionId := inputRouteVersionId update,
             psEtaSource := Some (triggerText (etaSource update)),
             psEtaCalculatedAt := Some (etaUpdateCalculatedAt update),
             psEtaFailureCode := (if failed then map_option fst (etaFailure update) else None),
             psEtaFailureMessage := (if failed then map_option snd (etaFailure update) else None)\<rparr>)"

definition etaWritable :: "event_db \<Rightarrow> string \<Rightarrow> string \<Rightarrow> string option \<Rightarrow> string \<Rightarrow> plan_stop \<Rightarrow> bool" where
  "etaWritable db shop plan version stop row =
     (psShopId row = shop \<and> psRoutePlanId row = plan \<and> psDeliveryStopId row = stop
      \<and> (case version of
           None \<Rightarrow> psEtaInputRouteVersionId row = None
             \<and> \<not> list_ex (\<lambda>v. vrShopId v = psShopId row \<and> chRoutePlanId v = psRoutePlanId row \<and> chStatus v = ''CURRENT'') (edVersions db)
         | Some k \<Rightarrow> (psEtaInputRouteVersionId row = None \<or> psEtaInputRouteVersionId row = Some k)
             \<and> list_ex (\<lambda>v. chId v = k \<and> vrShopId v = psShopId row \<and> chRoutePlanId v = psRoutePlanId row
                  \<and> chStatus v = ''CURRENT'') (edVersions db)))"

fun persistOwnedEtas :: "string \<Rightarrow> string \<Rightarrow> eta_update \<Rightarrow> eta_stop_update list \<Rightarrow> event_db \<Rightarrow> event_db outcome" where
  "persistOwnedEtas shop plan update [] db = Inr db"
| "persistOwnedEtas shop plan update (u # us) db =
     (let hit = etaWritable db shop plan (inputRouteVersionId update) (updDeliveryStopId u)
      in refuse (\<not> list_ex hit (edPlanStops db)) EventEtaStaleConflict
           (persistOwnedEtas shop plan update us
              (db\<lparr>edPlanStops := map (\<lambda>s. if hit s then writeEta update u s else s) (edPlanStops db)\<rparr>)))"

definition persistEtaUpdate :: "runtime \<Rightarrow> event_db \<Rightarrow> string \<Rightarrow> string \<Rightarrow> eta_update \<Rightarrow> event_db outcome" where
  "persistEtaUpdate rt db shop plan update =
     (if rtEtaOwnershipColumns rt then persistOwnedEtas shop plan update (updatedStops update) db
      else Inr (db\<lparr>edPlanStops := map (\<lambda>s.
             case List.find (\<lambda>u. updDeliveryStopId u = psDeliveryStopId s \<and> psRoutePlanId s = plan) (updatedStops update) of
               None \<Rightarrow> s | Some u \<Rightarrow> s\<lparr>psEstimatedArrivalAt := updEstimatedArrivalAt u\<rparr>) (edPlanStops db)\<rparr>))"

definition effectiveOccurredAt :: "int \<Rightarrow> int \<Rightarrow> int" where
  "effectiveOccurredAt occurredAt received = (if occurredAt > received then received else occurredAt)"

definition versionsOfEvent :: "runtime \<Rightarrow> event_db \<Rightarrow> driver_input \<Rightarrow> string \<Rightarrow> string option \<Rightarrow> driver_event \<Rightarrow> bool" where
  "versionsOfEvent rt db inp plan version e =
     (\<not> rtRouteVersionColumn rt
      \<or> (case version of
           None \<Rightarrow> evRouteVersionId e = None
         | Some v \<Rightarrow> \<exists>w \<in> set (v # loadCompatibleReorderVersions db (eiDriverId inp) plan (eiShopId inp) version).
             evRouteVersionId e = Some w))"

definition routeEvents :: "event_db \<Rightarrow> driver_input \<Rightarrow> string \<Rightarrow> driver_event list" where
  "routeEvents db inp plan =
     filter (\<lambda>e. evDriverId e = eiDriverId inp \<and> evRoutePlanId e = Some plan \<and> evShopId e = eiShopId inp) (edEvents db)"

definition loadPickupCompletedAt :: "runtime \<Rightarrow> event_db \<Rightarrow> driver_input \<Rightarrow> string \<Rightarrow> string option \<Rightarrow> int option" where
  "loadPickupCompletedAt rt db inp plan version =
     map_option (\<lambda>e. effectiveOccurredAt (evOccurredAt e) (evCreatedAt e))
       (earliest evCreatedAt
          (filter (\<lambda>e. evEventType e = ''PICKUP_COMPLETED'' \<and> versionsOfEvent rt db inp plan version e) (routeEvents db inp plan)))"

definition loadStopArrivalAt :: "runtime \<Rightarrow> event_db \<Rightarrow> driver_input \<Rightarrow> string \<Rightarrow> string \<Rightarrow> string option \<Rightarrow> int option" where
  "loadStopArrivalAt rt db inp plan stop version =
     map_option (\<lambda>e. effectiveOccurredAt (evOccurredAt e) (evCreatedAt e))
       (earliest evOccurredAt
          (filter (\<lambda>e. evEventType e = ''STOP_ARRIVED'' \<and> evDeliveryStopId e = Some stop
             \<and> versionsOfEvent rt db inp plan version e) (routeEvents db inp plan)))"

definition latestProgress :: "driver_event \<Rightarrow> driver_event \<Rightarrow> int" where
  "latestProgress a b =
     or_else (compare_int (min (evOccurredAt b) (evCreatedAt b)) (min (evOccurredAt a) (evCreatedAt a)))
       (or_else (compare_int (evCreatedAt b) (evCreatedAt a)) (compare_text (evId b) (evId a)))"

definition isCurrentEtaProgressEvent ::
  "runtime \<Rightarrow> event_db \<Rightarrow> driver_input \<Rightarrow> string \<Rightarrow> string option \<Rightarrow> string \<Rightarrow> bool" where
  "isCurrentEtaProgressEvent rt db inp plan version eventId =
     (case sort_by latestProgress
        (filter (\<lambda>e. evEventType e \<in> set [''ROUTE_STARTED'', ''PICKUP_COMPLETED'', ''STOP_ARRIVED'', ''STOP_DELIVERED'']
           \<and> versionsOfEvent rt db inp plan version e) (routeEvents db inp plan)) of
        [] \<Rightarrow> False | e # _ \<Rightarrow> evId e = eventId)"

definition isEtaSnapshotRecoveryEvent :: "string \<Rightarrow> bool" where
  "isEtaSnapshotRecoveryEvent type =
     (type \<in> set [''PICKUP_COMPLETED'', ''STOP_ARRIVED'', ''STOP_DELIVERED'', ''STOP_FAILED''])"

definition buildCurrentEtaSnapshotForDuplicate :: "event_db \<Rightarrow> driver_input \<Rightarrow> eta_snapshot outcome" where
  "buildCurrentEtaSnapshotForDuplicate db inp =
     attempt (requireRoutePlanId inp) (\<lambda>plan.
       (let pickup = earliest evCreatedAt (filter (\<lambda>e. evEventType e = ''PICKUP_COMPLETED'') (routeEvents db inp plan))
        in Inr (buildDriverRouteEtaSnapshot
             (map_option (\<lambda>e. effectiveOccurredAt (evOccurredAt e) (evCreatedAt e)) pickup)
             (snd (loadRouteEtaStops db plan False)))))"

section \<open>Effects of an event\<close>

type_synonym eta_answer = "eta_snapshot option \<times> eta_update option"

text \<open>The status trigger of the stop table clears the candidate that owns a result.\<close>

definition setStopStatus :: "stop_status \<Rightarrow> event_stop \<Rightarrow> event_stop" where
  "setStopStatus st s = s\<lparr>srStatus := st, esCandidateId := None\<rparr>"

definition stopOnOwnedRoute :: "event_db \<Rightarrow> driver_input \<Rightarrow> string \<Rightarrow> event_stop \<Rightarrow> bool" where
  "stopOnOwnedRoute db inp plan s =
     (srShopId s = eiShopId inp
      \<and> list_ex (\<lambda>r. psDeliveryStopId r = srId s \<and> psShopId r = srShopId s \<and> psRoutePlanId r = plan
           \<and> (case planOf db plan (psShopId r) of
                None \<Rightarrow> False | Some p \<Rightarrow> plDriverId p = Some (eiDriverId inp) \<and> plShopId p = eiShopId inp)) (edPlanStops db))"

definition OPEN_STATUSES :: "stop_status list" where
  "OPEN_STATUSES = [PENDING, ASSIGNED, EN_ROUTE, ARRIVED]"

definition arrivable :: "event_db \<Rightarrow> driver_input \<Rightarrow> string \<Rightarrow> string \<Rightarrow> event_stop \<Rightarrow> bool" where
  "arrivable db inp plan stop s = (srId s = stop \<and> stopOnOwnedRoute db inp plan s \<and> srStatus s \<in> set OPEN_STATUSES)"

definition completable :: "event_db \<Rightarrow> driver_input \<Rightarrow> string \<Rightarrow> string \<Rightarrow> stop_status \<Rightarrow> event_stop \<Rightarrow> bool" where
  "completable db inp plan stop target s =
     (srId s = stop \<and> stopOnOwnedRoute db inp plan s
      \<and> (srStatus s \<in> set OPEN_STATUSES \<or> srStatus s = target
         \<or> srStatus s \<in> {DELIVERED, FAILED} \<and> esCandidateId s \<noteq> None))"

definition updateStops :: "(event_stop \<Rightarrow> bool) \<Rightarrow> stop_status \<Rightarrow> event_db \<Rightarrow> event_db outcome" where
  "updateStops hit target db =
     refuse (length (filter hit (edStops db)) \<noteq> 1) EventStopTransitionConflict
       (Inr (db\<lparr>edStops := map (\<lambda>s. if hit s then setStopStatus target s else s) (edStops db)\<rparr>))"

definition etaAnswer :: "int option \<Rightarrow> eta_stop list \<Rightarrow> eta_update \<Rightarrow> eta_answer" where
  "etaAnswer pickup stops update =
     (if pickup = None then None else Some (buildDriverRouteEtaSnapshot pickup (applyEtaUpdateToStops stops update)), Some update)"

definition etaRefusal :: "eta_error \<Rightarrow> event_error" where
  "etaRefusal _ = OtherError"

definition applyArrival ::
  "runtime \<Rightarrow> event_db \<Rightarrow> driver_input \<Rightarrow> int \<Rightarrow> string option \<Rightarrow> string \<Rightarrow> string \<Rightarrow> string \<Rightarrow> (event_db \<times> eta_answer) outcome" where
  "applyArrival rt db inp received version eventId plan stop =
     attempt (updateStops (arrivable db inp plan stop) ARRIVED db) (\<lambda>db1.
     case loadRouteEtaStops db1 plan True of (db2, stops) \<Rightarrow>
     attempt (loadCurrentRouteVersionIdForEta rt db2 plan (eiShopId inp)) (\<lambda>inputVersion.
     if \<not> isCurrentEtaProgressEvent rt db2 inp plan version eventId then Inr (db2, None, None)
     else attempt (orElse etaRefusal (calculateArrivalEtaUpdate stop (eiOccurredAt inp) inputVersion received stops)) (\<lambda>update.
          attempt (persistEtaUpdate rt db2 (eiShopId inp) plan update) (\<lambda>db3.
            Inr (db3, etaAnswer (loadPickupCompletedAt rt db2 inp plan version) stops update)))))"

definition applyStopResult ::
  "runtime \<Rightarrow> event_db \<Rightarrow> driver_input \<Rightarrow> int \<Rightarrow> string option \<Rightarrow> string \<Rightarrow> string \<Rightarrow> string \<Rightarrow> (event_db \<times> eta_answer) outcome" where
  "applyStopResult rt db inp received version eventId plan stop =
     (let target = (if eiEventType inp = ''STOP_DELIVERED'' then DELIVERED else FAILED);
          trigger = (if eiEventType inp = ''STOP_DELIVERED'' then STOP_DELIVERED else STOP_FAILED)
      in attempt (updateStops (completable db inp plan stop target) target db) (\<lambda>db1.
         case loadRouteEtaStops db1 plan True of (db2, stops) \<Rightarrow>
         attempt (loadCurrentRouteVersionIdForEta rt db2 plan (eiShopId inp)) (\<lambda>inputVersion.
         if \<not> isCurrentEtaProgressEvent rt db2 inp plan version eventId then Inr (db2, None, None)
         else attempt (orElse etaRefusal
                (calculateCompletionEtaUpdate (loadStopArrivalAt rt db2 inp plan stop version) stop (eiOccurredAt inp)
                   inputVersion received stops (Some trigger))) (\<lambda>update.
              attempt (persistEtaUpdate rt db2 (eiShopId inp) plan update) (\<lambda>db3.
                Inr (db3, etaAnswer (loadPickupCompletedAt rt db2 inp plan version) stops update))))))"

definition claimed :: "event_db \<Rightarrow> string \<Rightarrow> string \<Rightarrow> event_order \<Rightarrow> bool" where
  "claimed db plan shop q =
     (orShopId q = shop
      \<and> list_ex (\<lambda>d. srOrderId d = orId q \<and> srShopId d = orShopId q
           \<and> list_ex (\<lambda>r. psDeliveryStopId r = srId d \<and> psShopId r = srShopId d \<and> psRoutePlanId r = plan) (edPlanStops db))
           (edStops db))"

definition claimRouteExecutionProjection :: "event_db \<Rightarrow> string \<Rightarrow> string \<Rightarrow> event_db outcome" where
  "claimRouteExecutionProjection db plan shop =
     (let versions = map chId (currentVersions db plan shop)
      in refuse (1 < length versions \<and> list_ex (claimed db plan shop) (edOrders db)) OtherError
           (Inr (db\<lparr>edOrders := map (\<lambda>q. if claimed db plan shop q
               then q\<lparr>eoCurrentRouteVersionId := (case versions of [] \<Rightarrow> None | v # _ \<Rightarrow> Some v)\<rparr> else q) (edOrders db)\<rparr>)))"

definition setPlanStatus :: "(event_plan \<Rightarrow> bool) \<Rightarrow> string \<Rightarrow> int \<Rightarrow> event_db \<Rightarrow> event_db" where
  "setPlanStatus hit status now db =
     db\<lparr>edPlans := map (\<lambda>p. if hit p then p\<lparr>plStatus := status, plUpdatedAt := now\<rparr> else p) (edPlans db)\<rparr>"

definition ownPlan :: "driver_input \<Rightarrow> string \<Rightarrow> event_plan \<Rightarrow> bool" where
  "ownPlan inp plan p = (plDriverId p = Some (eiDriverId inp) \<and> plId p = plan \<and> plShopId p = eiShopId inp)"

definition applyRouteStart ::
  "runtime \<Rightarrow> event_db \<Rightarrow> driver_input \<Rightarrow> moment \<Rightarrow> string option \<Rightarrow> string \<Rightarrow> (event_db \<times> eta_answer) outcome" where
  "applyRouteStart rt db inp mo version plan =
     attempt (claimRouteExecutionProjection db plan (eiShopId inp)) (\<lambda>db1.
     let db2 = setPlanStatus (\<lambda>p. ownPlan inp plan p \<and> \<not> completedRoute db1 p
                   \<and> plStatus p \<in> set ROUTE_READY_COMPATIBILITY_STATUSES) ''IN_PROGRESS'' (moNow mo) db1
     in attempt (loadCurrentRouteVersionIdForEta rt db2 plan (eiShopId inp)) (\<lambda>inputVersion.
        if \<not> isCurrentEtaProgressEvent rt db2 inp plan version (moEventId mo) then Inr (db2, None, None)
        else case loadRouteEtaStops db2 plan True of (db3, stops) \<Rightarrow>
          (let update = calculateRouteStartEtaUpdate (eiOccurredAt inp) inputVersion (moCreatedAt mo) stops
           in attempt (persistEtaUpdate rt db3 (eiShopId inp) plan update) (\<lambda>db4. Inr (db4, None, Some update)))))"

definition applyPickup ::
  "runtime \<Rightarrow> event_db \<Rightarrow> driver_input \<Rightarrow> int \<Rightarrow> string option \<Rightarrow> string \<Rightarrow> string \<Rightarrow> (event_db \<times> eta_answer) outcome" where
  "applyPickup rt db inp received version eventId plan =
     (case loadRouteEtaStops db plan True of (db1, stops) \<Rightarrow>
      attempt (loadCurrentRouteVersionIdForEta rt db1 plan (eiShopId inp)) (\<lambda>inputVersion.
      if \<not> isCurrentEtaProgressEvent rt db1 inp plan version eventId then Inr (db1, None, None)
      else let update = calculatePickupEtaUpdate (eiOccurredAt inp) inputVersion received stops
           in attempt (persistEtaUpdate rt db1 (eiShopId inp) plan update) (\<lambda>db2.
                Inr (db2, etaAnswer (Some (effectiveOccurredAt (eiOccurredAt inp) received)) stops update))))"

definition applyDriverEventStateTransition ::
  "runtime \<Rightarrow> event_db \<Rightarrow> driver_input \<Rightarrow> moment \<Rightarrow> string option \<Rightarrow> (event_db \<times> eta_answer) outcome" where
  "applyDriverEventStateTransition rt db inp mo version =
     (let type = eiEventType inp; received = moCreatedAt mo; eventId = moEventId mo
      in if type = ''STOP_ARRIVED''
         then attempt (requireRoutePlanId inp) (\<lambda>plan. attempt (requireDeliveryStopId inp)
                (applyArrival rt db inp received version eventId plan))
         else if type = ''STOP_DELIVERED'' \<or> type = ''STOP_FAILED''
         then attempt (requireRoutePlanId inp) (\<lambda>plan. attempt (requireDeliveryStopId inp)
                (applyStopResult rt db inp received version eventId plan))
         else if type = ''ROUTE_STARTED''
         then attempt (requireRoutePlanId inp) (applyRouteStart rt db inp mo version)
         else if type = ''PICKUP_COMPLETED''
         then attempt (requireRoutePlanId inp) (applyPickup rt db inp received version eventId)
         else if type = ''ROUTE_COMPLETED''
         then attempt (requireRoutePlanId inp) (\<lambda>plan.
                refuse (length (filter (\<lambda>p. ownPlan inp plan p \<and> plStatus p = ''IN_PROGRESS'') (edPlans db)) \<noteq> 1)
                  EventRouteNotInProgress
                  (Inr (setPlanStatus (\<lambda>p. ownPlan inp plan p \<and> plStatus p = ''IN_PROGRESS'') ''COMPLETED'' (moNow mo) db, None, None)))
         else if type = ''ROUTE_PAUSED''
         then attempt (requireRoutePlanId inp) (\<lambda>plan.
                Inr (setPlanStatus (\<lambda>p. ownPlan inp plan p \<and> plStatus p = ''IN_PROGRESS'') ''READY'' (moNow mo) db, None, None))
         else Inr (db, None, None))"

section \<open>Delivery work\<close>

text \<open>The fields of a published snapshot that are read here.\<close>

definition publishedJson :: "stored \<Rightarrow> json" where
  "publishedJson v =
     (case v of
        Malformed j \<Rightarrow> j
      | Stored sn \<Rightarrow> JObj [(''stops'', JArr (map (\<lambda>s. JObj [(''deliveryStopId'', JStr (lsDeliveryStopId s)),
          (''orderId'', JStr (lsOrderId s)), (''sequence'', JNum (Num (real_of_int (lsSequence s))))]) (snStops sn)))])"

fun memberTexts :: "json list \<Rightarrow> string list option" where
  "memberTexts [] = Some []"
| "memberTexts (stop # stops) =
     (case (jget stop ''deliveryStopId'', jget stop ''orderId'') of
        (JStr d, JStr q) \<Rightarrow> map_option ((#) (d @ '':'' @ q)) (memberTexts stops)
      | _ \<Rightarrow> None)"

definition snapshotMembers :: "json \<Rightarrow> string multiset option" where
  "snapshotMembers snapshot =
     (case jget snapshot ''stops'' of
        JArr stops \<Rightarrow>
          (case memberTexts stops of None \<Rightarrow> None | Some members \<Rightarrow> if distinct members then Some (mset members) else None)
      | _ \<Rightarrow> None)"

definition newestPublication :: "event_db \<Rightarrow> event_plan \<Rightarrow> publication option" where
  "newestPublication db route =
     (case sort_by (\<lambda>a b. or_else (compare_int (pbAssignmentGeneration b) (pbAssignmentGeneration a))
                (compare_int (pbSequence b) (pbSequence a)))
        (filter (\<lambda>p. pbRoutePlanId p = plId route \<and> pbShopId p = plShopId route) (edPublications db)) of
        [] \<Rightarrow> None | p # _ \<Rightarrow> Some p)"

definition completionMembershipSnapshot :: "event_db \<Rightarrow> event_plan \<Rightarrow> version_row \<Rightarrow> json" where
  "completionMembershipSnapshot db route version =
     (case List.find (\<lambda>s. lvRoutePlanId s = plId route \<and> lvShopId s = plShopId route) (edStates db) of
        None \<Rightarrow> vrSnapshot version
      | Some state \<Rightarrow>
          if lvAssignmentGeneration state < plAssignmentGeneration route then vrSnapshot version
          else case newestPublication db route of
                 None \<Rightarrow> JNull
               | Some p \<Rightarrow>
                   if pbId p \<noteq> lvLatestPublicationId state \<or> lvBaselineRouteVersionId state \<noteq> chId version
                      \<or> Some (lvDriverId state) \<noteq> plDriverId route
                      \<or> lvAssignmentGeneration state \<noteq> plAssignmentGeneration route
                      \<or> pbDriverId p \<noteq> lvDriverId state \<or> pbAssignmentGeneration p \<noteq> lvAssignmentGeneration state
                      \<or> snapshotMembers (vrSnapshot version) = None
                      \<or> snapshotMembers (vrSnapshot version) \<noteq> snapshotMembers (publishedJson (pbSnapshot p))
                   then JNull else publishedJson (pbSnapshot p))"

record completion_stop =
  csSequence :: int
  csDeliveryStopId :: string
  csOrderId :: string
  csStatus :: stop_status
  csCurrentRouteVersionId :: "string option"

definition completionStops :: "event_db \<Rightarrow> event_plan \<Rightarrow> completion_stop list" where
  "completionStops db route =
     List.map_filter (\<lambda>row.
         Option.bind (stopOf db (psDeliveryStopId row) (psShopId row)) (\<lambda>stop.
           map_option (\<lambda>order. \<lparr>csSequence = psSequence row, csDeliveryStopId = psDeliveryStopId row, csOrderId = srOrderId stop,
                csStatus = srStatus stop, csCurrentRouteVersionId = eoCurrentRouteVersionId order\<rparr>)
             (orderOf db (srOrderId stop) (srShopId stop))))
       (sort_by (\<lambda>a b. compare_int (psSequence a) (psSequence b))
          (filter (\<lambda>s. psRoutePlanId s = plId route \<and> psShopId s = plShopId route) (edPlanStops db)))"

definition resolvedMember :: "string \<Rightarrow> nat \<Rightarrow> json \<Rightarrow> completion_stop \<Rightarrow> bool" where
  "resolvedMember version index row stop =
     (csSequence stop = int index + 1 \<and> jget row ''sequence'' = JNum (Num (real_of_int (csSequence stop)))
      \<and> jget row ''deliveryStopId'' = JStr (csDeliveryStopId stop) \<and> jget row ''orderId'' = JStr (csOrderId stop)
      \<and> csCurrentRouteVersionId stop = Some version \<and> csStatus stop \<in> set TERMINAL_STOPS)"

definition isResolvedCurrentMembership :: "json \<Rightarrow> string \<Rightarrow> completion_stop list \<Rightarrow> bool" where
  "isResolvedCurrentMembership snapshot version stops =
     (stops \<noteq> [] \<and> jget snapshot ''membershipSchemaVersion'' \<in> {JUndefined, JNum (Num 1)}
      \<and> (case jget snapshot ''stops'' of
           JArr members \<Rightarrow>
             length members = length stops \<and> distinct (map csDeliveryStopId stops) \<and> distinct (map csOrderId stops)
             \<and> list_all (\<lambda>(i, row, stop). resolvedMember version i row stop) (zip [0..<length stops] (zip members stops))
         | _ \<Rightarrow> False))"

definition kfoodDeliveryRoute :: "demo_env \<Rightarrow> event_db \<Rightarrow> event_plan \<Rightarrow> bool" where
  "kfoodDeliveryRoute env db route =
     (case List.find (\<lambda>s. shId s = plShopId route) (edShops db) of
        None \<Rightarrow> False
      | Some shop \<Rightarrow>
          shAppId shop = KFOOD_DELIVERY_APP_ID \<and> shShopDomain shop = KFOOD_DELIVERY_SHOP_DOMAIN
          \<or> (case getPrivateDriverDemoConfig env of
               None \<Rightarrow> False
             | Some (shopId, accountId) \<Rightarrow>
                 plShopId route = shopId \<and> shAppId shop = KFOOD_PRIVATE_DEMO_APP_ID
                 \<and> shShopDomain shop = KFOOD_PRIVATE_DEMO_SHOP_DOMAIN
                 \<and> list_ex (\<lambda>d. Some (drId d) = plDriverId route \<and> drAccountId d = Some accountId) (edDrivers db)))"

record work_completion =
  wcAssignmentGeneration :: int
  wcCompletedAt :: int
  wcNavigationUntil :: int
  wcRouteVersionId :: string

definition markWork :: "event_plan \<Rightarrow> (int \<times> string) option \<Rightarrow> int \<Rightarrow> event_db \<Rightarrow> event_db" where
  "markWork route mark now db =
     db\<lparr>edPlans := map (\<lambda>p.
        if plId p = plId route \<and> plShopId p = plShopId route \<and> plStatus p = ''IN_PROGRESS''
           \<and> plAssignmentGeneration p = plAssignmentGeneration route
        then p\<lparr>plDeliveryWorkCompletedAt := map_option fst mark,
               plDriverNavigationUntil := map_option (\<lambda>(t, _). t + KFOOD_RETURN_NAVIGATION_GRACE_MS) mark,
               plDeliveryWorkCompletedGeneration := map_option (\<lambda>_. plAssignmentGeneration route) mark,
               plDeliveryWorkCompletedVersionId := map_option snd mark, plUpdatedAt := now\<rparr>
        else p) (edPlans db)\<rparr>"

definition hasWorkMark :: "event_plan \<Rightarrow> bool" where
  "hasWorkMark p =
     (plDeliveryWorkCompletedAt p \<noteq> None \<or> plDriverNavigationUntil p \<noteq> None \<or> plDeliveryWorkCompletedGeneration p \<noteq> None
      \<or> plDeliveryWorkCompletedVersionId p \<noteq> None)"

definition reconcileKfoodDeliveryWorkCompletion ::
  "demo_env \<Rightarrow> event_db \<Rightarrow> string \<Rightarrow> string \<Rightarrow> int \<Rightarrow> int \<Rightarrow> bool \<Rightarrow> event_db \<times> work_completion option" where
  "reconcileKfoodDeliveryWorkCompletion env db plan shop now clock allowStart =
     (case List.find (\<lambda>p. plId p = plan \<and> plShopId p = shop \<and> plStatus p = ''IN_PROGRESS'' \<and> kfoodDeliveryRoute env db p) (edPlans db) of
        None \<Rightarrow> (db, None)
      | Some route \<Rightarrow>
          (let version = (case currentVersions db plan shop of [v] \<Rightarrow> Some v | _ \<Rightarrow> None);
               resolved = (case version of None \<Rightarrow> False
                 | Some v \<Rightarrow> isResolvedCurrentMembership (completionMembershipSnapshot db route v) (chId v) (completionStops db route));
               existing = (hasDeliveryWorkCompleted (completionRecord (plan_row.truncate route))
                 \<and> plDeliveryWorkCompletedVersionId route = map_option chId version)
           in case version of
                Some v \<Rightarrow>
                  if \<not> resolved \<or> \<not> existing \<and> \<not> allowStart
                  then (if hasWorkMark route then markWork route None clock db else db, None)
                  else if existing
                  then (db, Some \<lparr>wcAssignmentGeneration = plAssignmentGeneration route,
                                  wcCompletedAt = coalesce_def_value (plDeliveryWorkCompletedAt route) 0,
                                  wcNavigationUntil = coalesce_def_value (plDriverNavigationUntil route) 0,
                                  wcRouteVersionId = chId v\<rparr>)
                  else (markWork route (Some (now, chId v)) clock db,
                        Some \<lparr>wcAssignmentGeneration = plAssignmentGeneration route, wcCompletedAt = now,
                              wcNavigationUntil = now + KFOOD_RETURN_NAVIGATION_GRACE_MS, wcRouteVersionId = chId v\<rparr>)
              | None \<Rightarrow> (if hasWorkMark route then markWork route None clock db else db, None)))"

section \<open>Recording an event\<close>

definition detectStopSequenceDeviation :: "event_db \<Rightarrow> driver_input \<Rightarrow> stop_deviation option outcome" where
  "detectStopSequenceDeviation db inp =
     (if eiEventType inp \<notin> set [''STOP_ARRIVED'', ''STOP_DELIVERED'', ''STOP_FAILED''] then Inr None
      else attempt (requireDeliveryStopId inp) (\<lambda>selectedId.
           attempt (requireRoutePlanId inp) (\<lambda>plan.
             (let routeStops = etaRows db plan;
                  expected = List.find (\<lambda>r. erStatus r \<notin> set TERMINAL_STOPS) routeStops;
                  selected = List.find (\<lambda>r. psDeliveryStopId (erRow r) = selectedId) routeStops
              in case (expected, selected) of
                   (Some x, Some s) \<Rightarrow>
                     Inr (if erStatus s \<in> set TERMINAL_STOPS \<or> psDeliveryStopId (erRow x) = psDeliveryStopId (erRow s) then None
                          else Some \<lparr>sdExpectedDeliveryStopId = psDeliveryStopId (erRow x), sdExpectedSequence = psSequence (erRow x),
                                     sdSelectedDeliveryStopId = psDeliveryStopId (erRow s),
                                     sdSelectedSequence = psSequence (erRow s)\<rparr>)
                 | _ \<Rightarrow> Inr None))))"

fun cashRefusal :: "cash_error \<Rightarrow> event_error" where
  "cashRefusal UNIQUE_CONSTRAINT = UniqueConstraint"
| "cashRefusal RECORD_NOT_FOUND = OtherError"
| "cashRefusal BIGINT_SYNTAX = OtherError"
| "cashRefusal e = CashCompletion e"

definition completionOf :: "driver_input \<Rightarrow> completion_input option outcome" where
  "completionOf inp = orElse cashRefusal (readDriverCompletion (event_input.truncate inp))"

definition replayOf :: "runtime \<Rightarrow> event_db \<Rightarrow> driver_input \<Rightarrow> json option outcome" where
  "replayOf rt db inp =
     orElse cashRefusal (replayDriverCompletion (rtRequestDigest rt) (cashView db) (event_input.truncate inp))"

datatype tx_answer =
    TxResult record_result
  | TxStored json
  | TxRejected completion_evidence

definition duplicateAnswer :: "event_db \<Rightarrow> driver_input \<Rightarrow> driver_event \<Rightarrow> record_result outcome" where
  "duplicateAnswer db inp ev =
     attempt (if isEtaSnapshotRecoveryEvent (eiEventType inp)
              then attempt (buildCurrentEtaSnapshotForDuplicate db inp) (\<lambda>sn. Inr (Some sn)) else Inr None) (\<lambda>snapshot.
       Inr \<lparr>rrDuplicate = True, rrEtaSnapshot = snapshot, rrEtaUpdate = None, rrEventId = evId ev,
            rrTrackingPositionAccepted = True, rrSequenceDeviation = None\<rparr>)"

definition duplicateOf ::
  "event_db \<Rightarrow> driver_input \<Rightarrow> completion_input option \<Rightarrow> (record_result option) outcome" where
  "duplicateOf db inp completion =
     attempt (findMatchingDriverEvent db inp) (\<lambda>known.
       case known of
         None \<Rightarrow> Inr None
       | Some ev \<Rightarrow>
           refuse (completion \<noteq> None) (CashCompletion CASH_COMPLETION_CONFLICT)
             (attempt (duplicateAnswer db inp ev) (\<lambda>r. Inr (Some r))))"

definition uniqueEvent :: "event_db \<Rightarrow> driver_event \<Rightarrow> bool" where
  "uniqueEvent db ev =
     list_all (\<lambda>e. evId e \<noteq> evId ev
        \<and> \<not> (evClientEventId ev \<noteq> None \<and> evDriverId e = evDriverId ev \<and> evClientEventId e = evClientEventId ev)
        \<and> \<not> (evEventType ev = ''PICKUP_COMPLETED'' \<and> evRoutePlanId ev \<noteq> None \<and> evEventType e = ''PICKUP_COMPLETED''
             \<and> evDriverId e = evDriverId ev \<and> evRoutePlanId e = evRoutePlanId ev)) (edEvents db)"

definition createEvent :: "event_db \<Rightarrow> driver_event \<Rightarrow> event_db outcome" where
  "createEvent db ev = refuse (\<not> uniqueEvent db ev) UniqueConstraint (Inr (db\<lparr>edEvents := edEvents db @ [ev]\<rparr>))"

definition createReview :: "event_db \<Rightarrow> completion_review \<Rightarrow> event_db outcome" where
  "createReview db rw =
     refuse (list_ex (\<lambda>q. rwAttemptId rw \<noteq> None \<and> rwAttemptId q = rwAttemptId rw
           \<or> rwDriverEventId rw \<noteq> None \<and> rwDriverEventId q = rwDriverEventId rw) (edReviews db)) UniqueConstraint
       (Inr (db\<lparr>edReviews := edReviews db @ [rw]\<rparr>))"

definition reviewData ::
  "runtime \<Rightarrow> driver_input \<Rightarrow> moment \<Rightarrow> string option \<Rightarrow> string option \<Rightarrow> completion_evidence \<Rightarrow> completion_review" where
  "reviewData rt inp mo attemptId eventId evidence =
     \<lparr>rwAttemptId = attemptId, rwDriverEventId = eventId, rwEvidence = evidence,
      rwRetainedUntil = moNow mo + rtReviewRetentionDays rt * 86400000,
      rwRoutePlanId = coalesce_def_value (eiRoutePlanId inp) [], rwShopId = eiShopId inp\<rparr>"

record attempt_result =
  arCommittedEventId :: "string option"
  arErrorCode :: "string option"
  arFailureStage :: "string option"
  arRetryable :: "bool option"
  arStatus :: string

definition finalizeAttempt :: "event_db \<Rightarrow> string option \<Rightarrow> attempt_result \<Rightarrow> event_db" where
  "finalizeAttempt db attemptId res =
     (case attemptId of
        None \<Rightarrow> db
      | Some k \<Rightarrow>
          db\<lparr>edAttempts := map (\<lambda>a. if atId a = k
               then a\<lparr>atCommittedEventId := arCommittedEventId res, atErrorCode := arErrorCode res,
                      atFailureStage := arFailureStage res, atRetryable := arRetryable res, atStatus := arStatus res\<rparr>
               else a) (edAttempts db)\<rparr>)"

text \<open>The identity columns of the row: those of an ordered event, overridden for a position by those of its route.\<close>

definition eventIdentity ::
  "event_db \<Rightarrow> driver_input \<Rightarrow> string option \<Rightarrow> (int option \<times> int option \<times> string option) outcome" where
  "eventIdentity db inp version =
     attempt (case eiDriverContractVersion inp of
                None \<Rightarrow> Inr (None, None, None)
              | Some contract \<Rightarrow>
                  attempt (requireAssignmentGeneration inp) (\<lambda>generation.
                  attempt (requireExpectedRouteVersionId inp) (\<lambda>expected.
                    Inr (Some (int (digits_val generation)), Some contract, Some expected)))) (\<lambda>(generation, contract, expected).
       Inr (case (if eiEventType inp = ''LOCATION_UPDATED''
                  then Option.bind (eiRoutePlanId inp) (\<lambda>plan. List.find (\<lambda>p. plId p = plan) (edPlans db)) else None) of
              None \<Rightarrow> (generation, contract, expected)
            | Some route \<Rightarrow> (Some (plAssignmentGeneration route), contract, version)))"

definition newEvent ::
  "driver_input \<Rightarrow> moment \<Rightarrow> bool \<Rightarrow> bool \<Rightarrow> completion_evidence option \<Rightarrow> string option
   \<Rightarrow> int option \<times> int option \<times> string option \<Rightarrow> driver_event" where
  "newEvent inp mo deferred accepted evidence version idn =
     (let payload = persistedDriverEventPayload inp evidence
      in \<lparr>evId = moEventId mo, evShopId = eiShopId inp, evDriverId = eiDriverId inp, evRoutePlanId = eiRoutePlanId inp,
          evRouteVersionId = version, evDeliveryStopId = eiDeliveryStopId inp, evClientEventId = eiClientEventId inp,
          evCompletionOwnerAccountId = inCompletionOwnerAccountId inp, evExpectedRouteVersionId = snd (snd idn),
          evAssignmentGeneration = fst idn, evDriverContractVersion = fst (snd idn),
          evEventType = (if deferred then ''NOTE_ADDED'' else eiEventType inp), evOccurredAt = eiOccurredAt inp,
          evLatitude = (if accepted then eiLatitude inp else None), evLongitude = (if accepted then eiLongitude inp else None),
          evPayload =
            (if deferred
             then JObj [(''schema'', JStr ''kfood_return_navigation_completion_ack_v1''),
                        (''requestedEventType'', JStr ''ROUTE_COMPLETED''), (''payload'', payload)]
             else if accepted then payload
             else JObj [(''redacted'', JBool True), (''schema'', JStr ''driver_location_service_window_tombstone_v1'')]),
          evCreatedAt = moCreatedAt mo\<rparr>)"

definition saveCompletion ::
  "runtime \<Rightarrow> event_db \<Rightarrow> driver_input \<Rightarrow> moment \<Rightarrow> (completion_input \<times> order_payment) option \<Rightarrow> record_result
   \<Rightarrow> (event_db \<times> tx_answer) outcome" where
  "saveCompletion rt db inp mo prepared result =
     (case prepared of
        None \<Rightarrow> Inr (db, TxResult result)
      | Some pr \<Rightarrow>
          (case saveDriverCompletion (rtRequestDigest rt) (cashView db) (event_input.truncate inp) pr (moEventId mo) (moCreatedAt mo)
                  (rtResultText rt result) (moReceiptId mo) of
             (_, Inl e) \<Rightarrow> Inl (cashRefusal e)
           | (cash, Inr saved) \<Rightarrow> Inr (db\<lparr>edReceipts := cdReceipts cash\<rparr>, TxStored saved)))"

definition otherWrite :: "runtime \<Rightarrow> bool \<Rightarrow> other_write \<Rightarrow> event_db \<Rightarrow> driver_input \<Rightarrow> string \<Rightarrow> unit outcome" where
  "otherWrite rt called w db inp eventId = (if called then rtOther rt w db inp eventId else Inr ())"

text \<open>The second half of the transaction: the checks have passed, the event is written and applied.\<close>

definition commitEvent ::
  "runtime \<Rightarrow> event_db \<Rightarrow> driver_input \<Rightarrow> moment \<Rightarrow> string option \<Rightarrow> bool \<Rightarrow> completion_evidence option
   \<Rightarrow> (event_db \<times> tx_answer) outcome" where
  "commitEvent rt db inp mo attemptId deferred evidence =
     attempt (orElse cashRefusal (prepareDriverCompletion (cashView db) (event_input.truncate inp))) (\<lambda>prepared.
     attempt (detectStopSequenceDeviation db inp) (\<lambda>deviation.
     attempt (case eiRoutePlanId inp of None \<Rightarrow> Inr None
              | Some plan \<Rightarrow> loadCurrentRouteVersionIdForDriverEvent rt db plan (eiShopId inp)) (\<lambda>version.
     let accepted = trackingPositionAccepted rt db inp in
     attempt (eventIdentity db inp version) (\<lambda>idn.
     attempt (createEvent db (newEvent inp mo deferred accepted evidence version idn)) (\<lambda>db1.
     attempt (case evidence of None \<Rightarrow> Inr db1
              | Some e \<Rightarrow> createReview db1 (reviewData rt inp mo attemptId (Some (moEventId mo)) e)) (\<lambda>db2.
     attempt (otherWrite rt (accepted \<and> eiEventType inp = ''LOCATION_UPDATED'' \<and> eiRoutePlanId inp \<noteq> None)
                TrackingGeometry db2 inp (moEventId mo)) (\<lambda>_.
     attempt (applyDispatchChangeRequestAck db2 inp (moEventId mo) (moCreatedAt mo)) (\<lambda>db3.
     attempt (if deferred then Inr (db3, None, None) else applyDriverEventStateTransition rt db3 inp mo version)
       (\<lambda>(db4, snapshot, update).
     attempt (otherWrite rt (\<not> deferred \<and> eiRoutePlanId inp \<noteq> None
                  \<and> eiEventType inp \<in> set [''ROUTE_COMPLETED'', ''ROUTE_STARTED'', ''PICKUP_COMPLETED''])
                DispatchExecution db4 inp (moEventId mo)) (\<lambda>_.
     attempt (otherWrite rt (eiDeliveryStopId inp \<noteq> None \<and> eiEventType inp \<in> set [''STOP_DELIVERED'', ''STOP_FAILED''])
                StopNotifications db4 inp (moEventId mo)) (\<lambda>_.
     attempt (if eiShopDomain inp = KFOOD_DELIVERY_SHOP_DOMAIN \<and> eiEventType inp \<in> set [''STOP_DELIVERED'', ''STOP_FAILED'']
              then attempt (requireRoutePlanId inp) (\<lambda>plan.
                     Inr (fst (reconcileKfoodDeliveryWorkCompletion (rtEnv rt) db4 plan (eiShopId inp) (moCreatedAt mo) (moNow mo) True)))
              else Inr db4) (\<lambda>db5.
     attempt (otherWrite rt (\<not> deferred) CustomerEmails db5 inp (moEventId mo)) (\<lambda>_.
     saveCompletion rt db5 inp mo prepared
       \<lparr>rrDuplicate = False, rrEtaSnapshot = snapshot, rrEtaUpdate = update, rrEventId = moEventId mo,
        rrTrackingPositionAccepted = accepted, rrSequenceDeviation = deviation\<rparr>)))))))))))))"

text \<open>The third part: the checks under the lock.\<close>

definition checkEvent ::
  "runtime \<Rightarrow> event_db \<Rightarrow> driver_input \<Rightarrow> moment \<Rightarrow> string option \<Rightarrow> (event_db \<times> tx_answer) outcome" where
  "checkEvent rt db inp mo attemptId =
     attempt (validateVersionedOrderedContract rt db inp (moNow mo)) (\<lambda>_.
     attempt (validateDriverEventStateContext rt db inp (moNow mo)) (\<lambda>deferred.
     attempt (validateDriverDeliveryProof db inp) (\<lambda>_.
     attempt (evaluateCompletionInvariant db inp (rtCompletionMode rt)) (\<lambda>evidence.
     if map_option ceDecision evidence = Some REJECTED
     then attempt (createReview
            (finalizeAttempt db attemptId \<lparr>arCommittedEventId = None, arErrorCode = Some ''ROUTE_COMPLETION_INCOMPLETE'',
               arFailureStage = Some ''BUSINESS_VALIDATION'', arRetryable = Some False, arStatus = ''REJECTED''\<rparr>)
            (reviewData rt inp mo attemptId None (the evidence))) (\<lambda>db1. Inr (db1, TxRejected (the evidence)))
     else commitEvent rt db inp mo attemptId deferred evidence))))"

text \<open>What is recorded already: a completion receipt, or an event when events are looked up.\<close>

definition knownAnswer ::
  "runtime \<Rightarrow> event_db \<Rightarrow> driver_input \<Rightarrow> completion_input option \<Rightarrow> bool \<Rightarrow> tx_answer option outcome" where
  "knownAnswer rt db inp completion lookup =
     attempt (replayOf rt db inp) (\<lambda>replay.
       case replay of
         Some stored \<Rightarrow> Inr (Some (TxStored stored))
       | None \<Rightarrow> attempt (if lookup then duplicateOf db inp completion else Inr None) (\<lambda>known. Inr (map_option TxResult known)))"

definition recheckedEvent :: "driver_input \<Rightarrow> bool" where
  "recheckedEvent inp =
     (eiShopDomain inp = KFOOD_DELIVERY_SHOP_DOMAIN
      \<and> eiEventType inp \<in> set [''STOP_DELIVERED'', ''STOP_FAILED'', ''ROUTE_COMPLETED'', ''ROUTE_PAUSED''])"

text \<open>
  The transaction. Its first reads precede the lock of the route and see \<open>early\<close>, an earlier state of the tables; what
  follows sees the tables as they are under the lock.
\<close>

definition recordInTransaction ::
  "runtime \<Rightarrow> event_db \<Rightarrow> event_db \<Rightarrow> driver_input \<Rightarrow> moment \<Rightarrow> string option \<Rightarrow> completion_input option
   \<Rightarrow> (event_db \<times> tx_answer) outcome" where
  "recordInTransaction rt early db inp mo attemptId completion =
     attempt (knownAnswer rt early inp completion True) (\<lambda>known.
     case known of Some answer \<Rightarrow> Inr (db, answer) | None \<Rightarrow>
     attempt (lockRoutePlanForSerializedEvent db inp) (\<lambda>_.
     attempt (knownAnswer rt db inp completion (recheckedEvent inp)) (\<lambda>committed.
     case committed of Some answer \<Rightarrow> Inr (db, answer) | None \<Rightarrow> checkEvent rt db inp mo attemptId)))"

section \<open>Attempts\<close>

definition attemptFailureFor :: "event_error \<Rightarrow> attempt_result" where
  "attemptFailureFor e =
     (let refused = (\<lambda>code stage. \<lparr>arCommittedEventId = None, arErrorCode = Some code, arFailureStage = Some stage,
            arRetryable = Some False, arStatus = ''REJECTED''\<rparr>)
      in case e of
           CashCompletion CASH_COMPLETION_INVALID \<Rightarrow> refused ''CASH_COMPLETION_INVALID'' ''BUSINESS_VALIDATION''
         | CashCompletion CASH_RECEIVED_REQUIRED \<Rightarrow> refused ''CASH_RECEIVED_REQUIRED'' ''BUSINESS_VALIDATION''
         | CashCompletion CASH_COMPLETION_CONFLICT \<Rightarrow> refused ''CASH_COMPLETION_CONFLICT'' ''BUSINESS_VALIDATION''
         | DeliveryProofRefused DELIVERY_PROOF_REQUIRED \<Rightarrow> refused ''DELIVERY_PROOF_REQUIRED'' ''BUSINESS_VALIDATION''
         | DeliveryProofRefused DELIVERY_PROOF_INVALID \<Rightarrow> refused ''DELIVERY_PROOF_INVALID'' ''BUSINESS_VALIDATION''
         | DeliveryProofRefused DELIVERY_PROOF_APP_UPDATE_REQUIRED \<Rightarrow>
             refused ''DELIVERY_PROOF_APP_UPDATE_REQUIRED'' ''BUSINESS_VALIDATION''
         | EventRouteVersionMismatch \<Rightarrow> refused ''ROUTE_VERSION_MISMATCH'' ''CONTRACT_VALIDATION''
         | EventAssignmentChanged \<Rightarrow> refused ''ROUTE_ASSIGNMENT_CHANGED'' ''CONTRACT_VALIDATION''
         | EventContext \<Rightarrow> refused ''DRIVER_EVENT_CONTEXT_REJECTED'' ''BUSINESS_VALIDATION''
         | EventScope \<Rightarrow> refused ''DRIVER_EVENT_CONTEXT_REJECTED'' ''BUSINESS_VALIDATION''
         | EventRouteNotInProgress \<Rightarrow> refused ''ROUTE_NOT_IN_PROGRESS'' ''BUSINESS_VALIDATION''
         | EventExecutionConflict _ _ \<Rightarrow> refused ''ROUTE_EXECUTION_CONFLICT'' ''BUSINESS_VALIDATION''
         | EventEtaStaleConflict \<Rightarrow> refused ''ETA_STALE_CONFLICT'' ''BUSINESS_TRANSACTION''
         | EventStopTransitionConflict \<Rightarrow> refused ''STOP_STATE_CONFLICT'' ''BUSINESS_VALIDATION''
         | EventSellerOrderAssignmentChanged \<Rightarrow> refused ''SELLER_ORDER_ASSIGNMENT_CHANGED'' ''BUSINESS_VALIDATION''
         | _ \<Rightarrow> \<lparr>arCommittedEventId = None, arErrorCode = Some ''DRIVER_EVENT_TRANSIENT_FAILURE'',
                 arFailureStage = Some ''BUSINESS_TRANSACTION'', arRetryable = Some True, arStatus = ''FAILED''\<rparr>)"

definition latestAttemptNumber :: "event_attempt list \<Rightarrow> string \<Rightarrow> string \<Rightarrow> int" where
  "latestAttemptNumber rows driver cid =
     fold max (map atAttemptNumber (filter (\<lambda>a. atDriverId a = driver \<and> atClientEventId a = Some cid) rows)) 0"

text \<open>
  \<^verbatim>\<open>createDriverEventAttempt\<close>: the next number is read and then inserted without a lock. \<open>others n\<close> are the rows that other
  requests commit between the two in the try after which \<open>n\<close> tries are left.
\<close>

fun createVersionedAttempt ::
  "nat \<Rightarrow> (nat \<Rightarrow> event_attempt list) \<Rightarrow> event_attempt list \<Rightarrow> event_attempt \<Rightarrow> event_attempt list \<times> event_attempt outcome" where
  "createVersionedAttempt 0 others rows a = (rows, Inl EventAdmissionUnavailable)"
| "createVersionedAttempt (Suc n) others rows a =
     (let number = (case atClientEventId a of None \<Rightarrow> 1 | Some cid \<Rightarrow> latestAttemptNumber rows (atDriverId a) cid + 1);
          row = a\<lparr>atAttemptNumber := number\<rparr>;
          rows1 = rows @ others n
      in if list_ex (\<lambda>q. atId q = atId row
              \<or> atClientEventId row \<noteq> None \<and> atDriverId q = atDriverId row \<and> atClientEventId q = atClientEventId row
                \<and> atAttemptNumber q = number) rows1
         then createVersionedAttempt n others rows1 a
         else (rows1 @ [row], Inr row))"

definition newAttempt :: "runtime \<Rightarrow> driver_input \<Rightarrow> moment \<Rightarrow> string \<Rightarrow> event_attempt outcome" where
  "newAttempt rt inp mo attemptId =
     attempt (requireAssignmentGeneration inp) (\<lambda>generation.
     attempt (requireClientEventId inp) (\<lambda>cid.
     attempt (requireExpectedRouteVersionId inp) (\<lambda>expected.
     attempt (requireRoutePlanId inp) (\<lambda>plan.
       Inr \<lparr>atId = attemptId, atShopId = eiShopId inp, atDriverId = eiDriverId inp, atClientEventId = Some cid,
            atAttemptNumber = 1, atEventType = Some (eiEventType inp), atExpectedRouteVersionId = Some expected,
            atAssignmentGeneration = Some (int (digits_val generation)), atDriverContractVersion = 2,
            atAppVersion = inAppVersion inp, atVersionCode = inVersionCode inp, atOccurredAt = Some (eiOccurredAt inp),
            atRoutePlanId = Some plan, atTransportRequestId = inRequestId inp,
            atRetainedUntil = moNow mo + rtAttemptRetentionDays rt * 86400000, atStatus = ''ACCEPTED'',
            atFailureStage = None, atErrorCode = None, atRetryable = None, atCommittedEventId = None,
            atReconciledAt = None, atReconciliationCode = None\<rparr>))))"

definition admitVersionedAttempt ::
  "runtime \<Rightarrow> event_db \<Rightarrow> driver_input \<Rightarrow> moment \<Rightarrow> string \<Rightarrow> (nat \<Rightarrow> event_attempt list) \<Rightarrow> event_db \<times> string option outcome" where
  "admitVersionedAttempt rt db inp mo attemptId others =
     (case inAttempt inp of
        NoAttempt \<Rightarrow> (db, Inr None)
      | GivenAttempt k \<Rightarrow> (db, Inr (Some k))
      | AdmitAttempt \<Rightarrow>
          if \<not> isVersionedOrderedEvent inp then (db, Inr None)
          else (case newAttempt rt inp mo attemptId of
                  Inl e \<Rightarrow> (db, Inl e)
                | Inr a \<Rightarrow>
                    (case createVersionedAttempt 5 others (edAttempts db) a of
                       (rows, Inl e) \<Rightarrow> (db\<lparr>edAttempts := rows\<rparr>, Inl e)
                     | (rows, Inr row) \<Rightarrow> (db\<lparr>edAttempts := rows\<rparr>, Inr (Some (atId row))))))"

definition reconcileRejectedDriverEventAttempt :: "event_db \<Rightarrow> string \<Rightarrow> string \<Rightarrow> string \<Rightarrow> int \<Rightarrow> event_db \<times> bool" where
  "reconcileRejectedDriverEventAttempt db attemptId code shop now =
     (let hit = (\<lambda>a. atId a = attemptId \<and> atReconciledAt a = None \<and> atShopId a = shop \<and> atStatus a = ''REJECTED'')
      in (db\<lparr>edAttempts := map (\<lambda>a. if hit a then a\<lparr>atReconciledAt := Some now, atReconciliationCode := Some code\<rparr> else a)
             (edAttempts db)\<rparr>,
          length (filter hit (edAttempts db)) = 1))"

section \<open>The repository\<close>

datatype record_answer = Recorded record_result | CompletionStored json

text \<open>An error with the mark \<^verbatim>\<open>DRIVER_EVENT_DEFINITELY_NOT_COMMITTED\<close>.\<close>

type_synonym failure = "event_error \<times> bool"

definition committedEventId :: "record_answer \<Rightarrow> string option" where
  "committedEventId r =
     (case r of Recorded x \<Rightarrow> Some (rrEventId x)
      | CompletionStored j \<Rightarrow> (case jget j ''eventId'' of JStr k \<Rightarrow> Some k | _ \<Rightarrow> None))"

definition isDuplicate :: "record_answer \<Rightarrow> bool" where
  "isDuplicate r = (case r of Recorded x \<Rightarrow> rrDuplicate x | CompletionStored j \<Rightarrow> jget j ''duplicate'' = JBool True)"

definition settledAnswer :: "event_db \<Rightarrow> string option \<Rightarrow> record_answer \<Rightarrow> event_db \<times> (failure + record_answer)" where
  "settledAnswer db attemptId r =
     (finalizeAttempt db attemptId
        \<lparr>arCommittedEventId = committedEventId r, arErrorCode = None, arFailureStage = None, arRetryable = None,
         arStatus = (if isDuplicate r then ''DUPLICATE'' else ''APPLIED'')\<rparr>, Inr r)"

definition failed :: "event_db \<Rightarrow> string option \<Rightarrow> event_error \<Rightarrow> bool \<Rightarrow> event_db \<times> (failure + record_answer)" where
  "failed db attemptId e marked = (finalizeAttempt db attemptId (attemptFailureFor e), Inl (e, marked))"

definition recoverDuplicate ::
  "runtime \<Rightarrow> event_db \<Rightarrow> driver_input \<Rightarrow> completion_input option \<Rightarrow> record_answer option outcome" where
  "recoverDuplicate rt db inp completion =
     attempt (replayOf rt db inp) (\<lambda>replay.
     case replay of
       Some stored \<Rightarrow> Inr (Some (CompletionStored stored))
     | None \<Rightarrow>
         refuse (completion \<noteq> None) (CashCompletion CASH_COMPLETION_CONFLICT)
           (attempt (findDuplicateDriverEventAfterUniqueConstraint db inp) (\<lambda>known.
              case known of
                None \<Rightarrow> Inr None
              | Some ev \<Rightarrow> attempt (duplicateAnswer db inp ev) (\<lambda>r. Inr (Some (Recorded r))))))"

definition recordAdmitted ::
  "runtime \<Rightarrow> event_db \<Rightarrow> event_db \<Rightarrow> driver_input \<Rightarrow> moment \<Rightarrow> string option \<Rightarrow> event_db \<times> (failure + record_answer)" where
  "recordAdmitted rt early db inp mo attemptId =
     (case completionOf inp of
        Inl e \<Rightarrow> failed db attemptId e True
      | Inr completion \<Rightarrow>
          (case recordInTransaction rt early db inp mo attemptId completion of
             Inr (db1, TxResult r) \<Rightarrow> settledAnswer db1 attemptId (Recorded r)
           | Inr (db1, TxStored j) \<Rightarrow> settledAnswer db1 attemptId (CompletionStored j)
           | Inr (db1, TxRejected e) \<Rightarrow> (db1, Inl (RouteCompletionIncomplete e, False))
           | Inl e \<Rightarrow>
               if e \<noteq> UniqueConstraint then failed db attemptId e True
               else (case recoverDuplicate rt db inp completion of
                       Inl recovery \<Rightarrow> failed db attemptId recovery False
                     | Inr (Some r) \<Rightarrow> settledAnswer db attemptId r
                     | Inr None \<Rightarrow> failed db attemptId e True)))"

definition recordDriverEvent ::
  "runtime \<Rightarrow> event_db \<Rightarrow> event_db \<Rightarrow> driver_input \<Rightarrow> moment \<Rightarrow> string \<Rightarrow> (nat \<Rightarrow> event_attempt list)
   \<Rightarrow> event_db \<times> (failure + record_answer)" where
  "recordDriverEvent rt early db inp mo attemptId others =
     (case admitVersionedAttempt rt db inp mo attemptId others of
        (db1, Inl e) \<Rightarrow> (db1, Inl (e, False))
      | (db1, Inr admitted) \<Rightarrow> recordAdmitted rt early db1 inp mo admitted)"

record destination_input =
  diClientEventId :: string
  diCompletionOwnerAccountId :: string
  diDeliveryStopIds :: "string list"
  diDestinationId :: string
  diEventDriverId :: string
  diOccurredAt :: int
  diPayload :: json
  diRoutePlanId :: string
  diShopDomain :: string
  diShopId :: string

definition destinationCompletionPayload :: "destination_input \<Rightarrow> json" where
  "destinationCompletionPayload di =
     JObj (foldl (\<lambda>kvs (k, v). jset k v kvs) (objectEntries (diPayload di))
       [(''clientEventId'', JStr (diClientEventId di)), (''completionOwnerAccountId'', JStr (diCompletionOwnerAccountId di)),
        (''deliveryStopIds'', JArr (map JStr (diDeliveryStopIds di))), (''destinationId'', JStr (diDestinationId di)),
        (''occurredAt'', JStr (toISOString (diOccurredAt di))), (''routePlanId'', JStr (diRoutePlanId di))])"

definition destinationEvent :: "destination_input \<Rightarrow> string \<Rightarrow> driver_input" where
  "destinationEvent di stop =
     \<lparr>eiShopId = diShopId di, eiShopDomain = diShopDomain di, eiDriverId = diEventDriverId di, eiEventType = ''STOP_DELIVERED'',
      eiClientEventId = Some (diClientEventId di @ '':'' @ stop), eiDeliveryStopId = Some stop,
      eiRoutePlanId = Some (diRoutePlanId di), eiAssignmentGeneration = None, eiExpectedRouteVersionId = None,
      eiDriverContractVersion = None, eiLatitude = None, eiLongitude = None, eiOccurredAt = diOccurredAt di,
      eiPayload = destinationCompletionPayload di, inCompletionOwnerAccountId = Some (diCompletionOwnerAccountId di),
      inChangeRequestId = None, inVersionCode = None, inAppVersion = None, inRequestId = None, inAttempt = AdmitAttempt\<rparr>"

fun isKnownDestinationCompletionBusinessRejection :: "event_error \<Rightarrow> bool" where
  "isKnownDestinationCompletionBusinessRejection EventContext = True"
| "isKnownDestinationCompletionBusinessRejection EventRouteNotInProgress = True"
| "isKnownDestinationCompletionBusinessRejection (EventExecutionConflict _ _) = True"
| "isKnownDestinationCompletionBusinessRejection EventEtaStaleConflict = True"
| "isKnownDestinationCompletionBusinessRejection EventScope = True"
| "isKnownDestinationCompletionBusinessRejection EventStopTransitionConflict = True"
| "isKnownDestinationCompletionBusinessRejection _ = False"

text \<open>The loop over the stops; an error carries the mark \<^verbatim>\<open>DRIVER_DESTINATION_COMPLETION_NOT_APPLIED\<close>.\<close>

fun completeStops ::
  "runtime \<Rightarrow> destination_input \<Rightarrow> (nat \<Rightarrow> moment) \<Rightarrow> string list \<Rightarrow> record_answer list \<Rightarrow> event_db
   \<Rightarrow> event_db \<times> (failure + record_answer list)" where
  "completeStops rt di mo [] results db = (db, Inr results)"
| "completeStops rt di mo (stop # stops) results db =
     (case recordDriverEvent rt db db (destinationEvent di stop) (mo (length results)) [] (\<lambda>_. []) of
        (db1, Inl (e, marked)) \<Rightarrow>
          (db1, Inl (e, results = [] \<and> isKnownDestinationCompletionBusinessRejection e \<and> marked))
      | (db1, Inr r) \<Rightarrow> completeStops rt di mo stops (results @ [r]) db1)"

definition eligibleStop :: "event_db \<Rightarrow> destination_input \<Rightarrow> string \<Rightarrow> bool" where
  "eligibleStop db di stop =
     list_ex (\<lambda>s. srId s = stop \<and> srShopId s = diShopId di
        \<and> Option.bind (orderOf db (srOrderId s) (srShopId s)) eoDestinationId = Some (diDestinationId di)
        \<and> list_ex (\<lambda>r. psDeliveryStopId r = srId s \<and> psShopId r = srShopId s \<and> psRoutePlanId r = diRoutePlanId di)
             (edPlanStops db)) (edStops db)"

definition completeDeliveryDestination ::
  "runtime \<Rightarrow> event_db \<Rightarrow> destination_input \<Rightarrow> (nat \<Rightarrow> moment) \<Rightarrow> event_db \<times> (failure + record_answer list)" where
  "completeDeliveryDestination rt db di mo =
     (let ids = diDeliveryStopIds di
      in if ids = [] \<or> \<not> distinct ids \<or> 50 < length ids then (db, Inl (EventContext, True))
         else if list_ex (\<lambda>stop. \<not> eligibleStop db di stop) ids then (db, Inl (EventScope, True))
         else completeStops rt di mo ids [] db)"

section \<open>Histories\<close>

text \<open>
  The tables change by the requests of drivers (with the state the first reads saw, the clocks and identifiers, and what
  other requests commit meanwhile) and by the office.
\<close>

datatype driver_request =
    Record event_db driver_input moment string "nat \<Rightarrow> event_attempt list"
  | Destination destination_input "nat \<Rightarrow> moment"
  | Reconcile string string string int

fun driver_step :: "runtime \<Rightarrow> event_db \<Rightarrow> driver_request \<Rightarrow> event_db" where
  "driver_step rt db (Record early inp mo attemptId others) = fst (recordDriverEvent rt early db inp mo attemptId others)"
| "driver_step rt db (Destination di mo) = fst (completeDeliveryDestination rt db di mo)"
| "driver_step rt db (Reconcile attemptId code shop now) = fst (reconcileRejectedDriverEventAttempt db attemptId code shop now)"

end
