(* ===== verification/DriverEventHistory.thy ===== *)
theory DriverEventHistory
  imports DriverEvents
begin

text \<open>
  What the history of driver requests guarantees: events are only appended and no key is recorded twice, the status of a
  stop only moves forward, a completed route is closed, a refused request leaves no trace but its attempt.
\<close>

section \<open>The tables an operation leaves alone\<close>

lemma optionE:
  "(case v of None \<Rightarrow> Inl e | Some x \<Rightarrow> k x) = Inr y \<Longrightarrow> (\<And>x. v = Some x \<Longrightarrow> k x = Inr y \<Longrightarrow> P) \<Longrightarrow> P"
  by (cases v) auto

lemmas event_elims = attempt3E attempt2E attemptE refuseE optionE

type_synonym core_tables = "driver_event list \<times> event_stop list \<times> event_plan list \<times> completion_receipt list"

definition core :: "event_db \<Rightarrow> core_tables" where
  "core db = (edEvents db, edStops db, edPlans db, edReceipts db)"

lemma core_simps [simp]:
  "core (db\<lparr>edPlanStops := a\<rparr>) = core db" "core (db\<lparr>edOrders := b\<rparr>) = core db"
  "core (db\<lparr>edAttempts := d\<rparr>) = core db" "core (db\<lparr>edReviews := e\<rparr>) = core db" "core (db\<lparr>edRequests := f\<rparr>) = core db"
  by (simp_all add: core_def)

lemma core_eq: "core db' = core db \<longleftrightarrow> edEvents db' = edEvents db \<and> edStops db' = edStops db \<and> edPlans db' = edPlans db \<and> edReceipts db' = edReceipts db"
  by (auto simp: core_def)

lemma createReview_core: "createReview db rw = Inr db' \<Longrightarrow> core db' = core db"
  by (auto simp: createReview_def)

lemma loadRouteEtaStops_core: "core (fst (loadRouteEtaStops db plan h)) = core db"
  by (simp add: loadRouteEtaStops_def Let_def)

lemma persistOwnedEtas_core: "persistOwnedEtas shop plan u us db = Inr db' \<Longrightarrow> core db' = core db"
  by (induction us arbitrary: db) (auto simp: Let_def)

lemma persistEtaUpdate_core: "persistEtaUpdate rt db shop plan u = Inr db' \<Longrightarrow> core db' = core db"
  by (auto simp: persistEtaUpdate_def persistOwnedEtas_core split: if_splits)

lemma claim_core: "claimRouteExecutionProjection db plan shop = Inr db' \<Longrightarrow> core db' = core db"
  by (auto simp: claimRouteExecutionProjection_def Let_def)

lemma finalizeAttempt_core [simp]: "core (finalizeAttempt db k r) = core db"
  by (simp add: finalizeAttempt_def split: option.split)

section \<open>Progress of a stop\<close>

definition rank :: "stop_status \<Rightarrow> nat" where
  "rank st = (if st \<in> set TERMINAL_STOPS then 2 else if st = ARRIVED then 1 else 0)"

definition forward :: "event_stop \<Rightarrow> event_stop \<Rightarrow> bool" where
  "forward s s' =
     (srId s' = srId s \<and> srShopId s' = srShopId s \<and> srOrderId s' = srOrderId s \<and> rank (srStatus s) \<le> rank (srStatus s')
      \<and> (srStatus s \<in> {SKIPPED, CANCELLED} \<or> srStatus s \<in> {DELIVERED, FAILED} \<and> esCandidateId s = None
           \<longrightarrow> srStatus s' = srStatus s)
      \<and> (esCandidateId s' = esCandidateId s \<or> esCandidateId s' = None))"

lemma rank_terminal: "rank st = 2 \<longleftrightarrow> st \<in> set TERMINAL_STOPS"
  by (simp add: rank_def)

lemma forward_refl [simp]: "forward s s"
  by (simp add: forward_def)

lemma forward_trans: "forward a b \<Longrightarrow> forward b c \<Longrightarrow> forward a c"
  by (auto simp: forward_def)

lemma forwards_refl [simp]: "list_all2 forward ss ss"
  by (rule list.rel_refl) simp

lemma forwards_trans: "list_all2 forward a b \<Longrightarrow> list_all2 forward b c \<Longrightarrow> list_all2 forward a c"
  using forward_trans by (rule list_all2_trans)

lemma forwards_map: "(\<And>s. s \<in> set ss \<Longrightarrow> forward s (f s)) \<Longrightarrow> list_all2 forward ss (map f ss)"
  by (simp add: list.rel_map list.rel_refl_strong)

lemma updateStops_forward:
  assumes "updateStops hit target db = Inr db'"
    and "\<And>s. hit s \<Longrightarrow> rank (srStatus s) \<le> rank target"
    and "\<And>s. hit s \<Longrightarrow> srStatus s \<in> set TERMINAL_STOPS \<Longrightarrow>
      srStatus s = target \<or> srStatus s \<in> {DELIVERED, FAILED} \<and> esCandidateId s \<noteq> None"
  shows "edEvents db' = edEvents db \<and> edPlans db' = edPlans db \<and> edReceipts db' = edReceipts db \<and> list_all2 forward (edStops db) (edStops db')"
proof -
  have db': "db' = db\<lparr>edStops := map (\<lambda>s. if hit s then setStopStatus target s else s) (edStops db)\<rparr>"
    using assms(1) by (auto simp: updateStops_def)
  have "forward s (setStopStatus target s)" if "hit s" for s
    using assms(2,3) [OF that] by (auto simp: forward_def setStopStatus_def TERMINAL_STOPS_def)
  then show ?thesis unfolding db' by (auto intro!: forwards_map)
qed

lemma applyChange_core:
  assumes "applyChange db shop plan q = Inr db'"
  shows "edEvents db' = edEvents db \<and> edPlans db' = edPlans db \<and> edReceipts db' = edReceipts db \<and> list_all2 forward (edStops db) (edStops db')"
proof (cases "rqType q = ''TIME_CONSTRAINT_CHANGE''")
  case True
  then have "db' = db\<lparr>edStops := map (\<lambda>s. if srId s = rqDeliveryStopId q \<and> srShopId s = shop
      then s\<lparr>srTimeWindowEnd := rqTimeWindowEnd q, srTimeWindowStart := rqTimeWindowStart q\<rparr> else s) (edStops db)\<rparr>"
    using assms by (auto simp: applyChange_def)
  then show ?thesis by (auto intro!: forwards_map simp: forward_def)
next
  case False
  then have "db' = db" using assms by (auto simp: applyChange_def split: if_splits)
  then show ?thesis by simp
qed

lemma applyDispatchChangeRequestAck_core:
  assumes "applyDispatchChangeRequestAck db inp k t = Inr db'"
  shows "edEvents db' = edEvents db \<and> edPlans db' = edPlans db \<and> edReceipts db' = edReceipts db \<and> list_all2 forward (edStops db) (edStops db')"
proof (cases "eiEventType inp = ''DISPATCH_CHANGE_ACKNOWLEDGED''")
  case True
  have "\<exists>plan q db1. applyChange db (eiShopId inp) plan q = Inr db1 \<and> core db' = core db1"
    using assms True unfolding applyDispatchChangeRequestAck_def
    by (simp only: not_True_eq_False simp_thms if_False) (elim event_elims, force)
  then show ?thesis by (auto simp: core_eq dest: applyChange_core)
qed (use assms in \<open>simp add: applyDispatchChangeRequestAck_def\<close>)

section \<open>The effect of an event\<close>

definition spares :: "string \<Rightarrow> string \<Rightarrow> event_plan \<Rightarrow> event_plan \<Rightarrow> bool" where
  "spares plan shop p p' =
     (plId p' = plId p \<and> plShopId p' = plShopId p \<and> plDriverId p' = plDriverId p
      \<and> plAssignmentGeneration p' = plAssignmentGeneration p
      \<and> (plStatus p \<notin> set ROUTE_ACTIVE_COMPATIBILITY_STATUSES \<longrightarrow> plStatus p' = plStatus p)
      \<and> (\<not> (plId p = plan \<and> plShopId p = shop) \<longrightarrow> p' = p))"

definition effect :: "string \<Rightarrow> string \<Rightarrow> event_db \<Rightarrow> event_db \<Rightarrow> bool" where
  "effect plan shop db db' =
     (edEvents db' = edEvents db \<and> edReceipts db' = edReceipts db \<and> list_all2 forward (edStops db) (edStops db')
      \<and> list_all2 (spares plan shop) (edPlans db) (edPlans db'))"

lemma spares_trans: "spares plan shop a b \<Longrightarrow> spares plan shop b c \<Longrightarrow> spares plan shop a c"
  by (auto simp: spares_def)

lemma effect_of_core: "core db' = core db \<Longrightarrow> effect plan shop db db'"
  by (simp add: effect_def core_eq list.rel_refl spares_def)

lemma effect_trans: "effect plan shop a b \<Longrightarrow> effect plan shop b c \<Longrightarrow> effect plan shop a c"
  unfolding effect_def by (auto intro: forwards_trans list_all2_trans [of "spares plan shop", OF spares_trans])

lemma effect_core: "effect plan shop a b \<Longrightarrow> core c = core b \<Longrightarrow> effect plan shop a c"
  by (simp add: effect_def core_eq)

lemma effect_stops:
  "edEvents db' = edEvents db \<and> edPlans db' = edPlans db \<and> edReceipts db' = edReceipts db \<and> list_all2 forward (edStops db) (edStops db') \<Longrightarrow> effect plan shop db db'"
  by (simp add: effect_def list.rel_refl spares_def)

lemma setPlanStatus_effect:
  "(\<And>p. hit p \<Longrightarrow> plId p = plan \<and> plShopId p = shop \<and> plStatus p \<in> set ROUTE_ACTIVE_COMPATIBILITY_STATUSES)
   \<Longrightarrow> effect plan shop db (setPlanStatus hit st t db)"
  by (auto simp: effect_def setPlanStatus_def list.rel_map spares_def intro!: list.rel_refl_strong)

lemma markWork_effect: "effect (plId route) (plShopId route) db (markWork route m t db)"
  by (auto simp: effect_def markWork_def list.rel_map spares_def intro!: list.rel_refl_strong)

lemma reconcile_effect:
  "effect plan shop db (fst (reconcileKfoodDeliveryWorkCompletion env db plan shop now clock allow))"
proof (cases "List.find (\<lambda>p. plId p = plan \<and> plShopId p = shop \<and> plStatus p = ''IN_PROGRESS'' \<and> kfoodDeliveryRoute env db p) (edPlans db)")
  case (Some route)
  then have keys: "plId route = plan" "plShopId route = shop" by (auto simp: find_Some_iff)
  have "effect plan shop db (markWork route m t db)" for m t using markWork_effect [of route] by (simp add: keys)
  then show ?thesis
    using effect_of_core [of db db plan shop]
    by (simp add: reconcileKfoodDeliveryWorkCompletion_def Some Let_def split: option.split)
qed (simp add: reconcileKfoodDeliveryWorkCompletion_def effect_of_core)

lemma arrival_updates:
  assumes "updateStops (arrivable db inp plan stop) ARRIVED db = Inr db'"
  shows "effect p q db db'"
  by (rule effect_stops, rule updateStops_forward [OF assms])
     (auto simp: arrivable_def OPEN_STATUSES_def rank_def TERMINAL_STOPS_def)

lemma completion_updates:
  assumes "updateStops (completable db inp plan stop target) target db = Inr db'" "target \<in> set TERMINAL_STOPS"
  shows "effect p q db db'"
  by (rule effect_stops, rule updateStops_forward [OF assms(1)])
     (use assms(2) in \<open>auto simp: completable_def OPEN_STATUSES_def rank_def TERMINAL_STOPS_def\<close>)

lemma ifE: "(if b then x else y) = z \<Longrightarrow> (b \<Longrightarrow> x = z \<Longrightarrow> P) \<Longrightarrow> (\<not> b \<Longrightarrow> y = z \<Longrightarrow> P) \<Longrightarrow> P"
  by (cases b) auto

lemma loadE:
  "(case loadRouteEtaStops db plan h of (d, ss) \<Rightarrow> k d ss) = Inr y
   \<Longrightarrow> (\<And>d ss. core d = core db \<Longrightarrow> k d ss = Inr y \<Longrightarrow> P) \<Longrightarrow> P"
  using loadRouteEtaStops_core [of db plan h] by (auto split: prod.splits)

lemma applyArrival_effect:
  assumes "applyArrival rt db inp t version k plan stop = Inr (db', ans)"
  shows "effect plan (eiShopId inp) db db'"
  using assms unfolding applyArrival_def
  by (elim event_elims loadE ifE)
     (auto intro: effect_core [OF arrival_updates] dest!: persistEtaUpdate_core)

lemma applyStopResult_effect:
  assumes "applyStopResult rt db inp t version k plan stop = Inr (db', ans)"
  shows "effect plan (eiShopId inp) db db'"
proof -
  define target where "target = (if eiEventType inp = ''STOP_DELIVERED'' then DELIVERED else FAILED)"
  have target: "target \<in> set TERMINAL_STOPS" by (simp add: target_def TERMINAL_STOPS_def)
  show ?thesis
    using assms unfolding applyStopResult_def Let_def target_def [symmetric]
    by (elim event_elims loadE ifE)
       (auto intro: effect_core [OF completion_updates [OF _ target]] dest!: persistEtaUpdate_core)
qed

lemma applyRouteStart_effect:
  assumes "applyRouteStart rt db inp mo version plan = Inr (db', ans)"
  shows "effect plan (eiShopId inp) db db'"
proof -
  have start: "effect plan (eiShopId inp) db d2"
    if "claimRouteExecutionProjection db plan (eiShopId inp) = Inr d1"
      "d2 = setPlanStatus (\<lambda>p. ownPlan inp plan p \<and> \<not> completedRoute d1 p \<and> plStatus p \<in> set ROUTE_READY_COMPATIBILITY_STATUSES)
              ''IN_PROGRESS'' (moNow mo) d1" for d1 d2
    unfolding that(2)
    by (rule effect_trans [OF effect_of_core [OF claim_core [OF that(1)]]], rule setPlanStatus_effect)
       (auto simp: ownPlan_def ROUTE_ACTIVE_COMPATIBILITY_STATUSES_def ROUTE_READY_COMPATIBILITY_STATUSES_def)
  show ?thesis
    using assms unfolding applyRouteStart_def Let_def
    by (elim event_elims loadE ifE)
       (auto intro: effect_core [OF start [OF _ refl]] dest!: persistEtaUpdate_core)
qed

lemma applyPickup_effect:
  assumes "applyPickup rt db inp t version k plan = Inr (db', ans)"
  shows "effect plan (eiShopId inp) db db'"
  using assms unfolding applyPickup_def Let_def
  by (elim event_elims loadE ifE) (auto intro!: effect_of_core dest!: persistEtaUpdate_core)

definition planIdOf :: "driver_input \<Rightarrow> string" where
  "planIdOf inp = coalesce_def_value (eiRoutePlanId inp) []"

lemma require_plan: "requireRoutePlanId inp = Inr plan \<Longrightarrow> eiRoutePlanId inp = Some plan \<and> planIdOf inp = plan"
  by (auto simp: requireRoutePlanId_def requireText_def planIdOf_def split: option.splits)

lemma require_stop: "requireDeliveryStopId inp = Inr stop \<Longrightarrow> eiDeliveryStopId inp = Some stop"
  by (auto simp: requireDeliveryStopId_def requireText_def split: option.splits)

lemma applyDriverEventStateTransition_effect:
  assumes "applyDriverEventStateTransition rt db inp mo version = Inr (db', ans)"
  shows "effect (planIdOf inp) (eiShopId inp) db db'"
proof -
  have own: "effect (planIdOf inp) (eiShopId inp) db (setPlanStatus (\<lambda>p. ownPlan inp plan p \<and> plStatus p = ''IN_PROGRESS'') st t db)"
    if "requireRoutePlanId inp = Inr plan" for plan st t
    by (rule setPlanStatus_effect) (use require_plan [OF that] in \<open>simp add: ownPlan_def ROUTE_ACTIVE_COMPATIBILITY_STATUSES_def\<close>)
  show ?thesis
    using assms unfolding applyDriverEventStateTransition_def Let_def
    by (elim ifE event_elims)
       (auto simp del: attempt_Inr
          dest: require_plan applyArrival_effect applyStopResult_effect applyRouteStart_effect applyPickup_effect
          intro: own effect_of_core)
qed

text \<open>The last statement writes at most the receipt of the completion.\<close>

lemma saveCompletion_cases:
  assumes "saveCompletion rt db inp mo prepared r = Inr (db', ans)"
  shows "(db' = db \<and> ans = TxResult r)
    \<or> (\<exists>j rc. ans = TxStored j \<and> db' = db\<lparr>edReceipts := edReceipts db @ [rc]\<rparr> \<and> crEventId rc = moEventId mo
         \<and> crClientEventId rc = coalesce_def_value (eiClientEventId inp) [])"
proof (cases prepared)
  case (Some pr)
  obtain c payment where pr: "pr = (c, payment)" by (cases pr)
  show ?thesis using assms unfolding saveCompletion_def Some option.case saveDriverCompletion_def pr prod.case Let_def
    by (auto simp: cashView_def event_input.truncate_def split: option.splits if_splits)
qed (use assms in \<open>simp add: saveCompletion_def\<close>)

lemma commitEvent_effect:
  assumes "commitEvent rt db inp mo attemptId deferred evidence = Inr (db', ans)"
  obtains accepted version idn db5 prepared snapshot update deviation where
    "uniqueEvent db (newEvent inp mo deferred accepted evidence version idn)"
    "effect (planIdOf inp) (eiShopId inp)
       (db\<lparr>edEvents := edEvents db @ [newEvent inp mo deferred accepted evidence version idn]\<rparr>) db5"
    "saveCompletion rt db5 inp mo prepared
       \<lparr>rrDuplicate = False, rrEtaSnapshot = snapshot, rrEtaUpdate = update, rrEventId = moEventId mo,
        rrTrackingPositionAccepted = accepted, rrSequenceDeviation = deviation\<rparr> = Inr (db', ans)"
proof -
  let ?ev = "\<lambda>version idn. newEvent inp mo deferred (trackingPositionAccepted rt db inp) evidence version idn"
  from assms obtain version idn db1 db2 db3 db4 db5 a b prepared d where
    ev: "createEvent db (?ev version idn) = Inr db1"
    and rv: "(case evidence of None \<Rightarrow> Inr db1
        | Some e \<Rightarrow> createReview db1 (reviewData rt inp mo attemptId (Some (moEventId mo)) e)) = Inr db2"
    and ack: "applyDispatchChangeRequestAck db2 inp (moEventId mo) (moCreatedAt mo) = Inr db3"
    and tr: "(if deferred then Inr (db3, None, None) else applyDriverEventStateTransition rt db3 inp mo version) = Inr (db4, a, b)"
    and work: "(if eiShopDomain inp = KFOOD_DELIVERY_SHOP_DOMAIN \<and> eiEventType inp \<in> set [''STOP_DELIVERED'', ''STOP_FAILED'']
        then attempt (requireRoutePlanId inp) (\<lambda>plan.
               Inr (fst (reconcileKfoodDeliveryWorkCompletion (rtEnv rt) db4 plan (eiShopId inp) (moCreatedAt mo) (moNow mo) True)))
        else Inr db4) = Inr db5"
    and save: "saveCompletion rt db5 inp mo prepared
       \<lparr>rrDuplicate = False, rrEtaSnapshot = a, rrEtaUpdate = b, rrEventId = moEventId mo,
        rrTrackingPositionAccepted = trackingPositionAccepted rt db inp, rrSequenceDeviation = d\<rparr> = Inr (db', ans)"
    unfolding commitEvent_def Let_def by (elim event_elims) blast
  let ?plan = "planIdOf inp" and ?shop = "eiShopId inp"
  have u: "uniqueEvent db (?ev version idn)" and db1: "db1 = db\<lparr>edEvents := edEvents db @ [?ev version idn]\<rparr>"
    using ev by (auto simp: createEvent_def)
  have 2: "effect ?plan ?shop db1 db2"
    by (rule effect_of_core) (use rv in \<open>auto dest: createReview_core split: option.splits\<close>)
  have 3: "effect ?plan ?shop db2 db3" using applyDispatchChangeRequestAck_core [OF ack] by (rule effect_stops)
  have 4: "effect ?plan ?shop db3 db4"
    using tr applyDriverEventStateTransition_effect by (cases deferred) (auto intro: effect_of_core)
  have 5: "effect ?plan ?shop db4 db5"
    using work reconcile_effect by (auto split: if_splits dest!: require_plan intro: effect_of_core)
  have "effect ?plan ?shop db1 db5" using 2 3 4 5 by (blast intro: effect_trans)
  then show thesis using that u save unfolding db1 by blast
qed

text \<open>An answer given without a write: what was recorded before.\<close>

fun repeats :: "tx_answer \<Rightarrow> bool" where
  "repeats (TxResult r) = rrDuplicate r"
| "repeats (TxStored j) = (jget j ''duplicate'' = JBool True)"
| "repeats (TxRejected e) = False"

lemma duplicateOf_duplicate: "duplicateOf db inp c = Inr (Some r) \<Longrightarrow> rrDuplicate r"
  by (auto simp: duplicateOf_def duplicateAnswer_def split: option.splits)

lemma replayOf_duplicate: "replayOf rt db inp = Inr (Some j) \<Longrightarrow> jget j ''duplicate'' = JBool True"
  by (auto simp: replayOf_def orElse_def replayDriverCompletion_def markDuplicate_def map_of_jset
      split: sum.splits option.splits if_splits)

lemma knownAnswer_repeats: "knownAnswer rt db inp c b = Inr (Some ans) \<Longrightarrow> repeats ans"
  unfolding knownAnswer_def
  by (elim attemptE) (auto simp: duplicateOf_duplicate replayOf_duplicate split: option.splits if_splits)

lemma transaction_cases:
  assumes "recordInTransaction rt early db inp mo k c = Inr (db', ans)"
  obtains (known) "db' = db" "repeats ans"
  | (checked) "checkEvent rt db inp mo k = Inr (db', ans)"
proof -
  from assms obtain known where e: "knownAnswer rt early inp c True = Inr known"
    and r: "(case known of Some answer \<Rightarrow> Inr (db, answer) | None \<Rightarrow>
     attempt (lockRoutePlanForSerializedEvent db inp) (\<lambda>_.
     attempt (knownAnswer rt db inp c (recheckedEvent inp)) (\<lambda>committed.
     case committed of Some answer \<Rightarrow> Inr (db, answer) | None \<Rightarrow> checkEvent rt db inp mo k))) = Inr (db', ans)"
    unfolding recordInTransaction_def by (rule attemptE)
  show thesis
  proof (cases known)
    case (Some answer)
    then show thesis using r e known knownAnswer_repeats by fastforce
  next
    case None
    with r obtain again where a: "knownAnswer rt db inp c (recheckedEvent inp) = Inr again"
      and r': "(case again of Some answer \<Rightarrow> Inr (db, answer) | None \<Rightarrow> checkEvent rt db inp mo k) = Inr (db', ans)"
      by (auto elim!: attemptE)
    then show thesis using known checked knownAnswer_repeats by (cases again) fastforce+
  qed
qed

lemma check_cases:
  assumes "checkEvent rt db inp mo k = Inr (db', ans)"
  obtains (rejected) e where "ans = TxRejected e" "ceDecision e = REJECTED"
      "evaluateCompletionInvariant db inp (rtCompletionMode rt) = Inr (Some e)"
      "createReview (finalizeAttempt db k \<lparr>arCommittedEventId = None, arErrorCode = Some ''ROUTE_COMPLETION_INCOMPLETE'',
         arFailureStage = Some ''BUSINESS_VALIDATION'', arRetryable = Some False, arStatus = ''REJECTED''\<rparr>)
         (reviewData rt inp mo k None e) = Inr db'"
  | (committed) deferred evidence where "validateVersionedOrderedContract rt db inp (moNow mo) = Inr ()"
      "validateDriverEventStateContext rt db inp (moNow mo) = Inr deferred" "validateDriverDeliveryProof db inp = Inr ()"
      "evaluateCompletionInvariant db inp (rtCompletionMode rt) = Inr evidence"
      "map_option ceDecision evidence \<noteq> Some REJECTED"
      "commitEvent rt db inp mo k deferred evidence = Inr (db', ans)"
proof -
  from assms obtain u deferred w evidence where v: "validateVersionedOrderedContract rt db inp (moNow mo) = Inr u"
    "validateDriverEventStateContext rt db inp (moNow mo) = Inr deferred" "validateDriverDeliveryProof db inp = Inr w"
    and ev: "evaluateCompletionInvariant db inp (rtCompletionMode rt) = Inr evidence"
    and rest: "(if map_option ceDecision evidence = Some REJECTED
     then attempt (createReview
            (finalizeAttempt db k \<lparr>arCommittedEventId = None, arErrorCode = Some ''ROUTE_COMPLETION_INCOMPLETE'',
               arFailureStage = Some ''BUSINESS_VALIDATION'', arRetryable = Some False, arStatus = ''REJECTED''\<rparr>)
            (reviewData rt inp mo k None (the evidence))) (\<lambda>db1. Inr (db1, TxRejected (the evidence)))
     else commitEvent rt db inp mo k deferred evidence) = Inr (db', ans)"
    unfolding checkEvent_def by (elim attemptE)
  show thesis
  proof (cases "map_option ceDecision evidence = Some REJECTED")
    case True
    then show thesis using rest ev by (auto intro: rejected)
  next
    case False
    have "commitEvent rt db inp mo k deferred evidence = Inr (db', ans)" using rest unfolding if_not_P [OF False] .
    then show thesis using False v ev by (intro committed) simp_all
  qed
qed

section \<open>What a request does to the tables\<close>

definition sameTables :: "event_db \<Rightarrow> event_db \<Rightarrow> bool" where
  "sameTables db db' = (db' = db\<lparr>edAttempts := edAttempts db'\<rparr>)"

lemma sameTables_refl [simp]: "sameTables db db"
  by (simp add: sameTables_def)

lemma sameTables_attempts [simp]: "sameTables db (db\<lparr>edAttempts := a\<rparr>)"
  by (simp add: sameTables_def)

lemma sameTables_trans: "sameTables a b \<Longrightarrow> sameTables b c \<Longrightarrow> sameTables a c"
  unfolding sameTables_def by (metis event_db.update_convs(13) event_db.surjective)

lemma sameTables_finalize [simp]: "sameTables db (finalizeAttempt db k r)"
  by (simp add: finalizeAttempt_def split: option.split)

lemma admit_same: "admitVersionedAttempt rt db inp mo aid others = (db1, r) \<Longrightarrow> sameTables db db1"
  by (auto simp: admitVersionedAttempt_def split: attempt_choice.splits if_splits sum.splits prod.splits)

lemma settled_failed: "settledAnswer db k r = (finalizeAttempt db k \<lparr>arCommittedEventId = committedEventId r, arErrorCode = None,
    arFailureStage = None, arRetryable = None, arStatus = (if isDuplicate r then ''DUPLICATE'' else ''APPLIED'')\<rparr>, Inr r)"
  "failed db k e m = (finalizeAttempt db k (attemptFailureFor e), Inl (e, m))"
  by (simp_all add: settledAnswer_def failed_def)

fun answered :: "tx_answer \<Rightarrow> failure + record_answer" where
  "answered (TxResult r) = Inr (Recorded r)"
| "answered (TxStored j) = Inr (CompletionStored j)"
| "answered (TxRejected e) = Inl (RouteCompletionIncomplete e, False)"

text \<open>An answer that reports no new event.\<close>

definition unwritten :: "failure + record_answer \<Rightarrow> bool" where
  "unwritten res = (case res of Inl _ \<Rightarrow> True | Inr (Recorded r) \<Rightarrow> rrDuplicate r
     | Inr (CompletionStored j) \<Rightarrow> jget j ''duplicate'' = JBool True)"

lemma recoverDuplicate_repeats: "recoverDuplicate rt db inp c = Inr (Some r) \<Longrightarrow> unwritten (Inr r)"
  unfolding recoverDuplicate_def
  by (elim attemptE)
     (auto simp: unwritten_def duplicateAnswer_def replayOf_duplicate simp del: jget.simps split: option.splits elim!: attemptE)

lemma recordAdmitted_cases:
  assumes "recordAdmitted rt early db inp mo k = (db', res)"
  obtains (unchanged) "sameTables db db'" "unwritten res"
  | (checked) db1 ans where "checkEvent rt db inp mo k = Inr (db1, ans)" "sameTables db1 db'" "res = answered ans"
proof (cases "completionOf inp")
  case (Inl e)
  then show thesis using assms unchanged by (auto simp: recordAdmitted_def settled_failed unwritten_def)
next
  case c: (Inr c)
  show thesis
  proof (cases "recordInTransaction rt early db inp mo k c")
    case (Inl e)
    have "sameTables db db' \<and> unwritten res"
      using assms unfolding recordAdmitted_def c Inl sum.case
      by (auto simp: settled_failed unwritten_def split: if_splits sum.splits option.splits dest: recoverDuplicate_repeats)
    then show thesis using unchanged by blast
  next
    case (Inr out)
    obtain db1 ans where out: "out = (db1, ans)" by (cases out)
    have res: "sameTables db1 db'" "res = answered ans"
      using assms unfolding recordAdmitted_def c Inr out sum.case by (auto simp: settled_failed split: tx_answer.splits)
    from Inr [unfolded out] show thesis
    proof (cases rule: transaction_cases)
      case known
      then have "unwritten res" unfolding res(2) by (cases ans) (simp_all add: unwritten_def)
      then show thesis using res known unchanged by blast
    next
      case checked
      then show thesis using res that(2) by blast
    qed
  qed
qed

lemma record_cases:
  assumes "recordDriverEvent rt early db inp mo aid others = (db', res)"
  obtains (unchanged) "sameTables db db'" "unwritten res"
  | (checked) db1 k db2 ans where "sameTables db db1" "checkEvent rt db1 inp mo k = Inr (db2, ans)" "sameTables db2 db'"
      "res = answered ans"
proof -
  obtain db1 r where a: "admitVersionedAttempt rt db inp mo aid others = (db1, r)" by (metis surj_pair)
  note same = admit_same [OF a]
  show thesis
  proof (cases r)
    case (Inl e)
    then have "db' = db1" "res = Inl (e, False)" using assms a by (auto simp: recordDriverEvent_def)
    then show thesis using same by (intro unchanged) (simp_all add: unwritten_def)
  next
    case (Inr k)
    then have "recordAdmitted rt early db1 inp mo k = (db', res)" using assms a by (simp add: recordDriverEvent_def)
    then show thesis
      by (cases rule: recordAdmitted_cases) (use same sameTables_trans that in \<open>blast+\<close>)
  qed
qed

section \<open>One write at a time\<close>

definition closedRoute :: "event_db \<Rightarrow> string \<Rightarrow> string \<Rightarrow> bool" where
  "closedRoute db plan shop =
     list_ex (\<lambda>e. evRoutePlanId e = Some plan \<and> evShopId e = shop \<and> evEventType e = ''ROUTE_COMPLETED'') (edEvents db)"

text \<open>A request either leaves these tables alone or appends one event of an open route with its effects.\<close>

inductive driver_write :: "event_db \<Rightarrow> event_db \<Rightarrow> bool" where
  nothing: "core db' = core db \<Longrightarrow> driver_write db db'"
| recorded: "\<not> closedRoute db plan shop \<Longrightarrow> uniqueEvent db ev \<Longrightarrow> evRoutePlanId ev = Some plan \<Longrightarrow> evShopId ev = shop
    \<Longrightarrow> edEvents db' = edEvents db @ [ev] \<Longrightarrow> list_all2 forward (edStops db) (edStops db')
    \<Longrightarrow> list_all2 (spares plan shop) (edPlans db) (edPlans db')
    \<Longrightarrow> edReceipts db' = edReceipts db \<or> (\<exists>rc. crEventId rc = evId ev \<and> edReceipts db' = edReceipts db @ [rc])
    \<Longrightarrow> driver_write db db'"

inductive_cases driver_writeE: "driver_write db db'"

lemma sameTables_core: "sameTables db db' \<Longrightarrow> core db' = core db"
  unfolding sameTables_def by (metis core_simps(3))

lemma ownedActive_open: "ownedActiveRoute db driver plan shop = Some r \<Longrightarrow> \<not> closedRoute db plan shop"
  by (auto simp: ownedActiveRoute_def find_Some_iff completedRoute_def closedRoute_def)

lemma context_open:
  assumes "validateDriverEventStateContext rt db inp now = Inr d"
  shows "eiRoutePlanId inp = Some (planIdOf inp)" "\<not> closedRoute db (planIdOf inp) (eiShopId inp)"
proof -
  from assms obtain plan where plan: "requireRoutePlanId inp = Inr plan"
    and "(\<exists>u. requireStartableOwnedRoutePlan db inp plan = Inr u) \<or> (\<exists>r. requireOwnedRoutePlan db inp plan = Inr r)"
    unfolding validateDriverEventStateContext_def by (elim event_elims ifE) blast+
  then have "\<exists>r. ownedActiveRoute db (eiDriverId inp) plan (eiShopId inp) = Some r"
    by (auto simp: requireStartableOwnedRoutePlan_def requireOwnedRoutePlan_def split: option.splits)
  then show "eiRoutePlanId inp = Some (planIdOf inp)" "\<not> closedRoute db (planIdOf inp) (eiShopId inp)"
    using require_plan [OF plan] ownedActive_open by auto
qed

lemma newEvent_simps [simp]:
  "evId (newEvent inp mo d a e v idn) = moEventId mo" "evShopId (newEvent inp mo d a e v idn) = eiShopId inp"
  "evDriverId (newEvent inp mo d a e v idn) = eiDriverId inp" "evRoutePlanId (newEvent inp mo d a e v idn) = eiRoutePlanId inp"
  "evDeliveryStopId (newEvent inp mo d a e v idn) = eiDeliveryStopId inp"
  "evClientEventId (newEvent inp mo d a e v idn) = eiClientEventId inp"
  "evEventType (newEvent inp mo d a e v idn) = (if d then ''NOTE_ADDED'' else eiEventType inp)"
  "evOccurredAt (newEvent inp mo d a e v idn) = eiOccurredAt inp"
  "evCompletionOwnerAccountId (newEvent inp mo d a e v idn) = inCompletionOwnerAccountId inp"
  by (simp_all add: newEvent_def Let_def)

lemma uniqueEvent_core: "core db' = core db \<Longrightarrow> uniqueEvent db' ev = uniqueEvent db ev"
  by (simp add: uniqueEvent_def core_eq)

lemma closedRoute_core: "core db' = core db \<Longrightarrow> closedRoute db' plan shop = closedRoute db plan shop"
  by (simp add: closedRoute_def core_eq)

lemma commitEvent_write:
  assumes "commitEvent rt db inp mo k deferred evidence = Inr (db', ans)"
    and "validateDriverEventStateContext rt db inp now = Inr d"
  shows "driver_write db db'"
proof -
  from assms(1) obtain accepted version idn db5 prepared snapshot update deviation where
    u: "uniqueEvent db (newEvent inp mo deferred accepted evidence version idn)"
    and ef: "effect (planIdOf inp) (eiShopId inp)
       (db\<lparr>edEvents := edEvents db @ [newEvent inp mo deferred accepted evidence version idn]\<rparr>) db5"
    and save: "saveCompletion rt db5 inp mo prepared
       \<lparr>rrDuplicate = False, rrEtaSnapshot = snapshot, rrEtaUpdate = update, rrEventId = moEventId mo,
        rrTrackingPositionAccepted = accepted, rrSequenceDeviation = deviation\<rparr> = Inr (db', ans)"
    by (rule commitEvent_effect)
  show ?thesis
    by (rule recorded [OF context_open(2) [OF assms(2)] u])
       (use ef saveCompletion_cases [OF save] context_open(1) [OF assms(2)] in \<open>auto simp: effect_def\<close>)
qed

lemma driver_write_core:
  assumes core: "core a = core a'" "core b = core b'" and w: "driver_write a b"
  shows "driver_write a' b'"
  using w
proof cases
  case nothing
  then show ?thesis using core by (auto intro: driver_write.nothing)
next
  case (recorded plan shop ev)
  show ?thesis
    by (rule driver_write.recorded [of a' plan shop ev])
       (use core recorded closedRoute_core [OF core(1)] uniqueEvent_core [OF core(1)] in \<open>auto simp: core_eq\<close>)
qed

lemma record_write: "driver_write db (fst (recordDriverEvent rt early db inp mo aid others))"
proof -
  obtain db' res where r: "recordDriverEvent rt early db inp mo aid others = (db', res)" by (metis surj_pair)
  from r have "driver_write db db'"
  proof (cases rule: record_cases)
    case unchanged
    then show ?thesis by (blast intro: driver_write.nothing sameTables_core)
  next
    case (checked db1 k db2 ans)
    have "driver_write db1 db2"
      using checked(2)
    proof (cases rule: check_cases)
      case (rejected e)
      then show ?thesis by (auto intro!: driver_write.nothing dest: createReview_core)
    next
      case (committed deferred evidence)
      then show ?thesis by (intro commitEvent_write)
    qed
    then show ?thesis by (rule driver_write_core [OF sameTables_core [OF checked(1)] sameTables_core [OF checked(3), symmetric]])
  qed
  then show ?thesis using r by simp
qed

lemma completeStops_writes:
  "completeStops rt di mo stops results db = (db', res) \<Longrightarrow> driver_write\<^sup>*\<^sup>* db db'"
proof (induction stops arbitrary: results db)
  case (Cons stop stops)
  obtain d r where d: "recordDriverEvent rt db db (destinationEvent di stop) (mo (length results)) [] (\<lambda>_. []) = (d, r)"
    by (metis surj_pair)
  then have "driver_write db d" using record_write [of db rt db] by (metis fst_conv)
  moreover have "driver_write\<^sup>*\<^sup>* d db'"
    using Cons.prems d Cons.IH by (cases r) auto
  ultimately show ?case by (rule converse_rtranclp_into_rtranclp)
qed simp

lemma driver_step_writes: "driver_write\<^sup>*\<^sup>* db (driver_step rt db e)"
proof (cases e)
  case (Destination di mo)
  obtain d r where d: "completeDeliveryDestination rt db di mo = (d, r)" by (metis surj_pair)
  then have "driver_write\<^sup>*\<^sup>* db d"
    unfolding completeDeliveryDestination_def Let_def by (auto split: if_splits intro: completeStops_writes)
  then show ?thesis using d Destination by simp
next
  case (Record early inp mo aid others)
  then show ?thesis using record_write by (simp add: r_into_rtranclp)
next
  case (Reconcile aid code shop now)
  then have "core (driver_step rt db e) = core db" by (simp add: reconcileRejectedDriverEventAttempt_def Let_def)
  then show ?thesis by (blast intro: driver_write.nothing)
qed

lemma driver_run_writes: "driver_write\<^sup>*\<^sup>* db (foldl (driver_step rt) db es)"
proof (induction es arbitrary: db)
  case (Cons e es)
  show ?case using rtranclp_trans [OF driver_step_writes Cons.IH] by simp
qed simp

section \<open>A completed route\<close>

definition routeRows :: "event_db \<Rightarrow> string \<times> string \<Rightarrow> (driver_event list \<times> event_plan list) option" where
  "routeRows db k =
     Some (filter (\<lambda>e. evRoutePlanId e = Some (fst k) \<and> evShopId e = snd k) (edEvents db),
           filter (\<lambda>p. plId p = fst k \<and> plShopId p = snd k) (edPlans db))"

definition completedRows :: "driver_event list \<times> event_plan list \<Rightarrow> bool" where
  "completedRows r = list_ex (\<lambda>e. evEventType e = ''ROUTE_COMPLETED'') (fst r)"

lemma completedRows_closed: "routeRows db k = Some r \<Longrightarrow> completedRows r \<longleftrightarrow> closedRoute db (fst k) (snd k)"
  by (auto simp: routeRows_def completedRows_def closedRoute_def list_ex_iff)

lemma spares_filter:
  "list_all2 (spares plan shop) ps ps' \<Longrightarrow> (plan, shop) \<noteq> k
   \<Longrightarrow> filter (\<lambda>p. plId p = fst k \<and> plShopId p = snd k) ps' = filter (\<lambda>p. plId p = fst k \<and> plShopId p = snd k) ps"
  by (induction rule: list_all2_induct) (auto simp: spares_def)

lemma driver_write_closed:
  assumes "driver_write db db'" "routeRows db k = Some r" "completedRows r"
  shows "routeRows db' k = Some r"
  using assms(1)
proof cases
  case nothing
  then show ?thesis using assms(2) by (simp add: routeRows_def core_eq)
next
  case (recorded plan shop ev)
  then have "(plan, shop) \<noteq> k" using completedRows_closed [OF assms(2)] assms(3) by auto
  then show ?thesis using recorded spares_filter [OF recorded(7)] assms(2) by (auto simp: routeRows_def)
qed

lemma driver_writes_closed:
  "driver_write\<^sup>*\<^sup>* db db' \<Longrightarrow> routeRows db k = Some r \<Longrightarrow> completedRows r \<Longrightarrow> routeRows db' k = Some r"
  by (induction rule: rtranclp_induct) (auto intro: driver_write_closed)

interpretation closed: final_rows "driver_step rt" "\<lambda>_. True" routeRows completedRows for rt
  by unfold_locales (auto intro: driver_writes_closed driver_step_writes)


section \<open>Progress of stops and routes\<close>

lemma driver_writes_progress:
  "driver_write\<^sup>*\<^sup>* db db' \<Longrightarrow> list_all2 forward (edStops db) (edStops db')"
proof (induction rule: rtranclp_induct)
  case (step b c)
  from step(2) have "list_all2 forward (edStops b) (edStops c)" by cases (simp_all add: core_eq)
  with step(3) show ?case by (rule forwards_trans)
qed simp

definition advances :: "event_plan \<Rightarrow> event_plan \<Rightarrow> bool" where
  "advances p p' =
     (plId p' = plId p \<and> plShopId p' = plShopId p \<and> plDriverId p' = plDriverId p
      \<and> plAssignmentGeneration p' = plAssignmentGeneration p
      \<and> (plStatus p \<notin> set ROUTE_ACTIVE_COMPATIBILITY_STATUSES \<longrightarrow> plStatus p' = plStatus p))"

lemma advances_trans: "advances a b \<Longrightarrow> advances b c \<Longrightarrow> advances a c"
  by (auto simp: advances_def)

lemma all_advance_trans: "list_all2 advances a b \<Longrightarrow> list_all2 advances b c \<Longrightarrow> list_all2 advances a c"
  using advances_trans by (rule list_all2_trans)

lemma spares_advances: "spares plan shop p p' \<Longrightarrow> advances p p'"
  by (simp add: advances_def spares_def)

lemma driver_writes_advance:
  "driver_write\<^sup>*\<^sup>* db db' \<Longrightarrow> list_all2 advances (edPlans db) (edPlans db')"
proof (induction rule: rtranclp_induct)
  case (step b c)
  from step(2) have "list_all2 advances (edPlans b) (edPlans c)"
  proof cases
    case (recorded plan shop ev)
    show ?thesis by (rule list_all2_mono [OF recorded(7) spares_advances])
  qed (simp add: core_eq list.rel_refl advances_def)
  then show ?case by (rule all_advance_trans [OF step(3)])
qed (simp add: list.rel_refl advances_def)


section \<open>Keys of the events\<close>

definition events_ok :: "event_db \<Rightarrow> bool" where
  "events_ok db =
     (distinct (map evId (edEvents db))
      \<and> distinct (map (\<lambda>e. (evDriverId e, evClientEventId e)) (filter (\<lambda>e. evClientEventId e \<noteq> None) (edEvents db)))
      \<and> distinct (map (\<lambda>e. (evDriverId e, evRoutePlanId e))
           (filter (\<lambda>e. evEventType e = ''PICKUP_COMPLETED'' \<and> evRoutePlanId e \<noteq> None) (edEvents db))))"

lemma distinct_snoc:
  "distinct (map f (filter P xs)) \<Longrightarrow> (\<And>y. P x \<Longrightarrow> y \<in> set xs \<Longrightarrow> P y \<Longrightarrow> f y \<noteq> f x)
   \<Longrightarrow> distinct (map f (filter P (xs @ [x])))"
  by fastforce

lemma driver_write_events:
  assumes "driver_write db db'"
  shows "events_ok db \<Longrightarrow> events_ok db'" "\<exists>new. edEvents db' = edEvents db @ new"
proof -
  from assms show "\<exists>new. edEvents db' = edEvents db @ new" by cases (simp_all add: core_eq)
  assume ok: "events_ok db"
  from assms show "events_ok db'"
  proof cases
    case nothing
    then show ?thesis using ok by (simp add: events_ok_def core_eq)
  next
    case (recorded plan shop ev)
    then have new: "evId e \<noteq> evId ev
        \<and> \<not> (evClientEventId ev \<noteq> None \<and> evDriverId e = evDriverId ev \<and> evClientEventId e = evClientEventId ev)
        \<and> \<not> (evEventType ev = ''PICKUP_COMPLETED'' \<and> evRoutePlanId ev \<noteq> None \<and> evEventType e = ''PICKUP_COMPLETED''
             \<and> evDriverId e = evDriverId ev \<and> evRoutePlanId e = evRoutePlanId ev)" if "e \<in> set (edEvents db)" for e
      using that by (simp add: uniqueEvent_def list_all_iff)
    note ok = ok [unfolded events_ok_def]
    have "distinct (map evId (edEvents db @ [ev]))"
      using ok distinct_snoc [of evId "\<lambda>_. True" "edEvents db" ev] new by simp
    moreover have "distinct (map (\<lambda>e. (evDriverId e, evClientEventId e)) (filter (\<lambda>e. evClientEventId e \<noteq> None) (edEvents db @ [ev])))"
      by (rule distinct_snoc) (use ok new in \<open>blast+\<close>)
    moreover have "distinct (map (\<lambda>e. (evDriverId e, evRoutePlanId e))
           (filter (\<lambda>e. evEventType e = ''PICKUP_COMPLETED'' \<and> evRoutePlanId e \<noteq> None) (edEvents db @ [ev])))"
      by (rule distinct_snoc) (use ok new in \<open>blast+\<close>)
    ultimately show ?thesis unfolding events_ok_def recorded(5) by blast
  qed
qed

lemma driver_writes_events:
  assumes "driver_write\<^sup>*\<^sup>* db db'"
  shows "events_ok db \<Longrightarrow> events_ok db'" "\<exists>new. edEvents db' = edEvents db @ new"
proof -
  from assms show "events_ok db \<Longrightarrow> events_ok db'"
    by (induction rule: rtranclp_induct) (simp_all add: driver_write_events(1))
  from assms show "\<exists>new. edEvents db' = edEvents db @ new"
  proof (induction rule: rtranclp_induct)
    case (step b c)
    from step(3) driver_write_events(2) [OF step(2)] show ?case by (elim exE) simp
  qed simp
qed

interpretation events: invariant_machine "driver_step rt" events_ok for rt
  by unfold_locales (rule driver_writes_events(1) [OF driver_step_writes])


end
