(* ===== verification/DriverEventAnswers.thy ===== *)
theory DriverEventAnswers
  imports DriverEventHistory
begin

text \<open>
  What the answer of a request tells: a refusal or a duplicate left the tables alone, a recorded result of a stop is in its
  row, a completion was checked against the stops, and a retry gets the event it asked about.
\<close>

section \<open>Answers and tables\<close>

lemma recorded_cases:
  assumes "recordDriverEvent rt early db inp mo aid others = (db', Inr (Recorded r))" "\<not> rrDuplicate r"
  obtains db1 k db2 deferred evidence where "sameTables db db1" "sameTables db2 db'"
    "validateVersionedOrderedContract rt db1 inp (moNow mo) = Inr ()"
    "validateDriverEventStateContext rt db1 inp (moNow mo) = Inr deferred" "validateDriverDeliveryProof db1 inp = Inr ()"
    "evaluateCompletionInvariant db1 inp (rtCompletionMode rt) = Inr evidence" "map_option ceDecision evidence \<noteq> Some REJECTED"
    "commitEvent rt db1 inp mo k deferred evidence = Inr (db2, TxResult r)"
  using assms(1)
proof (cases rule: record_cases)
  case unchanged
  then show thesis using assms(2) by (simp add: unwritten_def)
next
  case (checked db1 k db2 ans)
  from checked(4) have ans: "ans = TxResult r" by (cases ans) simp_all
  show thesis
    using checked(2)
  proof (cases rule: check_cases)
    case (rejected e)
    then show thesis using ans by simp
  next
    case (committed deferred evidence)
    then show thesis using checked ans that by blast
  qed
qed

lemma finalize_form: "\<exists>b. \<forall>r. finalizeAttempt db k r = db\<lparr>edAttempts := b r\<rparr>"
proof (cases k)
  case None
  then show ?thesis by (intro exI [of _ "\<lambda>_. edAttempts db"]) (simp add: finalizeAttempt_def)
next
  case (Some a)
  then show ?thesis unfolding finalizeAttempt_def by auto
qed

lemma request_effect:
  assumes "recordDriverEvent rt early db inp mo aid others = (db', res)"
  obtains (unchanged) "sameTables db db'" "unwritten res"
  | (rejected) e k rw where "res = Inl (RouteCompletionIncomplete e, False)" "rw = reviewData rt inp mo k None e"
      "db' = db\<lparr>edAttempts := edAttempts db', edReviews := edReviews db @ [rw]\<rparr>"
  | (written) ev where "edEvents db' = edEvents db @ [ev]" "evId ev = moEventId mo" "evShopId ev = eiShopId inp"
      "evDriverId ev = eiDriverId inp" "evClientEventId ev = eiClientEventId inp" "evRoutePlanId ev = eiRoutePlanId inp"
      "evDeliveryStopId ev = eiDeliveryStopId inp"
      "(\<exists>r. res = Inr (Recorded r) \<and> \<not> rrDuplicate r \<and> rrEventId r = moEventId mo \<and> edReceipts db' = edReceipts db)
       \<or> (\<exists>j rc. res = Inr (CompletionStored j) \<and> edReceipts db' = edReceipts db @ [rc] \<and> crEventId rc = moEventId mo
            \<and> crClientEventId rc = coalesce_def_value (eiClientEventId inp) [])"
  using assms
proof (cases rule: record_cases)
  case unchanged
  then show thesis by (rule that(1))
next
  case (checked db1 k db2 ans)
  show thesis
    using checked(2)
  proof (cases rule: check_cases)
    case (rejected e)
    obtain a b c where "db1 = db\<lparr>edAttempts := a\<rparr>" "db' = db2\<lparr>edAttempts := c\<rparr>"
      and fin: "\<And>r. finalizeAttempt db1 k r = db1\<lparr>edAttempts := b r\<rparr>"
      using checked(1,3) finalize_form [of db1 k] unfolding sameTables_def by metis
    then have d: "db' = db\<lparr>edAttempts := edAttempts db', edReviews := edReviews db @ [reviewData rt inp mo k None e]\<rparr>"
      using rejected(4) by (auto simp: createReview_def)
    show thesis by (rule that(2) [OF _ refl d]) (use checked(4) rejected(1) in simp)
  next
    case (committed deferred evidence)
    from committed(6) show thesis
    proof (rule commitEvent_effect)
      fix accepted version idn db5 prepared snapshot update deviation
      assume ef: "effect (planIdOf inp) (eiShopId inp)
           (db1\<lparr>edEvents := edEvents db1 @ [newEvent inp mo deferred accepted evidence version idn]\<rparr>) db5"
        and save: "saveCompletion rt db5 inp mo prepared
           \<lparr>rrDuplicate = False, rrEtaSnapshot = snapshot, rrEtaUpdate = update, rrEventId = moEventId mo,
            rrTrackingPositionAccepted = accepted, rrSequenceDeviation = deviation\<rparr> = Inr (db2, ans)"
      have t: "edEvents db1 = edEvents db" "edReceipts db1 = edReceipts db" "edEvents db' = edEvents db2" "edReceipts db' = edReceipts db2"
        using sameTables_core [OF checked(1)] sameTables_core [OF checked(3)] by (simp_all add: core_eq)
      show thesis
        by (rule that(3) [of "newEvent inp mo deferred accepted evidence version idn"])
           (use ef saveCompletion_cases [OF save] checked(4) t in \<open>auto simp: effect_def\<close>)
    qed
  qed
qed

text \<open>
  Claim C5: a request is all or nothing. A refused request and a duplicate change nothing but the attempt (a route completion
  that is refused for its open stops leaves one review); a recorded request appends exactly one event that names it, with the
  identifier of the answer; and a completion that is answered appends its event together with its one receipt.
\<close>

theorem request_is_atomic:
  "case recordDriverEvent rt early db inp mo aid others of
     (db', Inl (e, marked)) \<Rightarrow>
       db' = db\<lparr>edAttempts := edAttempts db'\<rparr>
       \<or> (\<exists>evidence k. e = RouteCompletionIncomplete evidence
            \<and> db' = db\<lparr>edAttempts := edAttempts db', edReviews := edReviews db @ [reviewData rt inp mo k None evidence]\<rparr>)
   | (db', Inr (Recorded r)) \<Rightarrow>
       if rrDuplicate r then db' = db\<lparr>edAttempts := edAttempts db'\<rparr>
       else \<exists>ev. edEvents db' = edEvents db @ [ev] \<and> edReceipts db' = edReceipts db \<and> evId ev = rrEventId r
              \<and> evDriverId ev = eiDriverId inp \<and> evClientEventId ev = eiClientEventId inp
              \<and> evRoutePlanId ev = eiRoutePlanId inp \<and> evDeliveryStopId ev = eiDeliveryStopId inp
   | (db', Inr (CompletionStored j)) \<Rightarrow>
       db' = db\<lparr>edAttempts := edAttempts db'\<rparr>
       \<or> (\<exists>ev rc. edEvents db' = edEvents db @ [ev] \<and> edReceipts db' = edReceipts db @ [rc] \<and> crEventId rc = evId ev
            \<and> evDriverId ev = eiDriverId inp \<and> evDeliveryStopId ev = eiDeliveryStopId inp)"
proof -
  obtain db' res where r: "recordDriverEvent rt early db inp mo aid others = (db', res)" by (metis surj_pair)
  from r show ?thesis
  proof (cases rule: request_effect)
    case unchanged
    then show ?thesis unfolding r by (auto simp: sameTables_def unwritten_def split: sum.splits record_answer.splits)
  next
    case (rejected e k rw)
    then show ?thesis unfolding r by auto
  next
    case (written ev)
    then show ?thesis unfolding r by auto
  qed
qed

section \<open>Completing a destination\<close>

lemma unadmitted_refusal:
  assumes "recordDriverEvent rt early db inp mo aid others = (db', Inl (e, True))"
    and "inAttempt inp = AdmitAttempt" "eiDriverContractVersion inp = None"
  shows "db' = db"
proof -
  have "recordAdmitted rt early db inp mo None = (db', Inl (e, True))"
    using assms by (simp add: recordDriverEvent_def admitVersionedAttempt_def isVersionedOrderedEvent_def)
  then show ?thesis unfolding recordAdmitted_def
    by (auto simp: settled_failed finalizeAttempt_def split: sum.splits prod.splits tx_answer.splits option.splits if_splits)
qed

lemma completeStops_later:
  "results \<noteq> [] \<Longrightarrow> completeStops rt di mo stops results db \<noteq> (db', Inl (e, True))"
  by (induction stops arbitrary: results db) (auto split: prod.splits sum.splits)

text \<open>
  Claim C31: a destination that is reported as not applied was not applied. Whatever the stops and the state, when the
  completion of a destination is refused with that mark not a single row of the tables has changed.
\<close>

theorem not_applied_is_not_applied:
  "case completeDeliveryDestination rt db di mo of
     (db', Inl (e, notApplied)) \<Rightarrow> (if notApplied then db' = db else True)
   | (db', Inr results) \<Rightarrow> length results = length (diDeliveryStopIds di)"
proof -
  obtain db' res where r: "completeDeliveryDestination rt db di mo = (db', res)" by (metis surj_pair)
  have len: "completeStops rt di mo stops results d = (db', Inr out) \<Longrightarrow> length out = length results + length stops"
    for stops results d out
    by (induction stops arbitrary: results d) (auto split: prod.splits sum.splits)
  have "db' = db" if "res = Inl (e, True)" for e
  proof (cases "completeStops rt di mo (diDeliveryStopIds di) [] db = (db', res)")
    case True
    then show ?thesis
    proof (cases "diDeliveryStopIds di")
      case (Cons stop stops)
      obtain d a where d: "recordDriverEvent rt db db (destinationEvent di stop) (mo 0) [] (\<lambda>_. []) = (d, a)" by (metis surj_pair)
      show ?thesis
      proof (cases a)
        case (Inl f)
        then show ?thesis using True Cons d that unadmitted_refusal [of rt db db "destinationEvent di stop" "mo 0" "[]" "\<lambda>_. []" d]
          by (cases f) (auto simp: destinationEvent_def)
      next
        case (Inr x)
        then show ?thesis using True Cons d that completeStops_later [of "[x]" rt di mo stops d db' e] by simp
      qed
    qed (use that in simp)
  next
    case False
    then show ?thesis using r that by (auto simp: completeDeliveryDestination_def Let_def split: if_splits)
  qed
  moreover have "length out = length (diDeliveryStopIds di)" if "res = Inr out" for out
    using r that len [of "diDeliveryStopIds di" "[]" db] by (auto simp: completeDeliveryDestination_def Let_def split: if_splits)
  ultimately show ?thesis unfolding r by (auto split: sum.splits)
qed

section \<open>The row of a stop\<close>

definition stopEventTypes :: "string list" where
  "stopEventTypes = [''STOP_ARRIVED'', ''STOP_DELIVERED'', ''STOP_FAILED'']"

definition targetOf :: "string \<Rightarrow> stop_status" where
  "targetOf type = (if type = ''STOP_ARRIVED'' then ARRIVED else if type = ''STOP_DELIVERED'' then DELIVERED else FAILED)"

text \<open>One row changes: the one of the stop.\<close>

definition changesOne :: "driver_input \<Rightarrow> event_db \<Rightarrow> event_db \<Rightarrow> bool" where
  "changesOne inp db db' =
     (\<exists>before s behind. edStops db = before @ s # behind
        \<and> edStops db' = before @ setStopStatus (targetOf (eiEventType inp)) s # behind
        \<and> Some (srId s) = eiDeliveryStopId inp \<and> srShopId s = eiShopId inp)"

lemma filter_one:
  assumes "length (filter hit xs) = 1"
  obtains before x behind where "xs = before @ x # behind" "hit x" "map (\<lambda>y. if hit y then f y else y) xs = before @ f x # behind"
proof -
  from assms obtain x where "filter hit xs = [x]" by (auto simp: length_Suc_conv)
  then obtain before behind where xs: "xs = before @ x # behind" "\<forall>y \<in> set before. \<not> hit y" "hit x" "filter hit behind = []"
    by (auto simp: filter_eq_Cons_iff)
  have same: "map (\<lambda>y. if hit y then f y else y) ys = ys" if "\<forall>y \<in> set ys. \<not> hit y" for ys
    using that by (simp add: map_idI)
  show thesis
    by (rule that [OF xs(1,3)]) (use xs same [of before] same [of behind] in \<open>auto simp: filter_empty_conv\<close>)
qed

lemma updateStops_one:
  assumes "updateStops hit (targetOf (eiEventType inp)) db = Inr db1" "core d = core db1"
    and "\<And>s. hit s \<Longrightarrow> Some (srId s) = eiDeliveryStopId inp \<and> srShopId s = eiShopId inp"
  shows "changesOne inp db d"
proof -
  have one: "length (filter hit (edStops db)) = 1"
    and db1: "edStops db1 = map (\<lambda>s. if hit s then setStopStatus (targetOf (eiEventType inp)) s else s) (edStops db)"
    using assms(1) by (auto simp: updateStops_def)
  have d: "edStops d = edStops db1" using assms(2) by (simp add: core_eq)
  show ?thesis
  proof (rule filter_one [OF one, of "setStopStatus (targetOf (eiEventType inp))"])
    fix before x behind
    assume "edStops db = before @ x # behind" "hit x"
      "map (\<lambda>s. if hit s then setStopStatus (targetOf (eiEventType inp)) s else s) (edStops db)
       = before @ setStopStatus (targetOf (eiEventType inp)) x # behind"
    then show ?thesis unfolding changesOne_def d db1 using assms(3) [of x] by blast
  qed
qed

lemma stopOnOwned_shop: "stopOnOwnedRoute db inp plan s \<Longrightarrow> srShopId s = eiShopId inp"
  by (simp add: stopOnOwnedRoute_def)

lemma applyArrival_one:
  assumes "applyArrival rt db inp t version k plan stop = Inr (db', ans)" "eiEventType inp = ''STOP_ARRIVED''"
    "eiDeliveryStopId inp = Some stop"
  shows "changesOne inp db db'"
proof -
  have t: "ARRIVED = targetOf (eiEventType inp)" using assms(2) by (simp add: targetOf_def)
  obtain d where d: "updateStops (arrivable db inp plan stop) (targetOf (eiEventType inp)) db = Inr d" "core db' = core d"
    using assms(1) unfolding applyArrival_def t [symmetric] by (elim event_elims loadE ifE) (auto dest!: persistEtaUpdate_core)
  show ?thesis
    by (rule updateStops_one [OF d]) (use assms(3) in \<open>auto simp: arrivable_def dest: stopOnOwned_shop\<close>)
qed

lemma applyStopResult_one:
  assumes "applyStopResult rt db inp t version k plan stop = Inr (db', ans)"
    "eiEventType inp = ''STOP_DELIVERED'' \<or> eiEventType inp = ''STOP_FAILED''" "eiDeliveryStopId inp = Some stop"
  shows "changesOne inp db db'"
proof -
  have t: "(if eiEventType inp = ''STOP_DELIVERED'' then DELIVERED else FAILED) = targetOf (eiEventType inp)"
    using assms(2) by (auto simp: targetOf_def)
  obtain d where d: "updateStops (completable db inp plan stop (targetOf (eiEventType inp))) (targetOf (eiEventType inp)) db = Inr d"
      "core db' = core d"
    using assms(1) unfolding applyStopResult_def Let_def t by (elim event_elims loadE ifE) (auto dest!: persistEtaUpdate_core)
  show ?thesis
    by (rule updateStops_one [OF d]) (use assms(3) in \<open>auto simp: completable_def dest: stopOnOwned_shop\<close>)
qed

lemma transition_one:
  assumes "applyDriverEventStateTransition rt db inp mo version = Inr (db', ans)" "eiEventType inp \<in> set stopEventTypes"
  shows "changesOne inp db db'"
proof -
  consider "eiEventType inp = ''STOP_ARRIVED''" | "eiEventType inp = ''STOP_DELIVERED'' \<or> eiEventType inp = ''STOP_FAILED''"
    using assms(2) by (auto simp: stopEventTypes_def)
  then show ?thesis
  proof cases
    case 1
    then show ?thesis using assms(1) unfolding applyDriverEventStateTransition_def Let_def
      by (auto simp del: attempt_Inr elim!: attemptE dest: require_stop intro: applyArrival_one)
  next
    case 2
    then have "attempt (requireRoutePlanId inp) (\<lambda>plan. attempt (requireDeliveryStopId inp)
        (applyStopResult rt db inp (moCreatedAt mo) version (moEventId mo) plan)) = Inr (db', ans)"
      using assms(1) unfolding applyDriverEventStateTransition_def Let_def by auto
    then show ?thesis using 2 by (elim attemptE) (auto dest: require_stop intro: applyStopResult_one)
  qed
qed

lemma reconcile_stops: "edStops (fst (reconcileKfoodDeliveryWorkCompletion env db plan shop now clock allow)) = edStops db"
  by (simp add: reconcileKfoodDeliveryWorkCompletion_def Let_def markWork_def split: option.split)

lemma reconcile_plan_stops:
  "edPlanStops (fst (reconcileKfoodDeliveryWorkCompletion env db plan shop now clock allow)) = edPlanStops db"
  by (simp add: reconcileKfoodDeliveryWorkCompletion_def Let_def markWork_def split: option.split)

text \<open>The parts of a committed event of a stop.\<close>

lemma commit_stop:
  assumes "commitEvent rt db inp mo k deferred evidence = Inr (db', TxResult r)" "eiEventType inp \<in> set stopEventTypes"
    and "validateDriverEventStateContext rt db inp now = Inr deferred"
  obtains db3 db4 version a b where "core db3 = core (db\<lparr>edEvents := edEvents db3\<rparr>)" "edPlanStops db3 = edPlanStops db"
    "\<And>e. e \<in> set (edEvents db3) \<Longrightarrow> evId e = moEventId mo \<Longrightarrow> evEventType e = eiEventType inp"
    "applyDriverEventStateTransition rt db3 inp mo version = Inr (db4, a, b)"
    "edStops db' = edStops db4" "edPlanStops db' = edPlanStops db4" "rrEtaSnapshot r = a" "rrEtaUpdate r = b"
proof -
  have nd: "\<not> deferred" using assms(2,3) unfolding validateDriverEventStateContext_def stopEventTypes_def
    by (auto simp del: attempt_Inr refuse_Inr elim!: event_elims)
  let ?ev = "\<lambda>version idn. newEvent inp mo deferred (trackingPositionAccepted rt db inp) evidence version idn"
  from assms(1) obtain version idn db1 db2 db3 db4 db5 a b prepared d where
    ev: "createEvent db (?ev version idn) = Inr db1"
    and rv: "(case evidence of None \<Rightarrow> Inr db1
        | Some e \<Rightarrow> createReview db1 (reviewData rt inp mo k (Some (moEventId mo)) e)) = Inr db2"
    and ack: "applyDispatchChangeRequestAck db2 inp (moEventId mo) (moCreatedAt mo) = Inr db3"
    and tr: "(if deferred then Inr (db3, None, None) else applyDriverEventStateTransition rt db3 inp mo version) = Inr (db4, a, b)"
    and work: "(if eiShopDomain inp = KFOOD_DELIVERY_SHOP_DOMAIN \<and> eiEventType inp \<in> set [''STOP_DELIVERED'', ''STOP_FAILED'']
        then attempt (requireRoutePlanId inp) (\<lambda>plan.
               Inr (fst (reconcileKfoodDeliveryWorkCompletion (rtEnv rt) db4 plan (eiShopId inp) (moCreatedAt mo) (moNow mo) True)))
        else Inr db4) = Inr db5"
    and save: "saveCompletion rt db5 inp mo prepared
       \<lparr>rrDuplicate = False, rrEtaSnapshot = a, rrEtaUpdate = b, rrEventId = moEventId mo,
        rrTrackingPositionAccepted = trackingPositionAccepted rt db inp, rrSequenceDeviation = d\<rparr> = Inr (db', TxResult r)"
    unfolding commitEvent_def Let_def by (elim event_elims) blast
  have db1: "db1 = db\<lparr>edEvents := edEvents db @ [?ev version idn]\<rparr>" and u: "uniqueEvent db (?ev version idn)"
    using ev by (auto simp: createEvent_def)
  have db2: "core db2 = core db1" "edPlanStops db2 = edPlanStops db1"
    using rv by (auto simp: createReview_def split: option.splits)
  have "eiEventType inp \<noteq> ''DISPATCH_CHANGE_ACKNOWLEDGED''" using assms(2) by (auto simp: stopEventTypes_def)
  then have db3: "db3 = db2" using ack by (simp add: applyDispatchChangeRequestAck_def)
  have e3: "edEvents db3 = edEvents db @ [?ev version idn]" using db1 db2 db3 by (simp add: core_eq)
  have old: "evId e \<noteq> moEventId mo" if "e \<in> set (edEvents db)" for e using u that by (auto simp: uniqueEvent_def list_all_iff)
  show thesis
  proof (rule that [of db3 version db4 a b])
    show "core db3 = core (db\<lparr>edEvents := edEvents db3\<rparr>)" using db1 db2 db3 by (simp add: core_eq)
    show "edPlanStops db3 = edPlanStops db" using db1 db2 db3 by simp
    show "evEventType e = eiEventType inp" if "e \<in> set (edEvents db3)" "evId e = moEventId mo" for e
      using that old nd by (auto simp: e3)
    show "applyDriverEventStateTransition rt db3 inp mo version = Inr (db4, a, b)" using tr nd by simp
    have d': "db' = db5" "rrEtaSnapshot r = a" "rrEtaUpdate r = b" using saveCompletion_cases [OF save] by auto
    have "edStops db5 = edStops db4 \<and> edPlanStops db5 = edPlanStops db4"
      using work reconcile_stops reconcile_plan_stops by (auto split: if_splits)
    then show "edStops db' = edStops db4" "edPlanStops db' = edPlanStops db4" using d' by simp_all
    show "rrEtaSnapshot r = a" "rrEtaUpdate r = b" by (fact d')+
  qed
qed

lemma sameTables_stops:
  assumes "sameTables db db'"
  shows "edStops db' = edStops db" "edPlanStops db' = edPlanStops db" "edVersions db' = edVersions db"
proof -
  have eq: "db' = db\<lparr>edAttempts := edAttempts db'\<rparr>" using assms by (simp add: sameTables_def)
  show "edStops db' = edStops db" by (subst eq) simp
  show "edPlanStops db' = edPlanStops db" by (subst eq) simp
  show "edVersions db' = edVersions db" by (subst eq) simp
qed

lemma recorded_stop:
  assumes "recordDriverEvent rt early db inp mo aid others = (db', Inr (Recorded r))" "\<not> rrDuplicate r"
    "eiEventType inp \<in> set stopEventTypes"
  obtains db3 db4 version where "edStops db3 = edStops db" "edPlanStops db3 = edPlanStops db"
    "\<And>e. e \<in> set (edEvents db3) \<Longrightarrow> evId e = moEventId mo \<Longrightarrow> evEventType e = eiEventType inp"
    "applyDriverEventStateTransition rt db3 inp mo version = Inr (db4, rrEtaSnapshot r, rrEtaUpdate r)"
    "edStops db' = edStops db4" "edPlanStops db' = edPlanStops db4"
  using assms(1,2)
proof (cases rule: recorded_cases)
  case (1 db1 k db2 deferred evidence)
  from 1(8) assms(3) 1(4) show thesis
  proof (rule commit_stop)
    fix db3 db4 version a b
    assume *: "core db3 = core (db1\<lparr>edEvents := edEvents db3\<rparr>)" "edPlanStops db3 = edPlanStops db1"
      "\<And>e. e \<in> set (edEvents db3) \<Longrightarrow> evId e = moEventId mo \<Longrightarrow> evEventType e = eiEventType inp"
      "applyDriverEventStateTransition rt db3 inp mo version = Inr (db4, a, b)"
      "edStops db2 = edStops db4" "edPlanStops db2 = edPlanStops db4" "rrEtaSnapshot r = a" "rrEtaUpdate r = b"
    have "edStops db3 = edStops db" using *(1) sameTables_stops [OF 1(1)] by (simp add: core_eq)
    moreover have "edPlanStops db3 = edPlanStops db" using *(2) sameTables_stops [OF 1(1)] by simp
    moreover have "edStops db' = edStops db4" "edPlanStops db' = edPlanStops db4"
      using *(5,6) sameTables_stops [OF 1(2)] by simp_all
    ultimately show thesis using that *(3,4,7,8) by blast
  qed
qed


lemma not_current_progress:
  assumes "\<And>e. e \<in> set (edEvents db) \<Longrightarrow> evId e = k \<Longrightarrow> evEventType e = ''STOP_FAILED''"
  shows "\<not> isCurrentEtaProgressEvent rt db inp plan version k"
proof
  assume "isCurrentEtaProgressEvent rt db inp plan version k"
  then obtain e es where e: "evId e = k"
    and s: "sort_by latestProgress
        (filter (\<lambda>e. evEventType e \<in> set [''ROUTE_STARTED'', ''PICKUP_COMPLETED'', ''STOP_ARRIVED'', ''STOP_DELIVERED'']
           \<and> versionsOfEvent rt db inp plan version e) (routeEvents db inp plan)) = e # es"
    unfolding isCurrentEtaProgressEvent_def by (auto split: list.splits)
  have "e \<in> set (e # es)" by simp
  then have "e \<in> set (edEvents db)" "evEventType e \<noteq> ''STOP_FAILED''"
    unfolding s [symmetric] by (auto simp: routeEvents_def)
  then show False using assms e by blast
qed

lemma load_keeps_arrivals: "map psEstimatedArrivalAt (edPlanStops (fst (loadRouteEtaStops db plan h)))
    = map psEstimatedArrivalAt (edPlanStops db)"
  by (simp add: loadRouteEtaStops_def Let_def hydrateRow_def split: option.split)

lemma failed_transition:
  assumes "applyDriverEventStateTransition rt db inp mo version = Inr (db', a, b)" "eiEventType inp = ''STOP_FAILED''"
    and "\<And>e. e \<in> set (edEvents db) \<Longrightarrow> evId e = moEventId mo \<Longrightarrow> evEventType e = ''STOP_FAILED''"
  shows "a = None \<and> b = None \<and> map psEstimatedArrivalAt (edPlanStops db') = map psEstimatedArrivalAt (edPlanStops db)"
proof -
  obtain plan stop where "applyStopResult rt db inp (moCreatedAt mo) version (moEventId mo) plan stop = Inr (db', a, b)"
    using assms(1,2) unfolding applyDriverEventStateTransition_def Let_def by (auto simp del: attempt_Inr elim!: attemptE)
  then obtain db1 db2 stops later where up: "updateStops (completable db inp plan stop FAILED) FAILED db = Inr db1"
    and ld: "loadRouteEtaStops db1 plan True = (db2, stops)"
    and rest: "(if \<not> isCurrentEtaProgressEvent rt db2 inp plan version (moEventId mo) then Inr (db2, None, None)
        else (later :: (event_db \<times> eta_answer) outcome)) = Inr (db', a, b)"
    using assms(2) unfolding applyStopResult_def Let_def by (auto simp del: attempt_Inr elim!: attemptE split: prod.splits)
  have ev: "edEvents db2 = edEvents db" and st: "map psEstimatedArrivalAt (edPlanStops db2) = map psEstimatedArrivalAt (edPlanStops db)"
    using up ld load_keeps_arrivals [of db1 plan True]
    by (auto simp: updateStops_def loadRouteEtaStops_def Let_def split: if_splits)
  show ?thesis using rest not_current_progress [of db2 "moEventId mo"] assms(3) ev st by auto
qed

text \<open>
  Claim C30: a failed delivery never moves the arrival estimates. However the event is recorded, its answer carries neither a new
  estimate nor a snapshot, and the estimated arrivals of all stops stay as they were: the progress event the estimates follow is
  looked up among the route starts, pick-ups, arrivals and deliveries only.
\<close>

theorem failed_stop_never_updates_etas:
  "case recordDriverEvent rt early db inp mo aid others of
     (db', Inr (Recorded r)) \<Rightarrow>
       if eiEventType inp = ''STOP_FAILED'' \<and> \<not> rrDuplicate r
       then rrEtaUpdate r = None \<and> rrEtaSnapshot r = None
         \<and> map psEstimatedArrivalAt (edPlanStops db') = map psEstimatedArrivalAt (edPlanStops db)
       else True
   | _ \<Rightarrow> True"
proof -
  obtain db' res where r: "recordDriverEvent rt early db inp mo aid others = (db', res)" by (metis surj_pair)
  have "rrEtaUpdate a = None \<and> rrEtaSnapshot a = None
         \<and> map psEstimatedArrivalAt (edPlanStops db') = map psEstimatedArrivalAt (edPlanStops db)"
    if rec: "res = Inr (Recorded a)" "\<not> rrDuplicate a" and ty: "eiEventType inp = ''STOP_FAILED''" for a
  proof -
    have t: "eiEventType inp \<in> set stopEventTypes" by (simp add: stopEventTypes_def ty)
    from r [unfolded rec(1)] rec(2) t show ?thesis
    proof (rule recorded_stop)
      fix db3 db4 version
      assume *: "edPlanStops db3 = edPlanStops db" "edPlanStops db' = edPlanStops db4"
        "\<And>e. e \<in> set (edEvents db3) \<Longrightarrow> evId e = moEventId mo \<Longrightarrow> evEventType e = eiEventType inp"
        "applyDriverEventStateTransition rt db3 inp mo version = Inr (db4, rrEtaSnapshot a, rrEtaUpdate a)"
      show ?thesis using failed_transition [OF *(4) ty *(3) [unfolded ty]] *(1,2) by simp
    qed
  qed
  then show ?thesis unfolding r by (auto split: sum.split record_answer.split)
qed

section \<open>A completed route\<close>

lemma commit_completion_stops:
  assumes "commitEvent rt db inp mo k deferred evidence = Inr (db', ans)" "eiEventType inp = ''ROUTE_COMPLETED''"
  shows "edStops db' = edStops db"
proof -
  from assms(1) obtain version idn ev db1 db2 db3 db4 a b prepared result where
    ev: "createEvent db ev = Inr db1"
    and rv: "(case evidence of None \<Rightarrow> Inr db1
        | Some e \<Rightarrow> createReview db1 (reviewData rt inp mo k (Some (moEventId mo)) e)) = Inr db2"
    and ack: "applyDispatchChangeRequestAck db2 inp (moEventId mo) (moCreatedAt mo) = Inr db3"
    and tr: "(if deferred then Inr (db3, None, None) else applyDriverEventStateTransition rt db3 inp mo version) = Inr (db4, a, b)"
    and save: "saveCompletion rt db4 inp mo prepared result = Inr (db', ans)"
    unfolding commitEvent_def Let_def by (elim event_elims) (use assms(2) in auto)
  have "edStops db1 = edStops db" using ev by (auto simp: createEvent_def)
  moreover have "edStops db2 = edStops db1" using rv by (auto simp: createReview_def split: option.splits)
  moreover have "db3 = db2" using ack assms(2) by (simp add: applyDispatchChangeRequestAck_def)
  moreover have "edStops db4 = edStops db3" using tr assms(2)
    by (auto simp: applyDriverEventStateTransition_def Let_def setPlanStatus_def split: if_splits)
  moreover have "edStops db' = edStops db4" using saveCompletion_cases [OF save] by auto
  ultimately show ?thesis by simp
qed

text \<open>A current version of the route whose stops are all finished, in the stop table.\<close>

definition allStopsFinished :: "event_db \<Rightarrow> driver_input \<Rightarrow> version_row \<Rightarrow> bool" where
  "allStopsFinished db inp v =
     (Some (chRoutePlanId v) = eiRoutePlanId inp \<and> vrShopId v = eiShopId inp \<and> chStatus v = ''CURRENT''
      \<and> (case readCompletionSnapshotStopIds (vrSnapshot v) of
           Inl _ \<Rightarrow> False
         | Inr ids \<Rightarrow>
             (let stops = filter (\<lambda>s. srId s \<in> set ids \<and> srShopId s = eiShopId inp) (edStops db)
              in length stops = length ids \<and> list_all (\<lambda>s. srStatus s \<in> set TERMINAL_STOPS) stops)))"

lemma permitted_completion:
  assumes "evaluateCompletionInvariant db inp mode = Inr evidence" "map_option ceDecision evidence \<noteq> Some REJECTED"
    "eiEventType inp = ''ROUTE_COMPLETED''" "mode = FULL \<or> mode = GUARDED \<and> eiDriverContractVersion inp = Some 2"
  shows "\<exists>v \<in> set (edVersions db). allStopsFinished db inp v"
proof -
  from assms(1,3) obtain v ids where v: "completionVersion db inp = Inr (Some v)"
    and ids: "readCompletionSnapshotStopIds (vrSnapshot v) = Inr ids"
    and n: "length (filter (\<lambda>s. srId s \<in> set ids \<and> srShopId s = eiShopId inp) (edStops db)) = length ids"
    and e: "evidence = Some \<lparr>ceDecision = (if fst (completionInvariantDecision (eiDriverContractVersion inp) mode
              (length (filter (\<lambda>s. srStatus s \<notin> set TERMINAL_STOPS)
                 (filter (\<lambda>s. srId s \<in> set ids \<and> srShopId s = eiShopId inp) (edStops db))))) then REJECTED else PERMITTED),
              ceDriverContractVersion = eiDriverContractVersion inp, ceMode = mode,
              ceReceiptAware = (eiDriverContractVersion inp = Some 2 \<and> eiClientEventId inp \<noteq> None),
              ceRouteVersionId = chId v, ceTotalStopCount = length (filter (\<lambda>s. srId s \<in> set ids \<and> srShopId s = eiShopId inp) (edStops db)),
              ceUnresolvedStopCount = length (filter (\<lambda>s. srStatus s \<notin> set TERMINAL_STOPS)
                 (filter (\<lambda>s. srId s \<in> set ids \<and> srShopId s = eiShopId inp) (edStops db))),
              ceWouldReject = snd (completionInvariantDecision (eiDriverContractVersion inp) mode
                 (length (filter (\<lambda>s. srStatus s \<notin> set TERMINAL_STOPS)
                    (filter (\<lambda>s. srId s \<in> set ids \<and> srShopId s = eiShopId inp) (edStops db)))))\<rparr>"
    unfolding evaluateCompletionInvariant_def Let_def by (auto simp del: attempt_Inr elim!: event_elims split: option.splits)
  have "\<not> fst (completionInvariantDecision (eiDriverContractVersion inp) mode
        (length (filter (\<lambda>s. srStatus s \<notin> set TERMINAL_STOPS)
           (filter (\<lambda>s. srId s \<in> set ids \<and> srShopId s = eiShopId inp) (edStops db)))))"
    using assms(2) by (simp add: e split: if_splits)
  then have none: "filter (\<lambda>s. srStatus s \<notin> set TERMINAL_STOPS)
        (filter (\<lambda>s. srId s \<in> set ids \<and> srShopId s = eiShopId inp) (edStops db)) = []"
    using assms(4) by (auto simp: completionInvariantDecision_def Let_def)
  have "v \<in> set (edVersions db)" "Some (chRoutePlanId v) = eiRoutePlanId inp" "vrShopId v = eiShopId inp" "chStatus v = ''CURRENT''"
    using v unfolding completionVersion_def
    by (auto simp del: attempt_Inr elim!: attemptE dest!: require_plan find_SomeD)
  then show ?thesis using ids n none
    by (auto simp: allStopsFinished_def Let_def list_all_iff filter_empty_conv)
qed

text \<open>
  Claim C9: where the completion check is enforced (in mode FULL, and in mode GUARDED for drivers of contract version 2), a route
  completion is recorded only when all stops of the published snapshot of a current version of that route are in the stop table
  with a final status, and it is recorded without touching a stop.
\<close>

theorem completed_route_has_no_open_stop:
  "case recordDriverEvent rt early db inp mo aid others of
     (db', Inr (Recorded r)) \<Rightarrow>
       if eiEventType inp = ''ROUTE_COMPLETED'' \<and> \<not> rrDuplicate r
          \<and> (rtCompletionMode rt = FULL \<or> rtCompletionMode rt = GUARDED \<and> eiDriverContractVersion inp = Some 2)
       then edStops db' = edStops db \<and> list_ex (allStopsFinished db inp) (edVersions db)
       else True
   | _ \<Rightarrow> True"
proof -
  obtain db' res where r: "recordDriverEvent rt early db inp mo aid others = (db', res)" by (metis surj_pair)
  have "edStops db' = edStops db \<and> list_ex (allStopsFinished db inp) (edVersions db)"
    if rec: "res = Inr (Recorded a)" "\<not> rrDuplicate a" and ty: "eiEventType inp = ''ROUTE_COMPLETED''"
      and mode: "rtCompletionMode rt = FULL \<or> rtCompletionMode rt = GUARDED \<and> eiDriverContractVersion inp = Some 2" for a
    using r [unfolded rec(1)] rec(2)
  proof (cases rule: recorded_cases)
    case (1 db1 k db2 deferred evidence)
    have eq: "edStops db1 = edStops db" "edVersions db1 = edVersions db"
      using sameTables_stops [OF 1(1)] by simp_all
    have "allStopsFinished db1 inp = allStopsFinished db inp" by (rule ext) (unfold allStopsFinished_def eq(1), rule refl)
    then show ?thesis
      using permitted_completion [OF 1(6,7) ty mode] commit_completion_stops [OF 1(8) ty] sameTables_stops(1) [OF 1(2)] eq
      by (auto simp: list_ex_iff)
  qed
  then show ?thesis unfolding r by (auto split: sum.split record_answer.split)
qed

section \<open>The versions an event may name\<close>

declare reorderWalk.simps [simp del]

lemma reorderWalk_found:
  "reorderWalk byId members generation seen cursor = Some out \<Longrightarrow>
     distinct out \<and> set out \<inter> set seen = {}
     \<and> (\<forall>k \<in> set out. \<exists>x. map_of byId k = Some x \<and> reorderSnapshotMembership x = Some members)"
proof (induction byId members generation seen cursor arbitrary: out rule: reorderWalk.induct)
  case (1 byId members generation seen cursor)
  show ?case
  proof (cases "isOrderOnlyReorderSnapshot cursor generation")
    case True
    with 1(2) obtain p x out' where p: "jget cursor ''predecessorChildVersionId'' = JStr p" "\<not> (p \<in> set seen \<or> \<not> is_hex_uuid p)"
      and x: "map_of byId p = Some x" "\<not> reorderSnapshotMembership x \<noteq> Some members"
      and out': "reorderWalk byId members generation (p # seen) x = Some out'" "out = p # out'"
      by (subst (asm) reorderWalk.simps) (auto split: json.splits option.splits if_splits)
    have "distinct out' \<and> set out' \<inter> set (p # seen) = {}
        \<and> (\<forall>k \<in> set out'. \<exists>x. map_of byId k = Some x \<and> reorderSnapshotMembership x = Some members)"
      by (rule 1(1) [OF _ p x out'(1)]) (simp add: True)
    then show ?thesis using p x out'(2) by auto
  qed (use 1(2) in \<open>subst (asm) reorderWalk.simps, simp\<close>)
qed

text \<open>An archived version of the same assignment with the stops of the current one.\<close>

definition reorderedFrom :: "event_db \<Rightarrow> string \<Rightarrow> string \<Rightarrow> string \<Rightarrow> version_row \<Rightarrow> string \<Rightarrow> bool" where
  "reorderedFrom db driver plan shop current k =
     list_ex (\<lambda>v. chId v = k \<and> chStatus v = ''ARCHIVED'' \<and> chDriverId v = Some driver \<and> chRoutePlanId v = plan \<and> vrShopId v = shop
       \<and> vrGroupingId v = vrGroupingId current
       \<and> reorderSnapshotMembership (vrSnapshot v) = reorderSnapshotMembership (vrSnapshot current)) (edVersions db)"

lemma reorderWalk_versions:
  assumes w: "reorderWalk (map (\<lambda>v. (chId v, vrSnapshot v)) (reorderPredecessors db driver plan shop (vrGroupingId current)))
       members generation [cur] cursor = Some out"
    and m: "reorderSnapshotMembership (vrSnapshot current) = Some members"
  shows "length out \<le> 128 \<and> distinct out \<and> cur \<notin> set out \<and> list_all (reorderedFrom db driver plan shop current) out"
proof -
  let ?vs = "reorderPredecessors db driver plan shop (vrGroupingId current)"
  note f = reorderWalk_found [OF w]
  have found: "\<exists>v \<in> set ?vs. chId v = k \<and> reorderSnapshotMembership (vrSnapshot v) = Some members" if "k \<in> set out" for k
  proof -
    from f that obtain x where x: "map_of (map (\<lambda>v. (chId v, vrSnapshot v)) ?vs) k = Some x" "reorderSnapshotMembership x = Some members"
      by blast
    from map_of_SomeD [OF x(1)] x(2) show ?thesis by auto
  qed
  have "set out \<subseteq> chId ` set ?vs" using found by blast
  then have "card (set out) \<le> card (chId ` set ?vs)" by (simp add: card_mono)
  also have "\<dots> \<le> length ?vs" by (rule le_trans [OF card_image_le card_length]) simp
  also have "\<dots> \<le> 128" by (simp add: reorderPredecessors_def)
  finally have "length out \<le> 128" using f distinct_card by fastforce
  moreover have "reorderedFrom db driver plan shop current k" if k: "k \<in> set out" for k
  proof -
    from found [OF k] obtain v where v: "v \<in> set ?vs" "chId v = k" "reorderSnapshotMembership (vrSnapshot v) = Some members" by blast
    from v(1) have "v \<in> set (edVersions db)" "chDriverId v = Some driver" "chRoutePlanId v = plan" "vrShopId v = shop"
      "vrGroupingId v = vrGroupingId current" "chStatus v = ''ARCHIVED''"
      unfolding reorderPredecessors_def by (auto dest!: in_set_takeD)
    then show ?thesis using v m by (auto simp: reorderedFrom_def list_ex_iff)
  qed
  ultimately show ?thesis using f by (auto simp: list_all_iff)
qed

text \<open>
  Claim C32: the walk from the current version of a route to the versions it was reordered from ends for every content of the
  snapshots, even when their links form a cycle. What it finds are at most 128 different versions, none of them the current
  one, each an archived version of the same driver, route, shop and grouping that has exactly the stops of the current version.
\<close>

theorem compatible_versions_are_bounded:
  "let found = loadCompatibleReorderVersions db driver plan shop (Some cur)
   in found = []
      \<or> length found \<le> 128 \<and> distinct found \<and> cur \<notin> set found
        \<and> list_ex (\<lambda>current. chId current = cur \<and> list_all (reorderedFrom db driver plan shop current) found) (currentVersions db plan shop)"
proof (cases "loadCompatibleReorderVersions db driver plan shop (Some cur) = []")
  case False
  then obtain current members out where
    c: "List.find (\<lambda>v. chId v = cur \<and> chDriverId v = Some driver) (currentVersions db plan shop) = Some current"
    and m: "reorderSnapshotMembership (vrSnapshot current) = Some members"
    and w: "reorderWalk (map (\<lambda>v. (chId v, vrSnapshot v)) (reorderPredecessors db driver plan shop (vrGroupingId current)))
       members (bigIntText (plAssignmentGeneration (the (planOf db plan shop)))) [cur] (vrSnapshot current) = Some out"
    and out: "loadCompatibleReorderVersions db driver plan shop (Some cur) = out"
    unfolding loadCompatibleReorderVersions_def Let_def
    by (auto simp: coalesce_def_value_def split: option.splits if_splits)
  from find_SomeD [OF c] have "current \<in> set (currentVersions db plan shop)" "chId current = cur" by auto
  then show ?thesis using reorderWalk_versions [OF w m] unfolding Let_def out by (auto simp: list_ex_iff)
qed simp

end
