(* ===== verification/DriverEventSample.thy ===== *)
theory DriverEventSample
  imports DriverEventAnswers
begin

text \<open>
  A small route with two stops: the properties of the driver events at concrete tables, evaluated in the kernel.
\<close>

definition tripText :: stop_text where
  "tripText = \<lparr>recipientName = None, phone = None, address1 = Some ''A'', address2 = None, city = None, province = None,
     postalCode = None, countryCode = Some ''CA'', instructions = None\<rparr>"

definition tripStop :: "string \<Rightarrow> event_stop" where
  "tripStop k = \<lparr>srId = k, srShopId = ''s'', srOrderId = k, srText = tripText, srLatitude = None, srLongitude = None,
     srGeocodeStatus = ''RESOLVED'', srDeliveryDate = None, srTimeWindowStart = None, srTimeWindowEnd = None,
     srServiceMinutes = 5, srStatus = ASSIGNED, esCandidateId = None\<rparr>"

definition tripRow :: "string \<Rightarrow> int \<Rightarrow> plan_stop" where
  "tripRow k n = \<lparr>psId = k, psShopId = ''s'', psRoutePlanId = ''r'', psDeliveryStopId = k, psSequence = n,
     psEstimatedArrivalAt = None, psDistanceFromPreviousMeters = None, psDurationFromPreviousSeconds = Some 60,
     psEtaCalculatedAt = None, psEtaFailureCode = None, psEtaFailureMessage = None, psEtaInputRouteVersionId = None,
     psEtaSource = None, psEtaStatus = ''READY''\<rparr>"

definition tripPlan :: event_plan where
  "tripPlan = \<lparr>plId = ''r'', plShopId = ''s'', plDriverId = Some ''d'', plStatus = ''IN_PROGRESS'', plAssignmentGeneration = 1,
     plConstraints = JNull, plDeliveryWorkCompletedAt = None, plDeliveryWorkCompletedGeneration = None,
     plDeliveryWorkCompletedVersionId = None, plDriverNavigationUntil = None, plUpdatedAt = 0, epName = ''Route'', epPlanDate = 0\<rparr>"

definition tripDb :: event_db where
  "tripDb = \<lparr>edPlans = [tripPlan], edShops = [\<lparr>shId = ''s'', shAppId = ''app'', shShopDomain = ''shop''\<rparr>],
     edDrivers = [\<lparr>drId = ''d'', drShopId = ''s'', drStatus = ''ACTIVE'', drAuthSubject = None, drAccountId = None\<rparr>],
     edAccounts = [], edVersions = [], edOrders = [], edStops = [tripStop ''a'', tripStop ''b''],
     edPlanStops = [tripRow ''a'' 1, tripRow ''b'' 2], edStates = [], edPublications = [], edEvents = [], edReceipts = [],
     edAttempts = [], edReviews = [], edRequests = [], edMedia = [], edNotifications = [], edCaches = []\<rparr>"

definition tripRuntime :: runtime where
  "tripRuntime = \<lparr>rtContentDigest = (\<lambda>_. ''d''), rtRequestDigest = (\<lambda>_. ''d''), rtNoteDigest = (\<lambda>_. ''d''), rtResultText = (\<lambda>_. []),
     rtKnownZone = (\<lambda>_. False), rtWallClock = (\<lambda>_ t. t), rtEnv = \<lparr>envShopId = None, envAccountId = None\<rparr>,
     rtCompletionMode = OBSERVE, rtRouteVersionColumn = True, rtEtaOwnershipColumns = True, rtAttemptRetentionDays = 30,
     rtReviewRetentionDays = 30, rtOther = (\<lambda>_ _ _ _. Inr ())\<rparr>"

definition tripInput :: "string \<Rightarrow> string option \<Rightarrow> driver_input" where
  "tripInput type stop =
     \<lparr>eiShopId = ''s'', eiShopDomain = ''shop'', eiDriverId = ''d'', eiEventType = type, eiClientEventId = Some ''c'',
      eiDeliveryStopId = stop, eiRoutePlanId = Some ''r'', eiAssignmentGeneration = None, eiExpectedRouteVersionId = None,
      eiDriverContractVersion = None, eiLatitude = None, eiLongitude = None, eiOccurredAt = 5, eiPayload = JObj [],
      inCompletionOwnerAccountId = None, inChangeRequestId = None, inVersionCode = None, inAppVersion = None,
      inRequestId = None, inAttempt = NoAttempt\<rparr>"

definition tripMoment :: "string \<Rightarrow> moment" where
  "tripMoment k = \<lparr>moNow = 7, moCreatedAt = 7, moEventId = k, moReceiptId = ''x''\<rparr>"

definition tripFailed :: "event_db \<times> (failure + record_answer)" where
  "tripFailed = recordDriverEvent tripRuntime tripDb tripDb (tripInput ''STOP_FAILED'' (Some ''a'')) (tripMoment ''e1'') ''t'' (\<lambda>_. [])"

lemma trip_failed_outcome:
  "case tripFailed of
     (db', Inr (Recorded r)) \<Rightarrow> \<not> rrDuplicate r \<and> map srStatus (edStops db') = [FAILED, ASSIGNED] \<and> map evId (edEvents db') = [''e1'']
   | _ \<Rightarrow> False"
  by code_simp

definition tripRequest :: "event_db \<Rightarrow> driver_request" where
  "tripRequest early = Record early (tripInput ''STOP_FAILED'' (Some ''a'')) (tripMoment ''e1'') ''t'' (\<lambda>_. [])"

lemma trip_events_ok: "events_ok tripDb"
  by code_simp

lemma trip_failed_event: "map evId (edEvents (driver_step tripRuntime tripDb (tripRequest tripDb))) = [''e1'']"
  using trip_failed_outcome
  by (auto simp: tripFailed_def tripRequest_def split: prod.splits sum.splits record_answer.splits)


definition tripDone :: event_db where
  "tripDone = tripDb\<lparr>edEvents :=
     [\<lparr>evId = ''e0'', evShopId = ''s'', evDriverId = ''d'', evRoutePlanId = Some ''r'', evRouteVersionId = None,
       evDeliveryStopId = None, evClientEventId = None, evCompletionOwnerAccountId = None, evExpectedRouteVersionId = None,
       evAssignmentGeneration = None, evDriverContractVersion = None, evEventType = ''ROUTE_COMPLETED'', evOccurredAt = 1,
       evLatitude = None, evLongitude = None, evPayload = JObj [], evCreatedAt = 1\<rparr>]\<rparr>"

lemma trip_done: "list_ex (\<lambda>e. evRoutePlanId e = Some ''r'' \<and> evShopId e = ''s'' \<and> evEventType e = ''ROUTE_COMPLETED'') (edEvents tripDone)"
  by (simp add: tripDone_def)

lemma trip_done_rows:
  "filter (\<lambda>e. evRoutePlanId e = Some ''r'' \<and> evShopId e = ''s'') (edEvents tripDone) = edEvents tripDone"
  "filter (\<lambda>p. plId p = ''r'' \<and> plShopId p = ''s'') (edPlans tripDone) = [tripPlan]"
  by (simp_all add: tripDone_def tripDb_def tripPlan_def)


end
