(* ===== verification/TrackingSample.thy ===== *)
theory TrackingSample
  imports TrackingPersist DriverEventSample
begin

text \<open>
  A path of three positions and one road match job: the properties of recorded paths and of their jobs at concrete
  tables.
\<close>

section \<open>A path\<close>

definition trackEnv :: tracking_env where
  "trackEnv = \<lparr>teParse = map_of (map (\<lambda>t. (toISOString t, t)) [0, 30000, 400000]), teLocaleCompare = compare_text\<rparr>"

lemma track_texts:
  "toISOString 0 = ''1970-01-01T00:00:00.000Z''" "toISOString 30000 = ''1970-01-01T00:00:30.000Z''"
  "toISOString 400000 = ''1970-01-01T00:06:40.000Z''"
  by code_simp+

lemma trackEnv_reads: "reads_iso trackEnv 0" "reads_iso trackEnv 30000" "reads_iso trackEnv 400000"
  by (simp_all add: reads_iso_def trackEnv_def track_texts)

lemma trackEnv_locale: "sign_comparator (teLocaleCompare trackEnv)"
  using sign_comparator_text [of "\<lambda>x. x"] by (simp add: trackEnv_def)

definition trackPosition :: "string \<Rightarrow> int \<Rightarrow> int \<Rightarrow> geometry_position" where
  "trackPosition i lat t = \<lparr>gpAccuracyMeters = JUndefined, gpDriverId = Some ''d'', gpEventId = i, gpLatitude = Num (of_int lat),
     gpLongitude = Num 127, gpOccurredAt = toISOString t, gpReceivedAt = toISOString t, gpRoutePlanId = ''r''\<rparr>"

definition trackSample :: "string \<Rightarrow> int \<Rightarrow> int \<Rightarrow> bool \<Rightarrow> geometry_sample" where
  "trackSample i t n gap = \<lparr>gsAccuracyMeters = Some None, gsDriverId = Some ''d'', gsEventId = i, gsGapBefore = Some gap,
     gsOccurredAt = toISOString t, gsReceivedAt = toISOString t, gsSourceIndex = Some n\<rparr>"

definition trackDocument :: geometry_document where
  "trackDocument = \<lparr>gdCoordinates = [(127, 37), (127, 38), (127, 39)],
     gdSamples = [trackSample ''e1'' 0 0 False, trackSample ''e2'' 30000 1 False, trackSample ''e3'' 400000 2 True],
     gdSourcePointCount = 3\<rparr>"

lemma trackSamples_ok:
  "well_formed_sample trackEnv 3 (trackSample ''e1'' 0 0 False)"
  "well_formed_sample trackEnv 3 (trackSample ''e2'' 30000 1 False)"
  "well_formed_sample trackEnv 3 (trackSample ''e3'' 400000 2 True)"
  "named_sample (trackSample ''e1'' 0 0 False)" "named_sample (trackSample ''e2'' 30000 1 False)"
  "named_sample (trackSample ''e3'' 400000 2 True)"
proof -
  have "trimmed_text ''e1''" "trimmed_text ''e2''" "trimmed_text ''e3''" "trimmed_text ''d''" by code_simp+
  then show "named_sample (trackSample ''e1'' 0 0 False)" "named_sample (trackSample ''e2'' 30000 1 False)"
    "named_sample (trackSample ''e3'' 400000 2 True)"
    by (simp_all add: named_sample_def trackSample_def)
  show "well_formed_sample trackEnv 3 (trackSample ''e1'' 0 0 False)"
    "well_formed_sample trackEnv 3 (trackSample ''e2'' 30000 1 False)"
    "well_formed_sample trackEnv 3 (trackSample ''e3'' 400000 2 True)"
    using trackEnv_reads
    by (simp_all add: well_formed_sample_def trackSample_def iso_text_toISOString accuracy_rounded_def)
qed

lemma trackDocument_ok: "well_formed_document trackEnv trackDocument"
  using trackSamples_ok(1-3) trackEnv_reads
  by (simp add: well_formed_document_def trackDocument_def)
    (simp add: follows_def trackSample_def instantOf_toISOString)

lemma simplified_path_is_within_tolerance_witness:
  "\<exists>I. selects trackDocument (simplifyRouteTrackingGeometryDocument trackEnv trackDocument) I \<and> within_tolerance trackDocument I"
  by (rule simplified_path_is_within_tolerance) (simp add: trackDocument_def)

lemma stored_document_is_read_back_witness:
  "\<exists>row. createRouteTrackingGeometryWrite trackEnv ''r'' trackDocument = Inr row
    \<and> readRouteTrackingGeometryDocument trackEnv (Some row) = trackDocument"
proof -
  have "\<exists>row. createRouteTrackingGeometryWrite trackEnv ''r'' trackDocument = Inr row"
    using trackEnv_reads by (simp add: createRouteTrackingGeometryWrite_def trackDocument_def trackSample_def
        reads_iso_def Let_def del: jsonClone.simps)
  then obtain row where row: "createRouteTrackingGeometryWrite trackEnv ''r'' trackDocument = Inr row" by blast
  have "list_all named_sample (gdSamples trackDocument)" using trackSamples_ok(4-6) by (simp add: trackDocument_def)
  then have "readRouteTrackingGeometryDocument trackEnv (Some row) = trackDocument"
    by (rule stored_document_is_read_back [OF trackDocument_ok _ _ row]) (simp add: trackDocument_def)
  then show ?thesis using row by blast
qed

lemma build_is_order_independent_witness:
  "buildRouteTrackingGeometryDocument trackEnv [trackPosition ''e1'' 37 0, trackPosition ''e2'' 38 30000]
   = buildRouteTrackingGeometryDocument trackEnv [trackPosition ''e2'' 38 30000, trackPosition ''e1'' 37 0, trackPosition ''e2'' 38 30000]"
  by (rule build_is_order_independent [OF trackEnv_locale])
    (auto simp: trackEnv_def trackPosition_def)

section \<open>A job\<close>

definition trackJob :: road_job where
  "trackJob = \<lparr>rjId = ''j'', rjRoutePlanId = ''r'', rjStatus = ROAD_PROCESSING, rjTargetSourcePointCount = 1,
     rjTargetLastInputOccurredAt = 0, rjAttemptCount = 1, rjNextAttemptAt = None, rjLeaseToken = Some ''new'',
     rjLeaseExpiresAt = Some 900000, rjProcessingStartedAt = Some 300000, rjCompletedAt = None, rjErrorCode = None,
     rjErrorMessage = None, rjUpdatedAt = 0\<rparr>"

definition trackRoad :: road_db where
  "trackRoad = \<lparr>rdJobs = [trackJob], rdRows = [], rdClock = 500000\<rparr>"

definition trackClaim :: "string \<Rightarrow> road_claim" where
  "trackClaim token = \<lparr>rcAttemptCount = 1, rcId = ''j'', rcLeaseToken = token, rcRoutePlanId = ''r'',
     rcTargetLastInputOccurredAt = 0, rcTargetSourcePointCount = 1\<rparr>"

definition trackRun :: road_run where
  "trackRun = \<lparr>rrBetween = (\<lambda>_ s. s\<lparr>rdClock := rdClock s + 1\<rparr>), rrHeartbeats = [400000], rrNow = 500000\<rparr>"

definition quietRun :: road_run where
  "quietRun = \<lparr>rrBetween = (\<lambda>_ s. s), rrHeartbeats = [400000], rrNow = 500000\<rparr>"

definition trackOptions :: road_options where
  "trackOptions = resolvedOptions \<lparr>wsBatchSize = None, wsConcurrency = None, wsLeaseMs = None, wsMaxAttempts = None,
     wsPollIntervalMs = None, wsRetryBaseDelayMs = None, wsRetryMaxDelayMs = None\<rparr>"

definition trackProvider :: road_provider where
  "trackProvider = Matching (\<lambda>_. Inr None)"

definition trackInput :: road_input where
  "trackInput = \<lparr>riLastInputOccurredAt = 400000, riRoutePlanId = ''r'', riSourcePointCount = 3\<rparr>"

lemma trackRoad_inv: "road_inv trackRoad"
  by code_simp

lemma trackJob_held: "theJob trackRoad (rcId (trackClaim ''new'')) trackJob" "leaseHolder (trackClaim ''new'') trackJob"
  by code_simp+

lemma stale_worker_changes_nothing_witness:
  "\<exists>ks. processRoadJob trackEnv trackProvider trackOptions trackRun (trackClaim ''old'') trackRoad
    = interfered trackRun ks trackRoad"
proof (rule stale_worker_changes_nothing)
  show "\<not> held (trackClaim ''old'') trackRoad" by code_simp
  show "\<not> held (trackClaim ''old'') s \<Longrightarrow> \<not> held (trackClaim ''old'') (rrBetween trackRun k s)" for k s
    by (simp add: held_def trackRun_def)
qed

lemma undisturbed_worker_settles_as_verdict_witness:
  "processRoadJob trackEnv trackProvider trackOptions quietRun (trackClaim ''new'') trackRoad
    = settledTables trackEnv trackProvider trackOptions 500000 (trackClaim ''new'') trackJob trackRoad"
  using undisturbed_worker_settles_as_verdict [OF trackJob_held, of quietRun trackEnv trackProvider trackOptions]
  by (simp add: quietRun_def trackRoad_def)

definition trackRetargeted :: road_db where
  "trackRetargeted = trackRoad\<lparr>rdJobs := [(retarget trackInput trackJob)\<lparr>rjUpdatedAt := 500000\<rparr>]\<rparr>"

lemma track_enqueued: "enqueueRouteTrackingRoadMatch (\<lambda>s. s) ''k'' 500000 trackInput trackRoad = Inr trackRetargeted"
  by (simp add: enqueueRouteTrackingRoadMatch_def readEnqueue_def writeEnqueue_def jobOfPlan_def updateRoadJobs_def
      trackRoad_def trackRetargeted_def trackJob_def trackInput_def)

lemma queued_input_is_not_lost_witness:
  "\<exists>j \<in> set (rdJobs trackRetargeted). targets trackInput j
    \<and> (claimableJob 500000 j
       \<or> rjStatus j = ROAD_PROCESSING
         \<and> (\<forall>c run. leaseHolder c j \<and> \<not> onTarget c j \<and> rrBetween run = (\<lambda>_ s. s) \<longrightarrow>
              list_ex (\<lambda>k. targets trackInput k \<and> claimableJob (rrNow run) k)
                (rdJobs (processRoadJob trackEnv trackProvider trackOptions run c trackRetargeted))))"
  by (rule queued_input_is_not_lost [OF trackRoad_inv track_enqueued])

lemma settled_between_read_and_write_loses_the_input_witness:
  "\<exists>db' k. enqueueRouteTrackingRoadMatch (\<lambda>s. fst (markSucceededWithoutPath (trackClaim ''new'') 500000 s)) ''k'' 500000 trackInput trackRoad
      = Inr db'
    \<and> jobOfPlan db' (riRoutePlanId trackInput) = Some k \<and> targets trackInput k \<and> (\<forall>t. \<not> claimableJob t k) \<and> rjCompletedAt k = None"
proof (rule settled_between_read_and_write_loses_the_input [OF trackRoad_inv, where settled = 500000])
  show "trackJob \<in> set (rdJobs trackRoad)" "rjRoutePlanId trackJob = riRoutePlanId trackInput"
    "leasedJobWhere (trackClaim ''new'') trackJob" by code_simp+
qed simp

section \<open>A recorded position\<close>

definition trackTables :: tracking_db where
  "trackTables = \<lparr>tdEvents = tripDb, tdRoad = \<lparr>rdJobs = [], rdRows = [], rdClock = 0\<rparr>\<rparr>"

lemma trackTables_ok: "tracking_ok trackEnv trackTables"
  by (simp add: tracking_ok_def trackTables_def road_inv_def tripDb_def)

lemma decimal7_of_int: "decimal7 (of_int n) = of_int n"
proof -
  have "\<lfloor>real_of_int n * 10 ^ 7 + 1 / 2\<rfloor> = n * 10 ^ 7" "\<lfloor>- real_of_int n * 10 ^ 7 + 1 / 2\<rfloor> = - n * 10 ^ 7"
    by (simp_all add: floor_eq_iff)
  then show ?thesis by (simp add: decimal7_def)
qed

lemma trackPosition_ok: "position_ok trackEnv (trackPosition ''e1'' 37 0)"
proof -
  have "trimmed_text ''e1''" "trimmed_text ''d''" by code_simp+
  then show ?thesis
    using trackEnv_reads(1) decimal7_of_int [of 127] decimal7_of_int [of 37]
    by (simp add: position_ok_def readable_position_def trackPosition_def instantOf_toISOString grid_point_def positionCoordinate_def)
qed

lemma track_recorded:
  "\<exists>db' doc. persistRouteTrackingGeometryPosition trackEnv tripRuntime (\<lambda>s. s) ''k'' 0 (trackPosition ''e1'' 37 0) trackTables
    = Inr (db', doc) \<and> rdJobs (tdRoad db') \<noteq> []"
proof -
  have window: "loadRouteTrackingEventWindow tripRuntime tripDb ''r'' = None" by code_simp
  show ?thesis
    using trackEnv_reads(1)
    by (simp add: persistRouteTrackingGeometryPosition_def trackTables_def trackPosition_def window reads_iso_def
        ROUTE_TRACKING_GEOMETRY_RETENTION_DAYS_def rowOfPlan_def nextDocument_def readTracked_def
        readRouteTrackingGeometryDocument_def emptyDocument_def pruneRouteTrackingGeometryDocument_def retainedFrom_def
        appendRouteTrackingGeometryPosition_def isValidPosition_def appendMutable_def canReplaceTail_def toSample_def
        instantOf_toISOString storeDocument_def createRouteTrackingGeometryWrite_def geometryChanged_def
        enqueueRouteTrackingRoadMatch_def readEnqueue_def writeEnqueue_def jobOfPlan_def jobById_def upsertRow_def Let_def
        del: jsonClone.simps)
qed



end
