(* ===== verification/Spec2Isabelle.thy ===== *)
theory Spec2Isabelle
  imports JsPrelude JsText Machines ShopScope GreatCircle Geofence OptimizationJobs NotificationOutbox RouteEta DispatchPreview Payments CashReceipts VehicleTrail LiveRouteMoves TrackingSample
begin

text \<open>
  A verification of the core of the delivery API of clever-route-server
  (src/apps/delivery-api/src/modules, TypeScript).

  \<^bold>\<open>The program.\<close> Orders of a shop become delivery stops; stops are put on route plans, optimized by an
  engine, driven by drivers whose phones and vehicles report events and positions, and settled by the
  office. The API keeps all of it in a PostgreSQL database through Prisma. Its own logic, as opposed to
  queries and clients of external services, sits in decision procedures over rows and event streams and
  in small state machines that several workers and requests write to at once. These are modelled here.

  \<^bold>\<open>How the parts interact.\<close> A dispatch file is previewed against the stored orders (DispatchPreview); a
  route is optimized by a background job (OptimizationJobs) that writes its stops; a started route has
  estimated arrivals (RouteEta) and its vehicle is watched by geofences (Geofence) and by its trail
  (VehicleTrail); the office changes the stops ahead of a driver on the road (LiveRoute); the phone of the
  driver reports what happens on the road, which moves the stops, the route and its estimates
  (DriverRequests, DriverEvents); its positions become the recorded path of the
  route (TrackingGeometry, TrackingPersist), and every change of the path queues the job that matches it to the
  road network (RoadMatchJobs); events queue notifications to customers (NotificationOutbox); a completed
  stop records the payment the order asks for (Payments, CashReceipts), which the office then settles
  (CashReceipts).

  \<^bold>\<open>Theories.\<close>
  \<^item> JsPrelude, JsText: the JavaScript the code is written in: numbers with their non-finite values,
    untyped JSON values, strings as UTF-8 with trim, case, length and slices, decimal digits, ISO
    instants, stable sorting with a comparator. The contract of a comparator is a locale; chained
    comparators are proved to be comparators once.
  \<^item> Machines: the interfaces of stateful components as locales (an invariant kept by every step, rows
    that are never written again, a measure no step decreases, two-sided machines, tables written row by
    row) with what follows for whole histories. Every component interprets them on its own operations.
  \<^item> ShopScope (shopify/shopify-app-scope.ts), GreatCircle (the haversine formula): shared by components.
  \<^item> Geofence (dsv/dsv-geofence-engine.ts, dsv-geofence-policy.ts): the state of one target and the step
    over an observation. Arrivals and departures are backed by uninterrupted evidence, alternate and are
    counted; a repeated observation changes nothing; an accepted policy is sane.
  \<^item> OptimizationJobs (route-plans/route-optimization-job.repository.ts, .service.ts, -runner.ts): the job
    table with its guarded updates and the runner. At most one active job per route, finished jobs never
    change, a runner always leaves its job finished whatever other requests do between its calls, and
    stops are written exactly when the job says so.
  \<^item> NotificationOutbox (route-plans/customer-delivery-notification.outbox.ts, .worker.ts and
    customer-email/customer-delivery-notification-attempt.repository.ts): facts claimed under leases by
    competing workers, sent and settled with a ledger of attempts. A lease excludes other workers, a
    settled fact is final, and an undisturbed worker settles as an abstract verdict says.
  \<^item> RouteEta (driver/driver-route-eta.ts): estimates along a route: a closed form, agreement of the
    recalculations with the first calculation, monotonicity, independence of the load order.
  \<^item> DispatchPreview (dsv/dsv-dispatch-preview-diff.ts): the comparison of an uploaded file with the stored
    data. An applicable preview is sound and the result does not depend on the order of the rows.
  \<^item> Payments (payments/order-payment.ts, normalized-payment-status.ts): amounts as exact decimals, with
    a round trip between values and text; when cash is collected and where the expected amount is from.
  \<^item> CashReceipts (driver/driver-completion.ts, payments/cash-settlement.service.ts): receipts of completed
    stops and the ledger of their settlements: contiguous revisions, exact differences, replays without
    second writes, no lost corrections.
  \<^item> VehicleTrail (uvis/uvis-vehicle-trail-evidence.ts, dsv/dsv-service-window.ts,
    route-tracking/depot-departure.ts): folding of frozen GPS fixes, the service window and the cut of a
    trail to it, the departure from the depot.
  \<^item> RouteBasics (route-plans/delivery-options.ts, kfood-delivery-completion.ts, route-plan-lifecycle.ts,
    route-stop-location-diagnostic.ts, driver/private-driver-demo.ts): the options and the completion record
    of a route, the diagnosis of a stop's location, the sequencing of checks that may throw.
  \<^item> LiveRoute (route-plans/live-route-change.ts, live-route-location-correction.ts): drafts of the future
    stops of a running route, saved, discarded, dispatched as numbered publications, acknowledged by the
    driver and checked against the driver's events. LiveRouteSample: one route to instantiate theorems on.
  \<^item> LiveRouteHistory: every command as a sequence of elementary writes of the three tables (an inductive
    relation), the invariant under all histories, forward-only states, one effect per command identifier.
    LiveRouteDispatch: the rows after a dispatch are the draft, the driver reads what was dispatched, what
    is behind the driver is not touched. LiveRouteMoves: no unique key is violated on the way.
  \<^item> TimeConstraint (dsv/dsv-time-constraint.ts): the review of a delivery window that a note asks for,
    derived from the audits; times of day and their text.
  \<^item> DriverRequests (the checks of driver/driver-event.repository.ts with driver-delivery-proof.ts,
    driver-route-completion-invariant.ts, route-plans/route-execution-ownership.ts,
    route-tracking/route-tracking.event-window.ts and the time zones of a route): the rows, the request,
    recorded duplicates, the version of the route a request may name, who holds a stop, acknowledgements,
    proof of delivery, whether a route may be completed, the day a position belongs to.
  \<^item> DriverEvents (the writes of driver/driver-event.repository.ts and route-plans/kfood-delivery-completion.ts):
    the estimates around an event, the transitions of stops and routes, the mark of completed delivery work,
    attempts, the transaction that records an event with its answers, the completion of a destination.
  \<^item> DriverEventHistory: every request as one write of an inductive relation; a completed route is closed,
    stops only move forward, no event is recorded twice. DriverEventAnswers: what an answer tells about the
    tables: all or nothing, the row of a reported stop, the stops of a completed route, the estimates, the
    walk over reordered versions. DriverEventSample: a small route on which the theorems are evaluated.
  \<^item> TrackingGeometry (route-tracking/route-tracking.geometry.ts): the recorded path of a route as a document of
    coordinates and samples: distances, appending, building, simplifying, pruning, the row it is stored in. What
    a simplification leaves out is within 5 m of a leg of at most 750 m. TrackingDocuments: what is well-formed and
    that every operation keeps it so; a built document does not depend on the order of its positions, and a
    stored one is read back unchanged.
  \<^item> RoadMatchJobs (route-tracking/route-tracking-road-match-job.repository.ts, .service.ts, the options of
    route-tracking-road-match.worker.ts and the columns of route-tracking.road-match.ts): the job table statement by
    statement, the settlement of one claimed job with what others commit between its statements, the invariant.
    RoadMatchSettlement: a worker that lost its lease changes nothing, an undisturbed one settles as an abstract
    verdict says, a claim is backed by the tables, a queued input is not lost without interference, and the
    interleaving in which it is lost.
  \<^item> TrackingPersist (persistRouteTrackingGeometryPosition): the recording of a position with the job it queues. Stored
    paths stay well-formed whatever the workers commit, and the queued job loads exactly what was stored.
    TrackingSample: a path of three positions and one job on which these theorems are evaluated.

  \<^bold>\<open>Modelling.\<close> A row is a \<^verbatim>\<open>record\<close>, a table a list of rows in the order of insertion; an operation
  returns the new tables and its result; an exception is the left value of a sum. A database transaction is
  one step; where the code reads and writes in separate statements, the statements are separate and other
  commands may run between them (the runner of a job, the claims of a worker). Unique constraints are
  checked where rows are inserted. Instants are integers of milliseconds; finite numbers are exact reals,
  so that rounding of binary floating point is not modelled; decimals of the database are exact integers
  of hundredths.

  \<^bold>\<open>Parameters.\<close> Digests, random identifiers, the clock, the optimization engine, the email sender, the
  locale comparison of text and the destination identity are arguments; the theorems hold for all of them.
  One theorem on the live changes asks that no other content has the digest of a published one. Reading the
  clocks of a time zone is a parameter. The calls of a recorded event that write tables nothing here reads
  (the stored tracking geometry, the hooks of the dispatch office, the emails to customers) are a parameter
  that answers or refuses, where the code makes the call; the recording of a position is modelled by itself in TrackingPersist. The
  first reads of such a transaction precede the
  lock of the route: they see an earlier state of the tables, which is an argument too.
  For recorded paths, the reading of a date from text and the locale comparison are fields of an environment:
  the theorems ask that the comparison is antisymmetric and transitive, and that a text written by toISOString
  is read back, only for the instants concerned. The road matcher, with what it throws, is a parameter, and so is
  what other workers and requests commit between two statements of one caller.

  \<^bold>\<open>Bounds.\<close> No loop runs on fuel except the claim of a notification, which the code itself gives five
  attempts, the claim of a road match job (five attempts too), the numbering of an attempt at an event (five tries as well), and the batch of a worker, which
  the code bounds by its batch size. The walk over reordered versions terminates because every round adds an
  identifier of a finite list to the seen ones. The simplification of a path terminates because every
  division yields shorter segments.

  \<^bold>\<open>Not modelled.\<close> HTTP routes, queries that only read, clients of Shopify, WooCommerce, geocoders, the road
  matching engine, storage and push services, the web application, migrations. Of route tracking, the
  snapshots assembled for the map, the geometry made of the answers of the matching engine, and the timers and
  running promises of the worker loop are left out. Route grouping and the commands of
  the dispatch office are large services over many tables of their own; the rows they share with the modelled
  parts are written here only by the modelled operations.
\<close>

end
